(* ===== verification/Prelude.thy ===== *)
theory Prelude
  imports Main "HOL-Library.State_Monad"
begin

text \<open>
  Shared vocabulary of the development: the collections of rewrite and introduction
  rules the component theories fill and use, and the generic facts about lists that the
  SQL layer rests on.

  A table is a list of rows.  An \<open>UPDATE ... WHERE\<close> statement rewrites the rows that
  satisfy its predicate and leaves the others alone (\<open>upd_where\<close>); the number of rows it
  touched is \<open>count_where\<close>.
\<close>

named_theorems io_simps "running the effects of a handler"
named_theorems sql_simps "reading a table after a statement"
named_theorems evolve_intros "how an effect may change the database"

section \<open>Tables as lists of rows\<close>

definition upd_where :: "('r \<Rightarrow> bool) \<Rightarrow> ('r \<Rightarrow> 'r) \<Rightarrow> 'r list \<Rightarrow> 'r list" where
  "upd_where P f rows = map (\<lambda>r. if P r then f r else r) rows"

definition count_where :: "('r \<Rightarrow> bool) \<Rightarrow> 'r list \<Rightarrow> nat" where
  "count_where P rows = length (filter P rows)"

definition delete_where :: "('r \<Rightarrow> bool) \<Rightarrow> 'r list \<Rightarrow> 'r list" where
  "delete_where P rows = filter (\<lambda>r. \<not> P r) rows"

text \<open>
  An \<open>INTEGER PRIMARY KEY\<close> column that is not given a value receives one more than the
  largest key in the table, and 1 in an empty table.
\<close>

fun next_rowid :: "int list \<Rightarrow> int" where
  "next_rowid [] = 1"
| "next_rowid (i # is) = max (i + 1) (next_rowid is)"

lemma upd_where_Nil [simp, sql_simps]: "upd_where P f [] = []"
  by (simp add: upd_where_def)

lemma upd_where_Cons [simp, sql_simps]:
  "upd_where P f (r # rs) = (if P r then f r else r) # upd_where P f rs"
  by (simp add: upd_where_def)

lemma upd_where_append [sql_simps]:
  "upd_where P f (rs @ ss) = upd_where P f rs @ upd_where P f ss"
  by (simp add: upd_where_def)

lemma length_upd_where [simp]: "length (upd_where P f rs) = length rs"
  by (simp add: upd_where_def)

lemma set_upd_where:
  "set (upd_where P f rs) = f ` {r \<in> set rs. P r} \<union> {r \<in> set rs. \<not> P r}"
  by (auto simp: upd_where_def)

lemma in_upd_where:
  "s \<in> set (upd_where P f rs) \<longleftrightarrow> (\<exists>r \<in> set rs. s = (if P r then f r else r))"
  by (auto simp: upd_where_def)

lemma upd_where_none: "\<forall>r \<in> set rs. \<not> P r \<Longrightarrow> upd_where P f rs = rs"
  by (induction rs) auto

lemma map_upd_where: "(\<And>r. g (f r) = g r) \<Longrightarrow> map g (upd_where P f rs) = map g rs"
  by (induction rs) auto

lemma set_delete_where [simp]: "set (delete_where P rs) = {r \<in> set rs. \<not> P r}"
  by (auto simp: delete_where_def)

lemma count_where_Nil [simp]: "count_where P [] = 0"
  by (simp add: count_where_def)

lemma count_where_Cons [simp]:
  "count_where P (r # rs) = (if P r then Suc (count_where P rs) else count_where P rs)"
  by (simp add: count_where_def)

lemma count_where_append: "count_where P (rs @ ss) = count_where P rs + count_where P ss"
  by (simp add: count_where_def)

lemma count_where_0_iff: "count_where P rs = 0 \<longleftrightarrow> (\<forall>r \<in> set rs. \<not> P r)"
  by (induction rs) auto

lemma count_where_upd_where:
  "(\<And>r. P (f r) = P r) \<Longrightarrow> count_where P (upd_where Q f rs) = count_where P rs"
  by (induction rs) auto

lemma count_where_delete_where:
  "count_where P (delete_where Q rs) \<le> count_where P rs"
  by (induction rs) (auto simp: delete_where_def)

lemma next_rowid_fresh: "i \<in> set is \<Longrightarrow> i < next_rowid is"
  by (induction "is") auto

lemma next_rowid_notin: "next_rowid is \<notin> set is"
  using next_rowid_fresh by blast

lemma next_rowid_pos: "0 < next_rowid is"
  by (induction "is") auto

lemma find_None_all: "List.find P rs = None \<longleftrightarrow> (\<forall>r \<in> set rs. \<not> P r)"
  by (auto simp: find_None_iff)

lemma find_SomeD: "List.find P rs = Some r \<Longrightarrow> r \<in> set rs \<and> P r"
  by (induction rs) (auto split: if_splits)

lemma distinct_map_eqD:
  "distinct (map g rs) \<Longrightarrow> r \<in> set rs \<Longrightarrow> s \<in> set rs \<Longrightarrow> g r = g s \<Longrightarrow> r = s"
  by (auto simp: distinct_map inj_on_def)

lemma find_unique:
  assumes "distinct (map g rs)" and "r \<in> set rs" and "P r" and "\<And>s. P s \<Longrightarrow> g s = g r"
  shows "List.find P rs = Some r"
proof (cases "List.find P rs")
  case None
  with assms show ?thesis by (auto simp: find_None_all)
next
  case (Some s)
  with find_SomeD [OF Some] assms show ?thesis by (metis distinct_map_eqD)
qed

section \<open>Sums as results\<close>

lemma isl_Inl [simp]: "isl (Inl e)" and isl_Inr [simp]: "\<not> isl (Inr a)"
  by simp_all

end
