(* ===== verification/GoStrings.thy ===== *)
theory GoStrings
  imports Prelude "HOL-Library.Char_ord" "HOL-Library.List_Lexorder"
begin

text \<open>
  Go strings are byte sequences, so they are \<open>char list\<close>s here, one \<open>char\<close> per byte
  (UTF-8 text has several per code point).  The functions of package \<open>strings\<close> and
  \<open>strconv\<close> that kauth calls are modelled on bytes; the order on strings is the byte-wise
  lexicographic one, which is what Go's \<open><\<close> and SQLite's BINARY collation compare.
\<close>

section \<open>Prefixes, suffixes, separators\<close>

definition has_prefix :: "string \<Rightarrow> string \<Rightarrow> bool" where
  "has_prefix s p \<longleftrightarrow> take (length p) s = p"

definition has_suffix :: "string \<Rightarrow> string \<Rightarrow> bool" where
  "has_suffix s p \<longleftrightarrow> has_prefix (rev s) (rev p)"

definition cut_prefix :: "string \<Rightarrow> string \<Rightarrow> string option" where
  "cut_prefix s p = (if has_prefix s p then Some (drop (length p) s) else None)"

definition cut_suffix :: "string \<Rightarrow> string \<Rightarrow> string option" where
  "cut_suffix s p = (if has_suffix s p then Some (take (length s - length p) s) else None)"

fun split_on :: "char \<Rightarrow> string \<Rightarrow> string list" where
  "split_on c [] = [[]]"
| "split_on c (x # xs) =
     (if x = c then [] # split_on c xs
      else case split_on c xs of [] \<Rightarrow> [[x]] | p # ps \<Rightarrow> (x # p) # ps)"

fun join_with :: "string \<Rightarrow> string list \<Rightarrow> string" where
  "join_with sep [] = []"
| "join_with sep [p] = p"
| "join_with sep (p # q # ps) = p @ sep @ join_with sep (q # ps)"

text \<open>\<open>cut_last c s\<close> is the pair \<open>(s[:i], s[i+1:])\<close> for \<open>i = strings.LastIndex(s, c)\<close>.\<close>

fun cut_last :: "char \<Rightarrow> string \<Rightarrow> (string \<times> string) option" where
  "cut_last c [] = None"
| "cut_last c (x # xs) =
     (case cut_last c xs of
        Some (a, b) \<Rightarrow> Some (x # a, b)
      | None \<Rightarrow> if x = c then Some ([], xs) else None)"

lemma has_prefix_append [simp]: "has_prefix (p @ s) p"
  by (simp add: has_prefix_def)

lemma has_prefix_iff: "has_prefix s p \<longleftrightarrow> (\<exists>t. s = p @ t)"
  unfolding has_prefix_def by (metis append_eq_conv_conj append_take_drop_id)

lemma has_suffix_iff: "has_suffix s p \<longleftrightarrow> (\<exists>t. s = t @ p)"
  unfolding has_suffix_def has_prefix_iff by (metis rev_append rev_rev_ident)

lemma cut_suffix_append [simp]: "cut_suffix (s @ p) p = Some s"
  by (simp add: cut_suffix_def has_suffix_iff)

lemma cut_suffix_Some: "cut_suffix s p = Some t \<longleftrightarrow> s = t @ p"
  by (auto simp: cut_suffix_def has_suffix_iff)

lemma cut_suffix_None: "cut_suffix s p = None \<longleftrightarrow> \<not> has_suffix s p"
  by (simp add: cut_suffix_def)

lemma split_on_nonempty [simp]: "split_on c s \<noteq> []"
  by (induction s) (auto split: list.splits)

lemma split_on_no_sep: "c \<notin> set s \<Longrightarrow> split_on c s = [s]"
  by (induction s) auto

lemma split_on_append_sep: "c \<notin> set p \<Longrightarrow> split_on c (p @ c # s) = p # split_on c s"
  by (induction p) auto

lemma split_on_parts: "p \<in> set (split_on c s) \<Longrightarrow> c \<notin> set p"
  by (induction s arbitrary: p) (auto split: list.splits if_splits)

lemma join_split: "join_with [c] (split_on c s) = s"
proof (induction s)
  case (Cons x xs)
  then show ?case by (cases "split_on c xs"; cases "tl (split_on c xs)") auto
qed simp

lemma split_join:
  "ps \<noteq> [] \<Longrightarrow> \<forall>p \<in> set ps. c \<notin> set p \<Longrightarrow> split_on c (join_with [c] ps) = ps"
  by (induction "[c]" ps rule: join_with.induct) (auto simp: split_on_no_sep split_on_append_sep)

lemma cut_last_None: "cut_last c s = None \<longleftrightarrow> c \<notin> set s"
  by (induction s) (auto split: option.splits)

lemma cut_last_append: "c \<notin> set b \<Longrightarrow> cut_last c (a @ c # b) = Some (a, b)"
  using cut_last_None [of c b] by (induction a) auto

lemma cut_last_Some: "cut_last c s = Some (a, b) \<longleftrightarrow> s = a @ c # b \<and> c \<notin> set b"
proof
  show "cut_last c s = Some (a, b) \<Longrightarrow> s = a @ c # b \<and> c \<notin> set b"
    by (induction s arbitrary: a) (auto simp: cut_last_None split: option.splits if_splits)
qed (auto simp: cut_last_append)

section \<open>White space\<close>

text \<open>
  \<open>unicode.IsSpace\<close> on the UTF-8 encoding: six one-byte characters, U+0085 and U+00A0 as two
  bytes, and the three-byte encodings of U+1680, U+2000 to U+200A, U+2028, U+2029, U+202F,
  U+205F and U+3000.  \<open>strings.TrimSpace\<close> removes them from both ends, so the right end
  works on the reversed string with the encodings reversed.
\<close>

definition space1 :: "char \<Rightarrow> bool" where
  "space1 c \<longleftrightarrow> c \<in> {CHR 0x09, CHR 0x0A, CHR 0x0B, CHR 0x0C, CHR 0x0D, CHR 0x20}"

definition space2 :: "char \<Rightarrow> char \<Rightarrow> bool" where
  "space2 a b \<longleftrightarrow> a = CHR 0xC2 \<and> b \<in> {CHR 0x85, CHR 0xA0}"

definition space3 :: "char \<Rightarrow> char \<Rightarrow> char \<Rightarrow> bool" where
  "space3 a b c \<longleftrightarrow>
     a = CHR 0xE1 \<and> b = CHR 0x9A \<and> c = CHR 0x80 \<or>
     a = CHR 0xE2 \<and> b = CHR 0x80 \<and>
       c \<in> {CHR 0x80, CHR 0x81, CHR 0x82, CHR 0x83, CHR 0x84, CHR 0x85, CHR 0x86, CHR 0x87,
            CHR 0x88, CHR 0x89, CHR 0x8A, CHR 0xA8, CHR 0xA9, CHR 0xAF} \<or>
     a = CHR 0xE2 \<and> b = CHR 0x81 \<and> c = CHR 0x9F \<or>
     a = CHR 0xE3 \<and> b = CHR 0x80 \<and> c = CHR 0x80"

fun trim_left :: "string \<Rightarrow> string" where
  "trim_left [] = []"
| "trim_left (a # s) =
     (if space1 a then trim_left s
      else case s of
        [] \<Rightarrow> [a]
      | b # t \<Rightarrow>
          if space2 a b then trim_left t
          else case t of
            [] \<Rightarrow> [a, b]
          | c # u \<Rightarrow> if space3 a b c then trim_left u else a # s)"

fun trim_right_rev :: "string \<Rightarrow> string" where
  "trim_right_rev [] = []"
| "trim_right_rev (a # s) =
     (if space1 a then trim_right_rev s
      else case s of
        [] \<Rightarrow> [a]
      | b # t \<Rightarrow>
          if space2 b a then trim_right_rev t
          else case t of
            [] \<Rightarrow> [a, b]
          | c # u \<Rightarrow> if space3 c b a then trim_right_rev u else a # s)"

definition trim_space :: "string \<Rightarrow> string" where
  "trim_space s = rev (trim_right_rev (rev (trim_left s)))"

text \<open>\<open>strings.Fields\<close>: the maximal runs of non-space characters.\<close>

fun fields_from :: "string \<Rightarrow> string \<Rightarrow> string list" where
  "fields_from cur [] = (if cur = [] then [] else [rev cur])"
| "fields_from cur (a # s) =
     (let emit = (if cur = [] then [] else [rev cur])
      in if space1 a then emit @ fields_from [] s
         else case s of
           [] \<Rightarrow> [rev (a # cur)]
         | b # t \<Rightarrow>
             if space2 a b then emit @ fields_from [] t
             else case t of
               [] \<Rightarrow> fields_from (a # cur) s
             | c # u \<Rightarrow>
                 if space3 a b c then emit @ fields_from [] u
                 else fields_from (a # cur) s)"

definition fields :: "string \<Rightarrow> string list" where
  "fields s = fields_from [] s"

text \<open>A character no white-space encoding contains: every printable ASCII character but the blank.\<close>

definition graphic :: "char \<Rightarrow> bool" where
  "graphic c \<longleftrightarrow> CHR 0x21 \<le> c \<and> c \<le> CHR 0x7E"

lemma graphic_not_space1: "graphic c \<Longrightarrow> \<not> space1 c"
  by (auto simp: graphic_def space1_def)

lemma graphic_not_space2:
  "graphic a \<Longrightarrow> \<not> space2 a b" "graphic b \<Longrightarrow> \<not> space2 a b"
  by (auto simp: graphic_def space2_def)

lemma graphic_not_space3:
  "graphic a \<Longrightarrow> \<not> space3 a b c" "graphic c \<Longrightarrow> \<not> space3 a b c"
  by (auto simp: graphic_def space3_def)

lemmas graphic_not_space = graphic_not_space1 graphic_not_space2 graphic_not_space3

lemma trim_left_graphic: "graphic a \<Longrightarrow> trim_left (a # s) = a # s"
  by (simp add: graphic_not_space split: list.split)

lemma trim_right_rev_graphic: "graphic a \<Longrightarrow> trim_right_rev (a # s) = a # s"
  by (simp add: graphic_not_space split: list.split)

lemma trim_space_Nil [simp]: "trim_space [] = []"
  by (simp add: trim_space_def)

lemma trim_space_graphic:
  assumes "s \<noteq> []" and "graphic (hd s)" and "graphic (last s)"
  shows "trim_space s = s"
proof -
  have "trim_left s = s"
    using assms by (cases s) (simp_all only: list.sel trim_left_graphic)
  moreover have "trim_right_rev (rev s) = rev s"
    using assms
    by (cases "rev s") (simp_all only: trim_right_rev_graphic hd_rev [symmetric] list.sel rev_is_Nil_conv simp_thms)
  ultimately show ?thesis by (simp add: trim_space_def)
qed

lemma fields_from_graphic:
  "\<forall>c \<in> set w. graphic c \<Longrightarrow> fields_from cur (w @ s) =
     (if s = [] then (if rev cur @ w = [] then [] else [rev cur @ w])
      else fields_from (rev w @ cur) s)"
proof (induction w arbitrary: cur)
  case (Cons a w)
  from Cons.prems have a: "graphic a" by simp
  have "fields_from cur (a # (w @ s)) = fields_from (a # cur) (w @ s)"
    using a by (simp add: graphic_not_space Let_def split: list.split)
  with Cons show ?case by simp
qed simp

lemma fields_word: "\<forall>c \<in> set w. graphic c \<Longrightarrow> fields w = (if w = [] then [] else [w])"
  using fields_from_graphic [of w "[]" "[]"] by (simp add: fields_def)

lemma fields_word_blank:
  "\<forall>c \<in> set w. graphic c \<Longrightarrow> w \<noteq> [] \<Longrightarrow> fields (w @ CHR '' '' # s) = w # fields s"
  using fields_from_graphic [of w "[]" "CHR '' '' # s"]
  by (simp add: fields_def space1_def Let_def)

section \<open>Case folding\<close>

text \<open>
  \<open>strings.ToLower\<close> folds ASCII itself and goes through \<open>unicode.ToLower\<close> when a byte is not
  ASCII; that table is the parameter \<open>uni\<close>.
\<close>

definition ascii :: "string \<Rightarrow> bool" where
  "ascii s \<longleftrightarrow> (\<forall>c \<in> set s. c < CHR 0x80)"

definition ascii_lower_char :: "char \<Rightarrow> char" where
  "ascii_lower_char c =
     (if CHR ''A'' \<le> c \<and> c \<le> CHR ''Z'' then char_of (of_char c + 32 :: nat) else c)"

definition to_lower :: "(string \<Rightarrow> string) \<Rightarrow> string \<Rightarrow> string" where
  "to_lower uni s = (if ascii s then map ascii_lower_char s else uni s)"

text \<open>\<open>strings.EqualFold\<close>: exact on ASCII, Unicode simple folding (the parameter) elsewhere.\<close>

definition equal_fold :: "(string \<Rightarrow> string \<Rightarrow> bool) \<Rightarrow> string \<Rightarrow> string \<Rightarrow> bool" where
  "equal_fold uni s t =
     (if ascii s \<and> ascii t then map ascii_lower_char s = map ascii_lower_char t else uni s t)"

lemma ascii_lower_char_lower:
  "\<not> (CHR ''A'' \<le> c \<and> c \<le> CHR ''Z'') \<Longrightarrow> ascii_lower_char c = c"
  by (simp only: ascii_lower_char_def if_False)

section \<open>Decimal integers\<close>

definition digit_char :: "nat \<Rightarrow> char" where
  "digit_char d = char_of (48 + d)"

definition is_digit :: "char \<Rightarrow> bool" where
  "is_digit c \<longleftrightarrow> CHR ''0'' \<le> c \<and> c \<le> CHR ''9''"

definition digit_val :: "char \<Rightarrow> nat" where
  "digit_val c = of_char c - 48"

fun dec_of_nat :: "nat \<Rightarrow> string" where
  "dec_of_nat n = (if n < 10 then [digit_char n] else dec_of_nat (n div 10) @ [digit_char (n mod 10)])"

declare dec_of_nat.simps [simp del]

definition dec_val :: "string \<Rightarrow> nat" where
  "dec_val s = foldl (\<lambda>n c. 10 * n + digit_val c) 0 s"

text \<open>\<open>strconv.FormatInt(i, 10)\<close> and \<open>strconv.ParseInt(s, 10, 64)\<close> (sign, range error as \<open>None\<close>).\<close>

definition format_int :: "int \<Rightarrow> string" where
  "format_int i = (if i < 0 then CHR ''-'' # dec_of_nat (nat (- i)) else dec_of_nat (nat i))"

definition parse_int64 :: "string \<Rightarrow> int option" where
  "parse_int64 s =
     (let (neg, ds) = (case s of [] \<Rightarrow> (False, [])
                       | c # cs \<Rightarrow> if c = CHR ''+'' then (False, cs)
                                   else if c = CHR ''-'' then (True, cs) else (False, s))
      in if ds = [] \<or> \<not> list_all is_digit ds then None
         else if neg then (if dec_val ds \<le> 2 ^ 63 then Some (- int (dec_val ds)) else None)
         else (if dec_val ds < 2 ^ 63 then Some (int (dec_val ds)) else None))"

lemma digit_char_simps:
  assumes "d < 10"
  shows "is_digit (digit_char d)" and "digit_val (digit_char d) = d"
    and "digit_char d \<noteq> CHR ''+''" and "digit_char d \<noteq> CHR ''-''"
    and "digit_char d \<noteq> CHR '':''" and "digit_char d \<noteq> CHR ''.''"
proof -
  have v: "(of_char (digit_char d) :: nat) = 48 + d"
    using assms by (simp add: digit_char_def)
  show "digit_val (digit_char d) = d" by (simp add: digit_val_def v)
  show "is_digit (digit_char d)" using assms by (simp add: is_digit_def less_eq_char_def v)
  have ne: "digit_char d \<noteq> c" if "(of_char c :: nat) < 48 \<or> 57 < (of_char c :: nat)" for c
    using that v assms by auto
  show "digit_char d \<noteq> CHR ''+''" "digit_char d \<noteq> CHR ''-''" "digit_char d \<noteq> CHR '':''"
    "digit_char d \<noteq> CHR ''.''"
    by (rule ne, simp)+
qed

lemma is_digit_ne: "is_digit c \<Longrightarrow> c \<noteq> CHR ''+''" "is_digit c \<Longrightarrow> c \<noteq> CHR ''-''"
  "is_digit c \<Longrightarrow> c \<noteq> CHR '':''" "is_digit c \<Longrightarrow> c \<noteq> CHR ''.''"
  by (auto simp: is_digit_def)

lemma dec_of_nat_digits: "list_all is_digit (dec_of_nat n)"
proof (induction n rule: dec_of_nat.induct)
  case (1 n)
  then show ?case by (subst dec_of_nat.simps) (auto simp: digit_char_simps)
qed

lemma dec_of_nat_nonempty [simp]: "dec_of_nat n \<noteq> []"
  by (subst dec_of_nat.simps) simp

lemma dec_val_snoc: "dec_val (s @ [c]) = 10 * dec_val s + digit_val c"
  by (simp add: dec_val_def)

lemma dec_val_dec_of_nat [simp]: "dec_val (dec_of_nat n) = n"
proof (induction n rule: dec_of_nat.induct)
  case (1 n)
  show ?case
  proof (cases "n < 10")
    case True
    then show ?thesis
      by (subst dec_of_nat.simps) (simp add: dec_val_def digit_char_simps)
  next
    case False
    with "1" show ?thesis
      by (subst dec_of_nat.simps) (simp add: dec_val_snoc digit_char_simps)
  qed
qed

lemma format_int_chars: "c \<in> set (format_int i) \<Longrightarrow> is_digit c \<or> c = CHR ''-''"
  using dec_of_nat_digits by (auto simp: format_int_def list_all_iff split: if_splits)

lemma format_int_no_colon [simp]: "CHR '':'' \<notin> set (format_int i)"
  and format_int_no_dot [simp]: "CHR ''.'' \<notin> set (format_int i)"
  using format_int_chars is_digit_ne by fastforce+

lemma parse_format_int64:
  assumes "- (2 ^ 63) \<le> i" and "i < 2 ^ 63"
  shows "parse_int64 (format_int i) = Some i"
proof (cases "i < 0")
  case True
  then have "nat (- i) \<le> 2 ^ 63" using assms by (simp add: nat_le_iff)
  with True show ?thesis
    by (simp add: format_int_def parse_int64_def Let_def dec_of_nat_digits)
next
  case False
  obtain c cs where d: "dec_of_nat (nat i) = c # cs"
    by (metis dec_of_nat_nonempty list.exhaust)
  with dec_of_nat_digits [of "nat i"] have c: "is_digit c" by simp
  have "nat i < 2 ^ 63" using False assms by (simp add: nat_less_iff)
  with False c d dec_of_nat_digits [of "nat i"] dec_val_dec_of_nat [of "nat i"] show ?thesis
    by (simp add: format_int_def parse_int64_def Let_def is_digit_ne)
qed

end
