(* ===== verification/GoTime.thy ===== *)
theory GoTime
  imports GoStrings
begin

text \<open>
  Instants are integers: nanoseconds since the Unix epoch in UTC, the resolution of Go's
  \<open>time.Time\<close>.  The database stores an instant as the text that
  \<open>Format("2006-01-02T15:04:05Z")\<close> (or \<open>time.RFC3339\<close>, the same text in UTC) gives, and every
  expiry test of kauth compares such texts.  The theory models the formatting and the parsing
  of those layouts and proves what the comparisons rest on: within the years 0 to 9999 the
  byte order of two texts is the order of the instants in seconds, and parsing a text gives
  back the instant it was made from, cut to the second.
\<close>

type_synonym instant = int
type_synonym duration = int

definition second :: duration where "second = 1000000000"
definition minute :: duration where "minute = 60 * second"
definition hour :: duration where "hour = 60 * minute"
definition day :: duration where "day = 24 * hour"

lemmas duration_defs = second_def minute_def hour_def day_def

definition unix :: "instant \<Rightarrow> int" where
  "unix t = t div second"

section \<open>Civil dates\<close>

text \<open>
  Days since 1970-01-01 to year, month and day.  The year is counted from March, so a leap
  day is the last day of its year, and the cycles of 400, 100, 4 and 1 years are plain
  divisions with the last century and the last year of a cycle taking the odd day.
\<close>

definition march_digits :: "int \<Rightarrow> int \<times> int \<times> int \<times> int \<times> int" where
  "march_digits n =
     (let era = n div 146097; d1 = n mod 146097;
          c = min 3 (d1 div 36524); d2 = d1 - 36524 * c;
          q = d2 div 1461; d3 = d2 mod 1461;
          a = min 3 (d3 div 365)
      in (era, c, q, a, d3 - 365 * a))"

definition march_year_day :: "int \<Rightarrow> int \<times> int" where
  "march_year_day n =
     (case march_digits n of (era, c, q, a, doy) \<Rightarrow> (400 * era + 100 * c + 4 * q + a, doy))"

definition civil_of_days :: "int \<Rightarrow> int \<times> int \<times> int" where
  "civil_of_days z =
     (let (y, doy) = march_year_day (z + 719468);
          mp = (5 * doy + 2) div 153;
          d = doy - (153 * mp + 2) div 5 + 1
      in if mp < 10 then (y, mp + 3, d) else (y + 1, mp - 9, d))"

definition days_of_civil :: "int \<Rightarrow> int \<Rightarrow> int \<Rightarrow> int" where
  "days_of_civil y m d =
     (let y' = (if m \<le> 2 then y - 1 else y); mp = (if m > 2 then m - 3 else m + 9)
      in 365 * y' + y' div 4 - y' div 100 + y' div 400 + (153 * mp + 2) div 5 + d - 1 - 719468)"

definition is_leap :: "int \<Rightarrow> bool" where
  "is_leap y \<longleftrightarrow> y mod 4 = 0 \<and> (y mod 100 \<noteq> 0 \<or> y mod 400 = 0)"

definition days_in :: "int \<Rightarrow> int \<Rightarrow> int" where
  "days_in m y =
     (if m = 2 then (if is_leap y then 29 else 28)
      else if m \<in> {4, 6, 9, 11} then 30 else 31)"

text \<open>One level of the mixed radix: quotient and rest grow lexicographically.\<close>

lemma radix_step:
  fixes x x' w k :: int
  assumes "x < x'" and "0 < w"
  shows "min k (x div w) < min k (x' div w) \<or>
    min k (x div w) = min k (x' div w) \<and>
      x - w * min k (x div w) < x' - w * min k (x' div w)"
proof -
  have "x div w \<le> x' div w" using assms by (simp add: zdiv_mono1)
  then have "min k (x div w) \<le> min k (x' div w)" by (rule min.mono [OF order_refl])
  then show ?thesis
  proof (cases "min k (x div w) = min k (x' div w)")
    case True
    then have "w * min k (x div w) = w * min k (x' div w)" by simp
    with True assms show ?thesis by linarith
  qed linarith
qed

text \<open>A capped quotient: the rest stays below the width unless the cap was hit.\<close>

lemma capped_div:
  fixes x w k :: int
  assumes "0 \<le> x" and "0 < w" and "0 \<le> k"
  shows "0 \<le> min k (x div w)" and "min k (x div w) \<le> k"
    and "0 \<le> x - w * min k (x div w)"
    and "x - w * min k (x div w) < w \<or> min k (x div w) = k \<and> x div w > k"
proof -
  have q: "0 \<le> x div w" using assms by (simp add: pos_imp_zdiv_nonneg_iff)
  then show "0 \<le> min k (x div w)" using assms by simp
  show "min k (x div w) \<le> k" by simp
  have x: "x = w * (x div w) + x mod w" and r: "0 \<le> x mod w" "x mod w < w"
    using assms by simp_all
  have "w * min k (x div w) \<le> w * (x div w)" using assms by (intro mult_left_mono) auto
  with x r show "0 \<le> x - w * min k (x div w)" by linarith
  show "x - w * min k (x div w) < w \<or> min k (x div w) = k \<and> x div w > k"
  proof (cases "x div w \<le> k")
    case True
    then have "w * min k (x div w) = w * (x div w)" by simp
    with x r show ?thesis by linarith
  next
    case False
    then show ?thesis by auto
  qed
qed

lemma radix_step_mod:
  fixes x x' w :: int
  assumes "x < x'" and "0 < w"
  shows "x div w < x' div w \<or> x div w = x' div w \<and> x mod w < x' mod w"
proof -
  have le: "x div w \<le> x' div w" using assms by (simp add: zdiv_mono1)
  have "x = w * (x div w) + x mod w" "x' = w * (x' div w) + x' mod w" by simp_all
  with assms(1) have "x div w = x' div w \<Longrightarrow> x mod w < x' mod w"
    by (metis add_less_cancel_left)
  with le show ?thesis by linarith
qed

text \<open>The digits of a day number and their ranges.\<close>

lemma march_digits_eqs:
  assumes "march_digits n = (era, c, q, a, doy)"
    and "d1 = n mod 146097" and "d2 = d1 - 36524 * c" and "d3 = d2 mod 1461"
  shows "era = n div 146097" "c = min 3 (d1 div 36524)" "q = d2 div 1461"
    "a = min 3 (d3 div 365)" "doy = d3 - 365 * a"
proof -
  note h = assms(1) [unfolded march_digits_def Let_def prod.inject]
  have c: "c = min 3 (n mod 146097 div 36524)" by (rule h [THEN conjunct2, THEN conjunct1, symmetric])
  note h' = h [folded c]
  have a: "a = min 3 ((n mod 146097 - 36524 * c) mod 1461 div 365)"
    by (rule h' [THEN conjunct2, THEN conjunct2, THEN conjunct2, THEN conjunct1, symmetric])
  note h'' = h' [folded a]
  show "era = n div 146097" "c = min 3 (d1 div 36524)" "q = d2 div 1461"
    "a = min 3 (d3 div 365)" "doy = d3 - 365 * a"
    unfolding assms(2-4) using h'' c a by blast+
qed

lemma march_digits_props:
  assumes "march_digits n = (era, c, q, a, doy)"
  shows "n = 146097 * era + 36524 * c + 1461 * q + 365 * a + doy"
    and "0 \<le> c" "c \<le> 3" "0 \<le> q" "q \<le> 24" "0 \<le> a" "a \<le> 3" "0 \<le> doy" "doy \<le> 365"
    and "doy = 365 \<Longrightarrow> a = 3" and "doy = 365 \<Longrightarrow> q = 24 \<Longrightarrow> c = 3"
proof -
  define d1 where "d1 = n mod 146097"
  define d2 where "d2 = d1 - 36524 * c"
  define d3 where "d3 = d2 mod 1461"
  note eqs = march_digits_eqs [OF assms d1_def d2_def d3_def]
  have d1: "0 \<le> d1" "d1 \<le> 146096" by (auto simp: d1_def)
  show c: "0 \<le> c" "c \<le> 3"
    using capped_div [of d1 36524 3] d1 by (simp_all add: eqs(2))
  have d2: "0 \<le> d2" "d2 < 36524 \<or> c = 3 \<and> d1 div 36524 > 3"
    using capped_div(3,4) [of d1 36524 3] d1 by (simp_all add: eqs(2) d2_def)
  then have d2': "d2 \<le> 36524" "d2 = 36524 \<Longrightarrow> c = 3"
    using d1 unfolding d2_def by auto
  have qd: "d2 = 1461 * q + d3" by (simp add: eqs(3) d3_def)
  have d3: "0 \<le> d3" "d3 \<le> 1460" by (auto simp: d3_def)
  show q: "0 \<le> q" "q \<le> 24" using qd d3 d2(1) d2' by linarith+
  show a: "0 \<le> a" "a \<le> 3" and "0 \<le> doy"
    using capped_div [of d3 365 3] d3 by (simp_all add: eqs(4,5))
  have doy: "doy < 365 \<or> a = 3 \<and> d3 div 365 > 3"
    using capped_div(4) [of d3 365 3] d3 by (simp add: eqs(4,5))
  then show "doy \<le> 365" "doy = 365 \<Longrightarrow> a = 3" using d3 eqs(5) by auto
  show "c = 3" if "doy = 365" "q = 24"
    using that doy eqs(5) qd d2' by simp
  have "n = 146097 * era + d1" by (simp add: eqs(1) d1_def)
  then show "n = 146097 * era + 36524 * c + 1461 * q + 365 * a + doy"
    using qd eqs(5) d2_def by simp
qed

lemma march_digits_mono:
  assumes "n < n'" and "march_digits n = (era, c, q, a, doy)"
    and "march_digits n' = (era', c', q', a', doy')"
  shows "era < era' \<or> era = era' \<and> (c < c' \<or> c = c' \<and> (q < q' \<or> q = q' \<and>
    (a < a' \<or> a = a' \<and> doy < doy')))"
proof -
  define d1 d1' where "d1 = n mod 146097" and "d1' = n' mod 146097"
  define d2 d2' where "d2 = d1 - 36524 * c" and "d2' = d1' - 36524 * c'"
  define d3 d3' where "d3 = d2 mod 1461" and "d3' = d2' mod 1461"
  note eqs = march_digits_eqs [OF assms(2) d1_def d2_def d3_def]
  note eqs' = march_digits_eqs [OF assms(3) d1'_def d2'_def d3'_def]
  have 1: "era < era' \<or> era = era' \<and> d1 < d1'"
    using radix_step_mod [OF assms(1), of 146097] by (simp add: eqs(1) eqs'(1) d1_def d1'_def)
  have 2: "c < c' \<or> c = c' \<and> d2 < d2'" if "d1 < d1'"
    using radix_step [OF that, of 36524 3] unfolding d2_def d2'_def eqs(2) eqs'(2) by simp
  have 3: "q < q' \<or> q = q' \<and> d3 < d3'" if "d2 < d2'"
    using radix_step_mod [OF that, of 1461] unfolding d3_def d3'_def eqs(3) eqs'(3) by simp
  have 4: "a < a' \<or> a = a' \<and> doy < doy'" if "d3 < d3'"
    using radix_step [OF that, of 365 3] unfolding eqs(4,5) eqs'(4,5) by simp
  from 1 2 3 4 show ?thesis by blast
qed

lemma march_year_day_mono:
  assumes "n < n'" and "march_year_day n = (y, doy)" and "march_year_day n' = (y', doy')"
  shows "y < y' \<or> y = y' \<and> doy < doy'"
proof -
  obtain era c q a where d: "march_digits n = (era, c, q, a, doy)"
    and y: "y = 400 * era + 100 * c + 4 * q + a"
    using assms(2) by (auto simp: march_year_day_def split: prod.splits)
  obtain era' c' q' a' where d': "march_digits n' = (era', c', q', a', doy')"
    and y': "y' = 400 * era' + 100 * c' + 4 * q' + a'"
    using assms(3) by (auto simp: march_year_day_def split: prod.splits)
  show ?thesis
    using march_digits_mono [OF assms(1) d d'] march_digits_props(2-8) [OF d]
      march_digits_props(2-8) [OF d'] y y' by linarith
qed

text \<open>Months within a March year: 153 days per five months.\<close>

lemma month_step:
  fixes doy doy' :: int
  assumes "doy < doy'"
  defines "mp \<equiv> (5 * doy + 2) div 153" and "mp' \<equiv> (5 * doy' + 2) div 153"
  shows "mp < mp' \<or> mp = mp' \<and>
    doy - (153 * mp + 2) div 5 < doy' - (153 * mp' + 2) div 5"
proof -
  have "mp \<le> mp'" using assms by (simp add: zdiv_mono1)
  with assms(1) show ?thesis by (cases "mp = mp'") auto
qed

lemma div_bounds:
  fixes x w :: int
  assumes "0 < w"
  shows "w * (x div w) \<le> x" and "x < w * (x div w) + w"
proof -
  have "x = w * (x div w) + x mod w" "0 \<le> x mod w" "x mod w < w" using assms by simp_all
  then show "w * (x div w) \<le> x" and "x < w * (x div w) + w" by linarith+
qed

lemma month_bounds:
  fixes doy :: int
  assumes "0 \<le> doy" and "doy \<le> 365"
  defines "mp \<equiv> (5 * doy + 2) div 153"
  shows "0 \<le> mp" "mp \<le> 11" "(153 * mp + 2) div 5 \<le> doy" "doy < (153 * (mp + 1) + 2) div 5"
proof -
  have m: "153 * mp \<le> 5 * doy + 2" "5 * doy + 2 < 153 * mp + 153"
    using div_bounds [of 153 "5 * doy + 2"] by (simp_all add: mp_def)
  show "0 \<le> mp" "mp \<le> 11" using m assms(1,2) by linarith+
  have "(153 * mp + 2) div 5 \<le> (5 * doy + 4) div 5" using m by (intro zdiv_mono1) auto
  then show "(153 * mp + 2) div 5 \<le> doy" by simp
  have "(5 * (doy + 1)) div 5 \<le> (153 * (mp + 1) + 2) div 5" using m by (intro zdiv_mono1) auto
  then show "doy < (153 * (mp + 1) + 2) div 5" by simp
qed

lemma int_0_11:
  fixes x :: int
  assumes "0 \<le> x" and "x \<le> 11"
  shows "x = 0 \<or> x = 1 \<or> x = 2 \<or> x = 3 \<or> x = 4 \<or> x = 5 \<or> x = 6 \<or> x = 7 \<or> x = 8 \<or> x = 9
    \<or> x = 10 \<or> x = 11"
  using assms by presburger

lemma march_year_day_bounds:
  assumes "march_year_day n = (y, doy)"
  shows "0 \<le> doy" "doy \<le> 365" "doy = 365 \<Longrightarrow> is_leap (y + 1)"
    "n = 365 * y + y div 4 - y div 100 + y div 400 + doy"
proof -
  obtain era c q a where d: "march_digits n = (era, c, q, a, doy)"
    and y: "y = 400 * era + 100 * c + 4 * q + a"
    using assms by (auto simp: march_year_day_def split: prod.splits)
  note b = march_digits_props [OF d]
  show "0 \<le> doy" "doy \<le> 365" by (fact b(8), fact b(9))
  have "y div 4 = 100 * era + 25 * c + q" 
    by (rule int_div_pos_eq [where r = a]) (use y b(6,7) in simp_all)
  moreover have "y div 100 = 4 * era + c"
    by (rule int_div_pos_eq [where r = "4 * q + a"]) (use y b(4-7) in simp_all)
  moreover have "y div 400 = era"
    by (rule int_div_pos_eq [where r = "100 * c + 4 * q + a"]) (use y b(2-7) in simp_all)
  ultimately show "n = 365 * y + y div 4 - y div 100 + y div 400 + doy" using b(1) y by simp
  show "is_leap (y + 1)" if "doy = 365"
  proof -
    have a: "a = 3" using b(10) that by simp
    have y1: "y + 1 = 4 * (100 * era + 25 * c + q + 1)" "y + 1 = 100 * (4 * era + c) + 4 * (q + 1)"
      using y a by simp_all
    have "(y + 1) mod 4 = 0" unfolding y1(1) by simp
    moreover have "(y + 1) mod 400 = 0" if "q = 24"
    proof -
      have "c = 3" using b(11) that \<open>doy = 365\<close> by simp
      then have "y + 1 = 400 * (era + 1)" using y a that by simp
      then show ?thesis by simp
    qed
    moreover have "(y + 1) mod 100 \<noteq> 0" if "q \<noteq> 24"
    proof -
      have "(y + 1) mod 100 = (4 * (q + 1)) mod 100" unfolding y1(2) by (rule mod_mult_self4)
      also have "\<dots> = 4 * (q + 1)" using b(4,5) that by (intro mod_pos_pos_trivial) auto
      finally show ?thesis using b(4) by simp
    qed
    ultimately show ?thesis unfolding is_leap_def by metis
  qed
qed

definition valid_civil :: "int \<times> int \<times> int \<Rightarrow> bool" where
  "valid_civil = (\<lambda>(y, m, d). 1 \<le> m \<and> m \<le> 12 \<and> 1 \<le> d \<and> d \<le> days_in m y)"

lemma days_in_le_31: "days_in m y \<le> 31"
  by (simp add: days_in_def)

lemma civil_of_days_valid: "valid_civil (civil_of_days z)"
proof -
  obtain y doy where yd: "march_year_day (z + 719468) = (y, doy)" by fastforce
  define mp where "mp = (5 * doy + 2) div 153"
  note b = march_year_day_bounds [OF yd]
  note m = month_bounds [OF b(1,2), folded mp_def]
  define d where "d = doy - (153 * mp + 2) div 5 + 1"
  have d: "1 \<le> d" "d \<le> (153 * (mp + 1) + 2) div 5 - (153 * mp + 2) div 5"
    using m(3,4) by (simp_all add: d_def)
  have feb: "d \<le> 29" "d = 29 \<Longrightarrow> is_leap (y + 1)" if "mp = 11"
    using that b(2,3) by (simp_all add: d_def)
  have "civil_of_days z = (if mp < 10 then (y, mp + 3, d) else (y + 1, mp - 9, d))"
    by (simp add: civil_of_days_def yd Let_def mp_def d_def)
  moreover have "d \<le> days_in (mp + 3) y" if "mp < 10"
    using int_0_11 [OF m(1,2)] d(2) that by (elim disjE) (simp_all add: days_in_def)
  moreover have "d \<le> days_in (mp - 9) (y + 1)" if "\<not> mp < 10"
  proof (cases "mp = 11")
    case True
    then show ?thesis using feb by (cases "d = 29") (auto simp: days_in_def)
  next
    case False
    then have "mp = 10" using that m(2) by simp
    then show ?thesis using d(2) by (simp add: days_in_def)
  qed
  ultimately show ?thesis using m(1,2) d(1) by (simp add: valid_civil_def)
qed

lemma days_of_civil_of_days:
  assumes "civil_of_days z = (y, m, d)"
  shows "days_of_civil y m d = z"
proof -
  obtain y' doy where yd: "march_year_day (z + 719468) = (y', doy)" by fastforce
  define mp where "mp = (5 * doy + 2) div 153"
  note b = march_year_day_bounds [OF yd]
  note mb = month_bounds [OF b(1,2), folded mp_def]
  have z: "z = 365 * y' + y' div 4 - y' div 100 + y' div 400 + doy - 719468" using b(4) by simp
  show ?thesis
  proof (cases "mp < 10")
    case True
    then have "y = y'" "m = mp + 3" "d = doy - (153 * mp + 2) div 5 + 1"
      using assms by (auto simp: civil_of_days_def yd Let_def simp flip: mp_def)
    then show ?thesis using mb(1) z by (simp add: days_of_civil_def Let_def)
  next
    case False
    then have "y = y' + 1" "m = mp - 9" "d = doy - (153 * mp + 2) div 5 + 1"
      using assms by (auto simp: civil_of_days_def yd Let_def simp flip: mp_def)
    then show ?thesis using mb(2) False z by (simp add: days_of_civil_def Let_def)
  qed
qed

lemma civil_of_days_mono:
  assumes "z < z'" and "civil_of_days z = (y, m, d)" and "civil_of_days z' = (y', m', d')"
  shows "y < y' \<or> y = y' \<and> (m < m' \<or> m = m' \<and> d < d')"
proof -
  obtain u doy where yd: "march_year_day (z + 719468) = (u, doy)" by fastforce
  obtain u' doy' where yd': "march_year_day (z' + 719468) = (u', doy')" by fastforce
  define mp mp' where "mp = (5 * doy + 2) div 153" and "mp' = (5 * doy' + 2) div 153"
  note mb = month_bounds(1,2) [OF march_year_day_bounds(1,2) [OF yd], folded mp_def]
  note mb' = month_bounds(1,2) [OF march_year_day_bounds(1,2) [OF yd'], folded mp'_def]
  have 1: "12 * y + m = 12 * u + mp + 3" "d = doy - (153 * mp + 2) div 5 + 1" "1 \<le> m" "m \<le> 12"
    using assms(2) mb by (auto simp: civil_of_days_def yd Let_def simp flip: mp_def split: if_splits)
  have 2: "12 * y' + m' = 12 * u' + mp' + 3" "d' = doy' - (153 * mp' + 2) div 5 + 1" "1 \<le> m'" "m' \<le> 12"
    using assms(3) mb' by (auto simp: civil_of_days_def yd' Let_def simp flip: mp'_def split: if_splits)
  have "u < u' \<or> u = u' \<and> doy < doy'"
    using march_year_day_mono [OF _ yd yd'] assms(1) by simp
  moreover have "doy < doy' \<Longrightarrow> mp < mp' \<or> mp = mp' \<and> d < d'"
    using month_step [of doy doy', folded mp_def mp'_def] 1(2) 2(2) by auto
  ultimately have "12 * y + m < 12 * y' + m' \<or> 12 * y + m = 12 * y' + m' \<and> d < d'"
    using 1(1) 2(1) mb mb' by linarith
  then show ?thesis using 1(3,4) 2(3,4) by presburger
qed

section \<open>Formatting\<close>

definition dig2 :: "nat \<Rightarrow> string" where
  "dig2 n = [digit_char (n div 10), digit_char (n mod 10)]"

definition dig4 :: "nat \<Rightarrow> string" where
  "dig4 n = dig2 (n div 100) @ dig2 (n mod 100)"

text \<open>\<open>appendInt(b, year, 4)\<close>: a sign, then at least four digits.\<close>

definition pad_year :: "int \<Rightarrow> string" where
  "pad_year y =
     (if 0 \<le> y \<and> y < 10000 then dig4 (nat y)
      else if y < 0 then
        (let ds = dec_of_nat (nat (- y)) in CHR ''-'' # replicate (4 - length ds) (CHR ''0'') @ ds)
      else dec_of_nat (nat y))"

definition date_text :: "int \<times> int \<times> int \<Rightarrow> string" where
  "date_text = (\<lambda>(y, m, d). pad_year y @ CHR ''-'' # dig2 (nat m) @ CHR ''-'' # dig2 (nat d))"

definition clock_text :: "int \<Rightarrow> string" where
  "clock_text sod =
     dig2 (nat (sod div 3600)) @ CHR '':'' # dig2 (nat (sod mod 3600 div 60)) @
     CHR '':'' # dig2 (nat (sod mod 60))"

text \<open>\<open>t.UTC().Format("2006-01-02T15:04:05Z")\<close>, and in UTC also \<open>t.Format(time.RFC3339)\<close>.\<close>

definition format_utc :: "instant \<Rightarrow> string" where
  "format_utc t =
     (let u = unix t in date_text (civil_of_days (u div 86400)) @ CHR ''T'' # clock_text (u mod 86400) @ ''Z'')"

text \<open>The seconds of the years 0 to 9999.\<close>

definition text_range :: "instant \<Rightarrow> bool" where
  "text_range t \<longleftrightarrow> - 62167219200 \<le> unix t \<and> unix t < 253402300800"

lemma length_dig2 [simp]: "length (dig2 n) = 2"
  by (simp add: dig2_def)

lemma length_dig4 [simp]: "length (dig4 n) = 4"
  by (simp add: dig4_def)

lemma lex_append:
  fixes a b x y :: "'a :: linorder list"
  assumes "length a = length b"
  shows "a @ x < b @ y \<longleftrightarrow> a < b \<or> a = b \<and> x < y"
  using assms by (induction a b rule: list_induct2) auto

lemma digit_char_less: "a < 10 \<Longrightarrow> b < 10 \<Longrightarrow> digit_char a < digit_char b \<longleftrightarrow> a < b"
  by (simp add: digit_char_def less_char_def)

lemma digit_char_eq: "a < 10 \<Longrightarrow> b < 10 \<Longrightarrow> digit_char a = digit_char b \<longleftrightarrow> a = b"
  by (metis digit_char_simps(2))

lemma nat_radix:
  fixes a b w :: nat
  shows "a < b \<longleftrightarrow> a div w < b div w \<or> a div w = b div w \<and> a mod w < b mod w"
proof -
  have ab: "a = w * (a div w) + a mod w" "b = w * (b div w) + b mod w" by simp_all
  show ?thesis
  proof (cases "a div w = b div w")
    case True
    with ab show ?thesis by (metis add_less_cancel_left less_irrefl)
  next
    case False
    then show ?thesis using div_le_mono [of a b w] div_le_mono [of b a w] by linarith
  qed
qed

lemma dig2_less: "a < 100 \<Longrightarrow> b < 100 \<Longrightarrow> dig2 a < dig2 b \<longleftrightarrow> a < b"
  using nat_radix [of a b 10]
  by (simp add: dig2_def digit_char_less digit_char_eq less_mult_imp_div_less)

lemma dig2_eq: "a < 100 \<Longrightarrow> b < 100 \<Longrightarrow> dig2 a = dig2 b \<longleftrightarrow> a = b"
  by (metis dig2_less less_irrefl nat_neq_iff)

lemma dig4_less: "a < 10000 \<Longrightarrow> b < 10000 \<Longrightarrow> dig4 a < dig4 b \<longleftrightarrow> a < b"
  using nat_radix [of a b 100]
  by (simp add: dig4_def lex_append dig2_less dig2_eq less_mult_imp_div_less)

lemma dig4_eq: "a < 10000 \<Longrightarrow> b < 10000 \<Longrightarrow> dig4 a = dig4 b \<longleftrightarrow> a = b"
  by (metis dig4_less less_irrefl nat_neq_iff)

lemma civil_year_range:
  assumes "- 719528 \<le> z" and "z < 2932897" and "civil_of_days z = (y, m, d)"
  shows "0 \<le> y" and "y < 10000"
proof -
  have lo: "civil_of_days (- 719528) = (0, 1, 1)" and hi: "civil_of_days 2932896 = (9999, 12, 31)"
    by (simp_all add: civil_of_days_def march_year_day_def march_digits_def Let_def)
  show "0 \<le> y"
  proof (cases "z = - 719528")
    case False
    with assms show ?thesis using civil_of_days_mono [OF _ lo assms(3)] by auto
  qed (use assms lo in auto)
  show "y < 10000"
  proof (cases "z = 2932896")
    case False
    with assms show ?thesis using civil_of_days_mono [OF _ assms(3) hi] by auto
  qed (use assms hi in auto)
qed

lemma date_text_less:
  assumes "valid_civil (y, m, d)" and "valid_civil (y', m', d')"
    and "0 \<le> y" "y < 10000" "0 \<le> y'" "y' < 10000"
    and "y < y' \<or> y = y' \<and> (m < m' \<or> m = m' \<and> d < d')"
  shows "date_text (y, m, d) < date_text (y', m', d')"
proof -
  have md: "0 < m" "m \<le> 12" "0 < d" "d \<le> 31" "0 < m'" "m' \<le> 12" "0 < d'" "d' \<le> 31"
    using assms(1,2) days_in_le_31 [of m y] days_in_le_31 [of m' y'] by (auto simp: valid_civil_def)
  have "nat y < 10000" "nat y' < 10000" "nat m < 100" "nat m' < 100" "nat d < 100" "nat d' < 100"
    using md assms(3-6) by (simp_all add: nat_less_iff)
  then show ?thesis using assms(3-7) md
    by (auto simp: date_text_def pad_year_def lex_append dig4_less dig4_eq dig2_less dig2_eq)
qed

lemma length_date_text: "0 \<le> y \<Longrightarrow> y < 10000 \<Longrightarrow> length (date_text (y, m, d)) = 10"
  by (simp add: date_text_def pad_year_def)

lemma length_clock_text [simp]: "length (clock_text s) = 8"
  by (simp add: clock_text_def)

lemma clock_digits:
  fixes s :: int
  assumes "0 \<le> s" and "s < 86400"
  shows "0 \<le> s div 3600" "s div 3600 < 24" "0 \<le> s mod 3600 div 60" "s mod 3600 div 60 < 60"
    "0 \<le> s mod 60" "s mod 60 < 60"
    "s = 3600 * (s div 3600) + 60 * (s mod 3600 div 60) + s mod 60"
proof -
  note d = div_bounds [of 3600 s] div_bounds [of 60 "s mod 3600"]
  have m: "0 \<le> s mod 3600" "s mod 3600 < 3600" by simp_all
  show "0 \<le> s div 3600" "s div 3600 < 24" using d assms by linarith+
  show "0 \<le> s mod 3600 div 60" "s mod 3600 div 60 < 60" using d m by linarith+
  show "0 \<le> s mod 60" "s mod 60 < 60" by simp_all
  have "s mod 3600 mod 60 = s mod 60" by (simp add: mod_mod_cancel)
  moreover have "s mod 3600 = 60 * (s mod 3600 div 60) + s mod 3600 mod 60"
    "s = 3600 * (s div 3600) + s mod 3600" by simp_all
  ultimately show "s = 3600 * (s div 3600) + 60 * (s mod 3600 div 60) + s mod 60" by linarith
qed

lemma clock_text_less:
  assumes "s < s'" and "0 \<le> s" and "s' < 86400"
  shows "clock_text s < clock_text s'"
proof -
  define h mi se where "h = s div 3600" and "mi = s mod 3600 div 60" and "se = s mod 60"
  define h' mi' se' where "h' = s' div 3600" and "mi' = s' mod 3600 div 60" and "se' = s' mod 60"
  have ss: "s < 86400" "0 \<le> s'" using assms by linarith+
  note b = clock_digits [OF assms(2) ss(1), folded h_def mi_def se_def]
  note b' = clock_digits [OF ss(2) assms(3), folded h'_def mi'_def se'_def]
  have "h < h' \<or> h = h' \<and> (mi < mi' \<or> mi = mi' \<and> se < se')" using assms(1) b b' by linarith
  moreover have "nat h < 100" "nat h' < 100" "nat mi < 100" "nat mi' < 100" "nat se < 100" "nat se' < 100"
    using b b' by (simp_all add: nat_less_iff)
  moreover have "clock_text s = dig2 (nat h) @ CHR '':'' # dig2 (nat mi) @ CHR '':'' # dig2 (nat se)"
    "clock_text s' = dig2 (nat h') @ CHR '':'' # dig2 (nat mi') @ CHR '':'' # dig2 (nat se')"
    by (simp_all add: clock_text_def h_def mi_def se_def h'_def mi'_def se'_def)
  ultimately show ?thesis using b(1-6) b'(1-6) by (auto simp: lex_append dig2_less dig2_eq)
qed

lemma format_utc_less:
  assumes "unix t < unix t'" and "text_range t" and "text_range t'"
  shows "format_utc t < format_utc t'"
proof -
  define z r z' r' where "z = unix t div 86400" and "r = unix t mod 86400"
    and "z' = unix t' div 86400" and "r' = unix t' mod 86400"
  note d = div_bounds [of 86400 "unix t", folded z_def] div_bounds [of 86400 "unix t'", folded z'_def]
  have zr: "- 719528 \<le> z" "z < 2932897" "- 719528 \<le> z'" "z' < 2932897"
    using d assms(2,3) unfolding text_range_def by linarith+
  obtain y m e where c: "civil_of_days z = (y, m, e)" by (metis prod_cases3)
  obtain y' m' e' where c': "civil_of_days z' = (y', m', e')" by (metis prod_cases3)
  note y = civil_year_range [OF zr(1,2) c] and y' = civil_year_range [OF zr(3,4) c']
  have f: "format_utc t = date_text (y, m, e) @ CHR ''T'' # clock_text r @ ''Z''"
    "format_utc t' = date_text (y', m', e') @ CHR ''T'' # clock_text r' @ ''Z''"
    by (simp_all add: format_utc_def Let_def c c' r_def r'_def flip: z_def z'_def)
  have "z < z' \<or> z = z' \<and> r < r'"
    using radix_step_mod [OF assms(1), of 86400] by (simp add: z_def z'_def r_def r'_def)
  then show ?thesis
  proof
    assume "z < z'"
    then have "date_text (y, m, e) < date_text (y', m', e')"
      using civil_of_days_valid [of z] civil_of_days_valid [of z'] civil_of_days_mono [OF _ c c']
      by (intro date_text_less y y') (simp_all add: c c')
    then show ?thesis using y y' by (simp add: f lex_append length_date_text)
  next
    assume zr: "z = z' \<and> r < r'"
    then have "clock_text r < clock_text r'"
      by (intro clock_text_less) (simp_all add: r_def r'_def)
    with zr show ?thesis using c c' by (auto simp: f lex_append)
  qed
qed

lemma format_utc_cong: "unix t = unix t' \<Longrightarrow> format_utc t = format_utc t'"
  by (simp add: format_utc_def)

lemma format_utc_less_iff:
  assumes "text_range t" and "text_range t'"
  shows "format_utc t < format_utc t' \<longleftrightarrow> unix t < unix t'"
  using format_utc_less [OF _ assms] format_utc_less [OF _ assms(2,1)] format_utc_cong [of t t']
  by (metis less_asym less_irrefl linorder_neqE)

section \<open>Parsing\<close>

text \<open>
  \<open>time.Parse\<close> for the three layouts kauth uses.  Go accepts a little more than it prints:
  one-digit hours, and fractional seconds after a point or a comma although the layout has
  none.  In the layout with a blank, the blank stands for a non-empty run of blanks.
\<close>

definition lit :: "char \<Rightarrow> string \<Rightarrow> string option" where
  "lit c s = (case s of [] \<Rightarrow> None | x # xs \<Rightarrow> if x = c then Some xs else None)"

fun num2 :: "string \<Rightarrow> (int \<times> string) option" where
  "num2 (a # b # s) =
     (if is_digit a \<and> is_digit b then Some (int (10 * digit_val a + digit_val b), s) else None)"
| "num2 _ = None"

fun num12 :: "string \<Rightarrow> (int \<times> string) option" where
  "num12 [] = None"
| "num12 (a # s) =
     (if \<not> is_digit a then None
      else case s of
        [] \<Rightarrow> Some (int (digit_val a), [])
      | b # t \<Rightarrow> if is_digit b then Some (int (10 * digit_val a + digit_val b), t)
                 else Some (int (digit_val a), s))"

definition num4 :: "string \<Rightarrow> (int \<times> string) option" where
  "num4 s = do { (a, s1) \<leftarrow> num2 s; (b, s2) \<leftarrow> num2 s1; Some (100 * a + b, s2) }"

definition parse_frac :: "string \<Rightarrow> int \<times> string" where
  "parse_frac s =
     (case s of
        c # d # r \<Rightarrow>
          if (c = CHR ''.'' \<or> c = CHR '','') \<and> is_digit d
          then (let ds = takeWhile is_digit (d # r); us = take 9 ds
                in (int (dec_val us * 10 ^ (9 - length us)), dropWhile is_digit (d # r)))
          else (0, s)
      | _ \<Rightarrow> (0, s))"

definition parse_date :: "string \<Rightarrow> ((int \<times> int \<times> int) \<times> string) option" where
  "parse_date s = do {
     (y, s) \<leftarrow> num4 s; s \<leftarrow> lit (CHR ''-'') s;
     (m, s) \<leftarrow> num2 s; s \<leftarrow> lit (CHR ''-'') s;
     (d, s) \<leftarrow> num2 s;
     if valid_civil (y, m, d) then Some ((y, m, d), s) else None }"

definition parse_clock :: "string \<Rightarrow> (int \<times> string) option" where
  "parse_clock s = do {
     (h, s) \<leftarrow> num12 s; s \<leftarrow> lit (CHR '':'') s;
     (mi, s) \<leftarrow> num2 s; s \<leftarrow> lit (CHR '':'') s;
     (se, s) \<leftarrow> num2 s;
     if h < 24 \<and> mi < 60 \<and> se < 60
     then (let (ns, s) = parse_frac s in Some ((3600 * h + 60 * mi + se) * second + ns, s))
     else None }"

text \<open>\<open>Z07:00\<close>: a \<open>Z\<close>, or a sign, hours up to 24 and minutes up to 60; the value is in seconds.\<close>

definition parse_zone :: "string \<Rightarrow> (int \<times> string) option" where
  "parse_zone s =
     (case s of
        [] \<Rightarrow> None
      | c # r \<Rightarrow>
          if c = CHR ''Z'' then Some (0, r)
          else do {
            (h, r) \<leftarrow> num2 r; r \<leftarrow> lit (CHR '':'') r; (mi, r) \<leftarrow> num2 r;
            if h \<le> 24 \<and> mi \<le> 60
            then (if c = CHR ''+'' then Some (60 * (60 * h + mi), r)
                  else if c = CHR ''-'' then Some (- (60 * (60 * h + mi)), r) else None)
            else None })"

definition instant_of :: "int \<times> int \<times> int \<Rightarrow> int \<Rightarrow> instant" where
  "instant_of = (\<lambda>(y, m, d) ns. days_of_civil y m d * day + ns)"

text \<open>\<open>time.Parse(time.RFC3339, s)\<close>\<close>

definition parse_rfc3339 :: "string \<Rightarrow> instant option" where
  "parse_rfc3339 s = do {
     (dt, s) \<leftarrow> parse_date s; s \<leftarrow> lit (CHR ''T'') s;
     (ns, s) \<leftarrow> parse_clock s; (off, s) \<leftarrow> parse_zone s;
     if s = [] then Some (instant_of dt ns - off * second) else None }"

text \<open>\<open>time.Parse("2006-01-02T15:04:05Z", s)\<close>\<close>

definition parse_utc :: "string \<Rightarrow> instant option" where
  "parse_utc s = do {
     (dt, s) \<leftarrow> parse_date s; s \<leftarrow> lit (CHR ''T'') s;
     (ns, s) \<leftarrow> parse_clock s; s \<leftarrow> lit (CHR ''Z'') s;
     if s = [] then Some (instant_of dt ns) else None }"

text \<open>\<open>time.Parse("2006-01-02 15:04:05", s)\<close>\<close>

definition parse_sqlite :: "string \<Rightarrow> instant option" where
  "parse_sqlite s = do {
     (dt, s) \<leftarrow> parse_date s; s \<leftarrow> lit (CHR '' '') s;
     (ns, s) \<leftarrow> parse_clock (dropWhile (\<lambda>c. c = CHR '' '') s);
     if s = [] then Some (instant_of dt ns) else None }"

lemma lit_Cons [simp]: "lit c (c # s) = Some s"
  by (simp add: lit_def)

lemma num2_dig2 [simp]: "n < 100 \<Longrightarrow> num2 (dig2 n @ s) = Some (int n, s)"
  by (simp add: dig2_def digit_char_simps less_mult_imp_div_less)

lemma num12_dig2 [simp]: "n < 100 \<Longrightarrow> num12 (dig2 n @ s) = Some (int n, s)"
  by (simp add: dig2_def digit_char_simps less_mult_imp_div_less)

lemma num4_dig4 [simp]:
  assumes "n < 10000"
  shows "num4 (dig4 n @ s) = Some (int n, s)"
proof -
  have "n div 100 < 100" using assms by (simp add: less_mult_imp_div_less)
  moreover have "100 * (n div 100) + n mod 100 = n" by simp
  then have "100 * int (n div 100) + int (n mod 100) = int n"
    by (metis of_nat_add of_nat_mult of_nat_numeral)
  ultimately show ?thesis by (simp add: num4_def dig4_def)
qed

lemma parse_date_text:
  assumes "valid_civil (y, m, d)" and "0 \<le> y" and "y < 10000"
  shows "parse_date (date_text (y, m, d) @ s) = Some ((y, m, d), s)"
proof -
  have "0 < m" "m \<le> 12" "0 < d" "d \<le> 31"
    using assms(1) days_in_le_31 [of m y] by (auto simp: valid_civil_def)
  then have "nat y < 10000" "nat m < 100" "nat d < 100" using assms by (simp_all add: nat_less_iff)
  then show ?thesis using assms \<open>0 < m\<close> \<open>0 < d\<close>
    by (simp add: parse_date_def date_text_def pad_year_def)
qed

lemma parse_frac_Z [simp]: "parse_frac (CHR ''Z'' # s) = (0, CHR ''Z'' # s)"
  by (simp add: parse_frac_def split: list.split)

lemma parse_clock_text:
  assumes "0 \<le> r" and "r < 86400"
  shows "parse_clock (clock_text r @ CHR ''Z'' # s) = Some (r * second, CHR ''Z'' # s)"
proof -
  note d = clock_digits [OF assms]
  define h mi se where "h = r div 3600" and "mi = r mod 3600 div 60" and "se = r mod 60"
  note d' = d [folded h_def mi_def se_def]
  have "nat h < 100" "nat mi < 100" "nat se < 100" using d' by (simp_all add: nat_less_iff)
  moreover have "clock_text r = dig2 (nat h) @ CHR '':'' # dig2 (nat mi) @ CHR '':'' # dig2 (nat se)"
    by (simp add: clock_text_def h_def mi_def se_def)
  ultimately show ?thesis using d' by (simp add: parse_clock_def)
qed

lemma parse_format:
  assumes "text_range t"
  shows "parse_rfc3339 (format_utc t) = Some (unix t * second)"
    and "parse_utc (format_utc t) = Some (unix t * second)"
proof -
  define z r where "z = unix t div 86400" and "r = unix t mod 86400"
  have u: "unix t = 86400 * z + r" "0 \<le> r" "r < 86400" by (simp_all add: z_def r_def)
  then have zr: "- 719528 \<le> z" "z < 2932897" using assms unfolding text_range_def by linarith+
  obtain y m e where c: "civil_of_days z = (y, m, e)" by (metis prod_cases3)
  note y = civil_year_range [OF zr c]
  have v: "valid_civil (y, m, e)" using civil_of_days_valid [of z] c by simp
  have f: "format_utc t = date_text (y, m, e) @ CHR ''T'' # clock_text r @ CHR ''Z'' # []"
    by (simp add: format_utc_def Let_def c r_def flip: z_def)
  have i: "instant_of (y, m, e) (r * second) = unix t * second"
    using u(1) by (simp add: instant_of_def days_of_civil_of_days [OF c] duration_defs)
  show "parse_rfc3339 (format_utc t) = Some (unix t * second)"
    by (simp add: f parse_rfc3339_def parse_date_text [OF v y] parse_clock_text [OF u(2,3)]
        parse_zone_def i)
  show "parse_utc (format_utc t) = Some (unix t * second)"
    by (simp add: f parse_utc_def parse_date_text [OF v y] parse_clock_text [OF u(2,3)] i)
qed

end
