(* ===== verification/Encoding.thy ===== *)
theory Encoding
  imports GoStrings
begin

text \<open>
  The two text encodings of secrets and signatures: \<open>encoding/hex\<close> (lower case) and
  \<open>base64.RawURLEncoding\<close> (URL alphabet, no padding).  Decoding follows Go: carriage returns and
  line feeds are skipped anywhere, a lone trailing character is an error, and the unused
  low bits of the last character are ignored.
\<close>

definition byte :: "char \<Rightarrow> nat" where
  "byte c = of_char c"

lemma byte_bound [simp]: "byte c < 256"
  by (simp add: byte_def)

lemma char_of_byte [simp]: "char_of (byte c) = c"
  by (simp add: byte_def)

lemma byte_char_of [simp]: "n < 256 \<Longrightarrow> byte (char_of n) = n"
  by (simp add: byte_def)

section \<open>Hexadecimal\<close>

definition hex_digit :: "nat \<Rightarrow> char" where
  "hex_digit d = (if d < 10 then char_of (48 + d) else char_of (87 + d))"

fun hex_encode :: "string \<Rightarrow> string" where
  "hex_encode [] = []"
| "hex_encode (c # s) = hex_digit (byte c div 16) # hex_digit (byte c mod 16) # hex_encode s"

lemma hex_digit_byte: "d < 16 \<Longrightarrow> byte (hex_digit d) = (if d < 10 then 48 + d else 87 + d)"
  by (simp add: hex_digit_def)

lemma hex_digit_inj: "d < 16 \<Longrightarrow> e < 16 \<Longrightarrow> hex_digit d = hex_digit e \<Longrightarrow> d = e"
proof -
  assume d: "d < 16" and e: "e < 16" and "hex_digit d = hex_digit e"
  then have "byte (hex_digit d) = byte (hex_digit e)" by simp
  then show "d = e" unfolding hex_digit_byte [OF d] hex_digit_byte [OF e]
    using d e by (simp split: if_splits)
qed

lemma hex_digit_ne:
  assumes "d < 16"
  shows "hex_digit d \<noteq> CHR ''.''" and "hex_digit d \<noteq> CHR '':''"
proof -
  have ne: "hex_digit d \<noteq> c" if "byte c < 48 \<or> byte c = 58" for c
    using that hex_digit_byte [OF assms] assms by (auto split: if_splits)
  show "hex_digit d \<noteq> CHR ''.''" and "hex_digit d \<noteq> CHR '':''"
    by (rule ne, simp add: byte_def)+
qed

lemma length_hex_encode [simp]: "length (hex_encode s) = 2 * length s"
  by (induction s) auto

lemma hex_encode_no_dot [simp]: "CHR ''.'' \<notin> set (hex_encode s)"
  and hex_encode_no_colon [simp]: "CHR '':'' \<notin> set (hex_encode s)"
  by (induction s) (auto simp: hex_digit_ne [symmetric] less_mult_imp_div_less)

lemma hex_encode_inj: "hex_encode s = hex_encode t \<Longrightarrow> s = t"
proof (induction s arbitrary: t)
  case Nil
  then show ?case by (cases t) auto
next
  case (Cons c s)
  from Cons.prems obtain d u where t: "t = d # u" by (cases t) auto
  from Cons.prems t have q: "byte c div 16 = byte d div 16" and r: "byte c mod 16 = byte d mod 16"
    by (auto dest!: hex_digit_inj [rotated 2] simp: less_mult_imp_div_less)
  have "byte c = byte d" using q r by (metis div_mult_mod_eq)
  then have "c = d" by (metis char_of_byte)
  with Cons t show ?case by simp
qed

section \<open>Base64 without padding\<close>

definition b64_alphabet :: string where
  "b64_alphabet = ''ABCDEFGHIJKLMNOPQRSTUVWXYZabcdefghijklmnopqrstuvwxyz0123456789-_''"

fun index_of :: "char \<Rightarrow> string \<Rightarrow> nat option" where
  "index_of c [] = None"
| "index_of c (x # xs) = (if x = c then Some 0 else map_option Suc (index_of c xs))"

definition b64_char :: "nat \<Rightarrow> char" where
  "b64_char n = b64_alphabet ! n"

definition b64_val :: "char \<Rightarrow> nat option" where
  "b64_val c = index_of c b64_alphabet"

fun sextets :: "nat list \<Rightarrow> nat list" where
  "sextets (a # b # c # s) =
     a div 4 # (a mod 4 * 16 + b div 16) # (b mod 16 * 4 + c div 64) # c mod 64 # sextets s"
| "sextets [a, b] = [a div 4, a mod 4 * 16 + b div 16, b mod 16 * 4]"
| "sextets [a] = [a div 4, a mod 4 * 16]"
| "sextets [] = []"

fun octets :: "nat list \<Rightarrow> nat list option" where
  "octets (p # q # r # s # t) =
     map_option (\<lambda>u. (p * 4 + q div 16) # (q mod 16 * 16 + r div 4) # (r mod 4 * 64 + s) # u) (octets t)"
| "octets [p, q, r] = Some [p * 4 + q div 16, q mod 16 * 16 + r div 4]"
| "octets [p, q] = Some [p * 4 + q div 16]"
| "octets [p] = None"
| "octets [] = Some []"

definition b64_encode :: "string \<Rightarrow> string" where
  "b64_encode s = map b64_char (sextets (map byte s))"

fun all_some :: "'a option list \<Rightarrow> 'a list option" where
  "all_some [] = Some []"
| "all_some (None # _) = None"
| "all_some (Some x # xs) = map_option (Cons x) (all_some xs)"

definition b64_decode :: "string \<Rightarrow> string option" where
  "b64_decode s =
     (case all_some (map b64_val (filter (\<lambda>c. c \<noteq> CHR 0x0A \<and> c \<noteq> CHR 0x0D) s)) of
        None \<Rightarrow> None
      | Some vs \<Rightarrow> map_option (map char_of) (octets vs))"

lemma octets_sextets: "\<forall>a \<in> set s. a < 256 \<Longrightarrow> octets (sextets s) = Some s"
proof (induction s rule: sextets.induct)
  case (1 a b c s)
  have "b div 16 < 16" using 1 by (simp add: less_mult_imp_div_less)
  then have "(a div 4) * 4 + (a mod 4 * 16 + b div 16) div 16 = a"
    by simp
  moreover have "(a mod 4 * 16 + b div 16) mod 16 * 16 + (b mod 16 * 4 + c div 64) div 4 = b"
  proof -
    have "b div 16 < 16" "c div 64 < 4" using 1 by (simp_all add: less_mult_imp_div_less)
    then show ?thesis by simp
  qed
  moreover have "(b mod 16 * 4 + c div 64) mod 4 * 64 + c mod 64 = c"
  proof -
    have "c div 64 < 4" using 1 by (simp add: less_mult_imp_div_less)
    then show ?thesis by simp
  qed
  ultimately show ?case using 1 by (simp del: div_mult_self1 mod_mult_self1)
qed auto

lemma sextets_bound: "\<forall>a \<in> set s. a < 256 \<Longrightarrow> \<forall>v \<in> set (sextets s). v < 64"
proof (induction s rule: sextets.induct)
  case (1 a b c s)
  have "a div 4 < 64" "b div 16 < 16" "c div 64 < 4" using 1 by (simp_all add: less_mult_imp_div_less)
  moreover have "a mod 4 < 4" "b mod 16 < 16" by simp_all
  ultimately have "a div 4 < 64" "a mod 4 * 16 + b div 16 < 64" "b mod 16 * 4 + c div 64 < 64"
    by linarith+
  with 1 show ?case by simp
next
  case (2 a b)
  have "a div 4 < 64" "b div 16 < 16" using 2 by (simp_all add: less_mult_imp_div_less)
  moreover have "a mod 4 < 4" "b mod 16 < 16" by simp_all
  ultimately show ?case by simp
next
  case (3 a)
  have "a div 4 < 64" using 3 by (simp add: less_mult_imp_div_less)
  moreover have "a mod 4 < 4" by simp
  ultimately show ?case by simp
qed auto

lemma b64_table:
  "\<forall>n \<in> set [0..<64]. b64_val (b64_char n) = Some n \<and> b64_char n \<noteq> CHR 0x0A \<and> b64_char n \<noteq> CHR 0x0D"
  by code_simp

lemma b64_val_char: "n < 64 \<Longrightarrow> b64_val (b64_char n) = Some n"
  and b64_char_no_nl: "n < 64 \<Longrightarrow> b64_char n \<noteq> CHR 0x0A \<and> b64_char n \<noteq> CHR 0x0D"
  using b64_table by simp_all

lemma all_some_map: "\<forall>x \<in> set xs. f x = Some (g x) \<Longrightarrow> all_some (map f xs) = Some (map g xs)"
  by (induction xs) auto

theorem b64_decode_encode: "b64_decode (b64_encode s) = Some s"
proof -
  have b: "\<forall>a \<in> set (map byte s). a < 256" by simp
  have v: "\<forall>v \<in> set (sextets (map byte s)). v < 64" by (rule sextets_bound [OF b])
  have "filter (\<lambda>c. c \<noteq> CHR 0x0A \<and> c \<noteq> CHR 0x0D) (b64_encode s) = b64_encode s"
    using v b64_char_no_nl by (auto simp: b64_encode_def intro!: filter_True)
  moreover have "all_some (map b64_val (b64_encode s)) = Some (sextets (map byte s))"
    using v b64_val_char all_some_map [of "sextets (map byte s)" "b64_val \<circ> b64_char" id]
    by (simp add: b64_encode_def)
  ultimately show ?thesis
    by (simp add: b64_decode_def octets_sextets [OF b] comp_def)
qed

lemma b64_encode_inj: "b64_encode s = b64_encode t \<Longrightarrow> s = t"
  by (metis b64_decode_encode option.inject)

lemma length_sextets: "length (sextets s) = (8 * length s + 5) div 6"
  by (induction s rule: sextets.induct) auto

lemma length_b64_encode: "length (b64_encode s) = (8 * length s + 5) div 6"
  by (simp add: b64_encode_def length_sextets)

end
