(* ===== verification/Model.thy ===== *)
theory Model
  imports GoTime Encoding
begin

text \<open>
  The data of the program: the rows of the database tables as sqlc generates them
  (\<open>internal/db/gen/models.go\<close>), the database as one record of tables, HTTP requests and
  replies, audit events, token claims and keys, and the environment: the clock, the random
  source, the failures of the database, and the cryptographic, Unicode and URL functions
  that the code calls and this development does not define.

  A Go \<open>*string\<close> is a \<open>string option\<close>; an \<open>int64\<close> column is an \<open>int\<close>; timestamps are texts.
\<close>

section \<open>Rows\<close>

record refresh_row =
  rt_id :: int
  rt_hash :: string
  rt_email :: string
  rt_service :: "string option"
  rt_family :: string
  rt_parent :: "int option"
  rt_created :: string
  rt_expires :: string
  rt_family_expires :: "string option"
  rt_used :: int
  rt_revoked :: int
  rt_reason :: "string option"
  rt_ip :: "string option"
  rt_ua :: "string option"
  rt_user :: "int option"

record code_row =
  ac_id :: int
  ac_code :: string
  ac_service :: string
  ac_email :: string
  ac_redirect :: string
  ac_scope :: "string option"
  ac_nonce :: "string option"
  ac_challenge :: string
  ac_method :: string
  ac_created :: string
  ac_expires :: string
  ac_used :: int
  ac_family :: "string option"
  ac_user :: "int option"

record magic_row =
  mt_id :: int
  mt_token :: string
  mt_email :: string
  mt_service :: "string option"
  mt_redirect :: "string option"
  mt_created :: string
  mt_expires :: string
  mt_used :: int
  mt_purpose :: string

record invite_row =
  li_id :: int
  li_hash :: string
  li_user :: int
  li_provider :: int
  li_service :: string
  li_email :: string
  li_created_by :: string
  li_created :: string
  li_expires :: string
  li_used_at :: "string option"

record provider_row =
  ip_id :: int
  ip_slug :: string
  ip_display_name :: string
  ip_issuer :: string
  ip_client_id :: string
  ip_client_secret_env :: "string option"
  ip_scopes :: string
  ip_trust_email :: int
  ip_email_domains :: string
  ip_active :: int
  ip_created :: string

record user_row =
  u_id :: int
  u_email :: string
  u_password_hash :: "string option"
  u_name :: "string option"
  u_roles :: string
  u_orgs :: string
  u_created :: string
  u_last_login :: "string option"
  u_deactivated :: "string option"
  u_public_id :: string
  u_email_changed :: "string option"
  u_admin_bound :: "string option"

record identity_row =
  ui_id :: int
  ui_user :: int
  ui_provider :: string
  ui_issuer :: string
  ui_subject :: string
  ui_email :: "string option"
  ui_created :: string
  ui_last_used :: "string option"
  ui_admin_ok :: int

record audit_row =
  ae_id :: int
  ae_type :: string
  ae_method :: "string option"
  ae_email :: "string option"
  ae_service :: "string option"
  ae_ip :: "string option"
  ae_ua :: "string option"
  ae_success :: int
  ae_details :: "string option"
  ae_created :: string

record service_row =
  sv_id :: string
  sv_display_name :: string
  sv_tagline :: "string option"
  sv_domain :: string
  sv_auth_host :: "string option"
  sv_callback :: string
  sv_logo_html :: "string option"
  sv_bg_image :: "string option"
  sv_bg_css :: "string option"
  sv_theme :: string
  sv_accent :: string
  sv_email_from_name :: string
  sv_auto_register :: int
  sv_default_role :: "string option"
  sv_default_org :: "string option"
  sv_require_role :: "string option"
  sv_enforce_org :: int
  sv_is_default :: int
  sv_auth_google :: int
  sv_auth_microsoft :: int
  sv_auth_magic :: int
  sv_auth_password :: int
  sv_google_client_id :: "string option"
  sv_google_client_secret :: "string option"
  sv_microsoft_client_id :: "string option"
  sv_microsoft_client_secret :: "string option"
  sv_cookie_name :: string
  sv_access_ttl :: string
  sv_refresh_max_age :: "string option"
  sv_active :: int
  sv_updated :: string
  sv_email_from_address :: "string option"
  sv_sub_format :: string
  sv_auto_link :: int
  sv_google_secret_env :: "string option"
  sv_microsoft_secret_env :: "string option"
  sv_auth_github :: int
  sv_github_client_id :: "string option"
  sv_github_secret_env :: "string option"

text \<open>Which provider a service offers, and where on its login page.\<close>

record assign_row =
  as_service :: string
  as_provider :: int
  as_position :: int

text \<open>
  The tables.  \<open>identity_link_invites\<close> has an \<open>AUTOINCREMENT\<close> key, so the largest key ever
  given out is kept beside it.
\<close>

record db =
  t_services :: "service_row list"
  t_users :: "user_row list"
  t_identities :: "identity_row list"
  t_refresh :: "refresh_row list"
  t_codes :: "code_row list"
  t_magic :: "magic_row list"
  t_invites :: "invite_row list"
  t_invite_seq :: int
  t_providers :: "provider_row list"
  t_assign :: "assign_row list"
  t_audit :: "audit_row list"

text \<open>What a statement can fail with.\<close>

datatype db_err = NoRows | UniqueViolation | ConstraintViolation | IOErr | Canceled

section \<open>Tokens and keys\<close>

record claims =
  c_jti :: string
  c_iss :: string
  c_sub :: string
  c_aud :: "string list"
  c_iat :: "int option"
  c_nbf :: "int option"
  c_exp :: "int option"
  c_email :: string
  c_org :: "string list"
  c_groups :: "string list"
  c_name :: string
  c_use :: string
  c_nonce :: string

text \<open>RSA keys by modulus and exponents.\<close>

record pubkey =
  pk_n :: nat
  pk_e :: int

record privkey =
  sk_n :: nat
  sk_e :: int
  sk_d :: nat

text \<open>The header of a signed token: algorithm and the \<open>kid\<close> entry, which need not be a string.\<close>

datatype kid_entry = NoKid | KidString string | KidOther

record jwt_header =
  jh_alg :: string
  jh_kid :: kid_entry

section \<open>Requests, replies, audit events\<close>

record request =
  rq_method :: string
  rq_host :: string
  rq_path :: string
  rq_query :: "(string \<times> string) list"
  rq_form :: "(string \<times> string) list"
  rq_cookies :: "(string \<times> string) list"
  rq_headers :: "(string \<times> string list) list"
  rq_client_ip :: string

datatype same_site = SameSiteDefault | SameSiteLax | SameSiteNone

record cookie =
  ck_name :: string
  ck_value :: string
  ck_path :: string
  ck_max_age :: int
  ck_http_only :: bool
  ck_secure :: bool
  ck_same_site :: same_site

record token_response =
  tr_access :: string
  tr_refresh :: string
  tr_expires_in :: int
  tr_id_token :: "string option"

text \<open>
  What a handler answers with.  A rendered page carries the name of its template and those fields of the
  template's data that depend on the program's decisions.
\<close>

datatype reply =
    Redirect nat string
  | HttpError nat string
  | JsonError nat string
  | JsonTokens token_response
  | Page nat string "(string \<times> string) list"
  | JsonMe string "string list" "string list" string
  | Plain nat string

record event =
  ev_type :: string
  ev_method :: string
  ev_email :: string
  ev_service :: string
  ev_ip :: string
  ev_ua :: string
  ev_success :: bool
  ev_details :: string

text \<open>The mails handed to the mailer: recipient, sender name, link or provider name, locale, sender.\<close>

datatype mail =
    SendMagicLink string string string string string
  | SendLinkInvite string string string string string string
  | SendLinkConfirmation string string string string string

text \<open>The first value of a key, or the empty string: \<open>url.Values.Get\<close>, \<open>http.Header.Get\<close>.\<close>

definition get_first :: "(string \<times> string) list \<Rightarrow> string \<Rightarrow> string" where
  "get_first kvs k = (case map_of kvs k of None \<Rightarrow> [] | Some v \<Rightarrow> v)"

definition query_get :: "request \<Rightarrow> string \<Rightarrow> string" where
  "query_get r k = get_first (rq_query r) k"

text \<open>\<open>r.FormValue\<close> looks into the body before the query; \<open>r.PostFormValue\<close> only into the body.\<close>

definition form_value :: "request \<Rightarrow> string \<Rightarrow> string" where
  "form_value r k = get_first (rq_form r @ rq_query r) k"

definition post_form_value :: "request \<Rightarrow> string \<Rightarrow> string" where
  "post_form_value r k = get_first (rq_form r) k"

definition cookie_get :: "request \<Rightarrow> string \<Rightarrow> string option" where
  "cookie_get r k = map_of (rq_cookies r) k"

definition header_values :: "request \<Rightarrow> string \<Rightarrow> string list option" where
  "header_values r k = map_of (rq_headers r) k"

definition header_get :: "request \<Rightarrow> string \<Rightarrow> string" where
  "header_get r k = (case header_values r k of Some (v # _) \<Rightarrow> v | _ \<Rightarrow> [])"

text \<open>
  What the code reads of a parsed URL (\<open>net/url\<close>), as \<open>e_url_parse\<close> of the environment returns
  it.  \<open>e_url_with_query s q\<close> is the text of the parsed \<open>s\<close> with \<open>RawQuery\<close> replaced by \<open>q\<close>.
\<close>

record url =
  ul_scheme :: string
  ul_host :: string
  ul_hostname :: string
  ul_has_user :: bool
  ul_path :: string
  ul_raw_query :: string
  ul_force_query :: bool
  ul_opaque :: string
  ul_fragment :: string

section \<open>The environment\<close>

text \<open>
  The oracles \<open>e_clock\<close>, \<open>e_rand\<close>, \<open>e_fault\<close> and \<open>e_cancel\<close> are indexed by the number of
  effects performed so far, so two reads of the clock may differ, a random draw may fail, and
  any database call may fail or be cut off by a client that went away.  \<open>e_parse_float\<close> is
  \<open>strconv.ParseFloat\<close> up to an order embedding: the code only compares its values with 0 and
  with each other.  \<open>e_quote\<close> is \<open>strconv.Quote\<close>.  A theorem that does
  not constrain them holds for every clock, every random source and every pattern of failures.
\<close>

record env =
  e_clock :: "nat \<Rightarrow> instant"
  e_rand :: "nat \<Rightarrow> nat \<Rightarrow> string option"
  e_fault :: "nat \<Rightarrow> bool"
  e_cancel :: "nat \<Rightarrow> bool"
  e_sha256 :: "string \<Rightarrow> string"
  e_hmac :: "string \<Rightarrow> string \<Rightarrow> string"
  e_lower :: "string \<Rightarrow> string"
  e_fold :: "string \<Rightarrow> string \<Rightarrow> bool"
  e_upper :: "string \<Rightarrow> string"
  e_url_parse :: "string \<Rightarrow> url option"
  e_url_with_query :: "string \<Rightarrow> string \<Rightarrow> string"
  e_parse_float :: "string \<Rightarrow> int option"
  e_quote :: "string \<Rightarrow> string"
  e_bcrypt :: "string \<Rightarrow> string \<Rightarrow> bool"
  e_bcrypt_hash :: "nat \<Rightarrow> string \<Rightarrow> string option"
  e_jwt_sign :: "string \<Rightarrow> privkey \<Rightarrow> claims \<Rightarrow> string option"
  e_jwt_decode :: "string \<Rightarrow> (jwt_header \<times> claims) option"
  e_jwt_sig_ok :: "string \<Rightarrow> pubkey \<Rightarrow> bool"
  e_jwt_valid :: "instant \<Rightarrow> string \<Rightarrow> claims \<Rightarrow> bool"
  e_getenv :: "string \<Rightarrow> string"
  e_insecure_cookies :: bool

end
