(* ===== verification/Effects.thy ===== *)
theory Effects
  imports Model
begin

text \<open>
  Effects of a handler, in the state monad.  The state of a run is the database, the audit
  events handed to \<open>audit.Service.Log\<close>, the cookies and headers set on the response, the mails, and the
  number of effects so far, which indexes the oracles of the environment.

  A database call fails when the environment says so; a call under the request's context
  also fails when the client has gone away, a call under \<open>context.WithoutCancel\<close> does not.
  A transaction runs its body on the database and puts the old database back when the body
  returns an error or the commit fails (\<open>inTx\<close>).
\<close>

record world =
  w_db :: db
  w_audit :: "event list"
  w_cookies :: "cookie list"
  w_headers :: "(string \<times> string) list"
  w_mails :: "mail list"
  w_step :: nat

type_synonym 'a io = "(world, 'a) state"

datatype call_ctx = ReqCtx | Detached

definition tick :: "(nat \<Rightarrow> 'a) \<Rightarrow> 'a io" where
  "tick f = State (\<lambda>w. (f (w_step w), w\<lparr>w_step := Suc (w_step w)\<rparr>))"

definition time_now :: "env \<Rightarrow> instant io" where
  "time_now e = tick (e_clock e)"

definition rand_read :: "env \<Rightarrow> nat \<Rightarrow> string option io" where
  "rand_read e n = tick (\<lambda>i. e_rand e i n)"

definition db_failure :: "env \<Rightarrow> call_ctx \<Rightarrow> nat \<Rightarrow> db_err option" where
  "db_failure e ctx i =
     (if e_fault e i then Some IOErr
      else if ctx = ReqCtx \<and> e_cancel e i then Some Canceled else None)"

text \<open>A read (\<open>:one\<close>, \<open>:many\<close>) and a writing statement (\<open>:exec\<close>, \<open>:execrows\<close>, \<open>RETURNING\<close>).\<close>

definition db_read :: "env \<Rightarrow> call_ctx \<Rightarrow> (db \<Rightarrow> db_err + 'a) \<Rightarrow> (db_err + 'a) io" where
  "db_read e ctx f = State (\<lambda>w.
     (case db_failure e ctx (w_step w) of Some x \<Rightarrow> Inl x | None \<Rightarrow> f (w_db w),
      w\<lparr>w_step := Suc (w_step w)\<rparr>))"

definition db_write :: "env \<Rightarrow> call_ctx \<Rightarrow> (db \<Rightarrow> (db_err + 'a) \<times> db) \<Rightarrow> (db_err + 'a) io" where
  "db_write e ctx f = State (\<lambda>w.
     (case db_failure e ctx (w_step w) of
        Some x \<Rightarrow> (Inl x, w\<lparr>w_step := Suc (w_step w)\<rparr>)
      | None \<Rightarrow> (case f (w_db w) of (r, d) \<Rightarrow> (r, w\<lparr>w_db := d, w_step := Suc (w_step w)\<rparr>))))"

definition in_tx :: "env \<Rightarrow> call_ctx \<Rightarrow> (db_err \<Rightarrow> 'e) \<Rightarrow> ('e + 'a) io \<Rightarrow> ('e + 'a) io" where
  "in_tx e ctx wrap body = State (\<lambda>w.
     (case db_failure e ctx (w_step w) of
        Some x \<Rightarrow> (Inl (wrap x), w\<lparr>w_step := Suc (w_step w)\<rparr>)
      | None \<Rightarrow>
          (case run_state body (w\<lparr>w_step := Suc (w_step w)\<rparr>) of
             (Inl x, w') \<Rightarrow> (Inl x, w'\<lparr>w_db := w_db w\<rparr>)
           | (Inr a, w') \<Rightarrow>
               (case db_failure e ctx (w_step w') of
                  Some x \<Rightarrow> (Inl (wrap x), w'\<lparr>w_db := w_db w, w_step := Suc (w_step w')\<rparr>)
                | None \<Rightarrow> (Inr a, w'\<lparr>w_step := Suc (w_step w')\<rparr>)))))"

definition audit_log :: "event \<Rightarrow> unit io" where
  "audit_log ev = State (\<lambda>w. ((), w\<lparr>w_audit := w_audit w @ [ev]\<rparr>))"

definition set_cookie :: "cookie \<Rightarrow> unit io" where
  "set_cookie c = State (\<lambda>w. ((), w\<lparr>w_cookies := w_cookies w @ [c]\<rparr>))"

definition set_header :: "string \<Rightarrow> string \<Rightarrow> unit io" where
  "set_header k v = State (\<lambda>w. ((), w\<lparr>w_headers := (k, v) # filter (\<lambda>kv. fst kv \<noteq> k) (w_headers w)\<rparr>))"

text \<open>Handing a mail to the mailer, which sends it in the background.\<close>

definition send_mail :: "mail \<Rightarrow> unit io" where
  "send_mail m = State (\<lambda>w. ((), w\<lparr>w_mails := w_mails w @ [m]\<rparr>))"

definition del_header :: "string \<Rightarrow> unit io" where
  "del_header k = State (\<lambda>w. ((), w\<lparr>w_headers := filter (\<lambda>kv. fst kv \<noteq> k) (w_headers w)\<rparr>))"

abbreviation return_io :: "'a \<Rightarrow> 'a io" where
  "return_io \<equiv> State_Monad.return"

definition quiet :: "env \<Rightarrow> bool" where
  "quiet e \<longleftrightarrow> (\<forall>i. \<not> e_fault e i) \<and> (\<forall>i. \<not> e_cancel e i)"

section \<open>Running effects\<close>

lemma run_tick [io_simps]: "run_state (tick f) w = (f (w_step w), w\<lparr>w_step := Suc (w_step w)\<rparr>)"
  by (simp add: tick_def)

lemma run_time_now [io_simps]:
  "run_state (time_now e) w = (e_clock e (w_step w), w\<lparr>w_step := Suc (w_step w)\<rparr>)"
  by (simp add: time_now_def run_tick)

lemma run_rand_read [io_simps]:
  "run_state (rand_read e n) w = (e_rand e (w_step w) n, w\<lparr>w_step := Suc (w_step w)\<rparr>)"
  by (simp add: rand_read_def run_tick)

lemma run_db_read [io_simps]:
  "run_state (db_read e ctx f) w =
     (case db_failure e ctx (w_step w) of Some x \<Rightarrow> Inl x | None \<Rightarrow> f (w_db w),
      w\<lparr>w_step := Suc (w_step w)\<rparr>)"
  by (simp add: db_read_def)

lemma run_db_write [io_simps]:
  "run_state (db_write e ctx f) w =
     (case db_failure e ctx (w_step w) of
        Some x \<Rightarrow> (Inl x, w\<lparr>w_step := Suc (w_step w)\<rparr>)
      | None \<Rightarrow> (fst (f (w_db w)), w\<lparr>w_db := snd (f (w_db w)), w_step := Suc (w_step w)\<rparr>))"
  by (simp add: db_write_def split: option.split prod.split)

lemma run_audit_log [io_simps]:
  "run_state (audit_log ev) w = ((), w\<lparr>w_audit := w_audit w @ [ev]\<rparr>)"
  by (simp add: audit_log_def)

lemma run_set_cookie [io_simps]:
  "run_state (set_cookie c) w = ((), w\<lparr>w_cookies := w_cookies w @ [c]\<rparr>)"
  by (simp add: set_cookie_def)

lemma run_set_header [io_simps]:
  "run_state (set_header k v) w =
     ((), w\<lparr>w_headers := (k, v) # filter (\<lambda>kv. fst kv \<noteq> k) (w_headers w)\<rparr>)"
  by (simp add: set_header_def)

lemma run_send_mail [io_simps]: "run_state (send_mail m) w = ((), w\<lparr>w_mails := w_mails w @ [m]\<rparr>)"
  by (simp add: send_mail_def)

lemma run_del_header [io_simps]:
  "run_state (del_header k) w = ((), w\<lparr>w_headers := filter (\<lambda>kv. fst kv \<noteq> k) (w_headers w)\<rparr>)"
  by (simp add: del_header_def)

lemma run_in_tx [io_simps]:
  "run_state (in_tx e ctx wrap body) w =
     (case db_failure e ctx (w_step w) of
        Some x \<Rightarrow> (Inl (wrap x), w\<lparr>w_step := Suc (w_step w)\<rparr>)
      | None \<Rightarrow>
          (case run_state body (w\<lparr>w_step := Suc (w_step w)\<rparr>) of
             (Inl x, w') \<Rightarrow> (Inl x, w'\<lparr>w_db := w_db w\<rparr>)
           | (Inr a, w') \<Rightarrow>
               (case db_failure e ctx (w_step w') of
                  Some x \<Rightarrow> (Inl (wrap x), w'\<lparr>w_db := w_db w, w_step := Suc (w_step w')\<rparr>)
                | None \<Rightarrow> (Inr a, w'\<lparr>w_step := Suc (w_step w')\<rparr>))))"
  by (simp add: in_tx_def)

lemma db_failure_Detached: "db_failure e Detached i = (if e_fault e i then Some IOErr else None)"
  by (simp add: db_failure_def)

lemma quiet_db_failure [simp]: "quiet e \<Longrightarrow> db_failure e ctx i = None"
  by (simp add: quiet_def db_failure_def)

lemma db_failure_cases: "db_failure e ctx i = Some x \<Longrightarrow> x = IOErr \<or> x = Canceled"
  by (auto simp: db_failure_def split: if_splits)

section \<open>How a handler may change the database\<close>

text \<open>
  \<open>evolves R m\<close>: whatever the oracles do, running \<open>m\<close> takes the database along a sequence
  of \<open>R\<close>-steps.  The rules below follow the shape of a handler, so that the fact is proved
  for a whole handler by resolution, one rule per construct.
\<close>

definition evolves :: "(db \<Rightarrow> db \<Rightarrow> bool) \<Rightarrow> 'a io \<Rightarrow> bool" where
  "evolves R m \<longleftrightarrow> (\<forall>w. R\<^sup>*\<^sup>* (w_db w) (w_db (snd (run_state m w))))"

lemma evolvesD: "evolves R m \<Longrightarrow> run_state m w = (a, w') \<Longrightarrow> R\<^sup>*\<^sup>* (w_db w) (w_db w')"
  unfolding evolves_def by (metis snd_conv)

lemma evolves_return [evolve_intros]: "evolves R (return_io a)"
  by (simp add: evolves_def)

lemma evolves_bind [evolve_intros]:
  assumes "evolves R m" and "\<And>a. evolves R (f a)"
  shows "evolves R (State_Monad.bind m f)"
  unfolding evolves_def
proof
  fix w
  obtain a w1 where m: "run_state m w = (a, w1)" by fastforce
  obtain b w2 where f: "run_state (f a) w1 = (b, w2)" by fastforce
  from evolvesD [OF assms(1) m] evolvesD [OF assms(2) f]
  show "R\<^sup>*\<^sup>* (w_db w) (w_db (snd (run_state (State_Monad.bind m f) w)))"
    by (simp add: m f)
qed

lemma evolves_tick [evolve_intros]: "evolves R (tick f)"
  by (simp add: evolves_def io_simps)

lemma evolves_time_now [evolve_intros]: "evolves R (time_now e)"
  and evolves_rand_read [evolve_intros]: "evolves R (rand_read e n)"
  and evolves_db_read [evolve_intros]: "evolves R (db_read e ctx g)"
  and evolves_audit_log [evolve_intros]: "evolves R (audit_log ev)"
  and evolves_set_cookie [evolve_intros]: "evolves R (set_cookie c)"
  and evolves_set_header [evolve_intros]: "evolves R (set_header k v)"
  and evolves_del_header [evolve_intros]: "evolves R (del_header k)"
  and evolves_send_mail [evolve_intros]: "evolves R (send_mail m)"
  by (simp_all add: evolves_def io_simps)

lemma evolves_db_write:
  assumes "\<And>d. R\<^sup>*\<^sup>* d (snd (f d))"
  shows "evolves R (db_write e ctx f)"
  using assms by (simp add: evolves_def io_simps split: option.split)

lemma evolves_in_tx [evolve_intros]:
  assumes "evolves R body"
  shows "evolves R (in_tx e ctx wrap body)"
  unfolding evolves_def
proof
  fix w
  obtain r w' where b: "run_state body (w\<lparr>w_step := Suc (w_step w)\<rparr>) = (r, w')" by fastforce
  have "R\<^sup>*\<^sup>* (w_db w) (w_db w')" using evolvesD [OF assms b] by simp
  then show "R\<^sup>*\<^sup>* (w_db w) (w_db (snd (run_state (in_tx e ctx wrap body) w)))"
    by (simp add: io_simps b split: option.split sum.split)
qed

lemma evolves_if [evolve_intros]:
  "(b \<Longrightarrow> evolves R m) \<Longrightarrow> (\<not> b \<Longrightarrow> evolves R n) \<Longrightarrow> evolves R (if b then m else n)"
  by simp

lemma evolves_case_sum [evolve_intros]:
  "(\<And>x. s = Inl x \<Longrightarrow> evolves R (f x)) \<Longrightarrow> (\<And>y. s = Inr y \<Longrightarrow> evolves R (g y)) \<Longrightarrow>
   evolves R (case s of Inl x \<Rightarrow> f x | Inr y \<Rightarrow> g y)"
  by (cases s) auto

lemma evolves_case_option [evolve_intros]:
  "(s = None \<Longrightarrow> evolves R m) \<Longrightarrow> (\<And>y. s = Some y \<Longrightarrow> evolves R (g y)) \<Longrightarrow>
   evolves R (case s of None \<Rightarrow> m | Some y \<Rightarrow> g y)"
  by (cases s) auto

lemma evolves_case_prod [evolve_intros]:
  "(\<And>x y. p = (x, y) \<Longrightarrow> evolves R (f x y)) \<Longrightarrow> evolves R (case p of (x, y) \<Rightarrow> f x y)"
  by (cases p) auto

lemma evolves_case_list [evolve_intros]:
  "(s = [] \<Longrightarrow> evolves R m) \<Longrightarrow> (\<And>x xs. s = x # xs \<Longrightarrow> evolves R (g x xs)) \<Longrightarrow>
   evolves R (case s of [] \<Rightarrow> m | x # xs \<Rightarrow> g x xs)"
  by (cases s) auto

lemma evolves_let [evolve_intros]: "evolves R (f x) \<Longrightarrow> evolves R (Let x f)"
  by simp

end
