(* ===== verification/TokenStore.thy ===== *)
theory TokenStore
  imports Effects
begin

text \<open>
  The SQL statements on the four tables of one-time secrets, as sqlc generates them from
  \<open>internal/db/query\<close> (\<open>internal/db/gen/refresh_tokens.sql.go\<close>, \<open>authorization_codes.sql.go\<close>,
  \<open>magic_tokens.sql.go\<close>, \<open>identity_link_invites.sql.go\<close>), with the UNIQUE, CHECK and FOREIGN KEY
  constraints of the migrations (foreign keys are switched on in \<open>db.Open\<close>).

  A conditional \<open>UPDATE ... RETURNING *\<close> returns the first row that satisfied its predicate,
  updated, and \<open>sql.ErrNoRows\<close> when none did.
\<close>

definition update_returning ::
  "('r \<Rightarrow> bool) \<Rightarrow> ('r \<Rightarrow> 'r) \<Rightarrow> 'r list \<Rightarrow> (db_err + 'r) \<times> 'r list" where
  "update_returning P f rows =
     (case List.find P rows of
        None \<Rightarrow> (Inl NoRows, rows)
      | Some r \<Rightarrow> (Inr (f r), upd_where P f rows))"

definition select_one :: "('r \<Rightarrow> bool) \<Rightarrow> 'r list \<Rightarrow> db_err + 'r" where
  "select_one P rows = (case List.find P rows of None \<Rightarrow> Inl NoRows | Some r \<Rightarrow> Inr r)"

lemma snd_update_returning [simp]: "snd (update_returning P f rows) = upd_where P f rows"
  by (auto simp: update_returning_def find_None_all upd_where_none split: option.split)

lemma fst_update_returning_Inr:
  "fst (update_returning P f rows) = Inr s \<longleftrightarrow> (\<exists>r. List.find P rows = Some r \<and> s = f r)"
  by (auto simp: update_returning_def split: option.split)

lemma fst_update_returning_Inl:
  "fst (update_returning P f rows) = Inl x \<longleftrightarrow> x = NoRows \<and> (\<forall>r \<in> set rows. \<not> P r)"
  by (auto simp: update_returning_def find_None_all split: option.split dest: find_SomeD)

lemma select_one_Inr: "select_one P rows = Inr r \<Longrightarrow> r \<in> set rows \<and> P r"
  by (auto simp: select_one_def split: option.splits dest: find_SomeD)

lemma select_one_Inl: "select_one P rows = Inl x \<longleftrightarrow> x = NoRows \<and> (\<forall>r \<in> set rows. \<not> P r)"
  by (auto simp: select_one_def find_None_all split: option.split dest: find_SomeD)

definition service_exists :: "db \<Rightarrow> string \<Rightarrow> bool" where
  "service_exists d s \<longleftrightarrow> (\<exists>r \<in> set (t_services d). sv_id r = s)"

definition user_exists :: "db \<Rightarrow> int \<Rightarrow> bool" where
  "user_exists d i \<longleftrightarrow> (\<exists>r \<in> set (t_users d). u_id r = i)"

text \<open>A nullable foreign key: NULL is always accepted.\<close>

definition fk_ok :: "('k \<Rightarrow> bool) \<Rightarrow> 'k option \<Rightarrow> bool" where
  "fk_ok P k \<longleftrightarrow> (case k of None \<Rightarrow> True | Some x \<Rightarrow> P x)"

section \<open>Refresh tokens\<close>

record refresh_params =
  rp_hash :: string
  rp_email :: string
  rp_user :: "int option"
  rp_service :: "string option"
  rp_family :: string
  rp_parent :: "int option"
  rp_created :: string
  rp_expires :: string
  rp_family_expires :: "string option"
  rp_ip :: "string option"
  rp_ua :: "string option"

definition insert_refresh :: "refresh_params \<Rightarrow> db \<Rightarrow> (db_err + unit) \<times> db" where
  "insert_refresh p d =
     (if length (rp_hash p) \<noteq> 64 then (Inl ConstraintViolation, d)
      else if \<exists>r \<in> set (t_refresh d). rt_hash r = rp_hash p then (Inl UniqueViolation, d)
      else if \<not> (fk_ok (service_exists d) (rp_service p) \<and> fk_ok (user_exists d) (rp_user p)
                 \<and> fk_ok (\<lambda>i. \<exists>r \<in> set (t_refresh d). rt_id r = i) (rp_parent p))
      then (Inl ConstraintViolation, d)
      else (Inr (), d\<lparr>t_refresh := t_refresh d @ [
        \<lparr>rt_id = next_rowid (map rt_id (t_refresh d)), rt_hash = rp_hash p, rt_email = rp_email p,
         rt_service = rp_service p, rt_family = rp_family p, rt_parent = rp_parent p,
         rt_created = rp_created p, rt_expires = rp_expires p,
         rt_family_expires = rp_family_expires p, rt_used = 0, rt_revoked = 0, rt_reason = None,
         rt_ip = rp_ip p, rt_ua = rp_ua p, rt_user = rp_user p\<rparr>]\<rparr>))"

definition refresh_live_at :: "string \<Rightarrow> string \<Rightarrow> refresh_row \<Rightarrow> bool" where
  "refresh_live_at h now r \<longleftrightarrow>
     rt_hash r = h \<and> rt_used r = 0 \<and> rt_revoked r = 0 \<and> rt_expires r > now"

definition consume_refresh :: "string \<Rightarrow> string \<Rightarrow> db \<Rightarrow> (db_err + refresh_row) \<times> db" where
  "consume_refresh h now d =
     (case update_returning (refresh_live_at h now) (\<lambda>r. r\<lparr>rt_used := 1\<rparr>) (t_refresh d) of
        (res, rows) \<Rightarrow> (res, d\<lparr>t_refresh := rows\<rparr>))"

definition revoke_family :: "string \<Rightarrow> string \<Rightarrow> db \<Rightarrow> (db_err + unit) \<times> db" where
  "revoke_family reason fam d =
     (Inr (), d\<lparr>t_refresh := upd_where (\<lambda>r. rt_family r = fam \<and> rt_revoked r = 0)
        (\<lambda>r. r\<lparr>rt_revoked := 1, rt_reason := Some reason\<rparr>) (t_refresh d)\<rparr>)"

definition revoke_user_refresh :: "string \<Rightarrow> int \<Rightarrow> db \<Rightarrow> (db_err + nat) \<times> db" where
  "revoke_user_refresh reason uid d =
     (let P = (\<lambda>r. rt_user r = Some uid \<and> rt_revoked r = 0)
      in (Inr (count_where P (t_refresh d)),
          d\<lparr>t_refresh := upd_where P (\<lambda>r. r\<lparr>rt_revoked := 1, rt_reason := Some reason\<rparr>) (t_refresh d)\<rparr>))"

definition get_refresh_child :: "string \<Rightarrow> int \<Rightarrow> db \<Rightarrow> db_err + string" where
  "get_refresh_child fam pid d =
     (case select_one (\<lambda>r. rt_family r = fam \<and> rt_parent r = Some pid) (t_refresh d) of
        Inl x \<Rightarrow> Inl x | Inr r \<Rightarrow> Inr (rt_created r))"

definition get_refresh_by_hash :: "string \<Rightarrow> db \<Rightarrow> db_err + refresh_row" where
  "get_refresh_by_hash h d = select_one (\<lambda>r. rt_hash r = h) (t_refresh d)"

text \<open>The parent reference of a surviving child of a deleted row becomes NULL (ON DELETE SET NULL).\<close>

definition delete_expired_refresh :: "string \<Rightarrow> string \<Rightarrow> db \<Rightarrow> (db_err + unit) \<times> db" where
  "delete_expired_refresh e f d =
     (let P = (\<lambda>r. rt_expires r < e \<and>
                 (case rt_family_expires r of None \<Rightarrow> True | Some x \<Rightarrow> x < f));
          gone = map rt_id (filter P (t_refresh d))
      in (Inr (), d\<lparr>t_refresh :=
            upd_where (\<lambda>r. \<exists>i \<in> set gone. rt_parent r = Some i) (\<lambda>r. r\<lparr>rt_parent := None\<rparr>)
              (delete_where P (t_refresh d))\<rparr>))"

definition count_refresh :: "db \<Rightarrow> db_err + nat" where
  "count_refresh d = Inr (length (t_refresh d))"

section \<open>Authorization codes\<close>

record code_params =
  cp_code :: string
  cp_service :: string
  cp_email :: string
  cp_user :: "int option"
  cp_redirect :: string
  cp_scope :: "string option"
  cp_nonce :: "string option"
  cp_challenge :: string
  cp_method :: string
  cp_created :: string
  cp_expires :: string

definition insert_code :: "code_params \<Rightarrow> db \<Rightarrow> (db_err + unit) \<times> db" where
  "insert_code p d =
     (if \<exists>r \<in> set (t_codes d). ac_code r = cp_code p then (Inl UniqueViolation, d)
      else if \<not> (service_exists d (cp_service p) \<and> fk_ok (user_exists d) (cp_user p))
      then (Inl ConstraintViolation, d)
      else (Inr (), d\<lparr>t_codes := t_codes d @ [
        \<lparr>ac_id = next_rowid (map ac_id (t_codes d)), ac_code = cp_code p, ac_service = cp_service p,
         ac_email = cp_email p, ac_redirect = cp_redirect p, ac_scope = cp_scope p,
         ac_nonce = cp_nonce p, ac_challenge = cp_challenge p, ac_method = cp_method p,
         ac_created = cp_created p, ac_expires = cp_expires p, ac_used = 0, ac_family = None,
         ac_user = cp_user p\<rparr>]\<rparr>))"

record code_claim =
  cc_hash :: string
  cc_service :: string
  cc_redirect :: string
  cc_challenge :: string
  cc_now :: string

definition code_claimable :: "code_claim \<Rightarrow> code_row \<Rightarrow> bool" where
  "code_claimable c r \<longleftrightarrow>
     ac_code r = cc_hash c \<and> ac_service r = cc_service c \<and> ac_redirect r = cc_redirect c \<and>
     ac_challenge r = cc_challenge c \<and> ac_method r = ''S256'' \<and> ac_used r = 0 \<and>
     ac_expires r > cc_now c"

definition consume_code :: "string \<Rightarrow> code_claim \<Rightarrow> db \<Rightarrow> (db_err + code_row) \<times> db" where
  "consume_code fam c d =
     (case update_returning (code_claimable c) (\<lambda>r. r\<lparr>ac_used := 1, ac_family := Some fam\<rparr>) (t_codes d) of
        (res, rows) \<Rightarrow> (res, d\<lparr>t_codes := rows\<rparr>))"

definition get_code_by_hash :: "string \<Rightarrow> db \<Rightarrow> db_err + code_row" where
  "get_code_by_hash h d = select_one (\<lambda>r. ac_code r = h) (t_codes d)"

definition delete_expired_codes :: "string \<Rightarrow> db \<Rightarrow> (db_err + unit) \<times> db" where
  "delete_expired_codes e d = (Inr (), d\<lparr>t_codes := delete_where (\<lambda>r. ac_expires r < e) (t_codes d)\<rparr>)"

section \<open>Magic-link tokens\<close>

record magic_params =
  mp_token :: string
  mp_email :: string
  mp_service :: "string option"
  mp_redirect :: "string option"
  mp_purpose :: string
  mp_created :: string
  mp_expires :: string
  mp_window_start :: string

definition magic_in_window :: "string \<Rightarrow> string \<Rightarrow> string \<Rightarrow> magic_row \<Rightarrow> bool" where
  "magic_in_window email purpose ws r \<longleftrightarrow>
     mt_email r = email \<and> mt_purpose r = purpose \<and> mt_created r > ws"

definition insert_magic_limited :: "magic_params \<Rightarrow> db \<Rightarrow> (db_err + nat) \<times> db" where
  "insert_magic_limited p d =
     (if \<not> count_where (magic_in_window (mp_email p) (mp_purpose p) (mp_window_start p)) (t_magic d) < 3
      then (Inr 0, d)
      else if mp_purpose p \<notin> {''service'', ''admin''} then (Inl ConstraintViolation, d)
      else if \<exists>r \<in> set (t_magic d). mt_token r = mp_token p then (Inl UniqueViolation, d)
      else if \<not> fk_ok (service_exists d) (mp_service p) then (Inl ConstraintViolation, d)
      else (Inr 1, d\<lparr>t_magic := t_magic d @ [
        \<lparr>mt_id = next_rowid (map mt_id (t_magic d)), mt_token = mp_token p, mt_email = mp_email p,
         mt_service = mp_service p, mt_redirect = mp_redirect p, mt_created = mp_created p,
         mt_expires = mp_expires p, mt_used = 0, mt_purpose = mp_purpose p\<rparr>]\<rparr>))"

definition magic_live_at :: "string \<Rightarrow> string \<Rightarrow> string \<Rightarrow> magic_row \<Rightarrow> bool" where
  "magic_live_at h purpose now r \<longleftrightarrow>
     mt_token r = h \<and> mt_purpose r = purpose \<and> mt_used r = 0 \<and> mt_expires r > now"

definition get_valid_magic :: "string \<Rightarrow> string \<Rightarrow> string \<Rightarrow> db \<Rightarrow> db_err + magic_row" where
  "get_valid_magic h purpose now d = select_one (magic_live_at h purpose now) (t_magic d)"

definition consume_magic :: "string \<Rightarrow> string \<Rightarrow> string \<Rightarrow> db \<Rightarrow> (db_err + magic_row) \<times> db" where
  "consume_magic h purpose now d =
     (case update_returning (magic_live_at h purpose now) (\<lambda>r. r\<lparr>mt_used := 1\<rparr>) (t_magic d) of
        (res, rows) \<Rightarrow> (res, d\<lparr>t_magic := rows\<rparr>))"

definition burn_magic :: "string \<Rightarrow> string \<Rightarrow> string \<Rightarrow> db \<Rightarrow> (db_err + nat) \<times> db" where
  "burn_magic old_email new_email now d =
     (let P = (\<lambda>r. mt_email r \<in> {old_email, new_email} \<and> mt_used r = 0 \<and> mt_expires r > now)
      in (Inr (count_where P (t_magic d)),
          d\<lparr>t_magic := upd_where P (\<lambda>r. r\<lparr>mt_used := 1\<rparr>) (t_magic d)\<rparr>))"

definition delete_expired_magic :: "string \<Rightarrow> string \<Rightarrow> db \<Rightarrow> (db_err + unit) \<times> db" where
  "delete_expired_magic e1 e2 d =
     (Inr (), d\<lparr>t_magic :=
        delete_where (\<lambda>r. mt_used r = 1 \<and> mt_expires r < e1 \<or> mt_expires r < e2) (t_magic d)\<rparr>)"

section \<open>Link invitations\<close>

record invite_params =
  vp_hash :: string
  vp_user :: int
  vp_provider :: int
  vp_service :: string
  vp_email :: string
  vp_created_by :: string
  vp_created :: string
  vp_expires :: string
  vp_window_start :: string

definition invite_in_window :: "int \<Rightarrow> string \<Rightarrow> invite_row \<Rightarrow> bool" where
  "invite_in_window uid ws r \<longleftrightarrow> li_user r = uid \<and> li_created r > ws"

definition insert_invite_limited :: "invite_params \<Rightarrow> db \<Rightarrow> (db_err + nat) \<times> db" where
  "insert_invite_limited p d =
     (if \<not> count_where (invite_in_window (vp_user p) (vp_window_start p)) (t_invites d) < 5
      then (Inr 0, d)
      else if \<exists>r \<in> set (t_invites d). li_hash r = vp_hash p then (Inl UniqueViolation, d)
      else if \<not> (user_exists d (vp_user p) \<and> service_exists d (vp_service p)
                 \<and> (\<exists>r \<in> set (t_providers d). ip_id r = vp_provider p))
      then (Inl ConstraintViolation, d)
      else (let i = max (t_invite_seq d + 1) (next_rowid (map li_id (t_invites d)))
            in (Inr 1, d\<lparr>t_invite_seq := i, t_invites := t_invites d @ [
              \<lparr>li_id = i, li_hash = vp_hash p, li_user = vp_user p, li_provider = vp_provider p,
               li_service = vp_service p, li_email = vp_email p, li_created_by = vp_created_by p,
               li_created = vp_created p, li_expires = vp_expires p, li_used_at = None\<rparr>]\<rparr>)))"

definition burn_invites_where :: "(invite_row \<Rightarrow> bool) \<Rightarrow> string \<Rightarrow> db \<Rightarrow> (db_err + nat) \<times> db" where
  "burn_invites_where P now d =
     (let Q = (\<lambda>r. P r \<and> li_used_at r = None)
      in (Inr (count_where Q (t_invites d)),
          d\<lparr>t_invites := upd_where Q (\<lambda>r. r\<lparr>li_used_at := Some now\<rparr>) (t_invites d)\<rparr>))"

definition burn_invites :: "string \<Rightarrow> int \<Rightarrow> int \<Rightarrow> db \<Rightarrow> (db_err + nat) \<times> db" where
  "burn_invites now uid pid = burn_invites_where (\<lambda>r. li_user r = uid \<and> li_provider r = pid) now"

definition burn_invites_for_user :: "string \<Rightarrow> int \<Rightarrow> db \<Rightarrow> (db_err + nat) \<times> db" where
  "burn_invites_for_user now uid = burn_invites_where (\<lambda>r. li_user r = uid) now"

definition revoke_invite :: "string \<Rightarrow> int \<Rightarrow> int \<Rightarrow> db \<Rightarrow> (db_err + nat) \<times> db" where
  "revoke_invite now i uid = burn_invites_where (\<lambda>r. li_id r = i \<and> li_user r = uid) now"

definition get_valid_invite :: "string \<Rightarrow> string \<Rightarrow> db \<Rightarrow> db_err + invite_row" where
  "get_valid_invite h now d =
     select_one (\<lambda>r. li_hash r = h \<and> li_used_at r = None \<and> li_expires r > now) (t_invites d)"

definition get_invite_by_id :: "int \<Rightarrow> db \<Rightarrow> db_err + invite_row" where
  "get_invite_by_id i d = select_one (\<lambda>r. li_id r = i) (t_invites d)"

definition invite_claimable :: "string \<Rightarrow> int \<Rightarrow> int \<Rightarrow> string \<Rightarrow> invite_row \<Rightarrow> bool" where
  "invite_claimable now i pid svc r \<longleftrightarrow>
     li_id r = i \<and> li_provider r = pid \<and> li_service r = svc \<and> li_used_at r = None \<and> li_expires r > now"

definition consume_invite :: "string \<Rightarrow> int \<Rightarrow> int \<Rightarrow> string \<Rightarrow> db \<Rightarrow> (db_err + invite_row) \<times> db" where
  "consume_invite now i pid svc d =
     (case update_returning (invite_claimable now i pid svc) (\<lambda>r. r\<lparr>li_used_at := Some now\<rparr>) (t_invites d) of
        (res, rows) \<Rightarrow> (res, d\<lparr>t_invites := rows\<rparr>))"

definition list_active_invites :: "int \<Rightarrow> string \<Rightarrow> db \<Rightarrow> db_err + invite_row list" where
  "list_active_invites uid now d =
     Inr (sort_key li_id
       (filter (\<lambda>r. li_user r = uid \<and> li_used_at r = None \<and> li_expires r > now) (t_invites d)))"

definition delete_expired_invites :: "string \<Rightarrow> db \<Rightarrow> (db_err + unit) \<times> db" where
  "delete_expired_invites cutoff d =
     (Inr (), d\<lparr>t_invites := delete_where (\<lambda>r. li_expires r < cutoff) (t_invites d)\<rparr>)"

lemma snd_consume_refresh [sql_simps]:
  "snd (consume_refresh h now d) =
     d\<lparr>t_refresh := upd_where (refresh_live_at h now) (\<lambda>r. r\<lparr>rt_used := 1\<rparr>) (t_refresh d)\<rparr>"
  by (simp add: consume_refresh_def case_prod_unfold)

lemma fst_consume_refresh [sql_simps]:
  "fst (consume_refresh h now d) =
     fst (update_returning (refresh_live_at h now) (\<lambda>r. r\<lparr>rt_used := 1\<rparr>) (t_refresh d))"
  by (simp add: consume_refresh_def case_prod_unfold)

lemma snd_consume_code [sql_simps]:
  "snd (consume_code fam c d) =
     d\<lparr>t_codes := upd_where (code_claimable c) (\<lambda>r. r\<lparr>ac_used := 1, ac_family := Some fam\<rparr>) (t_codes d)\<rparr>"
  by (simp add: consume_code_def case_prod_unfold)

lemma fst_consume_code [sql_simps]:
  "fst (consume_code fam c d) =
     fst (update_returning (code_claimable c) (\<lambda>r. r\<lparr>ac_used := 1, ac_family := Some fam\<rparr>) (t_codes d))"
  by (simp add: consume_code_def case_prod_unfold)

lemma snd_consume_magic [sql_simps]:
  "snd (consume_magic h purpose now d) =
     d\<lparr>t_magic := upd_where (magic_live_at h purpose now) (\<lambda>r. r\<lparr>mt_used := 1\<rparr>) (t_magic d)\<rparr>"
  by (simp add: consume_magic_def case_prod_unfold)

lemma fst_consume_magic [sql_simps]:
  "fst (consume_magic h purpose now d) =
     fst (update_returning (magic_live_at h purpose now) (\<lambda>r. r\<lparr>mt_used := 1\<rparr>) (t_magic d))"
  by (simp add: consume_magic_def case_prod_unfold)

lemma snd_consume_invite [sql_simps]:
  "snd (consume_invite now i pid svc d) =
     d\<lparr>t_invites := upd_where (invite_claimable now i pid svc) (\<lambda>r. r\<lparr>li_used_at := Some now\<rparr>) (t_invites d)\<rparr>"
  by (simp add: consume_invite_def case_prod_unfold)

lemma fst_consume_invite [sql_simps]:
  "fst (consume_invite now i pid svc d) =
     fst (update_returning (invite_claimable now i pid svc) (\<lambda>r. r\<lparr>li_used_at := Some now\<rparr>) (t_invites d))"
  by (simp add: consume_invite_def case_prod_unfold)

end
