(* ===== verification/UserStore.thy ===== *)
theory UserStore
  imports TokenStore
begin

text \<open>
  The SQL statements on users, their federated identities, the audit log and the services
  (\<open>internal/db/gen/users.sql.go\<close>, \<open>user_identities.sql.go\<close>, \<open>audit_events.sql.go\<close>,
  \<open>services.sql.go\<close>), with the constraints of the migrations: an address is unique both as it
  is and after \<open>lower(trim(email))\<close>, an identity is unique by \<open>(issuer, subject)\<close>, and a row of
  provider \<open>oidc\<close> or \<open>github\<close> can never carry \<open>admin_ok = 1\<close>.
\<close>

section \<open>Users\<close>

text \<open>SQLite's \<open>lower(trim(s))\<close>: only blanks are trimmed, only ASCII letters are folded.\<close>

definition sql_norm :: "string \<Rightarrow> string" where
  "sql_norm s = map ascii_lower_char
     (rev (dropWhile (\<lambda>c. c = CHR '' '') (rev (dropWhile (\<lambda>c. c = CHR '' '') s))))"

definition email_taken :: "string \<Rightarrow> user_row list \<Rightarrow> bool" where
  "email_taken email rows \<longleftrightarrow> (\<exists>r \<in> set rows. u_email r = email \<or> sql_norm (u_email r) = sql_norm email)"

definition user_active :: "user_row \<Rightarrow> bool" where
  "user_active r \<longleftrightarrow> u_deactivated r = None"

record user_params =
  up_public_id :: string
  up_email :: string
  up_password_hash :: "string option"
  up_name :: "string option"
  up_roles :: string
  up_orgs :: string
  up_created :: string

definition create_user :: "user_params \<Rightarrow> db \<Rightarrow> (db_err + user_row) \<times> db" where
  "create_user p d =
     (if email_taken (up_email p) (t_users d) \<or> (\<exists>r \<in> set (t_users d). u_public_id r = up_public_id p)
      then (Inl UniqueViolation, d)
      else (let r = \<lparr>u_id = next_rowid (map u_id (t_users d)), u_email = up_email p,
                     u_password_hash = up_password_hash p, u_name = up_name p, u_roles = up_roles p,
                     u_orgs = up_orgs p, u_created = up_created p, u_last_login = None,
                     u_deactivated = None, u_public_id = up_public_id p, u_email_changed = None,
                     u_admin_bound = None\<rparr>
            in (Inr r, d\<lparr>t_users := t_users d @ [r]\<rparr>)))"

definition get_user_by_email :: "string \<Rightarrow> db \<Rightarrow> db_err + user_row" where
  "get_user_by_email email d = select_one (\<lambda>r. u_email r = email) (t_users d)"

definition get_active_user_by_email :: "string \<Rightarrow> db \<Rightarrow> db_err + user_row" where
  "get_active_user_by_email email d = select_one (\<lambda>r. u_email r = email \<and> user_active r) (t_users d)"

definition get_active_user_by_public_id :: "string \<Rightarrow> db \<Rightarrow> db_err + user_row" where
  "get_active_user_by_public_id p d = select_one (\<lambda>r. u_public_id r = p \<and> user_active r) (t_users d)"

definition get_user_by_id :: "int \<Rightarrow> db \<Rightarrow> db_err + user_row" where
  "get_user_by_id i d = select_one (\<lambda>r. u_id r = i) (t_users d)"

definition get_active_user_by_id :: "int \<Rightarrow> db \<Rightarrow> db_err + user_row" where
  "get_active_user_by_id i d = select_one (\<lambda>r. u_id r = i \<and> user_active r) (t_users d)"

definition update_last_login :: "string \<Rightarrow> int \<Rightarrow> db \<Rightarrow> (db_err + unit) \<times> db" where
  "update_last_login now i d =
     (Inr (), d\<lparr>t_users := upd_where (\<lambda>r. u_id r = i) (\<lambda>r. r\<lparr>u_last_login := Some now\<rparr>) (t_users d)\<rparr>)"

text \<open>The old address is part of the predicate; a collision with another user's address aborts.\<close>

definition update_user_email ::
  "string \<Rightarrow> string \<Rightarrow> int \<Rightarrow> string \<Rightarrow> db \<Rightarrow> (db_err + nat) \<times> db" where
  "update_user_email new_email changed_at i old_email d =
     (let P = (\<lambda>r. u_id r = i \<and> u_email r = old_email); n = count_where P (t_users d)
      in if 0 < n \<and> email_taken new_email (filter (\<lambda>r. \<not> P r) (t_users d))
         then (Inl UniqueViolation, d)
         else (Inr n, d\<lparr>t_users := upd_where P
                (\<lambda>r. r\<lparr>u_email := new_email, u_email_changed := Some changed_at\<rparr>) (t_users d)\<rparr>))"

definition bind_admin :: "string \<Rightarrow> int \<Rightarrow> db \<Rightarrow> (db_err + nat) \<times> db" where
  "bind_admin now i d =
     (let P = (\<lambda>r. u_id r = i \<and> u_admin_bound r = None)
      in (Inr (count_where P (t_users d)),
          d\<lparr>t_users := upd_where P (\<lambda>r. r\<lparr>u_admin_bound := Some now\<rparr>) (t_users d)\<rparr>))"

definition update_user :: "string option \<Rightarrow> string \<Rightarrow> string \<Rightarrow> int \<Rightarrow> db \<Rightarrow> (db_err + unit) \<times> db" where
  "update_user name roles orgs i d =
     (Inr (), d\<lparr>t_users := upd_where (\<lambda>r. u_id r = i)
        (\<lambda>r. r\<lparr>u_name := name, u_roles := roles, u_orgs := orgs\<rparr>) (t_users d)\<rparr>)"

definition deactivate_user :: "string \<Rightarrow> int \<Rightarrow> db \<Rightarrow> (db_err + string) \<times> db" where
  "deactivate_user now i d =
     (case update_returning (\<lambda>r. u_id r = i) (\<lambda>r. r\<lparr>u_deactivated := Some now\<rparr>) (t_users d) of
        (res, rows) \<Rightarrow> (map_sum id u_email res, d\<lparr>t_users := rows\<rparr>))"

text \<open>\<open>LIMIT ? OFFSET ?\<close>: a negative limit means all rows, a negative offset none skipped.\<close>

definition sql_page :: "int \<Rightarrow> int \<Rightarrow> 'r list \<Rightarrow> 'r list" where
  "sql_page limit off rows =
     (let rest = drop (nat off) rows in if limit < 0 then rest else take (nat limit) rest)"

definition list_users :: "int \<Rightarrow> int \<Rightarrow> db \<Rightarrow> db_err + user_row list" where
  "list_users limit off d = Inr (sql_page limit off (sort_key u_email (t_users d)))"

definition count_users :: "db \<Rightarrow> db_err + nat" where
  "count_users d = Inr (length (t_users d))"

section \<open>Identities\<close>

record identity_params =
  dp_user :: int
  dp_provider :: string
  dp_issuer :: string
  dp_subject :: string
  dp_email :: "string option"
  dp_created :: string
  dp_last_used :: "string option"

definition known_provider :: "string \<Rightarrow> bool" where
  "known_provider p \<longleftrightarrow> p \<in> {''google'', ''microsoft'', ''oidc'', ''github''}"

definition get_identity :: "string \<Rightarrow> string \<Rightarrow> db \<Rightarrow> db_err + identity_row" where
  "get_identity issuer subject d =
     select_one (\<lambda>r. ui_issuer r = issuer \<and> ui_subject r = subject) (t_identities d)"

definition insert_identity :: "identity_params \<Rightarrow> db \<Rightarrow> (db_err + nat) \<times> db" where
  "insert_identity p d =
     (if \<not> known_provider (dp_provider p) then (Inl ConstraintViolation, d)
      else if \<exists>r \<in> set (t_identities d). ui_issuer r = dp_issuer p \<and> ui_subject r = dp_subject p
      then (Inr 0, d)
      else if \<not> user_exists d (dp_user p) then (Inl ConstraintViolation, d)
      else (Inr 1, d\<lparr>t_identities := t_identities d @ [
        \<lparr>ui_id = next_rowid (map ui_id (t_identities d)), ui_user = dp_user p,
         ui_provider = dp_provider p, ui_issuer = dp_issuer p, ui_subject = dp_subject p,
         ui_email = dp_email p, ui_created = dp_created p, ui_last_used = dp_last_used p,
         ui_admin_ok = 0\<rparr>]\<rparr>))"

definition has_identity :: "int \<Rightarrow> db \<Rightarrow> db_err + bool" where
  "has_identity uid d = Inr (\<exists>r \<in> set (t_identities d). ui_user r = uid)"

definition link_identity_if_first :: "identity_params \<Rightarrow> db \<Rightarrow> (db_err + nat) \<times> db" where
  "link_identity_if_first p d =
     (if \<exists>r \<in> set (t_identities d). ui_user r = dp_user p then (Inr 0, d)
      else insert_identity p d)"

definition update_identity_seen ::
  "string option \<Rightarrow> string \<Rightarrow> int \<Rightarrow> db \<Rightarrow> (db_err + unit) \<times> db" where
  "update_identity_seen email now i d =
     (Inr (), d\<lparr>t_identities := upd_where (\<lambda>r. ui_id r = i)
        (\<lambda>r. r\<lparr>ui_email := email, ui_last_used := Some now\<rparr>) (t_identities d)\<rparr>)"

definition list_identities :: "int \<Rightarrow> db \<Rightarrow> db_err + identity_row list" where
  "list_identities uid d =
     Inr (sort_key ui_created (sort_key ui_id (filter (\<lambda>r. ui_user r = uid) (t_identities d))))"

definition delete_identity :: "int \<Rightarrow> int \<Rightarrow> db \<Rightarrow> (db_err + (string \<times> string \<times> int)) \<times> db" where
  "delete_identity i uid d =
     (let P = (\<lambda>r. ui_id r = i \<and> ui_user r = uid)
      in (map_sum id (\<lambda>r. (ui_provider r, ui_issuer r, ui_admin_ok r)) (select_one P (t_identities d)),
          d\<lparr>t_identities := delete_where P (t_identities d)\<rparr>))"

definition set_admin_ok :: "int \<Rightarrow> int \<Rightarrow> string \<Rightarrow> db \<Rightarrow> (db_err + nat) \<times> db" where
  "set_admin_ok i uid bound_at d =
     (let P = (\<lambda>r. ui_id r = i \<and> ui_user r = uid \<and>
                (\<exists>u \<in> set (t_users d). u_id u = ui_user r \<and> u_admin_bound u = Some bound_at))
      in if \<exists>r \<in> set (t_identities d). P r \<and> ui_provider r \<in> {''oidc'', ''github''}
         then (Inl ConstraintViolation, d)
         else (Inr (count_where P (t_identities d)),
               d\<lparr>t_identities := upd_where P (\<lambda>r. r\<lparr>ui_admin_ok := 1\<rparr>) (t_identities d)\<rparr>))"

section \<open>The audit log\<close>

record audit_params =
  ap_type :: string
  ap_method :: "string option"
  ap_email :: "string option"
  ap_service :: "string option"
  ap_ip :: "string option"
  ap_ua :: "string option"
  ap_success :: int
  ap_details :: "string option"
  ap_created :: string

definition insert_audit :: "audit_params \<Rightarrow> db \<Rightarrow> (db_err + unit) \<times> db" where
  "insert_audit p d =
     (Inr (), d\<lparr>t_audit := t_audit d @ [
        \<lparr>ae_id = next_rowid (map ae_id (t_audit d)), ae_type = ap_type p, ae_method = ap_method p,
         ae_email = ap_email p, ae_service = ap_service p, ae_ip = ap_ip p, ae_ua = ap_ua p,
         ae_success = ap_success p, ae_details = ap_details p, ae_created = ap_created p\<rparr>]\<rparr>)"

definition delete_old_audit :: "string \<Rightarrow> db \<Rightarrow> (db_err + unit) \<times> db" where
  "delete_old_audit cutoff d =
     (Inr (), d\<lparr>t_audit := delete_where (\<lambda>r. ae_created r < cutoff) (t_audit d)\<rparr>)"

definition count_audit :: "db \<Rightarrow> db_err + nat" where
  "count_audit d = Inr (length (t_audit d))"

section \<open>Services\<close>

definition service_active :: "service_row \<Rightarrow> bool" where
  "service_active s \<longleftrightarrow> sv_active s = 1"

definition get_service_by_id :: "string \<Rightarrow> db \<Rightarrow> db_err + service_row" where
  "get_service_by_id i d = select_one (\<lambda>s. sv_id s = i \<and> service_active s) (t_services d)"

definition get_service_by_auth_host :: "string \<Rightarrow> db \<Rightarrow> db_err + service_row" where
  "get_service_by_auth_host h d = select_one (\<lambda>s. sv_auth_host s = Some h \<and> service_active s) (t_services d)"

definition get_default_service :: "db \<Rightarrow> db_err + service_row" where
  "get_default_service d = select_one (\<lambda>s. sv_is_default s = 1 \<and> service_active s) (t_services d)"

definition list_active_services :: "db \<Rightarrow> db_err + service_row list" where
  "list_active_services d = Inr (sort_key sv_display_name (filter service_active (t_services d)))"

definition list_all_services :: "db \<Rightarrow> db_err + service_row list" where
  "list_all_services d = Inr (sort_key sv_display_name (t_services d))"

text \<open>
  The CHECK constraints of migrations 010, 014 and 015 and the unique columns of 001: the id,
  the domain, a non-NULL \<open>auth_host\<close>, and at most one row with \<open>is_default = 1\<close>.  A \<open>GLOB\<close>
  pattern demands one character of the class after the prefix, and only such characters.
\<close>

definition env_name_char :: "char \<Rightarrow> bool" where
  "env_name_char c \<longleftrightarrow> CHR ''A'' \<le> c \<and> c \<le> CHR ''Z'' \<or> is_digit c \<or> c = CHR ''_''"

definition secret_env_check :: "string option \<Rightarrow> bool" where
  "secret_env_check v \<longleftrightarrow>
     (case v of
        None \<Rightarrow> True
      | Some s \<Rightarrow> list_all env_name_char s \<and>
          (case cut_prefix s ''KAUTH_SVC_'' of Some (_ # _) \<Rightarrow> True | _ \<Rightarrow> False))"

definition service_check :: "service_row \<Rightarrow> bool" where
  "service_check s \<longleftrightarrow>
     sv_sub_format s \<in> {''email'', ''id''} \<and> sv_auto_link s \<in> {0, 1} \<and> sv_auth_github s \<in> {0, 1} \<and>
     secret_env_check (sv_google_secret_env s) \<and> secret_env_check (sv_microsoft_secret_env s) \<and>
     secret_env_check (sv_github_secret_env s)"

definition service_clash :: "service_row \<Rightarrow> service_row \<Rightarrow> bool" where
  "service_clash s r \<longleftrightarrow>
     sv_id s = sv_id r \<or> sv_domain s = sv_domain r \<or>
     sv_auth_host s \<noteq> None \<and> sv_auth_host s = sv_auth_host r \<or>
     sv_is_default s = 1 \<and> sv_is_default r = 1"

definition create_service :: "service_row \<Rightarrow> db \<Rightarrow> (db_err + unit) \<times> db" where
  "create_service s d =
     (if \<not> service_check s then (Inl ConstraintViolation, d)
      else if \<exists>r \<in> set (t_services d). service_clash s r then (Inl UniqueViolation, d)
      else (Inr (), d\<lparr>t_services := t_services d @ [s]\<rparr>))"

definition update_service :: "service_row \<Rightarrow> db \<Rightarrow> (db_err + unit) \<times> db" where
  "update_service s d =
     (if \<not> (\<exists>r \<in> set (t_services d). sv_id r = sv_id s) then (Inr (), d)
      else if \<not> service_check s then (Inl ConstraintViolation, d)
      else if \<exists>r \<in> set (t_services d). sv_id r \<noteq> sv_id s \<and> service_clash s r then (Inl UniqueViolation, d)
      else (Inr (), d\<lparr>t_services := upd_where (\<lambda>r. sv_id r = sv_id s) (\<lambda>_. s) (t_services d)\<rparr>))"

end
