(* ===== verification/Samples.thy ===== *)
theory Samples
  imports UserStore
begin

text \<open>
  A small concrete world on which the theorems with hypotheses are instantiated: one service,
  one user, a clock that stands still, a random source that never fails and toy versions of
  the external functions.  Nothing is proved about the program here.
\<close>

definition noon :: instant where
  "noon = 1700000000 * second"

definition demo_url :: "string \<Rightarrow> url option" where
  "demo_url s =
     (case cut_prefix s ''https://'' of
        None \<Rightarrow> None
      | Some r \<Rightarrow> (let h = takeWhile (\<lambda>c. c \<noteq> CHR ''/'') r
                  in Some \<lparr>ul_scheme = ''https'', ul_host = h, ul_hostname = h, ul_has_user = False,
                           ul_path = dropWhile (\<lambda>c. c \<noteq> CHR ''/'') r, ul_raw_query = [],
                           ul_force_query = False, ul_opaque = [], ul_fragment = []\<rparr>))"

definition demo_claims :: claims where
  "demo_claims = \<lparr>c_jti = ''j'', c_iss = ''https://login.x.no'', c_sub = ''ada@x.no'', c_aud = [''app''],
     c_iat = Some 1700000000, c_nbf = Some 1700000000, c_exp = Some 1700000900, c_email = ''ada@x.no'',
     c_org = [], c_groups = [], c_name = [], c_use = ''access'', c_nonce = []\<rparr>"

definition demo_env :: env where
  "demo_env = \<lparr>e_clock = (\<lambda>_. noon), e_rand = (\<lambda>i n. Some (replicate n (char_of (65 + i)))),
     e_fault = (\<lambda>_. False), e_cancel = (\<lambda>_. False),
     e_sha256 = (\<lambda>s. take 32 (s @ replicate 32 (CHR ''0''))), e_hmac = (\<lambda>k m. take 32 (m @ k)),
     e_lower = map ascii_lower_char, e_fold = (\<lambda>s t. s = t), e_upper = (\<lambda>s. s), e_url_parse = demo_url,
     e_url_with_query = (\<lambda>u q. u @ ''?'' @ q), e_parse_float = (\<lambda>_. None),
     e_quote = (\<lambda>s. s), e_bcrypt = (\<lambda>h p. h = p), e_bcrypt_hash = (\<lambda>_ p. Some p),
     e_jwt_sign = (\<lambda>kid sk c. Some ''tok''),
     e_jwt_decode = (\<lambda>s. if s = ''tok'' then Some (\<lparr>jh_alg = ''RS256'', jh_kid = KidString ''kauth-1''\<rparr>, demo_claims)
                         else None),
     e_jwt_sig_ok = (\<lambda>s k. pk_n k = 7), e_jwt_valid = (\<lambda>now iss c. c_iss c = iss \<and> (case c_exp c of None \<Rightarrow> False | Some x \<Rightarrow> unix now < x)),
     e_getenv = (\<lambda>_. []), e_insecure_cookies = False\<rparr>"

definition demo_service :: service_row where
  "demo_service = \<lparr>sv_id = ''app'', sv_display_name = ''App'', sv_tagline = None, sv_domain = ''app.x.no'',
     sv_auth_host = Some ''login.x.no'', sv_callback = ''https://app.x.no/cb'', sv_logo_html = None,
     sv_bg_image = None, sv_bg_css = None, sv_theme = ''light'', sv_accent = ''#000000'',
     sv_email_from_name = ''App'', sv_auto_register = 0, sv_default_role = None, sv_default_org = None,
     sv_require_role = None, sv_enforce_org = 0, sv_is_default = 1, sv_auth_google = 1,
     sv_auth_microsoft = 0, sv_auth_magic = 1, sv_auth_password = 1, sv_google_client_id = None,
     sv_google_client_secret = None, sv_microsoft_client_id = None, sv_microsoft_client_secret = None,
     sv_cookie_name = ''auth_token'', sv_access_ttl = ''PT15M'', sv_refresh_max_age = Some ''P90D'',
     sv_active = 1, sv_updated = ''2023-01-01T00:00:00Z'', sv_email_from_address = None,
     sv_sub_format = ''email'', sv_auto_link = 1, sv_google_secret_env = None,
     sv_microsoft_secret_env = None, sv_auth_github = 0, sv_github_client_id = None,
     sv_github_secret_env = None\<rparr>"

definition demo_user :: user_row where
  "demo_user = \<lparr>u_id = 1, u_email = ''ada@x.no'', u_password_hash = None, u_name = Some ''Ada'',
     u_roles = ''bruker'', u_orgs = ''x'', u_created = ''2023-01-01T00:00:00Z'', u_last_login = None,
     u_deactivated = None, u_public_id = ''p1'', u_email_changed = None, u_admin_bound = None\<rparr>"

definition demo_provider :: provider_row where
  "demo_provider = \<lparr>ip_id = 3, ip_slug = ''idp'', ip_display_name = ''IdP'', ip_issuer = ''https://idp.x.no'',
     ip_client_id = ''c'', ip_client_secret_env = None, ip_scopes = ''openid'', ip_trust_email = 0,
     ip_email_domains = [], ip_active = 1, ip_created = ''2023-01-01T00:00:00Z''\<rparr>"

definition demo_db :: db where
  "demo_db = \<lparr>t_services = [demo_service], t_users = [demo_user], t_identities = [], t_refresh = [],
     t_codes = [], t_magic = [], t_invites = [], t_invite_seq = 0, t_providers = [demo_provider],
     t_assign = [], t_audit = []\<rparr>"

definition demo_world :: world where
  "demo_world = \<lparr>w_db = demo_db, w_audit = [], w_cookies = [], w_headers = [], w_mails = [], w_step = 0\<rparr>"

lemmas demo_defs = demo_world_def demo_db_def demo_user_def demo_service_def demo_provider_def demo_env_def

lemma quiet_demo [simp]: "quiet demo_env"
  by (simp add: quiet_def demo_env_def)

end
