(* ===== verification/TokenUtil.thy ===== *)
theory TokenUtil
  imports Samples "HOL-Library.Word"
begin

text \<open>
  The small functions of \<open>internal/token\<close>: e-mail normalisation (\<open>email.go\<close>), the hash of a
  one-time secret and the purpose check (\<open>opaque.go\<close>), public ids (\<open>ids.go\<close>), invitation tokens
  (\<open>invite.go\<close>), the e-mail epoch (\<open>epoch.go\<close>), and durations and comma-separated lists
  (\<open>issuer.go\<close>).  Bytes are masked as 8-bit words, durations computed in 64-bit words, as the
  code does.
\<close>

unbundle bit_operations_syntax

section \<open>E-mail addresses\<close>

definition normalize_email :: "env \<Rightarrow> string \<Rightarrow> string" where
  "normalize_email e s = to_lower (e_lower e) (trim_space s)"

definition count_char :: "char \<Rightarrow> string \<Rightarrow> nat" where
  "count_char c s = length (filter (\<lambda>x. x = c) s)"

definition valid_email :: "string \<Rightarrow> bool" where
  "valid_email s \<longleftrightarrow>
     \<not> (length s = 0 \<or> length s > 254 \<or> count_char (CHR ''@'') s \<noteq> 1) \<and>
     \<not> (hd s = CHR ''@'' \<or> last s = CHR ''@'') \<and>
     list_all (\<lambda>c. \<not> (byte c < 0x20 \<or> byte c = 0x7f)) s"

section \<open>One-time secrets\<close>

definition hash_opaque :: "env \<Rightarrow> string \<Rightarrow> string" where
  "hash_opaque e plain = hex_encode (e_sha256 e plain)"

definition check_magic_purpose :: "string \<Rightarrow> string option \<Rightarrow> bool" where
  "check_magic_purpose purpose svc =
     (if purpose = ''admin'' then svc = None
      else if purpose = ''service'' then svc \<noteq> None else False)"

definition link_invite_ttl :: duration where
  "link_invite_ttl = 24 * hour"

definition format_link_invite_time :: "instant \<Rightarrow> string" where
  "format_link_invite_time t = format_utc t"

definition new_link_invite_token :: "env \<Rightarrow> (string \<times> string) option io" where
  "new_link_invite_token e = do {
     b \<leftarrow> rand_read e 32;
     return_io (case b of None \<Rightarrow> None
                | Some b \<Rightarrow> (let plain = b64_encode b in Some (plain, hash_opaque e plain)))
   }"

section \<open>Public ids\<close>

definition mask_byte :: "8 word \<Rightarrow> 8 word \<Rightarrow> char \<Rightarrow> char" where
  "mask_byte keep put c = char_of (unat ((of_nat (byte c) AND keep) OR put))"

definition uuid_text :: "string \<Rightarrow> string" where
  "uuid_text b =
     (let b = b[6 := mask_byte 0x0f 0x40 (b ! 6)]; b = b[8 := mask_byte 0x3f 0x80 (b ! 8)];
          h = hex_encode b
      in take 8 h @ ''-'' @ take 4 (drop 8 h) @ ''-'' @ take 4 (drop 12 h) @ ''-'' @
         take 4 (drop 16 h) @ ''-'' @ drop 20 h)"

definition new_public_id :: "env \<Rightarrow> string option io" where
  "new_public_id e = do { b \<leftarrow> rand_read e 16; return_io (map_option uuid_text b) }"

section \<open>The e-mail epoch\<close>

definition parse_epoch :: "string \<Rightarrow> instant option" where
  "parse_epoch s = (case parse_utc s of Some t \<Rightarrow> Some t | None \<Rightarrow> parse_sqlite s)"

definition email_epoch :: "user_row \<Rightarrow> instant option" where
  "email_epoch u = parse_epoch (case u_email_changed u of None \<Rightarrow> u_created u | Some t \<Rightarrow> t)"

definition issued_after_email_epoch :: "claims option \<Rightarrow> user_row \<Rightarrow> bool" where
  "issued_after_email_epoch c u =
     (case c of None \<Rightarrow> False
      | Some c \<Rightarrow> (case c_iat c of None \<Rightarrow> False
          | Some iat \<Rightarrow> (case email_epoch u of None \<Rightarrow> False
              | Some t \<Rightarrow> iat \<ge> unix t)))"

section \<open>Durations\<close>

definition ascii_upper_char :: "char \<Rightarrow> char" where
  "ascii_upper_char c = (if CHR ''a'' \<le> c \<and> c \<le> CHR ''z'' then char_of (byte c - 32) else c)"

definition to_upper :: "(string \<Rightarrow> string) \<Rightarrow> string \<Rightarrow> string" where
  "to_upper uni s = (if ascii s then map ascii_upper_char s else uni s)"

text \<open>\<open>n = n*10 + int(c-'0')\<close> over a run of digits, in 64 bits.\<close>

definition int64_of_digits :: "string \<Rightarrow> 64 word" where
  "int64_of_digits ds = foldl (\<lambda>n c. n * 10 + of_nat (digit_val c)) 0 ds"

abbreviation dur64 :: "duration \<Rightarrow> 64 word" where
  "dur64 \<equiv> of_int"

text \<open>One round of the loop: the letter \<open>T\<close>, or a number with its unit.\<close>

definition iso_step :: "bool \<Rightarrow> 64 word \<Rightarrow> string \<Rightarrow> (bool \<times> 64 word \<times> string) option" where
  "iso_step in_time acc s =
     (if s \<noteq> [] \<and> hd s = CHR ''T'' then Some (True, acc, tl s)
      else (let ds = takeWhile is_digit s; n = int64_of_digits ds
            in if ds = [] then None
               else case dropWhile is_digit s of
                 [] \<Rightarrow> None
               | u # us \<Rightarrow>
                   if u = CHR ''D'' then Some (in_time, acc + n * 24 * dur64 hour, us)
                   else if u = CHR ''H'' then Some (in_time, if in_time then acc + n * dur64 hour else acc, us)
                   else if u = CHR ''M'' then
                     Some (in_time, if in_time then acc + n * dur64 minute
                                    else acc + n * 30 * 24 * dur64 hour, us)
                   else if u = CHR ''S'' then Some (in_time, acc + n * dur64 second, us)
                   else None))"

lemma iso_step_shorter: "iso_step t acc s = Some (t', acc', r) \<Longrightarrow> length r < length s"
  using length_dropWhile_le [of is_digit s]
  by (cases s) (auto simp: iso_step_def Let_def split: if_splits list.splits)

function iso_loop :: "bool \<Rightarrow> 64 word \<Rightarrow> string \<Rightarrow> 64 word option" where
  "iso_loop in_time acc s =
     (if s = [] then Some acc
      else case iso_step in_time acc s of
        None \<Rightarrow> None
      | Some (t, a, r) \<Rightarrow> iso_loop t a r)"
  by pat_completeness auto
termination
  by (relation "measure (\<lambda>(_, _, s). length s)") (auto dest: iso_step_shorter)

declare iso_loop.simps [simp del]

definition parse_iso8601 :: "(string \<Rightarrow> string) \<Rightarrow> string \<Rightarrow> duration option" where
  "parse_iso8601 upper s =
     (case cut_prefix (to_upper upper (trim_space s)) ''P'' of
        None \<Rightarrow> None
      | Some r \<Rightarrow> map_option sint (iso_loop False 0 r))"

section \<open>Comma-separated lists\<close>

definition split_csv :: "string \<Rightarrow> string list" where
  "split_csv s = filter (\<lambda>t. t \<noteq> []) (map trim_space (split_on (CHR '','') s))"

section \<open>Normalised addresses are fixed points of the index expression\<close>

lemma trim_left_first: "trim_left s = [] \<or> \<not> space1 (hd (trim_left s))"
  by (induction s rule: trim_left.induct) (auto split: list.split)

lemma trim_right_rev_first: "trim_right_rev s = [] \<or> \<not> space1 (hd (trim_right_rev s))"
  by (induction s rule: trim_right_rev.induct) (auto split: list.split)

lemma trim_right_rev_suffix: "\<exists>p. s = p @ trim_right_rev s"
proof (induction s rule: trim_right_rev.induct)
  case (2 a s)
  have "trim_right_rev (a # s) = a # s \<or> (space1 a \<and> trim_right_rev (a # s) = trim_right_rev s) \<or>
      (\<exists>b t. \<not> space1 a \<and> s = b # t \<and> space2 b a \<and> trim_right_rev (a # s) = trim_right_rev t) \<or>
      (\<exists>b c u. \<not> space1 a \<and> s = b # c # u \<and> \<not> space2 b a \<and> space3 c b a \<and>
         trim_right_rev (a # s) = trim_right_rev u)"
    by (auto split: list.split)
  then consider "trim_right_rev (a # s) = a # s" | "trim_right_rev (a # s) = trim_right_rev s" "space1 a"
    | b t where "\<not> space1 a" "s = b # t" "space2 b a" "trim_right_rev (a # s) = trim_right_rev t"
    | b c u where "\<not> space1 a" "s = b # c # u" "\<not> space2 b a" "space3 c b a"
        "trim_right_rev (a # s) = trim_right_rev u"
    by blast
  then show ?case
  proof cases
    case 1
    then show ?thesis by (metis append_Nil)
  next
    case 2
    with "2.IH"(1) obtain p where "s = p @ trim_right_rev s" by blast
    then have "a # s = (a # p) @ trim_right_rev (a # s)" using 2 by simp
    then show ?thesis by blast
  next
    case (3 b t)
    with "2.IH"(2) obtain p where "t = p @ trim_right_rev t" by blast
    then have "a # s = (a # b # p) @ trim_right_rev (a # s)" using 3 by simp
    then show ?thesis by blast
  next
    case (4 b c u)
    with "2.IH"(3) obtain p where "u = p @ trim_right_rev u" by blast
    then have "a # s = (a # b # c # p) @ trim_right_rev (a # s)" using 4 by simp
    then show ?thesis by blast
  qed
qed simp

text \<open>A trimmed string neither starts nor ends with a blank.\<close>

lemma trim_space_ends:
  assumes "trim_space s \<noteq> []"
  shows "hd (trim_space s) \<noteq> CHR '' ''" and "last (trim_space s) \<noteq> CHR '' ''"
proof -
  define l r where "l = trim_left s" and "r = trim_right_rev (rev l)"
  have t: "trim_space s = rev r" by (simp add: trim_space_def l_def r_def)
  obtain p where "rev l = p @ r" using trim_right_rev_suffix unfolding r_def by blast
  then have l: "l = rev r @ rev p" by (metis rev_append rev_rev_ident)
  have ne: "r \<noteq> []" using assms t by simp
  then have "hd (rev r) = hd l" unfolding l by simp
  moreover have "\<not> space1 (hd l)" using trim_left_first [of s] ne l by (auto simp: l_def)
  ultimately show "hd (trim_space s) \<noteq> CHR '' ''" by (auto simp: t space1_def)
  have "\<not> space1 (hd r)" using trim_right_rev_first [of "rev l"] ne by (auto simp: r_def)
  then show "last (trim_space s) \<noteq> CHR '' ''" using ne by (auto simp: t space1_def last_rev)
qed

text \<open>
  What \<open>strings.ToLower\<close> guarantees on text outside ASCII: the result holds no capital ASCII
  letter and gains no blank at its ends.
\<close>

definition lower_ok :: "(string \<Rightarrow> string) \<Rightarrow> bool" where
  "lower_ok uni \<longleftrightarrow> (\<forall>s. (\<forall>c \<in> set (uni s). ascii_lower_char c = c) \<and>
     (s \<noteq> [] \<longrightarrow> hd s \<noteq> CHR '' '' \<longrightarrow> last s \<noteq> CHR '' '' \<longrightarrow>
        uni s \<noteq> [] \<and> hd (uni s) \<noteq> CHR '' '' \<and> last (uni s) \<noteq> CHR '' ''))"

lemma ascii_lower_char_idem: "ascii_lower_char (ascii_lower_char c) = ascii_lower_char c"
proof (cases "CHR ''A'' \<le> c \<and> c \<le> CHR ''Z''")
  case True
  then have b: "65 \<le> byte c" "byte c \<le> 90" by (simp_all add: byte_def less_eq_char_def)
  then have "byte (ascii_lower_char c) = byte c + 32"
    using True by (simp add: ascii_lower_char_def byte_def)
  then have "\<not> ascii_lower_char c \<le> CHR ''Z''" using b by (simp add: byte_def less_eq_char_def)
  then show ?thesis using ascii_lower_char_lower by metis
next
  case False
  then show ?thesis by (metis ascii_lower_char_lower)
qed

lemma ascii_lower_char_blank: "ascii_lower_char c = CHR '' '' \<longleftrightarrow> c = CHR '' ''"
proof (cases "CHR ''A'' \<le> c \<and> c \<le> CHR ''Z''")
  case True
  then have b: "65 \<le> byte c" "byte c \<le> 90" by (simp_all add: byte_def less_eq_char_def)
  then have "byte (ascii_lower_char c) = byte c + 32"
    using True by (simp add: ascii_lower_char_def byte_def)
  moreover have "byte (CHR '' '') = 32" by (simp add: byte_def)
  ultimately show ?thesis using b by auto
next
  case False
  then show ?thesis by (metis ascii_lower_char_lower)
qed

lemma sql_norm_fixed:
  assumes "s \<noteq> [] \<Longrightarrow> hd s \<noteq> CHR '' '' \<and> last s \<noteq> CHR '' ''" and "\<forall>c \<in> set s. ascii_lower_char c = c"
  shows "map ascii_lower_char (rev (dropWhile (\<lambda>c. c = CHR '' '') (rev (dropWhile (\<lambda>c. c = CHR '' '') s)))) = s"
proof (cases "s = []")
  case False
  then have "dropWhile (\<lambda>c. c = CHR '' '') s = s" using assms(1) by (cases s) auto
  moreover have "dropWhile (\<lambda>c. c = CHR '' '') (rev s) = rev s"
    using False assms(1) by (cases s rule: rev_cases) auto
  ultimately show ?thesis using assms(2) by (simp add: map_idI)
qed simp

lemma normalize_email_shape:
  assumes "lower_ok (e_lower e)"
  shows "normalize_email e s \<noteq> [] \<Longrightarrow>
      hd (normalize_email e s) \<noteq> CHR '' '' \<and> last (normalize_email e s) \<noteq> CHR '' ''"
    and "\<forall>c \<in> set (normalize_email e s). ascii_lower_char c = c"
proof -
  show "\<forall>c \<in> set (normalize_email e s). ascii_lower_char c = c"
    using assms by (auto simp: normalize_email_def to_lower_def lower_ok_def ascii_lower_char_idem)
  assume ne: "normalize_email e s \<noteq> []"
  show "hd (normalize_email e s) \<noteq> CHR '' '' \<and> last (normalize_email e s) \<noteq> CHR '' ''"
  proof (cases "ascii (trim_space s)")
    case True
    with ne have "trim_space s \<noteq> []" by (auto simp: normalize_email_def to_lower_def)
    with trim_space_ends [OF this] True show ?thesis
      by (simp add: normalize_email_def to_lower_def hd_map last_map ascii_lower_char_blank)
  next
    case False
    then have "trim_space s \<noteq> []" by (auto simp: ascii_def)
    with trim_space_ends [OF this] False assms show ?thesis
      by (simp add: normalize_email_def to_lower_def lower_ok_def)
  qed
qed

section \<open>Printing and parsing durations\<close>

lemma digits_val:
  assumes "list_all is_digit ds"
  shows "int64_of_digits ds = of_nat (dec_val ds)"
  using assms
proof (induction ds rule: rev_induct)
  case (snoc c ds)
  then have "int64_of_digits (ds @ [c]) = of_nat (dec_val ds) * 10 + of_nat (digit_val c)"
    by (simp add: int64_of_digits_def)
  then show ?case by (simp add: dec_val_snoc mult.commute)
qed (simp add: int64_of_digits_def dec_val_def)

lemma takeWhile_digits:
  assumes "\<not> is_digit u"
  shows "takeWhile is_digit (dec_of_nat n @ u # s) = dec_of_nat n"
    and "dropWhile is_digit (dec_of_nat n @ u # s) = u # s"
proof -
  have "\<forall>c \<in> set (dec_of_nat n). is_digit c" using dec_of_nat_digits [of n] by (simp add: list_all_iff)
  then show "takeWhile is_digit (dec_of_nat n @ u # s) = dec_of_nat n"
    "dropWhile is_digit (dec_of_nat n @ u # s) = u # s"
    using assms by (simp_all add: takeWhile_append2 dropWhile_append2)
qed

lemma dec_hd_not_T: "hd (dec_of_nat n @ s) \<noteq> CHR ''T''"
  using dec_of_nat_digits [of n] by (cases "dec_of_nat n") (auto simp: is_digit_def)

lemma iso_step_unit:
  assumes "\<not> is_digit u"
  shows "iso_step t acc (dec_of_nat n @ u # s) =
    (if u = CHR ''D'' then Some (t, acc + of_nat n * 24 * dur64 hour, s)
     else if u = CHR ''H'' then Some (t, if t then acc + of_nat n * dur64 hour else acc, s)
     else if u = CHR ''M'' then
       Some (t, if t then acc + of_nat n * dur64 minute else acc + of_nat n * 30 * 24 * dur64 hour, s)
     else if u = CHR ''S'' then Some (t, acc + of_nat n * dur64 second, s) else None)"
  using dec_hd_not_T [of n "u # s"]
  by (simp add: iso_step_def takeWhile_digits [OF assms] Let_def digits_val [OF dec_of_nat_digits])

lemma unit_not_digit: "\<not> is_digit (CHR ''D'')" "\<not> is_digit (CHR ''H'')" "\<not> is_digit (CHR ''M'')"
  "\<not> is_digit (CHR ''S'')" "\<not> is_digit (CHR ''T'')"
  by (simp_all add: is_digit_def)

definition print_iso :: "nat \<Rightarrow> nat \<Rightarrow> nat \<Rightarrow> nat \<Rightarrow> string" where
  "print_iso d h m s = ''P'' @ dec_of_nat d @ ''DT'' @ dec_of_nat h @ ''H'' @ dec_of_nat m @ ''M'' @
     dec_of_nat s @ ''S''"

lemma iso_loop_print:
  "iso_loop False 0 (dec_of_nat d @ CHR ''D'' # CHR ''T'' # dec_of_nat h @ CHR ''H'' # dec_of_nat m @
     CHR ''M'' # dec_of_nat s @ ''S'') =
   Some (of_int (int d * day + int h * hour + int m * minute + int s * second))"
proof -
  have T: "iso_step t a (CHR ''T'' # r) = Some (True, a, r)" for t a r
    by (simp add: iso_step_def)
  show ?thesis
    by (subst iso_loop.simps, simp add: iso_step_unit unit_not_digit,
        subst iso_loop.simps, simp add: T,
        subst iso_loop.simps, simp add: iso_step_unit unit_not_digit,
        subst iso_loop.simps, simp add: iso_step_unit unit_not_digit,
        subst iso_loop.simps, simp add: iso_step_unit unit_not_digit,
        subst iso_loop.simps, simp add: day_def)
qed

lemma digit_upper: "is_digit c \<Longrightarrow> ascii_upper_char c = c" "is_digit c \<Longrightarrow> c < CHR 0x80" "is_digit c \<Longrightarrow> graphic c"
  by (auto simp: is_digit_def ascii_upper_char_def graphic_def byte_def less_char_def less_eq_char_def)

lemma print_iso_upper: "to_upper u (trim_space (print_iso d h m s)) = print_iso d h m s"
proof -
  have dig: "\<forall>c \<in> set (dec_of_nat n). is_digit c" for n
    using dec_of_nat_digits [of n] by (simp add: list_all_iff)
  have "trim_space (print_iso d h m s) = print_iso d h m s"
    by (rule trim_space_graphic) (simp_all add: print_iso_def graphic_def less_eq_char_def)
  moreover have "ascii (print_iso d h m s)"
    using dig digit_upper(2) by (auto simp: ascii_def print_iso_def less_char_def)
  moreover have "map ascii_upper_char (print_iso d h m s) = print_iso d h m s"
  proof (rule map_idI)
    fix c
    assume "c \<in> set (print_iso d h m s)"
    then have "is_digit c \<or> c \<in> set ''PDTHMS''" using dig by (auto simp: print_iso_def)
    then show "ascii_upper_char c = c"
      by (elim disjE) (simp_all add: digit_upper, auto simp: ascii_upper_char_def)
  qed
  ultimately show ?thesis by (simp add: to_upper_def)
qed

lemma sint_of_int_64: "0 \<le> i \<Longrightarrow> i < 2 ^ 63 \<Longrightarrow> sint (of_int i :: 64 word) = i"
  by (simp add: signed_of_int signed_take_bit_int_eq_self)

section \<open>Shape of a public id\<close>

lemma mask_version: "n < 256 \<Longrightarrow> unat ((of_nat n AND 0x0f) OR 0x40 :: 8 word) div 16 = 4"
proof -
  have "\<forall>n \<in> set [0..<256]. unat ((of_nat n AND 0x0f) OR 0x40 :: 8 word) div 16 = 4" by code_simp
  then show "n < 256 \<Longrightarrow> unat ((of_nat n AND 0x0f) OR 0x40 :: 8 word) div 16 = 4" by simp
qed

lemma mask_variant:
  "n < 256 \<Longrightarrow> unat ((of_nat n AND 0x3f) OR 0x80 :: 8 word) div 16 \<in> {8, 9, 10, 11}"
proof -
  have "\<forall>n \<in> set [0..<256]. unat ((of_nat n AND 0x3f) OR 0x80 :: 8 word) div 16 \<in> set [8, 9, 10, 11]"
    by code_simp
  then show "n < 256 \<Longrightarrow> unat ((of_nat n AND 0x3f) OR 0x80 :: 8 word) div 16 \<in> {8, 9, 10, 11}"
    by simp
qed

lemma byte_mask_byte: "byte (mask_byte k p c) = unat ((of_nat (byte c) AND k) OR p)"
proof -
  have "unat w < 256" for w :: "8 word" using unsigned_less [of w] by simp
  then show ?thesis by (simp add: mask_byte_def)
qed

lemma nth_hex_encode:
  "i < length s \<Longrightarrow> hex_encode s ! (2 * i) = hex_digit (byte (s ! i) div 16)"
proof (induction s arbitrary: i)
  case (Cons c s)
  then show ?case by (cases i) auto
qed simp

section \<open>Properties\<close>

text \<open>A normalised e-mail address is left unchanged by the SQL expression \<open>lower(trim(email))\<close>
  of the unique index, so Go and SQLite never disagree about which addresses are equal.\<close>

theorem normalize_email_fixed_in_sql:
  assumes "lower_ok (e_lower e)"
  shows "sql_norm (normalize_email e s) = normalize_email e s"
  unfolding sql_norm_def by (rule sql_norm_fixed) (use normalize_email_shape [OF assms] in blast)+

lemma lower_ok_ascii: "lower_ok (map ascii_lower_char)"
  by (auto simp: lower_ok_def ascii_lower_char_idem hd_map last_map ascii_lower_char_blank)

theorem normalize_email_fixed_in_sql_witness:
  "sql_norm (normalize_email demo_env '' Ada@X.no '') = normalize_email demo_env '' Ada@X.no ''"
proof -
  have "lower_ok (e_lower demo_env)" by (simp add: demo_env_def lower_ok_ascii)
  then show ?thesis by (rule normalize_email_fixed_in_sql)
qed

text \<open>A duration written out in days, hours, minutes and seconds parses back to its length in
  nanoseconds, as long as that length fits into 63 bits.\<close>

theorem parse_iso8601_print:
  assumes "int d * day + int h * hour + int m * minute + int s * second < 2 ^ 63"
  shows "parse_iso8601 upper (print_iso d h m s) =
    Some (int d * day + int h * hour + int m * minute + int s * second)"
proof -
  have "cut_prefix (print_iso d h m s) ''P'' = Some (dec_of_nat d @ CHR ''D'' # CHR ''T'' #
      dec_of_nat h @ CHR ''H'' # dec_of_nat m @ CHR ''M'' # dec_of_nat s @ ''S'')"
    by (simp add: print_iso_def cut_prefix_def has_prefix_def)
  moreover have "0 \<le> int d * day + int h * hour + int m * minute + int s * second"
    by (simp add: duration_defs)
  ultimately show ?thesis
    using sint_of_int_64 [OF _ assms]
    by (simp only: parse_iso8601_def print_iso_upper option.case iso_loop_print option.map)
qed

theorem parse_iso8601_print_witness:
  "parse_iso8601 id (print_iso 30 1 15 10) = Some (30 * day + 1 * hour + 15 * minute + 10 * second)"
  using parse_iso8601_print [of 30 1 15 10 id] by (simp add: duration_defs)

text \<open>A public id has the layout of a UUID v4: 36 characters, dashes at 8, 13, 18 and 23, version
  digit \<open>4\<close> and a variant digit among \<open>8 9 a b\<close>, whatever the random bytes are.\<close>

theorem uuid_text_is_v4:
  assumes "length b = 16"
  shows "length (uuid_text b) = 36 \<and> (\<forall>i \<in> {8, 13, 18, 23}. uuid_text b ! i = CHR ''-'') \<and>
    uuid_text b ! 14 = CHR ''4'' \<and> uuid_text b ! 19 \<in> set ''89ab''"
proof -
  define c where "c = b[6 := mask_byte 0x0f 0x40 (b ! 6), 8 := mask_byte 0x3f 0x80 (b ! 8)]"
  define h where "h = hex_encode c"
  have t: "uuid_text b = take 8 h @ ''-'' @ take 4 (drop 8 h) @ ''-'' @ take 4 (drop 12 h) @ ''-'' @
      take 4 (drop 16 h) @ ''-'' @ drop 20 h"
    by (simp add: uuid_text_def Let_def h_def c_def)
  have len: "length h = 32" using assms by (simp add: h_def c_def)
  have c6: "byte (c ! 6) div 16 = 4"
    using assms mask_version [of "byte (b ! 6)"] by (simp add: c_def byte_mask_byte)
  have c8: "byte (c ! 8) div 16 \<in> {8, 9, 10, 11}"
    using assms mask_variant [of "byte (b ! 8)"] by (simp add: c_def byte_mask_byte)
  have "h ! 12 = hex_digit 4" using nth_hex_encode [of 6 c] c6 assms by (simp add: h_def c_def)
  moreover have "hex_digit 4 = CHR ''4''" "{hex_digit 8, hex_digit 9, hex_digit 10, hex_digit 11} = set ''89ab''"
    by code_simp+
  ultimately have v: "h ! 12 = CHR ''4''" and x: "{hex_digit 8, hex_digit 9, hex_digit 10, hex_digit 11} = set ''89ab''"
    by simp_all
  have "h ! 16 = hex_digit (byte (c ! 8) div 16)" using nth_hex_encode [of 8 c] assms by (simp add: h_def c_def)
  then have w: "h ! 16 \<in> set ''89ab''" using c8 unfolding x [symmetric] by auto
  show ?thesis unfolding t using len v w by (simp add: nth_append)
qed

theorem uuid_text_is_v4_witness: "length (uuid_text (replicate 16 (CHR ''A''))) = 36"
  using uuid_text_is_v4 [of "replicate 16 (CHR ''A'')"] by simp

text \<open>After an address was handed to a user at time \<open>t\<close>, a token speaks for the user exactly when
  it carries an \<open>iat\<close> in the second of \<open>t\<close> or later: tokens of the previous owner are refused.\<close>

theorem email_epoch_cuts_off:
  assumes "text_range t" and "u_email_changed u = Some (format_utc t)"
  shows "issued_after_email_epoch c u \<longleftrightarrow> (\<exists>k i. c = Some k \<and> c_iat k = Some i \<and> unix t \<le> i)"
  using assms parse_format(2) [OF assms(1)]
  by (simp add: issued_after_email_epoch_def email_epoch_def parse_epoch_def unix_def second_def
      split: option.split)

theorem email_epoch_cuts_off_witness:
  "\<not> issued_after_email_epoch (Some demo_claims) (demo_user\<lparr>u_email_changed := Some (format_utc (noon + hour))\<rparr>)"
proof -
  have "text_range (noon + hour)" by (simp add: text_range_def noon_def duration_defs unix_def)
  moreover have "\<not> unix (noon + hour) \<le> 1700000000" by code_simp
  ultimately show ?thesis
    by (subst email_epoch_cuts_off) (simp_all add: demo_claims_def)
qed

end
