(* ===== verification/IdpStore.thy ===== *)
theory IdpStore
  imports UserStore
begin

text \<open>
  The statements on \<open>identity_providers\<close> and \<open>service_identity_providers\<close>
  (\<open>internal/db/gen/identity_providers.sql.go\<close>).  A join with a provider finds at most one row, its key
  being unique; an \<open>ORDER BY\<close> of several columns is a sequence of stable sorts, least significant first.
\<close>

definition provider_of :: "db \<Rightarrow> int \<Rightarrow> provider_row option" where
  "provider_of d i = List.find (\<lambda>p. ip_id p = i) (t_providers d)"

text \<open>The assignments with the slug of their provider.\<close>

definition joined_assignments :: "(provider_row \<Rightarrow> bool) \<Rightarrow> db \<Rightarrow> (assign_row \<times> string) list" where
  "joined_assignments P d =
     List.map_filter (\<lambda>a. case provider_of d (as_provider a) of
         None \<Rightarrow> None
       | Some p \<Rightarrow> if P p then Some (a, ip_slug p) else None) (t_assign d)"

definition by_position :: "(assign_row \<times> string) list \<Rightarrow> (assign_row \<times> string) list" where
  "by_position rows = sort_key (\<lambda>r. as_position (fst r)) (sort_key snd rows)"

definition list_all_identity_providers :: "db \<Rightarrow> db_err + provider_row list" where
  "list_all_identity_providers d = Inr (sort_key ip_slug (t_providers d))"

definition list_active_identity_providers :: "db \<Rightarrow> db_err + provider_row list" where
  "list_active_identity_providers d = Inr (sort_key ip_slug (filter (\<lambda>p. ip_active p = 1) (t_providers d)))"

definition list_identity_provider_names :: "db \<Rightarrow> db_err + (string \<times> string \<times> string) list" where
  "list_identity_provider_names d =
     Inr (map (\<lambda>p. (ip_issuer p, ip_display_name p, ip_slug p)) (sort_key ip_slug (t_providers d)))"

definition list_assignments_for_service :: "string \<Rightarrow> db \<Rightarrow> db_err + (assign_row \<times> string) list" where
  "list_assignments_for_service sid d =
     Inr (by_position (filter (\<lambda>r. as_service (fst r) = sid) (joined_assignments (\<lambda>_. True) d)))"

definition list_service_identity_providers :: "db \<Rightarrow> db_err + assign_row list" where
  "list_service_identity_providers d =
     Inr (map fst (sort_key (\<lambda>r. as_service (fst r)) (by_position
       (filter (\<lambda>r. \<exists>s \<in> set (t_services d). sv_id s = as_service (fst r) \<and> sv_active s = 1)
         (joined_assignments (\<lambda>p. ip_active p = 1) d)))))"

definition list_service_identity_providers_all :: "db \<Rightarrow> db_err + (assign_row \<times> string) list" where
  "list_service_identity_providers_all d =
     Inr (sort_key (\<lambda>r. as_service (fst r)) (by_position (joined_assignments (\<lambda>_. True) d)))"

text \<open>The key is (service, provider); both columns are foreign keys.\<close>

definition insert_assignment :: "assign_row \<Rightarrow> db \<Rightarrow> (db_err + unit) \<times> db" where
  "insert_assignment a d =
     (if \<exists>b \<in> set (t_assign d). as_service b = as_service a \<and> as_provider b = as_provider a
      then (Inl UniqueViolation, d)
      else if \<not> (service_exists d (as_service a) \<and> (\<exists>p \<in> set (t_providers d). ip_id p = as_provider a))
      then (Inl ConstraintViolation, d)
      else (Inr (), d\<lparr>t_assign := t_assign d @ [a]\<rparr>))"

definition delete_assignments :: "string \<Rightarrow> db \<Rightarrow> (db_err + unit) \<times> db" where
  "delete_assignments sid d = (Inr (), d\<lparr>t_assign := delete_where (\<lambda>a. as_service a = sid) (t_assign d)\<rparr>)"

section \<open>What the statements return\<close>

lemma set_map_filter: "y \<in> set (List.map_filter f xs) \<longleftrightarrow> (\<exists>x \<in> set xs. f x = Some y)"
  by (induction xs) (auto simp: List.map_filter_simps split: option.split)

lemma joined_set: "(a, slug) \<in> set (joined_assignments P d) \<longleftrightarrow>
    a \<in> set (t_assign d) \<and> (\<exists>p. provider_of d (as_provider a) = Some p \<and> P p \<and> slug = ip_slug p)"
  by (auto simp: joined_assignments_def set_map_filter split: option.splits if_splits)

lemma set_by_position [simp]: "set (by_position rows) = set rows"
  by (simp add: by_position_def)

lemma active_assignments:
  assumes "list_service_identity_providers d = Inr rows"
  shows "a \<in> set rows \<longleftrightarrow> a \<in> set (t_assign d) \<and>
    (\<exists>p. provider_of d (as_provider a) = Some p \<and> ip_active p = 1) \<and>
    (\<exists>s \<in> set (t_services d). sv_id s = as_service a \<and> sv_active s = 1)"
  using assms by (force simp: list_service_identity_providers_def joined_set image_iff)

lemma assign_statements_frame [simp]:
  "t_services (snd (insert_assignment a d)) = t_services d" "t_services (snd (delete_assignments sid d)) = t_services d"
  "t_users (snd (insert_assignment a d)) = t_users d" "t_users (snd (delete_assignments sid d)) = t_users d"
  "t_identities (snd (insert_assignment a d)) = t_identities d" "t_identities (snd (delete_assignments sid d)) = t_identities d"
  "t_refresh (snd (insert_assignment a d)) = t_refresh d" "t_refresh (snd (delete_assignments sid d)) = t_refresh d"
  "t_codes (snd (insert_assignment a d)) = t_codes d" "t_codes (snd (delete_assignments sid d)) = t_codes d"
  "t_magic (snd (insert_assignment a d)) = t_magic d" "t_magic (snd (delete_assignments sid d)) = t_magic d"
  "t_invites (snd (insert_assignment a d)) = t_invites d" "t_invites (snd (delete_assignments sid d)) = t_invites d"
  "t_invite_seq (snd (insert_assignment a d)) = t_invite_seq d" "t_invite_seq (snd (delete_assignments sid d)) = t_invite_seq d"
  "t_providers (snd (insert_assignment a d)) = t_providers d" "t_providers (snd (delete_assignments sid d)) = t_providers d"
  "t_audit (snd (insert_assignment a d)) = t_audit d" "t_audit (snd (delete_assignments sid d)) = t_audit d"
  by (simp_all add: insert_assignment_def delete_assignments_def)

end
