(* ===== verification/Statements.thy ===== *)
theory Statements
  imports IdpStore
begin

text \<open>
  All writing statements of \<open>internal/db/gen\<close> as one datatype, so that "whatever the program
  does to the database" is a sequence of statements.  SQLite runs statements and transactions
  one after the other (one writer, \<open>busy_timeout\<close>), so any interleaving of concurrent requests
  and of the cleanup job is such a sequence; a rolled-back transaction contributes nothing.
\<close>

datatype stmt =
    InsertRefresh refresh_params
  | ConsumeRefresh string string
  | RevokeFamily string string
  | RevokeUserRefresh string int
  | DeleteExpiredRefresh string string
  | InsertCode code_params
  | ConsumeCode string code_claim
  | DeleteExpiredCodes string
  | InsertMagic magic_params
  | ConsumeMagic string string string
  | BurnMagic string string string
  | DeleteExpiredMagic string string
  | InsertInvite invite_params
  | BurnInvites string int int
  | BurnInvitesForUser string int
  | RevokeInvite string int int
  | ConsumeInvite string int int string
  | DeleteExpiredInvites string
  | CreateUser user_params
  | UpdateLastLogin string int
  | UpdateUserEmail string string int string
  | BindAdmin string int
  | UpdateUser "string option" string string int
  | DeactivateUser string int
  | InsertIdentity identity_params
  | LinkIdentityIfFirst identity_params
  | UpdateIdentitySeen "string option" string int
  | DeleteIdentity int int
  | SetAdminOK int int string
  | InsertAudit audit_params
  | DeleteOldAudit string
  | CreateService service_row
  | UpdateService service_row
  | InsertAssignment assign_row
  | DeleteAssignments string

fun exec_stmt :: "stmt \<Rightarrow> db \<Rightarrow> db" where
  "exec_stmt (InsertRefresh p) d = snd (insert_refresh p d)"
| "exec_stmt (ConsumeRefresh h now) d = snd (consume_refresh h now d)"
| "exec_stmt (RevokeFamily reason fam) d = snd (revoke_family reason fam d)"
| "exec_stmt (RevokeUserRefresh reason uid) d = snd (revoke_user_refresh reason uid d)"
| "exec_stmt (DeleteExpiredRefresh a b) d = snd (delete_expired_refresh a b d)"
| "exec_stmt (InsertCode p) d = snd (insert_code p d)"
| "exec_stmt (ConsumeCode fam c) d = snd (consume_code fam c d)"
| "exec_stmt (DeleteExpiredCodes a) d = snd (delete_expired_codes a d)"
| "exec_stmt (InsertMagic p) d = snd (insert_magic_limited p d)"
| "exec_stmt (ConsumeMagic h purpose now) d = snd (consume_magic h purpose now d)"
| "exec_stmt (BurnMagic old new now) d = snd (burn_magic old new now d)"
| "exec_stmt (DeleteExpiredMagic a b) d = snd (delete_expired_magic a b d)"
| "exec_stmt (InsertInvite p) d = snd (insert_invite_limited p d)"
| "exec_stmt (BurnInvites now uid pid) d = snd (burn_invites now uid pid d)"
| "exec_stmt (BurnInvitesForUser now uid) d = snd (burn_invites_for_user now uid d)"
| "exec_stmt (RevokeInvite now i uid) d = snd (revoke_invite now i uid d)"
| "exec_stmt (ConsumeInvite now i pid svc) d = snd (consume_invite now i pid svc d)"
| "exec_stmt (DeleteExpiredInvites a) d = snd (delete_expired_invites a d)"
| "exec_stmt (CreateUser p) d = snd (create_user p d)"
| "exec_stmt (UpdateLastLogin now i) d = snd (update_last_login now i d)"
| "exec_stmt (UpdateUserEmail new at i old) d = snd (update_user_email new at i old d)"
| "exec_stmt (BindAdmin now i) d = snd (bind_admin now i d)"
| "exec_stmt (UpdateUser name roles orgs i) d = snd (update_user name roles orgs i d)"
| "exec_stmt (DeactivateUser now i) d = snd (deactivate_user now i d)"
| "exec_stmt (InsertIdentity p) d = snd (insert_identity p d)"
| "exec_stmt (LinkIdentityIfFirst p) d = snd (link_identity_if_first p d)"
| "exec_stmt (UpdateIdentitySeen email now i) d = snd (update_identity_seen email now i d)"
| "exec_stmt (DeleteIdentity i uid) d = snd (delete_identity i uid d)"
| "exec_stmt (SetAdminOK i uid at) d = snd (set_admin_ok i uid at d)"
| "exec_stmt (InsertAudit p) d = snd (insert_audit p d)"
| "exec_stmt (DeleteOldAudit a) d = snd (delete_old_audit a d)"
| "exec_stmt (CreateService s) d = snd (create_service s d)"
| "exec_stmt (UpdateService s) d = snd (update_service s d)"
| "exec_stmt (InsertAssignment a) d = snd (insert_assignment a d)"
| "exec_stmt (DeleteAssignments s) d = snd (delete_assignments s d)"

fun run_stmts :: "stmt list \<Rightarrow> db \<Rightarrow> db" where
  "run_stmts [] d = d"
| "run_stmts (s # ss) d = run_stmts ss (exec_stmt s d)"

lemma run_stmts_append: "run_stmts (ss @ ts) d = run_stmts ts (run_stmts ss d)"
  by (induction ss arbitrary: d) auto

inductive db_step :: "db \<Rightarrow> db \<Rightarrow> bool" where
  stmt: "db_step d (exec_stmt s d)"

inductive_cases db_stepE: "db_step d d'"

lemma db_steps_iff: "db_step\<^sup>*\<^sup>* d d' \<longleftrightarrow> (\<exists>ss. d' = run_stmts ss d)"
proof
  assume "db_step\<^sup>*\<^sup>* d d'"
  then show "\<exists>ss. d' = run_stmts ss d"
  proof (induction rule: rtranclp_induct)
    case base
    show ?case by (rule exI [of _ "[]"]) simp
  next
    case (step y z)
    then obtain ss s where "y = run_stmts ss d" "z = exec_stmt s y" by (auto elim: db_stepE)
    then show ?case by (intro exI [of _ "ss @ [s]"]) (simp add: run_stmts_append)
  qed
next
  assume "\<exists>ss. d' = run_stmts ss d"
  then obtain ss where "d' = run_stmts ss d" by blast
  then show "db_step\<^sup>*\<^sup>* d d'"
    by (induction ss arbitrary: d) (auto intro: converse_rtranclp_into_rtranclp db_step.intros)
qed

text \<open>Every write of a handler is one of these statements.\<close>

lemma evolves_stmt:
  assumes "\<And>d. snd (f d) = exec_stmt s d"
  shows "evolves db_step (db_write e ctx f)"
  by (rule evolves_db_write) (simp add: assms db_step.stmt r_into_rtranclp)

lemma evolves_token_stmts [evolve_intros]:
  "evolves db_step (db_write e ctx (insert_refresh rp))"
  "evolves db_step (db_write e ctx (consume_refresh h now))"
  "evolves db_step (db_write e ctx (revoke_family reason fam))"
  "evolves db_step (db_write e ctx (revoke_user_refresh reason uid))"
  "evolves db_step (db_write e ctx (delete_expired_refresh a b))"
  "evolves db_step (db_write e ctx (insert_code cp))"
  "evolves db_step (db_write e ctx (consume_code fam cc))"
  "evolves db_step (db_write e ctx (delete_expired_codes a))"
  "evolves db_step (db_write e ctx (insert_magic_limited mp))"
  "evolves db_step (db_write e ctx (consume_magic h purpose now))"
  "evolves db_step (db_write e ctx (burn_magic old new now))"
  "evolves db_step (db_write e ctx (delete_expired_magic a b))"
  "evolves db_step (db_write e ctx (insert_invite_limited vp))"
  "evolves db_step (db_write e ctx (burn_invites now uid pid))"
  "evolves db_step (db_write e ctx (burn_invites_for_user now uid))"
  "evolves db_step (db_write e ctx (revoke_invite now i uid))"
  "evolves db_step (db_write e ctx (consume_invite now i pid svc))"
  "evolves db_step (db_write e ctx (delete_expired_invites a))"
  by (rule evolves_stmt, rule exec_stmt.simps [symmetric])+

lemma evolves_user_stmts [evolve_intros]:
  "evolves db_step (db_write e ctx (create_user up))"
  "evolves db_step (db_write e ctx (update_last_login now i))"
  "evolves db_step (db_write e ctx (update_user_email new now i old))"
  "evolves db_step (db_write e ctx (bind_admin now i))"
  "evolves db_step (db_write e ctx (update_user name roles orgs i))"
  "evolves db_step (db_write e ctx (deactivate_user now i))"
  "evolves db_step (db_write e ctx (insert_identity dp))"
  "evolves db_step (db_write e ctx (link_identity_if_first dp))"
  "evolves db_step (db_write e ctx (update_identity_seen email now i))"
  "evolves db_step (db_write e ctx (delete_identity i uid))"
  "evolves db_step (db_write e ctx (set_admin_ok i uid now))"
  "evolves db_step (db_write e ctx (insert_audit ap))"
  "evolves db_step (db_write e ctx (delete_old_audit a))"
  "evolves db_step (db_write e ctx (create_service s))"
  "evolves db_step (db_write e ctx (update_service s))"
  "evolves db_step (db_write e ctx (insert_assignment ar))"
  "evolves db_step (db_write e ctx (delete_assignments sid))"
  by (rule evolves_stmt, rule exec_stmt.simps [symmetric])+

end
