(* ===== verification/DbInvariant.thy ===== *)
theory DbInvariant
  imports Statements Samples
begin

text \<open>
  What the database looks like at all times: keys are unique, flags are 0 or 1, a revoked
  refresh token has a reason and a spent code a family, references lead to rows that exist,
  only Google and Microsoft identities can be approved for admin login.  Every statement of
  the program keeps this (\<open>db_ok\<close>), and also the keys, references and flags of the providers, the assignments and the
  audit log (\<open>tables_ok\<close>).
\<close>

section \<open>The invariant\<close>

definition flag :: "int \<Rightarrow> bool" where
  "flag i \<longleftrightarrow> i = 0 \<or> i = 1"

definition refresh_row_ok :: "string set \<Rightarrow> int set \<Rightarrow> int set \<Rightarrow> refresh_row \<Rightarrow> bool" where
  "refresh_row_ok svcs users parents r \<longleftrightarrow>
     length (rt_hash r) = 64 \<and> flag (rt_used r) \<and> flag (rt_revoked r) \<and>
     (rt_revoked r = 1 \<longleftrightarrow> rt_reason r \<noteq> None) \<and>
     fk_ok (\<lambda>s. s \<in> svcs) (rt_service r) \<and> fk_ok (\<lambda>u. u \<in> users) (rt_user r) \<and>
     fk_ok (\<lambda>p. p \<in> parents) (rt_parent r)"

definition refresh_ok :: "string set \<Rightarrow> int set \<Rightarrow> refresh_row list \<Rightarrow> bool" where
  "refresh_ok svcs users rows \<longleftrightarrow>
     distinct (map rt_id rows) \<and> distinct (map rt_hash rows) \<and>
     (\<forall>r \<in> set rows. refresh_row_ok svcs users (set (map rt_id rows)) r)"

definition code_row_ok :: "string set \<Rightarrow> int set \<Rightarrow> code_row \<Rightarrow> bool" where
  "code_row_ok svcs users r \<longleftrightarrow>
     flag (ac_used r) \<and> (ac_used r = 1 \<longleftrightarrow> ac_family r \<noteq> None) \<and>
     ac_service r \<in> svcs \<and> fk_ok (\<lambda>u. u \<in> users) (ac_user r)"

definition codes_ok :: "string set \<Rightarrow> int set \<Rightarrow> code_row list \<Rightarrow> bool" where
  "codes_ok svcs users rows \<longleftrightarrow>
     distinct (map ac_id rows) \<and> distinct (map ac_code rows) \<and> (\<forall>r \<in> set rows. code_row_ok svcs users r)"

definition magic_row_ok :: "string set \<Rightarrow> magic_row \<Rightarrow> bool" where
  "magic_row_ok svcs r \<longleftrightarrow>
     flag (mt_used r) \<and> (mt_purpose r = ''service'' \<or> mt_purpose r = ''admin'') \<and>
     fk_ok (\<lambda>s. s \<in> svcs) (mt_service r)"

definition magic_ok :: "string set \<Rightarrow> magic_row list \<Rightarrow> bool" where
  "magic_ok svcs rows \<longleftrightarrow>
     distinct (map mt_id rows) \<and> distinct (map mt_token rows) \<and> (\<forall>r \<in> set rows. magic_row_ok svcs r)"

definition invite_row_ok :: "string set \<Rightarrow> int set \<Rightarrow> int set \<Rightarrow> int \<Rightarrow> invite_row \<Rightarrow> bool" where
  "invite_row_ok svcs users provs seq r \<longleftrightarrow>
     li_id r \<le> seq \<and> li_service r \<in> svcs \<and> li_user r \<in> users \<and> li_provider r \<in> provs"

definition invites_ok :: "string set \<Rightarrow> int set \<Rightarrow> int set \<Rightarrow> int \<Rightarrow> invite_row list \<Rightarrow> bool" where
  "invites_ok svcs users provs seq rows \<longleftrightarrow>
     distinct (map li_id rows) \<and> distinct (map li_hash rows) \<and>
     (\<forall>r \<in> set rows. invite_row_ok svcs users provs seq r)"

definition users_ok :: "user_row list \<Rightarrow> bool" where
  "users_ok rows \<longleftrightarrow>
     distinct (map u_id rows) \<and> distinct (map (\<lambda>r. sql_norm (u_email r)) rows) \<and>
     distinct (map u_public_id rows)"

definition identity_row_ok :: "int set \<Rightarrow> identity_row \<Rightarrow> bool" where
  "identity_row_ok users r \<longleftrightarrow>
     known_provider (ui_provider r) \<and> flag (ui_admin_ok r) \<and>
     (ui_admin_ok r = 1 \<longrightarrow> ui_provider r \<noteq> ''oidc'' \<and> ui_provider r \<noteq> ''github'') \<and> ui_user r \<in> users"

definition identities_ok :: "int set \<Rightarrow> identity_row list \<Rightarrow> bool" where
  "identities_ok users rows \<longleftrightarrow>
     distinct (map ui_id rows) \<and> distinct (map (\<lambda>r. (ui_issuer r, ui_subject r)) rows) \<and>
     (\<forall>r \<in> set rows. identity_row_ok users r)"

definition services_ok :: "service_row list \<Rightarrow> bool" where
  "services_ok rows \<longleftrightarrow>
     distinct (map sv_id rows) \<and> (\<forall>s \<in> set rows. service_check s) \<and>
     (\<forall>s \<in> set rows. \<forall>r \<in> set rows. sv_id s \<noteq> sv_id r \<longrightarrow> \<not> service_clash s r)"

definition service_ids :: "db \<Rightarrow> string set" where
  "service_ids d = set (map sv_id (t_services d))"

definition user_ids :: "db \<Rightarrow> int set" where
  "user_ids d = set (map u_id (t_users d))"

definition provider_ids :: "db \<Rightarrow> int set" where
  "provider_ids d = set (map ip_id (t_providers d))"

definition db_ok :: "db \<Rightarrow> bool" where
  "db_ok d \<longleftrightarrow>
     services_ok (t_services d) \<and> users_ok (t_users d) \<and> identities_ok (user_ids d) (t_identities d) \<and>
     refresh_ok (service_ids d) (user_ids d) (t_refresh d) \<and>
     codes_ok (service_ids d) (user_ids d) (t_codes d) \<and>
     magic_ok (service_ids d) (t_magic d) \<and>
     invites_ok (service_ids d) (user_ids d) (provider_ids d) (t_invite_seq d) (t_invites d)"

lemmas row_ok_defs = refresh_row_ok_def code_row_ok_def magic_row_ok_def invite_row_ok_def
  identity_row_ok_def flag_def
lemmas id_set_defs = service_ids_def user_ids_def provider_ids_def

lemma service_exists_ids: "service_exists d s \<longleftrightarrow> s \<in> service_ids d"
  by (auto simp: service_exists_def service_ids_def)

lemma user_exists_ids: "user_exists d u \<longleftrightarrow> u \<in> user_ids d"
  by (auto simp: user_exists_def user_ids_def)

lemma provider_exists_ids: "(\<exists>r \<in> set (t_providers d). ip_id r = i) \<longleftrightarrow> i \<in> provider_ids d"
  by (auto simp: provider_ids_def)

lemma service_exists_fun: "service_exists d = (\<lambda>s. s \<in> service_ids d)"
  and user_exists_fun: "user_exists d = (\<lambda>u. u \<in> user_ids d)"
  by (simp_all add: fun_eq_iff service_exists_ids user_exists_ids)

section \<open>Rewriting, deleting, appending rows\<close>

lemma ball_upd_where:
  assumes "\<forall>r \<in> set rows. Q r" and "\<And>r. Q r \<Longrightarrow> P r \<Longrightarrow> Q (f r)"
  shows "\<forall>r \<in> set (upd_where P f rows). Q r"
  using assms by (auto simp: in_upd_where)

lemma distinct_delete_where: "distinct (map g rows) \<Longrightarrow> distinct (map g (delete_where P rows))"
  by (auto simp: delete_where_def distinct_map inj_on_def)

lemma distinct_upd_where_one:
  assumes "distinct (map k rows)" and "\<And>r s. P r \<Longrightarrow> P s \<Longrightarrow> k r = k s"
    and "distinct (map g rows)" and "\<forall>r \<in> set rows. \<not> P r \<longrightarrow> g r \<noteq> v" and "\<And>r. P r \<Longrightarrow> g (f r) = v"
  shows "distinct (map g (upd_where P f rows))"
  using assms(1,3,4)
proof (induction rows)
  case (Cons r rows)
  show ?case
  proof (cases "P r")
    case True
    have none: "\<not> P s" if s: "s \<in> set rows" for s
    proof
      assume "P s"
      with True have "k r = k s" by (rule assms(2))
      with Cons.prems(1) s show False by simp
    qed
    then have "upd_where P f rows = rows" by (simp add: upd_where_none)
    moreover have "v \<notin> g ` set rows" using Cons.prems(3) none by auto
    ultimately show ?thesis using Cons.prems True by (simp add: assms(5))
  next
    case False
    have "g r \<notin> g ` set (upd_where P f rows)"
    proof
      assume "g r \<in> g ` set (upd_where P f rows)"
      then obtain s where s: "s \<in> set rows" and eq: "g r = g (if P s then f s else s)"
        unfolding upd_where_def set_map image_image by (rule imageE)
      show False
      proof (cases "P s")
        case True
        with eq assms(5) have "g r = v" by simp
        with Cons.prems(3) False show False by simp
      next
        case False
        with eq s Cons.prems(2) show False by (metis (full_types) distinct.simps(2) image_eqI list.simps(9) set_map)
      qed
    qed
    then show ?thesis using Cons False by simp
  qed
qed simp

lemma next_rowid_map:
  assumes "r \<in> set rows"
  shows "next_rowid (map g rows) \<noteq> g r" "g r \<noteq> next_rowid (map g rows)"
  using next_rowid_fresh [of "g r" "map g rows"] assms by simp_all

lemma fk_ok_mono: "fk_ok P k \<Longrightarrow> (\<And>x. P x \<Longrightarrow> Q x) \<Longrightarrow> fk_ok Q k"
  by (auto simp: fk_ok_def split: option.splits)

section \<open>Refresh tokens\<close>

lemma refresh_ok_upd:
  assumes "refresh_ok S U rows" and i: "\<And>r. rt_id (f r) = rt_id r" and h: "\<And>r. rt_hash (f r) = rt_hash r"
    and "\<And>ps r. refresh_row_ok S U ps r \<Longrightarrow> P r \<Longrightarrow> refresh_row_ok S U ps (f r)"
  shows "refresh_ok S U (upd_where P f rows)"
proof -
  have "\<forall>r \<in> set (upd_where P f rows). refresh_row_ok S U (set (map rt_id rows)) r"
    by (rule ball_upd_where) (use assms in \<open>simp_all add: refresh_ok_def\<close>)
  then show ?thesis using assms(1) unfolding refresh_ok_def
    by (simp only: map_upd_where [of rt_id f, OF i] map_upd_where [of rt_hash f, OF h])
qed

lemma refresh_ok_insert:
  assumes "refresh_ok (service_ids d) (user_ids d) (t_refresh d)"
  shows "refresh_ok (service_ids d) (user_ids d) (t_refresh (snd (insert_refresh p d)))"
proof -
  have mono: "refresh_row_ok S U ps r \<Longrightarrow> refresh_row_ok S U (insert i ps) r" for S U ps i r
    by (auto simp: refresh_row_ok_def elim: fk_ok_mono)
  have refresh_row_ok_fresh: "refresh_row_ok S U (insert i ps)
      \<lparr>rt_id = i, rt_hash = rp_hash p, rt_email = rp_email p,
         rt_service = rp_service p, rt_family = rp_family p, rt_parent = rp_parent p,
         rt_created = rp_created p, rt_expires = rp_expires p,
         rt_family_expires = rp_family_expires p, rt_used = 0, rt_revoked = 0, rt_reason = None,
         rt_ip = rp_ip p, rt_ua = rp_ua p, rt_user = rp_user p\<rparr>"
    if "length (rp_hash p) = 64" "fk_ok (\<lambda>s. s \<in> S) (rp_service p)" "fk_ok (\<lambda>u. u \<in> U) (rp_user p)"
      "fk_ok (\<lambda>j. \<exists>r \<in> set rows. rt_id r = j) (rp_parent p)" "ps = rt_id ` set rows" for S U i ps rows
    using that by (auto simp: refresh_row_ok_def flag_def elim!: fk_ok_mono)
  show ?thesis using assms
    by (auto simp: insert_refresh_def refresh_ok_def next_rowid_map mono refresh_row_ok_fresh
        service_exists_fun user_exists_fun)
qed

lemma refresh_ok_delete:
  assumes "refresh_ok S U (t_refresh d)"
  shows "refresh_ok S U (t_refresh (snd (delete_expired_refresh a b d)))"
proof -
  define P :: "refresh_row \<Rightarrow> bool" where "P = (\<lambda>r. rt_expires r < a \<and> (case rt_family_expires r of None \<Rightarrow> True | Some x \<Rightarrow> x < b))"
  define gone where "gone = map rt_id (filter P (t_refresh d))"
  define clear :: "refresh_row list \<Rightarrow> refresh_row list" where "clear = upd_where (\<lambda>r. \<exists>i \<in> set gone. rt_parent r = Some i) (\<lambda>r. r\<lparr>rt_parent := None\<rparr>)"
  have t: "t_refresh (snd (delete_expired_refresh a b d)) = clear (delete_where P (t_refresh d))"
    by (simp add: delete_expired_refresh_def Let_def P_def gone_def clear_def)
  have ids: "map rt_id (clear rows) = map rt_id rows" "map rt_hash (clear rows) = map rt_hash rows" for rows
    by (simp_all add: clear_def map_upd_where)
  have "refresh_row_ok S U (set (map rt_id (delete_where P (t_refresh d)))) s"
    if "s \<in> set (clear (delete_where P (t_refresh d)))" for s
  proof -
    from that obtain r where r: "r \<in> set (t_refresh d)"
      and s: "s = (if \<exists>i \<in> set gone. rt_parent r = Some i then r\<lparr>rt_parent := None\<rparr> else r)"
      by (auto simp: clear_def in_upd_where)
    have ok: "refresh_row_ok S U (set (map rt_id (t_refresh d))) r"
      using assms r by (simp add: refresh_ok_def)
    show ?thesis
    proof (cases "\<exists>i \<in> set gone. rt_parent r = Some i")
      case True
      with ok s show ?thesis by (simp add: refresh_row_ok_def fk_ok_def)
    next
      case False
      have "fk_ok (\<lambda>p. p \<in> set (map rt_id (delete_where P (t_refresh d)))) (rt_parent r)"
        using ok False by (cases "rt_parent r") (auto simp: refresh_row_ok_def fk_ok_def gone_def image_iff)
      with ok s False show ?thesis by (simp add: refresh_row_ok_def)
    qed
  qed
  then show ?thesis using assms unfolding t refresh_ok_def ids
    by (simp add: distinct_delete_where)
qed

section \<open>The other tables\<close>

lemma codes_ok_upd:
  assumes "codes_ok S U rows" and "\<And>r. ac_id (f r) = ac_id r" and "\<And>r. ac_code (f r) = ac_code r"
    and "\<And>r. code_row_ok S U r \<Longrightarrow> P r \<Longrightarrow> code_row_ok S U (f r)"
  shows "codes_ok S U (upd_where P f rows)"
  using assms ball_upd_where [of rows "code_row_ok S U" P f]
  by (auto simp: codes_ok_def map_upd_where)

lemma magic_ok_upd:
  assumes "magic_ok S rows" and "\<And>r. mt_id (f r) = mt_id r" and "\<And>r. mt_token (f r) = mt_token r"
    and "\<And>r. magic_row_ok S r \<Longrightarrow> P r \<Longrightarrow> magic_row_ok S (f r)"
  shows "magic_ok S (upd_where P f rows)"
  using assms ball_upd_where [of rows "magic_row_ok S" P f]
  by (auto simp: magic_ok_def map_upd_where)

lemma invites_ok_upd:
  assumes "invites_ok S U V n rows"
  shows "invites_ok S U V n (upd_where P (\<lambda>r. r\<lparr>li_used_at := now\<rparr>) rows)"
  using assms ball_upd_where [of rows "invite_row_ok S U V n" P "\<lambda>r. r\<lparr>li_used_at := now\<rparr>"]
  by (auto simp: invites_ok_def map_upd_where invite_row_ok_def)

lemma identities_ok_upd:
  assumes "identities_ok U rows" and "\<And>r. ui_id (f r) = ui_id r"
    and "\<And>r. ui_issuer (f r) = ui_issuer r" and "\<And>r. ui_subject (f r) = ui_subject r"
    and "\<And>r. r \<in> set rows \<Longrightarrow> identity_row_ok U r \<Longrightarrow> P r \<Longrightarrow> identity_row_ok U (f r)"
  shows "identities_ok U (upd_where P f rows)"
  using assms by (auto simp: identities_ok_def map_upd_where in_upd_where)

lemma users_ok_upd:
  assumes "users_ok rows" and "\<And>r. u_id (f r) = u_id r" and "\<And>r. u_email (f r) = u_email r"
    and "\<And>r. u_public_id (f r) = u_public_id r"
  shows "users_ok (upd_where P f rows)"
  using assms by (auto simp: users_ok_def map_upd_where)

lemma users_ok_email:
  assumes "users_ok (t_users d)"
  shows "users_ok (t_users (snd (update_user_email new at i old d)))"
proof (cases "t_users (snd (update_user_email new at i old d)) = t_users d")
  case True
  with assms show ?thesis by simp
next
  case False
  define P :: "user_row \<Rightarrow> bool" where "P = (\<lambda>r. u_id r = i \<and> u_email r = old)"
  define f :: "user_row \<Rightarrow> user_row" where "f = (\<lambda>r. r\<lparr>u_email := new, u_email_changed := Some at\<rparr>)"
  have t: "t_users (snd (update_user_email new at i old d)) = upd_where P f (t_users d)"
    and guard: "\<not> (0 < count_where P (t_users d) \<and> email_taken new (filter (\<lambda>r. \<not> P r) (t_users d)))"
    using False by (auto simp: update_user_email_def Let_def P_def f_def split: if_splits)
  have "0 < count_where P (t_users d)"
    using False t by (metis count_where_0_iff gr0I upd_where_none)
  with guard have free: "\<forall>r \<in> set (t_users d). \<not> P r \<longrightarrow> sql_norm (u_email r) \<noteq> sql_norm new"
    by (auto simp: email_taken_def)
  have "distinct (map (\<lambda>r. sql_norm (u_email r)) (upd_where P f (t_users d)))"
    by (rule distinct_upd_where_one [where k = u_id and v = "sql_norm new"])
      (use assms free in \<open>auto simp: users_ok_def P_def f_def\<close>)
  then show ?thesis using assms unfolding t users_ok_def
    by (simp add: map_upd_where f_def)
qed

lemma service_clash_sym: "service_clash a b \<Longrightarrow> service_clash b a"
  unfolding service_clash_def by metis

lemma services_ok_update:
  assumes "services_ok (t_services d)"
  shows "services_ok (t_services (snd (update_service s d)))"
proof (cases "t_services (snd (update_service s d)) = t_services d")
  case True
  with assms show ?thesis by simp
next
  case False
  then have t: "t_services (snd (update_service s d)) = upd_where (\<lambda>r. sv_id r = sv_id s) (\<lambda>_. s) (t_services d)"
    and ok: "service_check s"
    and free: "\<And>r. r \<in> set (t_services d) \<Longrightarrow> sv_id r \<noteq> sv_id s \<Longrightarrow> \<not> service_clash s r"
    by (auto simp: update_service_def split: if_splits)
  have dist: "distinct (map sv_id (upd_where (\<lambda>r. sv_id r = sv_id s) (\<lambda>_. s) (t_services d)))"
    by (rule distinct_upd_where_one [where k = sv_id and v = "sv_id s"])
      (use assms in \<open>auto simp: services_ok_def\<close>)
  have sub: "r = s \<or> r \<in> set (t_services d) \<and> sv_id r \<noteq> sv_id s"
    if "r \<in> set (upd_where (\<lambda>r. sv_id r = sv_id s) (\<lambda>_. s) (t_services d))" for r
    using that unfolding in_upd_where by (metis (full_types))
  have old: "service_check r" "\<And>q. q \<in> set (t_services d) \<Longrightarrow> sv_id r \<noteq> sv_id q \<Longrightarrow> \<not> service_clash r q"
    if "r \<in> set (t_services d)" for r
    using assms that by (auto simp: services_ok_def)
  show ?thesis unfolding t services_ok_def
    using dist ok free old sub service_clash_sym by metis
qed

lemma services_ok_create:
  assumes "services_ok (t_services d)"
  shows "services_ok (t_services (snd (create_service s d)))"
proof (cases "t_services (snd (create_service s d)) = t_services d")
  case True
  with assms show ?thesis by simp
next
  case False
  then have t: "t_services (snd (create_service s d)) = t_services d @ [s]" and ok: "service_check s"
    and free: "\<And>r. r \<in> set (t_services d) \<Longrightarrow> \<not> service_clash s r"
    by (auto simp: create_service_def split: if_splits)
  have ids: "sv_id r \<noteq> sv_id s" if "r \<in> set (t_services d)" for r
    using free [OF that] by (auto simp: service_clash_def)
  have "distinct (map sv_id (t_services d @ [s]))"
    using assms ids unfolding services_ok_def by (simp, metis imageE)
  moreover have "\<forall>a \<in> set (t_services d @ [s]). \<forall>b \<in> set (t_services d @ [s]).
      sv_id a \<noteq> sv_id b \<longrightarrow> \<not> service_clash a b"
    using assms free service_clash_sym unfolding services_ok_def by (simp, metis)
  ultimately show ?thesis using assms ok unfolding t services_ok_def by simp
qed

section \<open>Every statement keeps the invariant\<close>

text \<open>
  A statement touches one table.  Users and services are never deleted, so the references of
  the other tables stay valid.
\<close>

lemma fk_subset: "A \<subseteq> B \<Longrightarrow> fk_ok (\<lambda>x. x \<in> A) k \<Longrightarrow> fk_ok (\<lambda>x. x \<in> B) k"
  by (auto elim: fk_ok_mono)

lemma tables_mono:
  assumes "S \<subseteq> S'" and "U \<subseteq> U'"
  shows "identities_ok U ir \<Longrightarrow> identities_ok U' ir" "refresh_ok S U rr \<Longrightarrow> refresh_ok S' U' rr"
    "codes_ok S U cr \<Longrightarrow> codes_ok S' U' cr" "magic_ok S mr \<Longrightarrow> magic_ok S' mr"
    "invites_ok S U V n vr \<Longrightarrow> invites_ok S' U' V n vr"
  using assms fk_subset [OF assms(1)] fk_subset [OF assms(2)]
  unfolding identities_ok_def refresh_ok_def codes_ok_def magic_ok_def invites_ok_def row_ok_defs
  by blast+

lemma db_ok_usersI:
  assumes "db_ok d" and "d' = d\<lparr>t_users := rows\<rparr>" and "users_ok rows"
    and "set (map u_id (t_users d)) \<subseteq> set (map u_id rows)"
  shows "db_ok d'"
  using assms tables_mono [of "service_ids d" "service_ids d'" "user_ids d" "user_ids d'"]
  by (simp add: db_ok_def id_set_defs)

lemma db_ok_servicesI:
  assumes "db_ok d" and "d' = d\<lparr>t_services := rows\<rparr>" and "services_ok rows"
    and "set (map sv_id (t_services d)) \<subseteq> set (map sv_id rows)"
  shows "db_ok d'"
  using assms tables_mono [of "service_ids d" "service_ids d'" "user_ids d" "user_ids d'"]
  by (simp add: db_ok_def id_set_defs)

lemma db_ok_refreshI:
  "db_ok d \<Longrightarrow> d' = d\<lparr>t_refresh := rows\<rparr> \<Longrightarrow> refresh_ok (service_ids d) (user_ids d) rows \<Longrightarrow> db_ok d'"
  by (simp add: db_ok_def id_set_defs)

lemma db_ok_codesI:
  "db_ok d \<Longrightarrow> d' = d\<lparr>t_codes := rows\<rparr> \<Longrightarrow> codes_ok (service_ids d) (user_ids d) rows \<Longrightarrow> db_ok d'"
  by (simp add: db_ok_def id_set_defs)

lemma db_ok_magicI:
  "db_ok d \<Longrightarrow> d' = d\<lparr>t_magic := rows\<rparr> \<Longrightarrow> magic_ok (service_ids d) rows \<Longrightarrow> db_ok d'"
  by (simp add: db_ok_def id_set_defs)

lemma db_ok_invitesI:
  "db_ok d \<Longrightarrow> d' = d\<lparr>t_invite_seq := n, t_invites := rows\<rparr> \<Longrightarrow>
   invites_ok (service_ids d) (user_ids d) (provider_ids d) n rows \<Longrightarrow> db_ok d'"
  by (simp add: db_ok_def id_set_defs)

lemma db_ok_identitiesI:
  "db_ok d \<Longrightarrow> d' = d\<lparr>t_identities := rows\<rparr> \<Longrightarrow> identities_ok (user_ids d) rows \<Longrightarrow> db_ok d'"
  by (simp add: db_ok_def id_set_defs)

lemma db_ok_auditI: "db_ok d \<Longrightarrow> d' = d\<lparr>t_audit := rows\<rparr> \<Longrightarrow> db_ok d'"
  by (simp add: db_ok_def id_set_defs)

lemma db_okD:
  assumes "db_ok d"
  shows "refresh_ok (service_ids d) (user_ids d) (t_refresh d)"
    and "codes_ok (service_ids d) (user_ids d) (t_codes d)"
    and "magic_ok (service_ids d) (t_magic d)"
    and "invites_ok (service_ids d) (user_ids d) (provider_ids d) (t_invite_seq d) (t_invites d)"
    and "identities_ok (user_ids d) (t_identities d)"
    and "users_ok (t_users d)" and "services_ok (t_services d)"
  using assms by (simp_all add: db_ok_def)

lemma db_ok_refresh_stmts:
  assumes "db_ok d"
  shows "db_ok (snd (insert_refresh p d))" "db_ok (snd (consume_refresh h now d))"
    "db_ok (snd (revoke_family reason fam d))" "db_ok (snd (revoke_user_refresh reason uid d))"
    "db_ok (snd (delete_expired_refresh a b d))"
proof -
  note ok = db_okD(1) [OF assms]
  show "db_ok (snd (insert_refresh p d))"
    by (rule db_ok_refreshI [OF assms _ refresh_ok_insert [OF ok, where p = p]]) (simp add: insert_refresh_def)
  show "db_ok (snd (delete_expired_refresh a b d))"
    by (rule db_ok_refreshI [OF assms _ refresh_ok_delete [OF ok, where a = a and b = b]])
      (simp add: delete_expired_refresh_def Let_def)
  show "db_ok (snd (consume_refresh h now d))"
    by (rule db_ok_refreshI [OF assms snd_consume_refresh refresh_ok_upd [OF ok]])
      (auto simp: refresh_row_ok_def flag_def)
  show "db_ok (snd (revoke_family reason fam d))"
    by (rule db_ok_refreshI [OF assms _ refresh_ok_upd [OF ok]], simp add: revoke_family_def)
      (simp_all add: refresh_row_ok_def flag_def)
  show "db_ok (snd (revoke_user_refresh reason uid d))"
    by (rule db_ok_refreshI [OF assms _ refresh_ok_upd [OF ok]], simp add: revoke_user_refresh_def Let_def)
      (simp_all add: refresh_row_ok_def flag_def)
qed

lemma db_ok_code_stmts:
  assumes "db_ok d"
  shows "db_ok (snd (insert_code p d))" "db_ok (snd (consume_code fam c d))"
    "db_ok (snd (delete_expired_codes a d))"
proof -
  note ok = db_okD(2) [OF assms]
  show "db_ok (snd (insert_code p d))"
    by (rule db_ok_codesI [OF assms, where rows = "t_codes (snd (insert_code p d))"])
      (use ok in \<open>auto simp: insert_code_def codes_ok_def next_rowid_map code_row_ok_def flag_def
        service_exists_fun user_exists_fun\<close>)
  show "db_ok (snd (consume_code fam c d))"
    by (rule db_ok_codesI [OF assms snd_consume_code codes_ok_upd [OF ok]])
      (simp_all add: code_row_ok_def flag_def)
  show "db_ok (snd (delete_expired_codes a d))"
    by (rule db_ok_codesI [OF assms, where rows = "delete_where (\<lambda>r. ac_expires r < a) (t_codes d)"])
      (use ok in \<open>simp_all add: delete_expired_codes_def codes_ok_def distinct_delete_where\<close>)
qed

lemma db_ok_magic_stmts:
  assumes "db_ok d"
  shows "db_ok (snd (insert_magic_limited p d))" "db_ok (snd (consume_magic h purpose now d))"
    "db_ok (snd (burn_magic old new now d))" "db_ok (snd (delete_expired_magic a b d))"
proof -
  note ok = db_okD(3) [OF assms]
  show "db_ok (snd (insert_magic_limited p d))"
    by (rule db_ok_magicI [OF assms, where rows = "t_magic (snd (insert_magic_limited p d))"])
      (use ok in \<open>auto simp: insert_magic_limited_def magic_ok_def next_rowid_map magic_row_ok_def
        flag_def service_exists_fun\<close>)
  show "db_ok (snd (consume_magic h purpose now d))"
    by (rule db_ok_magicI [OF assms snd_consume_magic magic_ok_upd [OF ok]])
      (simp_all add: magic_row_ok_def flag_def)
  show "db_ok (snd (burn_magic old new now d))"
    by (rule db_ok_magicI [OF assms _ magic_ok_upd [OF ok]], simp add: burn_magic_def Let_def)
      (simp_all add: magic_row_ok_def flag_def)
  show "db_ok (snd (delete_expired_magic a b d))"
    by (rule db_ok_magicI [OF assms, where rows = "t_magic (snd (delete_expired_magic a b d))"])
      (use ok in \<open>simp_all add: delete_expired_magic_def magic_ok_def distinct_delete_where\<close>)
qed

lemma db_ok_burn_invites: "db_ok d \<Longrightarrow> db_ok (snd (burn_invites_where P now d))"
  by (rule db_ok_invitesI [OF _ _ invites_ok_upd [OF db_okD(4)]])
    (simp_all add: burn_invites_where_def Let_def)

lemma db_ok_invite_stmts:
  assumes "db_ok d"
  shows "db_ok (snd (insert_invite_limited p d))" "db_ok (snd (consume_invite now i pid svc d))"
    "db_ok (snd (burn_invites now uid pid d))" "db_ok (snd (burn_invites_for_user now uid d))"
    "db_ok (snd (revoke_invite now i uid d))" "db_ok (snd (delete_expired_invites a d))"
proof -
  note ok = db_okD(4) [OF assms]
  show "db_ok (snd (insert_invite_limited p d))"
    by (rule db_ok_invitesI [OF assms, where n = "t_invite_seq (snd (insert_invite_limited p d))"
          and rows = "t_invites (snd (insert_invite_limited p d))"])
      (use ok in \<open>auto simp: insert_invite_limited_def invites_ok_def invite_row_ok_def Let_def
        service_exists_ids user_exists_ids provider_exists_ids dest: next_rowid_fresh\<close>)
  show "db_ok (snd (consume_invite now i pid svc d))"
    by (rule db_ok_invitesI [OF assms _ invites_ok_upd [OF ok]]) (simp add: snd_consume_invite)
  show "db_ok (snd (delete_expired_invites a d))"
    by (rule db_ok_invitesI [OF assms, where n = "t_invite_seq d"
          and rows = "t_invites (snd (delete_expired_invites a d))"])
      (use ok in \<open>simp_all add: delete_expired_invites_def invites_ok_def distinct_delete_where\<close>)
qed (simp_all add: burn_invites_def burn_invites_for_user_def revoke_invite_def db_ok_burn_invites assms)

lemma image_upd_where:
  "(\<And>r. P r \<Longrightarrow> g (f r) = g r) \<Longrightarrow> g ` set (upd_where P f rows) = g ` set rows"
  by (induction rows) auto

lemma db_ok_user_upd:
  assumes "db_ok d" and "d' = d\<lparr>t_users := upd_where P f (t_users d)\<rparr>"
    and "\<And>r. u_id (f r) = u_id r" "\<And>r. u_email (f r) = u_email r" "\<And>r. u_public_id (f r) = u_public_id r"
  shows "db_ok d'"
  by (rule db_ok_usersI [OF assms(1,2) users_ok_upd [OF db_okD(6)]])
    (use assms in \<open>simp_all add: image_upd_where\<close>)

lemma db_ok_user_stmts:
  assumes "db_ok d"
  shows "db_ok (snd (create_user p d))" "db_ok (snd (update_last_login now i d))"
    "db_ok (snd (update_user_email new now i old d))" "db_ok (snd (bind_admin now i d))"
    "db_ok (snd (update_user name roles orgs i d))" "db_ok (snd (deactivate_user now i d))"
proof -
  note ok = db_okD(6) [OF assms]
  show "db_ok (snd (create_user p d))"
    by (rule db_ok_usersI [OF assms, where rows = "t_users (snd (create_user p d))"])
      (use ok in \<open>auto simp: create_user_def users_ok_def next_rowid_map email_taken_def Let_def\<close>)
  show "db_ok (snd (update_user_email new now i old d))"
    by (rule db_ok_usersI [OF assms, where rows = "t_users (snd (update_user_email new now i old d))"])
      (simp_all add: users_ok_email [OF ok], simp_all add: update_user_email_def Let_def image_upd_where)
qed (rule db_ok_user_upd [OF assms],
     simp add: update_last_login_def bind_admin_def update_user_def deactivate_user_def Let_def case_prod_unfold,
     simp, simp, simp)+

lemma db_ok_identity_stmts:
  assumes "db_ok d"
  shows "db_ok (snd (insert_identity p d))" "db_ok (snd (link_identity_if_first p d))"
    "db_ok (snd (update_identity_seen email now i d))" "db_ok (snd (delete_identity i uid d))"
    "db_ok (snd (set_admin_ok i uid now d))"
proof -
  note ok = db_okD(5) [OF assms]
  show ins: "db_ok (snd (insert_identity p d))"
    by (rule db_ok_identitiesI [OF assms, where rows = "t_identities (snd (insert_identity p d))"])
      (use ok in \<open>auto simp: insert_identity_def identities_ok_def next_rowid_map identity_row_ok_def
        flag_def user_exists_ids\<close>)
  then show "db_ok (snd (link_identity_if_first p d))"
    by (simp add: link_identity_if_first_def assms)
  show "db_ok (snd (update_identity_seen email now i d))"
    by (rule db_ok_identitiesI [OF assms _ identities_ok_upd [OF ok]], simp add: update_identity_seen_def)
      (simp_all add: identity_row_ok_def)
  show "db_ok (snd (delete_identity i uid d))"
    by (rule db_ok_identitiesI [OF assms, where rows = "t_identities (snd (delete_identity i uid d))"])
      (use ok in \<open>simp_all add: delete_identity_def identities_ok_def distinct_delete_where Let_def\<close>)
  show "db_ok (snd (set_admin_ok i uid now d))"
  proof (cases "snd (set_admin_ok i uid now d) = d")
    case False
    define P :: "identity_row \<Rightarrow> bool" where "P = (\<lambda>r. ui_id r = i \<and> ui_user r = uid \<and>
        (\<exists>u \<in> set (t_users d). u_id u = ui_user r \<and> u_admin_bound u = Some now))"
    have t: "snd (set_admin_ok i uid now d) =
        d\<lparr>t_identities := upd_where P (\<lambda>r. r\<lparr>ui_admin_ok := 1\<rparr>) (t_identities d)\<rparr>"
      and free: "\<And>r. r \<in> set (t_identities d) \<Longrightarrow> P r \<Longrightarrow> ui_provider r \<noteq> ''oidc'' \<and> ui_provider r \<noteq> ''github''"
      using False unfolding set_admin_ok_def Let_def P_def [symmetric] by (auto split: if_splits)
    show ?thesis
      by (rule db_ok_identitiesI [OF assms t identities_ok_upd [OF ok]])
        (use free in \<open>auto simp: identity_row_ok_def flag_def\<close>)
  qed (simp add: assms)
qed

lemma db_ok_other_stmts:
  assumes "db_ok d"
  shows "db_ok (snd (insert_audit p d))" "db_ok (snd (delete_old_audit a d))"
    "db_ok (snd (create_service s d))" "db_ok (snd (update_service s d))"
proof -
  note ok = db_okD(7) [OF assms]
  show "db_ok (snd (insert_audit p d))"
    by (rule db_ok_auditI [OF assms, where rows = "t_audit (snd (insert_audit p d))"]) (simp add: insert_audit_def)
  show "db_ok (snd (delete_old_audit a d))"
    by (rule db_ok_auditI [OF assms, where rows = "t_audit (snd (delete_old_audit a d))"]) (simp add: delete_old_audit_def)
  show "db_ok (snd (create_service s d))"
    by (rule db_ok_servicesI [OF assms _ services_ok_create [OF ok, where s = s]])
      (auto simp: create_service_def)
  show "db_ok (snd (update_service s d))"
    by (rule db_ok_servicesI [OF assms _ services_ok_update [OF ok, where s = s]])
      (auto simp: update_service_def image_upd_where)
qed

lemmas db_ok_stmts = db_ok_refresh_stmts db_ok_code_stmts db_ok_magic_stmts db_ok_invite_stmts
  db_ok_user_stmts db_ok_identity_stmts db_ok_other_stmts

lemma db_ok_assign:
  "db_ok d \<Longrightarrow> db_ok (snd (insert_assignment a d))" "db_ok d \<Longrightarrow> db_ok (snd (delete_assignments sid d))"
  by (simp_all add: db_ok_def id_set_defs)

lemma db_ok_exec: "db_ok d \<Longrightarrow> db_ok (exec_stmt s d)"
  by (cases s) (simp_all add: db_ok_stmts db_ok_assign)

lemma db_ok_steps: "db_step\<^sup>*\<^sup>* d d' \<Longrightarrow> db_ok d \<Longrightarrow> db_ok d'"
  by (induction rule: rtranclp_induct) (auto elim!: db_stepE intro: db_ok_exec)

lemma db_ok_evolves:
  "evolves db_step m \<Longrightarrow> db_ok (w_db w) \<Longrightarrow> db_ok (w_db (snd (run_state m w)))"
  using db_ok_steps by (auto simp: evolves_def)

section \<open>The tables that no login depends on\<close>

text \<open>The providers, which only the operator writes; which service offers which provider; and the audit log.\<close>

definition provider_row_ok :: "provider_row \<Rightarrow> bool" where
  "provider_row_ok r \<longleftrightarrow> flag (ip_trust_email r) \<and> flag (ip_active r) \<and> \<not> (ip_trust_email r = 1 \<and> ip_email_domains r = [])"

definition providers_ok :: "provider_row list \<Rightarrow> bool" where
  "providers_ok rows \<longleftrightarrow>
     distinct (map ip_id rows) \<and> distinct (map ip_slug rows) \<and> distinct (map ip_issuer rows) \<and> list_all provider_row_ok rows"

definition assignments_ok :: "string set \<Rightarrow> int set \<Rightarrow> assign_row list \<Rightarrow> bool" where
  "assignments_ok svcs provs rows \<longleftrightarrow>
     distinct (map (\<lambda>a. (as_service a, as_provider a)) rows) \<and>
     (\<forall>a \<in> set rows. as_service a \<in> svcs \<and> as_provider a \<in> provs)"

definition audit_rows_ok :: "audit_row list \<Rightarrow> bool" where
  "audit_rows_ok rows \<longleftrightarrow> distinct (map ae_id rows)"

definition tables_ok :: "db \<Rightarrow> bool" where
  "tables_ok d \<longleftrightarrow> db_ok d \<and> providers_ok (t_providers d) \<and>
     assignments_ok (service_ids d) (provider_ids d) (t_assign d) \<and> audit_rows_ok (t_audit d)"

lemmas token_stmt_defs = insert_refresh_def consume_refresh_def revoke_family_def revoke_user_refresh_def
  delete_expired_refresh_def insert_code_def consume_code_def delete_expired_codes_def insert_magic_limited_def
  consume_magic_def burn_magic_def delete_expired_magic_def insert_invite_limited_def burn_invites_def
  burn_invites_for_user_def burn_invites_where_def revoke_invite_def consume_invite_def delete_expired_invites_def

lemmas user_stmt_defs = create_user_def update_last_login_def update_user_email_def bind_admin_def update_user_def
  deactivate_user_def insert_identity_def link_identity_if_first_def update_identity_seen_def delete_identity_def
  set_admin_ok_def create_service_def update_service_def

lemma exec_providers: "t_providers (exec_stmt s d) = t_providers d"
  by (cases s) (simp_all add: token_stmt_defs user_stmt_defs insert_audit_def delete_old_audit_def Let_def case_prod_unfold)

lemma exec_services: "service_ids d \<subseteq> service_ids (exec_stmt s d)"
  by (cases s) (auto simp: service_ids_def token_stmt_defs user_stmt_defs insert_audit_def delete_old_audit_def Let_def
      case_prod_unfold image_upd_where)

lemma exec_assign: "t_assign (exec_stmt s d) =
    (case s of InsertAssignment a \<Rightarrow> t_assign (snd (insert_assignment a d))
     | DeleteAssignments sid \<Rightarrow> t_assign (snd (delete_assignments sid d)) | _ \<Rightarrow> t_assign d)"
  by (cases s) (simp_all add: token_stmt_defs user_stmt_defs insert_audit_def delete_old_audit_def Let_def case_prod_unfold)

lemma exec_audit: "t_audit (exec_stmt s d) =
    (case s of InsertAudit p \<Rightarrow> t_audit (snd (insert_audit p d))
     | DeleteOldAudit a \<Rightarrow> t_audit (snd (delete_old_audit a d)) | _ \<Rightarrow> t_audit d)"
  by (cases s) (simp_all add: token_stmt_defs user_stmt_defs Let_def case_prod_unfold)

lemma assignments_ok_mono: "assignments_ok S V rows \<Longrightarrow> S \<subseteq> S' \<Longrightarrow> assignments_ok S' V rows"
  by (auto simp: assignments_ok_def)

lemma assignments_ok_stmts:
  assumes "assignments_ok (service_ids d) (provider_ids d) (t_assign d)"
  shows "assignments_ok (service_ids d) (provider_ids d) (t_assign (snd (insert_assignment a d)))"
    and "assignments_ok (service_ids d) (provider_ids d) (t_assign (snd (delete_assignments sid d)))"
  using assms
  by (auto simp: assignments_ok_def insert_assignment_def delete_assignments_def service_exists_ids provider_exists_ids
      distinct_delete_where)

lemma audit_rows_ok_stmts:
  assumes "audit_rows_ok (t_audit d)"
  shows "audit_rows_ok (t_audit (snd (insert_audit p d)))" "audit_rows_ok (t_audit (snd (delete_old_audit a d)))"
  using assms by (auto simp: audit_rows_ok_def insert_audit_def delete_old_audit_def distinct_delete_where next_rowid_map)

lemma tables_ok_exec:
  assumes "tables_ok d"
  shows "tables_ok (exec_stmt s d)"
proof -
  have "provider_ids (exec_stmt s d) = provider_ids d" by (simp add: provider_ids_def exec_providers)
  moreover have "assignments_ok (service_ids d) (provider_ids d) (t_assign (exec_stmt s d))"
    using assms assignments_ok_stmts [of d] by (simp add: tables_ok_def exec_assign split: stmt.split)
  moreover have "audit_rows_ok (t_audit (exec_stmt s d))"
    using assms audit_rows_ok_stmts [of d] by (simp add: tables_ok_def exec_audit split: stmt.split)
  ultimately show ?thesis
    using assms db_ok_exec [of d s] assignments_ok_mono [OF _ exec_services [of d s]]
    by (simp add: tables_ok_def exec_providers)
qed

lemma tables_ok_steps: "db_step\<^sup>*\<^sup>* d d' \<Longrightarrow> tables_ok d \<Longrightarrow> tables_ok d'"
  by (induction rule: rtranclp_induct) (auto elim!: db_stepE intro: tables_ok_exec)

lemma tables_ok_evolves:
  "evolves db_step m \<Longrightarrow> tables_ok (w_db w) \<Longrightarrow> tables_ok (w_db (snd (run_state m w)))"
  using tables_ok_steps by (auto simp: evolves_def)

lemma demo_services_ok: "services_ok [demo_service]"
  by (simp add: services_ok_def service_check_def secret_env_check_def demo_service_def)

lemma demo_db_ok: "db_ok demo_db"
  by (simp add: db_ok_def demo_db_def demo_services_ok users_ok_def identities_ok_def refresh_ok_def
      codes_ok_def magic_ok_def invites_ok_def)

lemma demo_tables_ok: "tables_ok demo_db"
  by (simp add: tables_ok_def demo_db_ok)
    (simp add: demo_db_def demo_provider_def providers_ok_def provider_row_ok_def flag_def assignments_ok_def audit_rows_ok_def)

section \<open>Property\<close>

text \<open>The database invariant (unique keys and hashes, 0/1 flags, valid references, a reason on
  every revoked token, a family on every spent code, no admin approval on generic or GitHub
  identities, unique addresses after normalisation) holds after any sequence of statements the
  program can run, if it held before.\<close>

theorem statements_keep_db_ok:
  assumes "db_ok d"
  shows "db_ok (run_stmts ss d)"
  using db_ok_steps [of d "run_stmts ss d"] assms db_steps_iff by blast

theorem statements_keep_db_ok_witness:
  "db_ok (run_stmts [DeactivateUser ''2024-01-01T00:00:00Z'' 1, BurnInvitesForUser ''2024-01-01T00:00:00Z'' 1] demo_db)"
  by (rule statements_keep_db_ok [OF demo_db_ok])

end
