(* ===== verification/OneShot.thy ===== *)
theory OneShot
  imports DbInvariant
begin

text \<open>
  Two contracts of the secret tables, each an interface proved once and interpreted on the
  statements of the program.

  \<open>one_shot\<close>: a secret that is issued once is redeemed at most once, whatever else runs in
  between (\<open>ConsumeRefreshToken\<close>, \<open>ConsumeAuthorizationCodeChecked\<close>, \<open>ConsumeMagicToken\<close>,
  \<open>ConsumeLinkInvite\<close>).

  \<open>quota\<close>: a sliding-window limit checked inside the inserting statement is never exceeded
  (\<open>InsertMagicTokenLimited\<close>: 3, \<open>InsertLinkInviteLimited\<close>: 5).
\<close>

section \<open>Counting rows\<close>

lemma count_where_mono:
  "(\<And>r. r \<in> set rows \<Longrightarrow> P r \<Longrightarrow> Q r) \<Longrightarrow> count_where P rows \<le> count_where Q rows"
  by (induction rows) auto

lemma count_where_upd_le:
  "(\<And>r. Q r \<Longrightarrow> P (f r) \<Longrightarrow> P r) \<Longrightarrow> count_where P (upd_where Q f rows) \<le> count_where P rows"
  by (induction rows) auto

lemma count_where_upd_less:
  assumes "\<And>r. Q r \<Longrightarrow> P (f r) \<Longrightarrow> P r" and "r \<in> set rows" and "Q r" "P r" "\<not> P (f r)"
  shows "count_where P (upd_where Q f rows) < count_where P rows"
  using assms(2)
proof (induction rows)
  case (Cons s rows)
  have le: "count_where P (upd_where Q f rows) \<le> count_where P rows"
    by (rule count_where_upd_le) (rule assms(1))
  show ?case
  proof (cases "r = s")
    case True
    with assms(3-5) le show ?thesis by simp
  next
    case False
    with Cons have "count_where P (upd_where Q f rows) < count_where P rows" by simp
    with assms(1) [of s] show ?thesis by auto
  qed
qed simp

section \<open>The interfaces\<close>

fun run_all :: "('s \<Rightarrow> 'd \<Rightarrow> 'd) \<Rightarrow> 's list \<Rightarrow> 'd \<Rightarrow> 'd" where
  "run_all ex [] d = d"
| "run_all ex (s # ss) d = run_all ex ss (ex s d)"

text \<open>How often an event \<open>hit s d\<close> (statement \<open>s\<close> executed in \<open>d\<close>) happens along a run.\<close>

fun hits :: "('s \<Rightarrow> 'd \<Rightarrow> 'd) \<Rightarrow> ('s \<Rightarrow> 'd \<Rightarrow> bool) \<Rightarrow> 's list \<Rightarrow> 'd \<Rightarrow> nat" where
  "hits ex hit [] d = 0"
| "hits ex hit (s # ss) d = (if hit s d then 1 else 0) + hits ex hit ss (ex s d)"

lemma run_all_stmts: "run_all exec_stmt ss d = run_stmts ss d"
  by (induction ss arbitrary: d) auto

locale one_shot =
  fixes exec :: "'s \<Rightarrow> 'd \<Rightarrow> 'd" and wins :: "'s \<Rightarrow> 'd \<Rightarrow> bool"
    and unspent :: "'d \<Rightarrow> nat" and issues :: "'s \<Rightarrow> 'd \<Rightarrow> bool"
  assumes win_spends: "wins s d \<Longrightarrow> Suc (unspent (exec s d)) \<le> unspent d"
    and dead_stays: "\<not> issues s d \<Longrightarrow> unspent (exec s d) \<le> unspent d"
    and issue_adds_one: "unspent (exec s d) \<le> Suc (unspent d)"
begin

lemma wins_and_rest:
  "hits exec wins ss d + unspent (run_all exec ss d) \<le> unspent d + hits exec issues ss d"
proof (induction ss arbitrary: d)
  case (Cons s ss)
  from Cons.IH [of "exec s d"] show ?case
    using win_spends [of s d] dead_stays [of s d] issue_adds_one [of s d] by auto
qed simp

lemma wins_bounded: "hits exec wins ss d \<le> unspent d + hits exec issues ss d"
  using wins_and_rest [of ss d] by simp

lemma no_win_when_spent: "unspent d = 0 \<Longrightarrow> \<not> wins s d"
  using win_spends [of s d] by auto

end

locale quota =
  fixes exec :: "'s \<Rightarrow> 'd \<Rightarrow> 'd" and rows :: "'d \<Rightarrow> 'r list" and created :: "'r \<Rightarrow> 'k :: linorder"
    and mine :: "'r \<Rightarrow> bool" and issue :: "'s \<Rightarrow> ('k \<times> 'k) option" and limit :: nat
  assumes insert_limited: "issue s = Some (c, ws) \<Longrightarrow> rows (exec s d) = rows d \<or>
        count_where (\<lambda>r. mine r \<and> ws < created r) (rows d) < limit \<and>
        (\<exists>r. rows (exec s d) = rows d @ [r] \<and> created r = c)"
    and others: "issue s = None \<Longrightarrow>
        count_where (\<lambda>r. mine r \<and> Q (created r)) (rows (exec s d)) \<le>
        count_where (\<lambda>r. mine r \<and> Q (created r)) (rows d)"
begin

lemma quota_step:
  assumes "\<And>c ws. issue s = Some (c, ws) \<Longrightarrow> ws = start c"
    and ok: "\<And>x. count_where (\<lambda>r. mine r \<and> (x < created r \<and> start (created r) \<le> x)) (rows d) \<le> limit"
  shows "count_where (\<lambda>r. mine r \<and> (x < created r \<and> start (created r) \<le> x)) (rows (exec s d)) \<le> limit"
proof (cases "issue s")
  case None
  from others [OF None, of "\<lambda>c. x < c \<and> start c \<le> x" d] ok [of x] show ?thesis by simp
next
  case (Some cw)
  then obtain c where s: "issue s = Some (c, start c)" using assms(1) by (cases cw) auto
  show ?thesis
  proof (cases "rows (exec s d) = rows d")
    case True
    with ok show ?thesis by simp
  next
    case False
    with insert_limited [OF s, of d] obtain r where r: "rows (exec s d) = rows d @ [r]" "created r = c"
      and lim: "count_where (\<lambda>r. mine r \<and> start c < created r) (rows d) < limit" by auto
    show ?thesis
    proof (cases "x < c \<and> start c \<le> x")
      case True
      have "count_where (\<lambda>r. mine r \<and> (x < created r \<and> start (created r) \<le> x)) (rows d)
          \<le> count_where (\<lambda>r. mine r \<and> start c < created r) (rows d)"
        using True by (intro count_where_mono) auto
      with lim r show ?thesis by (simp add: count_where_append)
    next
      case False
      with ok [of x] r show ?thesis by (auto simp: count_where_append)
    qed
  qed
qed

lemma quota_run:
  assumes "\<And>s c ws. s \<in> set ss \<Longrightarrow> issue s = Some (c, ws) \<Longrightarrow> ws = start c"
    and "\<And>x. count_where (\<lambda>r. mine r \<and> (x < created r \<and> start (created r) \<le> x)) (rows d) \<le> limit"
  shows "count_where (\<lambda>r. mine r \<and> (x < created r \<and> start (created r) \<le> x))
      (rows (run_all exec ss d)) \<le> limit"
  using assms
proof (induction ss arbitrary: d)
  case (Cons s ss)
  have step: "count_where (\<lambda>r. mine r \<and> (x < created r \<and> start (created r) \<le> x)) (rows (exec s d)) \<le> limit" for x
    by (rule quota_step) (use Cons.prems in auto)
  show ?case unfolding run_all.simps
    by (rule Cons.IH [OF _ step]) (use Cons.prems in auto)
qed simp

end

section \<open>Which statement touches which secrets\<close>

lemmas stmt_defs = insert_refresh_def revoke_family_def
  revoke_user_refresh_def delete_expired_refresh_def insert_code_def delete_expired_codes_def
  insert_magic_limited_def burn_magic_def delete_expired_magic_def insert_invite_limited_def
  burn_invites_def burn_invites_for_user_def revoke_invite_def burn_invites_where_def
  delete_expired_invites_def create_user_def update_last_login_def update_user_email_def
  bind_admin_def update_user_def deactivate_user_def insert_identity_def
  link_identity_if_first_def update_identity_seen_def delete_identity_def set_admin_ok_def
  insert_audit_def delete_old_audit_def create_service_def update_service_def sql_simps

lemma frame_refresh:
  "t_refresh (exec_stmt s d) = (case s of
     InsertRefresh p \<Rightarrow> t_refresh (snd (insert_refresh p d))
   | ConsumeRefresh h now \<Rightarrow> upd_where (refresh_live_at h now) (\<lambda>r. r\<lparr>rt_used := 1\<rparr>) (t_refresh d)
   | RevokeFamily reason fam \<Rightarrow> t_refresh (snd (revoke_family reason fam d))
   | RevokeUserRefresh reason uid \<Rightarrow> t_refresh (snd (revoke_user_refresh reason uid d))
   | DeleteExpiredRefresh a b \<Rightarrow> t_refresh (snd (delete_expired_refresh a b d))
   | _ \<Rightarrow> t_refresh d)"
  by (cases s) (simp_all add: stmt_defs Let_def case_prod_unfold)

lemma frame_codes:
  "t_codes (exec_stmt s d) = (case s of
     InsertCode p \<Rightarrow> t_codes (snd (insert_code p d))
   | ConsumeCode fam c \<Rightarrow>
       upd_where (code_claimable c) (\<lambda>r. r\<lparr>ac_used := 1, ac_family := Some fam\<rparr>) (t_codes d)
   | DeleteExpiredCodes a \<Rightarrow> t_codes (snd (delete_expired_codes a d))
   | _ \<Rightarrow> t_codes d)"
  by (cases s) (simp_all add: stmt_defs Let_def case_prod_unfold)

lemma frame_magic:
  "t_magic (exec_stmt s d) = (case s of
     InsertMagic p \<Rightarrow> t_magic (snd (insert_magic_limited p d))
   | ConsumeMagic h purpose now \<Rightarrow>
       upd_where (magic_live_at h purpose now) (\<lambda>r. r\<lparr>mt_used := 1\<rparr>) (t_magic d)
   | BurnMagic old new now \<Rightarrow> t_magic (snd (burn_magic old new now d))
   | DeleteExpiredMagic a b \<Rightarrow> t_magic (snd (delete_expired_magic a b d))
   | _ \<Rightarrow> t_magic d)"
  by (cases s) (simp_all add: stmt_defs Let_def case_prod_unfold)

lemma frame_invites:
  "t_invites (exec_stmt s d) = (case s of
     InsertInvite p \<Rightarrow> t_invites (snd (insert_invite_limited p d))
   | ConsumeInvite now i pid svc \<Rightarrow>
       upd_where (invite_claimable now i pid svc) (\<lambda>r. r\<lparr>li_used_at := Some now\<rparr>) (t_invites d)
   | BurnInvites now uid pid \<Rightarrow> t_invites (snd (burn_invites now uid pid d))
   | BurnInvitesForUser now uid \<Rightarrow> t_invites (snd (burn_invites_for_user now uid d))
   | RevokeInvite now i uid \<Rightarrow> t_invites (snd (revoke_invite now i uid d))
   | DeleteExpiredInvites a \<Rightarrow> t_invites (snd (delete_expired_invites a d))
   | _ \<Rightarrow> t_invites d)"
  by (cases s) (simp_all add: stmt_defs Let_def case_prod_unfold)

section \<open>Redeeming, per table\<close>

fun redeems_refresh :: "string \<Rightarrow> stmt \<Rightarrow> db \<Rightarrow> bool" where
  "redeems_refresh h (ConsumeRefresh h' now) d \<longleftrightarrow> h' = h \<and> \<not> isl (fst (consume_refresh h' now d))"
| "redeems_refresh h _ d \<longleftrightarrow> False"

fun issues_refresh :: "string \<Rightarrow> stmt \<Rightarrow> db \<Rightarrow> bool" where
  "issues_refresh h (InsertRefresh p) d \<longleftrightarrow> rp_hash p = h \<and> \<not> isl (fst (insert_refresh p d))"
| "issues_refresh h _ d \<longleftrightarrow> False"

definition unspent_refresh :: "string \<Rightarrow> db \<Rightarrow> nat" where
  "unspent_refresh h d = count_where (\<lambda>r. rt_hash r = h \<and> rt_used r = 0 \<and> rt_revoked r = 0) (t_refresh d)"

fun redeems_code :: "string \<Rightarrow> stmt \<Rightarrow> db \<Rightarrow> bool" where
  "redeems_code h (ConsumeCode fam c) d \<longleftrightarrow> cc_hash c = h \<and> \<not> isl (fst (consume_code fam c d))"
| "redeems_code h _ d \<longleftrightarrow> False"

fun issues_code :: "string \<Rightarrow> stmt \<Rightarrow> db \<Rightarrow> bool" where
  "issues_code h (InsertCode p) d \<longleftrightarrow> cp_code p = h \<and> \<not> isl (fst (insert_code p d))"
| "issues_code h _ d \<longleftrightarrow> False"

definition unspent_code :: "string \<Rightarrow> db \<Rightarrow> nat" where
  "unspent_code h d = count_where (\<lambda>r. ac_code r = h \<and> ac_used r = 0) (t_codes d)"

fun redeems_magic :: "string \<Rightarrow> stmt \<Rightarrow> db \<Rightarrow> bool" where
  "redeems_magic h (ConsumeMagic h' purpose now) d \<longleftrightarrow> h' = h \<and> \<not> isl (fst (consume_magic h' purpose now d))"
| "redeems_magic h _ d \<longleftrightarrow> False"

fun issues_magic :: "string \<Rightarrow> stmt \<Rightarrow> db \<Rightarrow> bool" where
  "issues_magic h (InsertMagic p) d \<longleftrightarrow> mp_token p = h \<and> fst (insert_magic_limited p d) = Inr 1"
| "issues_magic h _ d \<longleftrightarrow> False"

definition unspent_magic :: "string \<Rightarrow> db \<Rightarrow> nat" where
  "unspent_magic h d = count_where (\<lambda>r. mt_token r = h \<and> mt_used r = 0) (t_magic d)"

fun redeems_invite :: "int \<Rightarrow> stmt \<Rightarrow> db \<Rightarrow> bool" where
  "redeems_invite i (ConsumeInvite now i' pid svc) d \<longleftrightarrow> i' = i \<and> \<not> isl (fst (consume_invite now i' pid svc d))"
| "redeems_invite i _ d \<longleftrightarrow> False"

text \<open>An invitation is redeemed by its id; ids come from \<open>AUTOINCREMENT\<close>, above the sequence.\<close>

definition next_invite_id :: "db \<Rightarrow> int" where
  "next_invite_id d = max (t_invite_seq d + 1) (next_rowid (map li_id (t_invites d)))"

fun issues_invite :: "int \<Rightarrow> stmt \<Rightarrow> db \<Rightarrow> bool" where
  "issues_invite i (InsertInvite p) d \<longleftrightarrow> next_invite_id d = i \<and> fst (insert_invite_limited p d) = Inr 1"
| "issues_invite i _ d \<longleftrightarrow> False"

definition unspent_invite :: "int \<Rightarrow> db \<Rightarrow> nat" where
  "unspent_invite i d = count_where (\<lambda>r. li_id r = i \<and> li_used_at r = None) (t_invites d)"

lemma isr_ex: "\<not> isl s \<longleftrightarrow> (\<exists>a. s = Inr a)"
  by (cases s) auto

lemma redeem_less:
  assumes "\<not> isl (fst (update_returning P f rows))" and "\<And>r. P r \<Longrightarrow> Q r" and "\<And>r. \<not> Q (f r)"
  shows "Suc (count_where Q (upd_where P f rows)) \<le> count_where Q rows"
proof -
  obtain r where "r \<in> set rows" "P r"
    using assms(1) by (auto simp: isr_ex fst_update_returning_Inr dest: find_SomeD)
  then have "count_where Q (upd_where P f rows) < count_where Q rows"
    by (intro count_where_upd_less [where r = r]) (use assms in auto)
  then show ?thesis by simp
qed

interpretation refresh: one_shot exec_stmt "redeems_refresh h" "unspent_refresh h" "issues_refresh h" for h
proof
  fix s d
  show "redeems_refresh h s d \<Longrightarrow> Suc (unspent_refresh h (exec_stmt s d)) \<le> unspent_refresh h d"
    by (cases s) (auto simp: unspent_refresh_def fst_consume_refresh snd_consume_refresh
        refresh_live_at_def intro!: redeem_less)
  show "\<not> issues_refresh h s d \<Longrightarrow> unspent_refresh h (exec_stmt s d) \<le> unspent_refresh h d"
    unfolding unspent_refresh_def frame_refresh
    by (cases s) (auto simp: insert_refresh_def revoke_family_def revoke_user_refresh_def
        delete_expired_refresh_def Let_def count_where_append
        split: if_splits intro!: count_where_upd_le order.trans [OF count_where_upd_le count_where_delete_where])
  show "unspent_refresh h (exec_stmt s d) \<le> Suc (unspent_refresh h d)"
    unfolding unspent_refresh_def frame_refresh
    by (cases s) (auto simp: insert_refresh_def revoke_family_def revoke_user_refresh_def
        delete_expired_refresh_def Let_def count_where_append
        intro!: le_SucI count_where_upd_le order.trans [OF count_where_upd_le count_where_delete_where])
qed

interpretation code: one_shot exec_stmt "redeems_code h" "unspent_code h" "issues_code h" for h
proof
  fix s d
  show "redeems_code h s d \<Longrightarrow> Suc (unspent_code h (exec_stmt s d)) \<le> unspent_code h d"
    by (cases s) (auto simp: unspent_code_def fst_consume_code snd_consume_code
        code_claimable_def intro!: redeem_less)
  show "\<not> issues_code h s d \<Longrightarrow> unspent_code h (exec_stmt s d) \<le> unspent_code h d"
    unfolding unspent_code_def frame_codes
    by (cases s) (auto simp: insert_code_def delete_expired_codes_def count_where_append
        split: if_splits intro!: count_where_upd_le count_where_delete_where)
  show "unspent_code h (exec_stmt s d) \<le> Suc (unspent_code h d)"
    unfolding unspent_code_def frame_codes
    by (cases s) (auto simp: insert_code_def delete_expired_codes_def count_where_append
        intro!: le_SucI count_where_upd_le count_where_delete_where)
qed

interpretation magic: one_shot exec_stmt "redeems_magic h" "unspent_magic h" "issues_magic h" for h
proof
  fix s d
  show "redeems_magic h s d \<Longrightarrow> Suc (unspent_magic h (exec_stmt s d)) \<le> unspent_magic h d"
    by (cases s) (auto simp: unspent_magic_def fst_consume_magic snd_consume_magic
        magic_live_at_def intro!: redeem_less)
  show "\<not> issues_magic h s d \<Longrightarrow> unspent_magic h (exec_stmt s d) \<le> unspent_magic h d"
    unfolding unspent_magic_def frame_magic
    by (cases s) (auto simp: insert_magic_limited_def burn_magic_def delete_expired_magic_def
        Let_def count_where_append split: if_splits intro!: count_where_upd_le count_where_delete_where)
  show "unspent_magic h (exec_stmt s d) \<le> Suc (unspent_magic h d)"
    unfolding unspent_magic_def frame_magic
    by (cases s) (auto simp: insert_magic_limited_def burn_magic_def delete_expired_magic_def
        Let_def count_where_append intro!: le_SucI count_where_upd_le count_where_delete_where)
qed

interpretation invite: one_shot exec_stmt "redeems_invite i" "unspent_invite i" "issues_invite i" for i
proof
  fix s d
  show "redeems_invite i s d \<Longrightarrow> Suc (unspent_invite i (exec_stmt s d)) \<le> unspent_invite i d"
    by (cases s) (auto simp: unspent_invite_def fst_consume_invite snd_consume_invite
        invite_claimable_def intro!: redeem_less)
  show "\<not> issues_invite i s d \<Longrightarrow> unspent_invite i (exec_stmt s d) \<le> unspent_invite i d"
    unfolding unspent_invite_def frame_invites
    by (cases s) (auto simp: insert_invite_limited_def next_invite_id_def count_where_append
        burn_invites_def burn_invites_for_user_def revoke_invite_def burn_invites_where_def delete_expired_invites_def Let_def
        split: if_splits intro!: count_where_upd_le count_where_delete_where)
  show "unspent_invite i (exec_stmt s d) \<le> Suc (unspent_invite i d)"
    unfolding unspent_invite_def frame_invites
    by (cases s) (auto simp: insert_invite_limited_def burn_invites_def burn_invites_for_user_def
        revoke_invite_def burn_invites_where_def delete_expired_invites_def Let_def
        count_where_append intro!: le_SucI count_where_upd_le count_where_delete_where)
qed


text \<open>Uniqueness of the stored hashes: at most one unspent row per secret.\<close>

lemma count_where_unique:
  assumes "distinct (map g rows)" and "\<And>r. P r \<Longrightarrow> g r = k"
  shows "count_where P rows \<le> 1"
  using assms(1)
proof (induction rows)
  case (Cons r rows)
  show ?case
  proof (cases "P r")
    case True
    have "\<not> P s" if "s \<in> set rows" for s
    proof
      assume "P s"
      with True assms(2) have "g s = g r" by simp
      moreover have "g s \<in> g ` set rows" using that by simp
      ultimately show False using Cons.prems by simp
    qed
    then have "count_where P rows = 0" by (simp add: count_where_0_iff)
    with True show ?thesis by simp
  next
    case False
    with Cons show ?thesis by simp
  qed
qed simp

lemma unspent_le_1:
  assumes "db_ok d"
  shows "unspent_refresh h d \<le> 1" "unspent_code h d \<le> 1" "unspent_magic h d \<le> 1" "unspent_invite i d \<le> 1"
proof -
  have dist: "distinct (map rt_hash (t_refresh d))" "distinct (map ac_code (t_codes d))"
    "distinct (map mt_token (t_magic d))" "distinct (map li_id (t_invites d))"
    using db_okD(1-4) [OF assms]
    by (simp_all only: refresh_ok_def codes_ok_def magic_ok_def invites_ok_def)
  show "unspent_refresh h d \<le> 1" unfolding unspent_refresh_def
    by (rule count_where_unique [OF dist(1)]) simp
  show "unspent_code h d \<le> 1" unfolding unspent_code_def
    by (rule count_where_unique [OF dist(2)]) simp
  show "unspent_magic h d \<le> 1" unfolding unspent_magic_def
    by (rule count_where_unique [OF dist(3)]) simp
  show "unspent_invite i d \<le> 1" unfolding unspent_invite_def
    by (rule count_where_unique [OF dist(4)]) simp
qed

lemma invite_seq_mono: "t_invite_seq d \<le> t_invite_seq (exec_stmt s d)"
  by (cases s) (auto simp: stmt_defs Let_def case_prod_unfold)

lemma invite_id_never_reissued:
  "i \<le> t_invite_seq d \<Longrightarrow> hits exec_stmt (issues_invite i) ss d = 0"
proof (induction ss arbitrary: d)
  case (Cons s ss)
  then have "i \<le> t_invite_seq (exec_stmt s d)" using invite_seq_mono [of d s] by simp
  moreover have "\<not> issues_invite i s d"
    using Cons.prems by (cases s) (auto simp: next_invite_id_def)
  ultimately show ?case using Cons.IH by simp
qed simp

section \<open>Limits\<close>

fun magic_issue :: "string \<Rightarrow> string \<Rightarrow> stmt \<Rightarrow> (string \<times> string) option" where
  "magic_issue email purpose (InsertMagic p) =
     (if mp_email p = email \<and> mp_purpose p = purpose then Some (mp_created p, mp_window_start p) else None)"
| "magic_issue email purpose _ = None"

fun invite_issue :: "int \<Rightarrow> stmt \<Rightarrow> (string \<times> string) option" where
  "invite_issue uid (InsertInvite p) =
     (if vp_user p = uid then Some (vp_created p, vp_window_start p) else None)"
| "invite_issue uid _ = None"

interpretation magic_quota: quota exec_stmt t_magic mt_created
  "\<lambda>r. mt_email r = email \<and> mt_purpose r = purpose" "magic_issue email purpose" 3 for email purpose
proof
  fix s c ws d
  show "magic_issue email purpose s = Some (c, ws) \<Longrightarrow> t_magic (exec_stmt s d) = t_magic d \<or>
      count_where (\<lambda>r. (mt_email r = email \<and> mt_purpose r = purpose) \<and> ws < mt_created r) (t_magic d) < 3 \<and>
      (\<exists>r. t_magic (exec_stmt s d) = t_magic d @ [r] \<and> mt_created r = c)"
    by (cases s) (auto simp: insert_magic_limited_def magic_in_window_def [abs_def] conj_assoc split: if_splits)
next
  fix s Q d
  show "magic_issue email purpose s = None \<Longrightarrow>
      count_where (\<lambda>r. (mt_email r = email \<and> mt_purpose r = purpose) \<and> Q (mt_created r)) (t_magic (exec_stmt s d))
      \<le> count_where (\<lambda>r. (mt_email r = email \<and> mt_purpose r = purpose) \<and> Q (mt_created r)) (t_magic d)"
    unfolding frame_magic
    by (cases s) (auto simp: insert_magic_limited_def burn_magic_def delete_expired_magic_def
        Let_def count_where_append intro!: count_where_upd_le count_where_delete_where)
qed

interpretation invite_quota: quota exec_stmt t_invites li_created
  "\<lambda>r. li_user r = uid" "invite_issue uid" 5 for uid
proof
  fix s c ws d
  show "invite_issue uid s = Some (c, ws) \<Longrightarrow> t_invites (exec_stmt s d) = t_invites d \<or>
      count_where (\<lambda>r. li_user r = uid \<and> ws < li_created r) (t_invites d) < 5 \<and>
      (\<exists>r. t_invites (exec_stmt s d) = t_invites d @ [r] \<and> li_created r = c)"
    by (cases s) (auto simp: insert_invite_limited_def invite_in_window_def [abs_def] Let_def split: if_splits)
next
  fix s Q d
  show "invite_issue uid s = None \<Longrightarrow>
      count_where (\<lambda>r. li_user r = uid \<and> Q (li_created r)) (t_invites (exec_stmt s d))
      \<le> count_where (\<lambda>r. li_user r = uid \<and> Q (li_created r)) (t_invites d)"
    unfolding frame_invites
    by (cases s) (auto simp: insert_invite_limited_def burn_invites_def burn_invites_for_user_def
        revoke_invite_def burn_invites_where_def delete_expired_invites_def Let_def
        count_where_append intro!: count_where_upd_le count_where_delete_where)
qed

lemma magic_issue_Some: "magic_issue email purpose s = Some (c, ws) \<Longrightarrow>
    \<exists>p. s = InsertMagic p \<and> c = mp_created p \<and> ws = mp_window_start p"
  by (cases s) (auto split: if_splits)

lemma invite_issue_Some: "invite_issue uid s = Some (c, ws) \<Longrightarrow>
    \<exists>p. s = InsertInvite p \<and> c = vp_created p \<and> ws = vp_window_start p"
  by (cases s) (auto split: if_splits)

section \<open>Properties\<close>

text \<open>Over any run of statements, in any interleaving, a refresh token is consumed successfully at
  most as often as rows with its hash were inserted, plus once for an unspent row that was there
  at the start.\<close>

theorem refresh_redeemed_once_per_issue:
  "hits exec_stmt (redeems_refresh h) ss d \<le> unspent_refresh h d + hits exec_stmt (issues_refresh h) ss d"
  by (rule refresh.wins_bounded)

text \<open>The same for authorization codes: no interleaving of token requests redeems a code twice.\<close>

theorem code_redeemed_once_per_issue:
  "hits exec_stmt (redeems_code h) ss d \<le> unspent_code h d + hits exec_stmt (issues_code h) ss d"
  by (rule code.wins_bounded)

text \<open>The same for magic-link tokens, of both purposes and also when an address change burns them.\<close>

theorem magic_redeemed_once_per_issue:
  "hits exec_stmt (redeems_magic h) ss d \<le> unspent_magic h d + hits exec_stmt (issues_magic h) ss d"
  by (rule magic.wins_bounded)

text \<open>A link invitation that exists is redeemed at most once, whatever runs: its id is never given
  out again, not even after the row was cleaned up.\<close>

theorem invite_redeemed_at_most_once:
  assumes "db_ok d" and "i \<le> t_invite_seq d"
  shows "hits exec_stmt (redeems_invite i) ss d \<le> 1"
  using invite.wins_bounded [of i ss d] invite_id_never_reissued [OF assms(2), of ss] unspent_le_1(4) [OF assms(1), of i]
  by simp

theorem invite_redeemed_at_most_once_witness:
  "hits exec_stmt (redeems_invite 0) [ConsumeInvite ''2024-01-01T00:00:00Z'' 0 3 ''app'',
     ConsumeInvite ''2024-01-01T00:00:00Z'' 0 3 ''app''] demo_db \<le> 1"
proof -
  have "(0 :: int) \<le> t_invite_seq demo_db" by (simp add: demo_db_def)
  with demo_db_ok show ?thesis by (rule invite_redeemed_at_most_once)
qed

text \<open>C22. The magic-link limit holds in every window: if each insertion passes the window start that
  belongs to its creation time, no window ever holds more than three tokens of one address and
  purpose, even when insertions race, clocks jump or other statements run in between.\<close>

theorem magic_link_limit:
  assumes "\<And>p. InsertMagic p \<in> set ss \<Longrightarrow> mp_window_start p = start (mp_created p)"
    and "\<And>x. count_where (\<lambda>r. (mt_email r = email \<and> mt_purpose r = purpose) \<and>
      (x < mt_created r \<and> start (mt_created r) \<le> x)) (t_magic d) \<le> 3"
  shows "count_where (\<lambda>r. (mt_email r = email \<and> mt_purpose r = purpose) \<and>
      (x < mt_created r \<and> start (mt_created r) \<le> x)) (t_magic (run_stmts ss d)) \<le> 3"
proof -
  have "ws = start c" if "s \<in> set ss" "magic_issue email purpose s = Some (c, ws)" for s c ws
    using magic_issue_Some [OF that(2)] that(1) assms(1) by blast
  from magic_quota.quota_run [OF this assms(2)] show ?thesis by (simp only: run_all_stmts)
qed

theorem magic_link_limit_witness:
  "count_where (\<lambda>r. (mt_email r = ''a@x.no'' \<and> mt_purpose r = ''service'') \<and>
      (''2023'' < mt_created r \<and> tl (mt_created r) \<le> ''2023''))
     (t_magic (run_stmts [InsertMagic \<lparr>mp_token = ''t'', mp_email = ''a@x.no'', mp_service = Some ''app'',
        mp_redirect = None, mp_purpose = ''service'', mp_created = ''2024'', mp_expires = ''2025'',
        mp_window_start = ''024''\<rparr>] demo_db)) \<le> 3"
  by (rule magic_link_limit [where start = tl]) (simp_all add: demo_db_def)

text \<open>The invitation limit holds in the same way: never more than five invitations of one user
  in a window.\<close>

theorem link_invite_limit:
  assumes "\<And>p. InsertInvite p \<in> set ss \<Longrightarrow> vp_window_start p = start (vp_created p)"
    and "\<And>x. count_where (\<lambda>r. li_user r = uid \<and> (x < li_created r \<and> start (li_created r) \<le> x)) (t_invites d) \<le> 5"
  shows "count_where (\<lambda>r. li_user r = uid \<and> (x < li_created r \<and> start (li_created r) \<le> x))
      (t_invites (run_stmts ss d)) \<le> 5"
proof -
  have "ws = start c" if "s \<in> set ss" "invite_issue uid s = Some (c, ws)" for s c ws
    using invite_issue_Some [OF that(2)] that(1) assms(1) by blast
  from invite_quota.quota_run [OF this assms(2)] show ?thesis by (simp only: run_all_stmts)
qed

theorem link_invite_limit_witness:
  "count_where (\<lambda>r. li_user r = 1 \<and> (''2023'' < li_created r \<and> tl (li_created r) \<le> ''2023''))
     (t_invites (run_stmts [InsertInvite \<lparr>vp_hash = ''h'', vp_user = 1, vp_provider = 3, vp_service = ''app'',
        vp_email = ''ada@x.no'', vp_created_by = ''admin'', vp_created = ''2024'', vp_expires = ''2025'',
        vp_window_start = ''024''\<rparr>] demo_db)) \<le> 5"
  by (rule link_invite_limit [where start = tl]) (simp_all add: demo_db_def)

end
