(* ===== verification/Refresh.thy ===== *)
theory Refresh
  imports TokenUtil OneShot
begin

text \<open>
  Refresh tokens and the redemption of authorization codes: \<open>internal/token/refresh.go\<close>.

  A refresh token is consumed and its child inserted in one transaction.  A token that is
  presented again takes its whole family down; the revocation runs under
  \<open>context.WithoutCancel\<close>, so a client that hangs up cannot stop it.
\<close>

section \<open>Issue, redeem, rotate, revoke\<close>

datatype refresh_err =
    ErrTokenReuse
  | ErrTokenRevoked
  | ErrDb db_err
  | ErrRand
  | ErrDuration
  | ErrFamilyTime
  | ErrNoUserID

record rotation_result =
  rr_token :: string
  rr_email :: string
  rr_family :: string
  rr_service :: string
  rr_user :: "int option"

definition log_event :: "string \<Rightarrow> string \<Rightarrow> string \<Rightarrow> string \<Rightarrow> string \<Rightarrow> bool \<Rightarrow> string \<Rightarrow> event" where
  "log_event typ email svc ip ua ok details =
     \<lparr>ev_type = typ, ev_method = [], ev_email = email, ev_service = svc, ev_ip = ip, ev_ua = ua,
      ev_success = ok, ev_details = details\<rparr>"

definition generate_plain_token :: "env \<Rightarrow> string option io" where
  "generate_plain_token e = do { b \<leftarrow> rand_read e 32; return_io (map_option hex_encode b) }"

definition generate_family_id :: "env \<Rightarrow> string option io" where
  "generate_family_id e = do { b \<leftarrow> rand_read e 16; return_io (map_option hex_encode b) }"

text \<open>\<open>min(now+30d, familyExpiresAt)\<close>; the family text is one this package wrote, in UTC.\<close>

definition compute_expires_at :: "instant \<Rightarrow> string option \<Rightarrow> instant option" where
  "compute_expires_at now fam =
     (let std = now + 30 * 24 * hour
      in case fam of
           None \<Rightarrow> Some std
         | Some s \<Rightarrow> (case parse_rfc3339 s of
               None \<Rightarrow> None
             | Some t \<Rightarrow> Some (if t < std then t else std)))"

definition family_expiry :: "env \<Rightarrow> service_row \<Rightarrow> instant \<Rightarrow> refresh_err + string option" where
  "family_expiry e svc now =
     (case sv_refresh_max_age svc of
        None \<Rightarrow> Inr None
      | Some age \<Rightarrow>
          if age = [] then Inr None
          else (case parse_iso8601 (e_upper e) age of
                  None \<Rightarrow> Inl ErrDuration
                | Some d \<Rightarrow> Inr (Some (format_utc (now + d)))))"

definition new_root_token ::
  "env \<Rightarrow> user_row \<Rightarrow> service_row \<Rightarrow> string \<Rightarrow> instant \<Rightarrow> (refresh_err + string \<times> refresh_params) io" where
  "new_root_token e user svc family now =
     (if u_id user = 0 then return_io (Inl ErrNoUserID)
      else do {
        p \<leftarrow> generate_plain_token e;
        return_io (case p of
          None \<Rightarrow> Inl ErrRand
        | Some plain \<Rightarrow> (case family_expiry e svc now of
            Inl x \<Rightarrow> Inl x
          | Inr fam \<Rightarrow> (case compute_expires_at now fam of
              None \<Rightarrow> Inl ErrFamilyTime
            | Some ex \<Rightarrow> Inr (plain,
                \<lparr>rp_hash = hash_opaque e plain, rp_email = u_email user, rp_user = Some (u_id user),
                 rp_service = Some (sv_id svc), rp_family = family, rp_parent = None,
                 rp_created = format_utc now, rp_expires = format_utc ex, rp_family_expires = fam,
                 rp_ip = None, rp_ua = None\<rparr>))))
      })"

definition issue :: "env \<Rightarrow> call_ctx \<Rightarrow> user_row \<Rightarrow> service_row \<Rightarrow> string \<Rightarrow> string \<Rightarrow> (refresh_err + string) io" where
  "issue e ctx user svc ip ua = do {
     fam \<leftarrow> generate_family_id e;
     case fam of
       None \<Rightarrow> return_io (Inl ErrRand)
     | Some family \<Rightarrow> do {
         now \<leftarrow> time_now e;
         root \<leftarrow> new_root_token e user svc family now;
         case root of
           Inl x \<Rightarrow> return_io (Inl x)
         | Inr (plain, params) \<Rightarrow> do {
             res \<leftarrow> db_write e ctx (insert_refresh params);
             case res of
               Inl x \<Rightarrow> return_io (Inl (ErrDb x))
             | Inr _ \<Rightarrow> do {
                 audit_log (log_event ''refresh_token_issued'' (u_email user) (sv_id svc) ip ua True []);
                 return_io (Inr plain)
               }
           }
       }
   }"

record code_redemption =
  cr_hash :: string
  cr_service :: string
  cr_redirect :: string
  cr_challenge :: string

definition redeem_body ::
  "env \<Rightarrow> call_ctx \<Rightarrow> string \<Rightarrow> code_claim \<Rightarrow> refresh_params \<Rightarrow> (refresh_err + unit) io" where
  "redeem_body e ctx family c params = do {
     used \<leftarrow> db_write e ctx (consume_code family c);
     case used of
       Inl x \<Rightarrow> return_io (Inl (ErrDb x))
     | Inr _ \<Rightarrow> do {
         res \<leftarrow> db_write e ctx (insert_refresh params);
         return_io (case res of Inl x \<Rightarrow> Inl (ErrDb x) | Inr _ \<Rightarrow> Inr ())
       }
   }"

definition redeem_authorization_code ::
  "env \<Rightarrow> call_ctx \<Rightarrow> code_redemption \<Rightarrow> user_row \<Rightarrow> service_row \<Rightarrow> string \<Rightarrow> string \<Rightarrow>
   (refresh_err + string \<times> string) io" where
  "redeem_authorization_code e ctx p user svc ip ua = do {
     fam \<leftarrow> generate_family_id e;
     case fam of
       None \<Rightarrow> return_io (Inl ErrRand)
     | Some family \<Rightarrow> do {
         now \<leftarrow> time_now e;
         root \<leftarrow> new_root_token e user svc family now;
         case root of
           Inl x \<Rightarrow> return_io (Inl x)
         | Inr (plain, params) \<Rightarrow> do {
             res \<leftarrow> in_tx e ctx ErrDb (redeem_body e ctx family
               \<lparr>cc_hash = cr_hash p, cc_service = cr_service p, cc_redirect = cr_redirect p,
                cc_challenge = cr_challenge p, cc_now = format_utc now\<rparr> params);
             case res of
               Inl x \<Rightarrow> return_io (Inl x)
             | Inr _ \<Rightarrow> do {
                 audit_log (log_event ''refresh_token_issued'' (u_email user) (sv_id svc) ip ua True []);
                 return_io (Inr (plain, family))
               }
           }
       }
   }"

text \<open>\<open>gap_s=n\<close> for diagnostics: never negative, never an error.\<close>

definition gap_label :: "string \<Rightarrow> instant \<Rightarrow> string" where
  "gap_label created now =
     (case parse_rfc3339 created of
        None \<Rightarrow> ''gap_s=unknown''
      | Some t \<Rightarrow> ''gap_s='' @ format_int (if now < t then 0 else (now - t) div second))"

definition reuse_gap :: "env \<Rightarrow> call_ctx \<Rightarrow> refresh_row \<Rightarrow> string io" where
  "reuse_gap e ctx r = do {
     child \<leftarrow> db_read e ctx (get_refresh_child (rt_family r) (rt_id r));
     case child of
       Inl _ \<Rightarrow> return_io ''gap_s=unknown''
     | Inr created \<Rightarrow> do { now \<leftarrow> time_now e; return_io (gap_label created now) }
   }"

definition opt_str :: "string option \<Rightarrow> string" where
  "opt_str s = (case s of None \<Rightarrow> [] | Some x \<Rightarrow> x)"

definition handle_reuse :: "env \<Rightarrow> call_ctx \<Rightarrow> refresh_row \<Rightarrow> string \<Rightarrow> string \<Rightarrow> refresh_err io" where
  "handle_reuse e ctx r ip ua = do {
     _ \<leftarrow> db_write e ctx (revoke_family ''reuse_detected'' (rt_family r));
     gap \<leftarrow> reuse_gap e ctx r;
     audit_log (log_event ''refresh_token_reuse'' (rt_email r) (opt_str (rt_service r)) ip ua False gap);
     return_io ErrTokenReuse
   }"

definition classify_rejected :: "env \<Rightarrow> string \<Rightarrow> string \<Rightarrow> string \<Rightarrow> refresh_err io" where
  "classify_rejected e h ip ua = do {
     found \<leftarrow> db_read e Detached (get_refresh_by_hash h);
     case found of
       Inl x \<Rightarrow> return_io (if x = NoRows then ErrTokenRevoked else ErrDb x)
     | Inr r \<Rightarrow>
         if rt_used r = 1 then handle_reuse e Detached r ip ua
         else if rt_revoked r = 1 then do {
           _ \<leftarrow> db_write e Detached (revoke_family ''revoked_token_presented'' (rt_family r));
           audit_log (log_event ''refresh_token_revoked_presented'' (rt_email r) (opt_str (rt_service r))
             ip ua False []);
           return_io ErrTokenRevoked
         }
         else return_io ErrTokenRevoked
   }"

definition child_params :: "env \<Rightarrow> refresh_row \<Rightarrow> string \<Rightarrow> instant \<Rightarrow> instant \<Rightarrow> refresh_params" where
  "child_params e c plain now ex =
     \<lparr>rp_hash = hash_opaque e plain, rp_email = rt_email c, rp_user = rt_user c,
      rp_service = rt_service c, rp_family = rt_family c, rp_parent = Some (rt_id c),
      rp_created = format_utc now, rp_expires = format_utc ex,
      rp_family_expires = rt_family_expires c, rp_ip = None, rp_ua = None\<rparr>"

definition rotate_body ::
  "env \<Rightarrow> call_ctx \<Rightarrow> string \<Rightarrow> instant \<Rightarrow> (refresh_err + refresh_row \<times> string) io" where
  "rotate_body e ctx h now = do {
     res \<leftarrow> db_write e ctx (consume_refresh h (format_utc now));
     case res of
       Inl x \<Rightarrow> return_io (Inl (ErrDb x))
     | Inr c \<Rightarrow> do {
         p \<leftarrow> generate_plain_token e;
         case p of
           None \<Rightarrow> return_io (Inl ErrRand)
         | Some plain \<Rightarrow>
             (case compute_expires_at now (rt_family_expires c) of
                None \<Rightarrow> return_io (Inl ErrFamilyTime)
              | Some ex \<Rightarrow> do {
                  ins \<leftarrow> db_write e ctx (insert_refresh (child_params e c plain now ex));
                  return_io (case ins of Inl x \<Rightarrow> Inl (ErrDb x) | Inr _ \<Rightarrow> Inr (c, plain))
                })
       }
   }"

definition rotate_refresh :: "env \<Rightarrow> call_ctx \<Rightarrow> string \<Rightarrow> string \<Rightarrow> string \<Rightarrow> (refresh_err + rotation_result) io" where
  "rotate_refresh e ctx plain ip ua = do {
     now \<leftarrow> time_now e;
     res \<leftarrow> in_tx e ctx ErrDb (rotate_body e ctx (hash_opaque e plain) now);
     case res of
       Inl x \<Rightarrow>
         if x = ErrDb NoRows then do {
           err \<leftarrow> classify_rejected e (hash_opaque e plain) ip ua;
           return_io (Inl err)
         }
         else return_io (Inl x)
     | Inr (c, new_plain) \<Rightarrow> do {
         audit_log (log_event ''refresh_token_rotated'' (rt_email c) (opt_str (rt_service c)) ip ua True []);
         return_io (Inr \<lparr>rr_token = new_plain, rr_email = rt_email c, rr_family = rt_family c,
                         rr_service = opt_str (rt_service c), rr_user = rt_user c\<rparr>)
       }
   }"

definition revoke_family_of :: "env \<Rightarrow> call_ctx \<Rightarrow> string \<Rightarrow> string \<Rightarrow> (db_err + unit) io" where
  "revoke_family_of e ctx family reason = db_write e ctx (revoke_family reason family)"

text \<open>\<open>RevokeFamilyOfToken\<close>: e-mail, service and whether this call ended a live session.\<close>

definition revoke_family_of_token :: "env \<Rightarrow> string \<Rightarrow> string \<Rightarrow> (string \<times> string \<times> bool) io" where
  "revoke_family_of_token e plain reason = do {
     found \<leftarrow> db_read e Detached (get_refresh_by_hash (hash_opaque e plain));
     case found of
       Inl _ \<Rightarrow> return_io ([], [], False)
     | Inr r \<Rightarrow> do {
         res \<leftarrow> db_write e Detached (revoke_family reason (rt_family r));
         return_io (case res of
           Inl _ \<Rightarrow> ([], [], False)
         | Inr _ \<Rightarrow> if rt_revoked r = 1 then ([], [], False)
                    else (rt_email r, opt_str (rt_service r), True))
       }
   }"

section \<open>What a run of each operation does\<close>

lemma insert_refresh_Inr:
  assumes "fst (insert_refresh p d) = Inr x"
  shows "snd (insert_refresh p d) = d\<lparr>t_refresh := t_refresh d @ [
      \<lparr>rt_id = next_rowid (map rt_id (t_refresh d)), rt_hash = rp_hash p, rt_email = rp_email p,
       rt_service = rp_service p, rt_family = rp_family p, rt_parent = rp_parent p,
       rt_created = rp_created p, rt_expires = rp_expires p,
       rt_family_expires = rp_family_expires p, rt_used = 0, rt_revoked = 0, rt_reason = None,
       rt_ip = rp_ip p, rt_ua = rp_ua p, rt_user = rp_user p\<rparr>]\<rparr>"
    and "rp_hash p \<notin> rt_hash ` set (t_refresh d)" and "length (rp_hash p) = 64"
  using assms by (auto simp: insert_refresh_def split: if_splits)

lemma rotate_body_Inr:
  assumes "run_state (rotate_body e ctx h now) w = (Inr (c, plain), w')"
  shows "\<exists>r ex x. List.find (refresh_live_at h (format_utc now)) (t_refresh (w_db w)) = Some r \<and>
    c = r\<lparr>rt_used := 1\<rparr> \<and> compute_expires_at now (rt_family_expires r) = Some ex \<and>
    fst (insert_refresh (child_params e c plain now ex) (snd (consume_refresh h (format_utc now) (w_db w)))) = Inr x \<and>
    w_db w' = snd (insert_refresh (child_params e c plain now ex) (snd (consume_refresh h (format_utc now) (w_db w))))"
  using assms
  by (auto simp: rotate_body_def generate_plain_token_def io_simps fst_consume_refresh fst_update_returning_Inr
      split: option.splits sum.splits prod.splits)

lemma in_tx_Inl: "run_state (in_tx e ctx wrap body) w = (Inl x, w') \<Longrightarrow> w_db w' = w_db w"
  by (auto simp: io_simps split: option.splits sum.splits prod.splits)

lemma in_tx_Inr:
  assumes "run_state (in_tx e ctx wrap body) w = (Inr a, w')"
  shows "\<exists>w1. run_state body (w\<lparr>w_step := Suc (w_step w)\<rparr>) = (Inr a, w1) \<and> w' = w1\<lparr>w_step := Suc (w_step w1)\<rparr>"
  using assms by (auto simp: io_simps split: option.splits sum.splits prod.splits)

lemma rotate_Inr:
  assumes "run_state (rotate_refresh e ctx tok ip ua) w = (Inr res, w')"
  shows "\<exists>c plain w1. run_state (in_tx e ctx ErrDb (rotate_body e ctx (hash_opaque e tok) (e_clock e (w_step w))))
      (w\<lparr>w_step := Suc (w_step w)\<rparr>) = (Inr (c, plain), w1) \<and> w_db w' = w_db w1 \<and>
    res = \<lparr>rr_token = plain, rr_email = rt_email c, rr_family = rt_family c,
           rr_service = opt_str (rt_service c), rr_user = rt_user c\<rparr>"
proof -
  obtain r w1 where r: "run_state (in_tx e ctx ErrDb (rotate_body e ctx (hash_opaque e tok) (e_clock e (w_step w))))
      (w\<lparr>w_step := Suc (w_step w)\<rparr>) = (r, w1)" by fastforce
  show ?thesis
  proof (cases r)
    case (Inl x)
    with assms r show ?thesis
      by (auto simp: rotate_refresh_def run_time_now split: if_splits prod.splits)
  next
    case (Inr cp)
    with assms r show ?thesis
      by (cases cp) (auto simp: rotate_refresh_def run_time_now run_audit_log)
  qed
qed

lemma rotate_effect:
  assumes "run_state (rotate_refresh e ctx tok ip ua) w = (Inr res, w')"
    and h: "h = hash_opaque e tok" and now: "now = e_clock e (w_step w)"
  shows "\<exists>parent child ex.
     parent \<in> set (t_refresh (w_db w)) \<and> refresh_live_at h (format_utc now) parent \<and>
     w_db w' = (w_db w)\<lparr>t_refresh := upd_where (refresh_live_at h (format_utc now))
       (\<lambda>r. r\<lparr>rt_used := 1\<rparr>) (t_refresh (w_db w)) @ [child]\<rparr> \<and>
     rt_hash child = hash_opaque e (rr_token res) \<and> rt_hash child \<notin> rt_hash ` set (t_refresh (w_db w)) \<and>
     rt_used child = 0 \<and> rt_revoked child = 0 \<and> rt_parent child = Some (rt_id parent) \<and>
     rt_family child = rt_family parent \<and> rt_family_expires child = rt_family_expires parent \<and>
     rt_email child = rt_email parent \<and> rt_user child = rt_user parent \<and> rt_service child = rt_service parent \<and>
     compute_expires_at now (rt_family_expires parent) = Some ex \<and> rt_expires child = format_utc ex \<and>
     rr_email res = rt_email parent \<and> rr_family res = rt_family parent \<and> rr_user res = rt_user parent \<and>
     rr_service res = opt_str (rt_service parent)"
proof -
  from rotate_Inr [OF assms(1)] obtain c plain w1 where
    tx: "run_state (in_tx e ctx ErrDb (rotate_body e ctx h now)) (w\<lparr>w_step := Suc (w_step w)\<rparr>) = (Inr (c, plain), w1)"
    and db: "w_db w' = w_db w1" and res: "res = \<lparr>rr_token = plain, rr_email = rt_email c, rr_family = rt_family c,
           rr_service = opt_str (rt_service c), rr_user = rt_user c\<rparr>"
    unfolding h now by blast
  from in_tx_Inr [OF tx] obtain w2 where
    "run_state (rotate_body e ctx h now) (w\<lparr>w_step := Suc (Suc (w_step w))\<rparr>) = (Inr (c, plain), w2)"
    and w1: "w1 = w2\<lparr>w_step := Suc (w_step w2)\<rparr>" by auto
  from rotate_body_Inr [OF this(1)] obtain r ex x where
    r: "List.find (refresh_live_at h (format_utc now)) (t_refresh (w_db w)) = Some r"
    and c: "c = r\<lparr>rt_used := 1\<rparr>" and ex: "compute_expires_at now (rt_family_expires r) = Some ex"
    and ins: "fst (insert_refresh (child_params e c plain now ex) (snd (consume_refresh h (format_utc now) (w_db w)))) = Inr x"
    and d: "w_db w2 = snd (insert_refresh (child_params e c plain now ex) (snd (consume_refresh h (format_utc now) (w_db w))))"
    by auto
  have hashes: "rt_hash ` set (upd_where (refresh_live_at h (format_utc now)) (\<lambda>r. r\<lparr>rt_used := 1\<rparr>) (t_refresh (w_db w)))
      = rt_hash ` set (t_refresh (w_db w))"
    by (rule image_upd_where) simp
  define child where "child =
      \<lparr>rt_id = next_rowid (map rt_id (upd_where (refresh_live_at h (format_utc now))
         (\<lambda>r. r\<lparr>rt_used := 1\<rparr>) (t_refresh (w_db w)))), rt_hash = hash_opaque e plain, rt_email = rt_email c,
       rt_service = rt_service c, rt_family = rt_family c, rt_parent = Some (rt_id c),
       rt_created = format_utc now, rt_expires = format_utc ex,
       rt_family_expires = rt_family_expires c, rt_used = 0, rt_revoked = 0, rt_reason = None,
       rt_ip = None, rt_ua = None, rt_user = rt_user c\<rparr>"
  have "w_db w' = (w_db w)\<lparr>t_refresh := upd_where (refresh_live_at h (format_utc now))
       (\<lambda>r. r\<lparr>rt_used := 1\<rparr>) (t_refresh (w_db w)) @ [child]\<rparr>"
    and "hash_opaque e plain \<notin> rt_hash ` set (t_refresh (w_db w))"
    using insert_refresh_Inr [OF ins]
    by (simp_all add: db w1 d snd_consume_refresh child_params_def hashes child_def)
  with find_SomeD [OF r] ex show ?thesis
    by (intro exI [of _ r] exI [of _ child] exI [of _ ex] conjI) (simp_all add: child_def c res)
qed

lemma unspent_after_rotate:
  assumes "run_state (rotate_refresh e ctx tok ip ua) w = (Inr res, w')" and "db_ok (w_db w)"
  shows "unspent_refresh (hash_opaque e tok) (w_db w') = 0"
proof -
  define h now where "h = hash_opaque e tok" and "now = e_clock e (w_step w)"
  let ?live = "refresh_live_at h (format_utc now)" and ?use = "\<lambda>r. r\<lparr>rt_used := 1\<rparr>"
  let ?unspent = "\<lambda>r. rt_hash r = h \<and> rt_used r = 0 \<and> rt_revoked r = 0"
  obtain parent child where p: "parent \<in> set (t_refresh (w_db w))" "?live parent"
    and d: "t_refresh (w_db w') = upd_where ?live ?use (t_refresh (w_db w)) @ [child]"
    and c: "rt_hash child \<notin> rt_hash ` set (t_refresh (w_db w))"
    using rotate_effect [OF assms(1) h_def now_def] by auto
  have "rt_hash child \<noteq> h" using p c by (auto simp: refresh_live_at_def)
  moreover have "count_where ?unspent (upd_where ?live ?use (t_refresh (w_db w))) < count_where ?unspent (t_refresh (w_db w))"
    by (rule count_where_upd_less [where r = parent]) (use p in \<open>auto simp: refresh_live_at_def\<close>)
  moreover have "count_where ?unspent (t_refresh (w_db w)) \<le> 1"
    using unspent_le_1(1) [OF assms(2), of h] by (simp add: unspent_refresh_def)
  ultimately show ?thesis
    by (simp add: unspent_refresh_def d count_where_append flip: h_def)
qed

lemma rotate_needs_unspent:
  assumes "run_state (rotate_refresh e ctx tok ip ua) w = (Inr res, w')"
  shows "0 < unspent_refresh (hash_opaque e tok) (w_db w)"
proof -
  obtain parent where "parent \<in> set (t_refresh (w_db w))"
    "refresh_live_at (hash_opaque e tok) (format_utc (e_clock e (w_step w))) parent"
    using rotate_effect [OF assms refl refl] by blast
  then have "count_where (\<lambda>r. rt_hash r = hash_opaque e tok \<and> rt_used r = 0 \<and> rt_revoked r = 0) (t_refresh (w_db w)) \<noteq> 0"
    by (auto simp: count_where_0_iff refresh_live_at_def)
  then show ?thesis by (simp add: unspent_refresh_def)
qed

lemma unique_row:
  assumes "db_ok d" and "r \<in> set (t_refresh d)" and "s \<in> set (t_refresh d)" and "rt_hash r = rt_hash s"
  shows "r = s"
  using assms distinct_map_eqD [of rt_hash "t_refresh d" r s] by (auto simp: db_ok_def refresh_ok_def)

lemma consume_dead:
  assumes "\<forall>r \<in> set (t_refresh d). rt_hash r = h \<longrightarrow> rt_used r \<noteq> 0 \<or> rt_revoked r \<noteq> 0"
  shows "fst (consume_refresh h now d) = Inl NoRows"
  using assms by (auto simp: fst_consume_refresh fst_update_returning_Inl refresh_live_at_def)

text \<open>The transaction of a rotation, when the token is not live: it changes nothing.\<close>

lemma rotate_tx_dead:
  assumes "\<forall>r \<in> set (t_refresh (w_db w)). rt_hash r = h \<longrightarrow> rt_used r \<noteq> 0 \<or> rt_revoked r \<noteq> 0"
    and "\<forall>i. \<not> e_fault e i"
    and "run_state (in_tx e ctx ErrDb (rotate_body e ctx h now)) w = (res, w')"
  shows "res = Inl (ErrDb (if ctx = ReqCtx \<and> (e_cancel e (w_step w) \<or> e_cancel e (Suc (w_step w))) then Canceled else NoRows))"
    and "w_db w' = w_db w" and "w_audit w' = w_audit w"
  using assms consume_dead [OF assms(1)]
  by (auto simp: io_simps rotate_body_def db_failure_def split: if_splits option.splits sum.splits prod.splits)

lemma revoke_family_rows:
  "t_refresh (snd (revoke_family reason fam d)) = upd_where (\<lambda>r. rt_family r = fam \<and> rt_revoked r = 0)
     (\<lambda>r. r\<lparr>rt_revoked := 1, rt_reason := Some reason\<rparr>) (t_refresh d)"
  by (simp add: revoke_family_def)

lemma revoke_family_revokes:
  assumes "r \<in> set (t_refresh (snd (revoke_family reason fam d)))" and "rt_family r = fam"
  shows "rt_revoked r \<noteq> 0"
proof -
  obtain q where "r = (if rt_family q = fam \<and> rt_revoked q = 0
      then q\<lparr>rt_revoked := 1, rt_reason := Some reason\<rparr> else q)"
    using assms(1) unfolding revoke_family_rows in_upd_where by blast
  then show ?thesis using assms(2) by (cases "rt_family q = fam \<and> rt_revoked q = 0") simp_all
qed

lemma get_hash_found:
  assumes "db_ok d" and "r \<in> set (t_refresh d)"
  shows "get_refresh_by_hash (rt_hash r) d = Inr r"
proof (cases "get_refresh_by_hash (rt_hash r) d")
  case (Inl x)
  with assms(2) show ?thesis by (auto simp: get_refresh_by_hash_def select_one_Inl)
next
  case (Inr s)
  then have "s \<in> set (t_refresh d) \<and> rt_hash s = rt_hash r"
    unfolding get_refresh_by_hash_def by (rule select_one_Inr)
  then have "r = s" using unique_row [OF assms] by metis
  with Inr show ?thesis by simp
qed

lemma classify_used:
  assumes "db_ok (w_db w)" and "r \<in> set (t_refresh (w_db w))" and "rt_used r = 1" and "\<forall>i. \<not> e_fault e i"
    and "run_state (classify_rejected e (rt_hash r) ip ua) w = (err, w')"
  shows "err = ErrTokenReuse"
    and "w_db w' = snd (revoke_family ''reuse_detected'' (rt_family r) (w_db w))"
    and "\<exists>gap. w_audit w' = w_audit w @
      [log_event ''refresh_token_reuse'' (rt_email r) (opt_str (rt_service r)) ip ua False gap]"
  using assms get_hash_found [OF assms(1,2)]
  by (auto simp: classify_rejected_def handle_reuse_def reuse_gap_def io_simps db_failure_Detached
      split: sum.splits)

lemma redeem_Inl:
  assumes "run_state (redeem_authorization_code e ctx p user svc ip ua) w = (Inl x, w')"
  shows "w_db w' = w_db w"
  using assms
  by (auto simp: redeem_authorization_code_def generate_family_id_def new_root_token_def
      generate_plain_token_def run_rand_read run_time_now run_audit_log
      split: option.splits if_splits sum.splits prod.splits dest!: in_tx_Inl)

definition redemption_claim :: "code_redemption \<Rightarrow> instant \<Rightarrow> code_claim" where
  "redemption_claim p now = \<lparr>cc_hash = cr_hash p, cc_service = cr_service p, cc_redirect = cr_redirect p,
     cc_challenge = cr_challenge p, cc_now = format_utc now\<rparr>"

lemma new_root_token_Inr:
  assumes "run_state (new_root_token e user svc family now) w = (Inr (plain, params), w')"
  shows "rp_hash params = hash_opaque e plain" "rp_family params = family" "rp_user params = Some (u_id user)"
    "rp_service params = Some (sv_id svc)" "rp_parent params = None" "rp_email params = u_email user"
    "rp_created params = format_utc now" "w_db w' = w_db w"
  using assms by (auto simp: new_root_token_def generate_plain_token_def run_rand_read
      split: option.splits if_splits sum.splits)

lemma redeem_Inr:
  assumes "run_state (redeem_authorization_code e ctx p user svc ip ua) w = (Inr (plain, family), w')"
    and c: "c = redemption_claim p (e_clock e (Suc (w_step w)))"
  shows "\<exists>params x y. rp_hash params = hash_opaque e plain \<and> rp_family params = family \<and>
     rp_user params = Some (u_id user) \<and> rp_service params = Some (sv_id svc) \<and> rp_parent params = None \<and>
     rp_email params = u_email user \<and>
     fst (consume_code family c (w_db w)) = Inr x \<and>
     fst (insert_refresh params (snd (consume_code family c (w_db w)))) = Inr y \<and>
     w_db w' = snd (insert_refresh params (snd (consume_code family c (w_db w))))"
proof -
  define w1 where "w1 = w\<lparr>w_step := Suc (Suc (w_step w))\<rparr>"
  obtain plain' fam' params w2 w3 where
    root: "run_state (new_root_token e user svc fam' (e_clock e (Suc (w_step w)))) w1 = (Inr (plain', params), w2)"
    and tx: "run_state (in_tx e ctx ErrDb (redeem_body e ctx fam' c params)) w2 = (Inr (), w3)"
    and w': "w_db w' = w_db w3" and eq: "plain' = plain" "fam' = family"
    using assms(1) unfolding c
    by (auto simp: redeem_authorization_code_def generate_family_id_def run_rand_read run_time_now
        run_audit_log redemption_claim_def w1_def split: option.splits sum.splits prod.splits)
  from in_tx_Inr [OF tx] obtain w4 where
    body: "run_state (redeem_body e ctx fam' c params) (w2\<lparr>w_step := Suc (w_step w2)\<rparr>) = (Inr (), w4)"
    and w3: "w3 = w4\<lparr>w_step := Suc (w_step w4)\<rparr>" by blast
  have "w_db w2 = w_db w" using new_root_token_Inr(8) [OF root] by (simp add: w1_def)
  then have "\<exists>x y. fst (consume_code family c (w_db w)) = Inr x \<and>
     fst (insert_refresh params (snd (consume_code family c (w_db w)))) = Inr y \<and>
     w_db w' = snd (insert_refresh params (snd (consume_code family c (w_db w))))"
    using body unfolding eq w' w3
    by (auto simp: redeem_body_def run_db_write split: option.splits sum.splits prod.splits)
  with new_root_token_Inr [OF root] eq show ?thesis by blast
qed

lemma insert_refresh_accepts:
  assumes "length (rp_hash p) = 64" and "rp_hash p \<notin> rt_hash ` set (t_refresh d)"
    and "fk_ok (\<lambda>s. s \<in> service_ids d) (rp_service p)" and "fk_ok (\<lambda>u. u \<in> user_ids d) (rp_user p)"
    and "fk_ok (\<lambda>i. i \<in> rt_id ` set (t_refresh d)) (rp_parent p)"
  shows "fst (insert_refresh p d) = Inr ()"
proof -
  have "(\<lambda>i. \<exists>r \<in> set (t_refresh d). rt_id r = i) = (\<lambda>i. i \<in> rt_id ` set (t_refresh d))" by auto
  moreover have "\<not> (\<exists>r \<in> set (t_refresh d). rt_hash r = rp_hash p)" using assms(2) by (metis imageI)
  ultimately show ?thesis using assms(1,3-5)
    by (simp add: insert_refresh_def service_exists_fun user_exists_fun)
qed

lemma rotate_succeeds:
  assumes "quiet e" and "db_ok (w_db w)" and "r \<in> set (t_refresh (w_db w))"
    and h: "h = hash_opaque e tok" and now: "now = e_clock e (w_step w)"
    and live: "refresh_live_at h (format_utc now) r"
    and rand: "e_rand e (w_step w + 3) 32 = Some b" and len: "length (hash_opaque e (hex_encode b)) = 64"
    and fresh: "hash_opaque e (hex_encode b) \<notin> rt_hash ` set (t_refresh (w_db w))"
    and ex: "compute_expires_at now (rt_family_expires r) = Some ex"
  shows "\<exists>res w'. run_state (rotate_refresh e ctx tok ip ua) w = (Inr res, w') \<and> rr_token res = hex_encode b"
proof -
  define d where "d = w_db w"
  have uniq: "s = r" if "s \<in> set (t_refresh d)" "refresh_live_at h (format_utc now) s" for s
    using unique_row [OF assms(2) _ assms(3), of s] that live by (simp add: refresh_live_at_def d_def)
  have f: "List.find (refresh_live_at h (format_utc now)) (t_refresh d) = Some r"
  proof (cases "List.find (refresh_live_at h (format_utc now)) (t_refresh d)")
    case None
    with assms(3) live show ?thesis by (auto simp: find_None_all d_def)
  next
    case (Some s)
    with find_SomeD [OF Some] uniq show ?thesis by simp
  qed
  define d1 where "d1 = snd (consume_refresh h (format_utc now) d)"
  have d1: "d1 = d\<lparr>t_refresh := upd_where (refresh_live_at h (format_utc now)) (\<lambda>r. r\<lparr>rt_used := 1\<rparr>) (t_refresh d)\<rparr>"
    by (simp add: d1_def snd_consume_refresh)
  have c: "fst (consume_refresh h (format_utc now) d) = Inr (r\<lparr>rt_used := 1\<rparr>)"
    using f by (simp add: fst_consume_refresh fst_update_returning_Inr)
  have hashes: "rt_hash ` set (t_refresh d1) = rt_hash ` set (t_refresh d)"
    and ids: "rt_id ` set (t_refresh d1) = rt_id ` set (t_refresh d)"
    by (simp_all add: d1 image_upd_where)
  have row: "refresh_row_ok (service_ids d) (user_ids d) (set (map rt_id (t_refresh d))) r"
    using assms(2,3) by (auto simp: db_ok_def refresh_ok_def d_def)
  have "fst (insert_refresh (child_params e (r\<lparr>rt_used := 1\<rparr>) (hex_encode b) now ex) d1) = Inr ()"
  proof (rule insert_refresh_accepts)
    have "service_ids d1 = service_ids d" "user_ids d1 = user_ids d" by (simp_all add: d1 id_set_defs)
    then show "fk_ok (\<lambda>s. s \<in> service_ids d1) (rp_service (child_params e (r\<lparr>rt_used := 1\<rparr>) (hex_encode b) now ex))"
      "fk_ok (\<lambda>u. u \<in> user_ids d1) (rp_user (child_params e (r\<lparr>rt_used := 1\<rparr>) (hex_encode b) now ex))"
      using row by (simp_all add: child_params_def refresh_row_ok_def)
    show "fk_ok (\<lambda>i. i \<in> rt_id ` set (t_refresh d1)) (rp_parent (child_params e (r\<lparr>rt_used := 1\<rparr>) (hex_encode b) now ex))"
      using assms(3) unfolding ids by (simp add: child_params_def fk_ok_def d_def)
    show "rp_hash (child_params e (r\<lparr>rt_used := 1\<rparr>) (hex_encode b) now ex) \<notin> rt_hash ` set (t_refresh d1)"
      using fresh unfolding hashes by (simp add: child_params_def d_def)
  qed (use len in \<open>simp add: child_params_def\<close>)
  then show ?thesis
    using assms(1) rand c ex
    by (simp add: rotate_refresh_def rotate_body_def generate_plain_token_def io_simps numeral_3_eq_3
        d_def d1_def flip: h now)
qed

section \<open>Handlers stay within the statements\<close>

lemma evolves_refresh [evolve_intros]:
  "evolves db_step (new_root_token e user svc family now)"
  "evolves db_step (issue e ctx user svc ip ua)"
  "evolves db_step (redeem_authorization_code e ctx p user svc ip ua)"
  "evolves db_step (classify_rejected e h ip ua)"
  "evolves db_step (rotate_refresh e ctx tok ip ua)"
  "evolves db_step (revoke_family_of e ctx family reason)"
  "evolves db_step (revoke_family_of_token e plain reason)"
  unfolding new_root_token_def issue_def generate_family_id_def generate_plain_token_def
    redeem_authorization_code_def redeem_body_def classify_rejected_def handle_reuse_def reuse_gap_def
    rotate_refresh_def rotate_body_def revoke_family_of_def revoke_family_of_token_def
  by (intro evolve_intros)+

section \<open>A concrete token\<close>

definition demo_refresh_row :: refresh_row where
  "demo_refresh_row = \<lparr>rt_id = 1, rt_hash = hash_opaque demo_env ''tok'', rt_email = ''ada@x.no'',
     rt_service = Some ''app'', rt_family = ''fam'', rt_parent = None, rt_created = format_utc noon,
     rt_expires = format_utc (noon + hour), rt_family_expires = None, rt_used = 0, rt_revoked = 0,
     rt_reason = None, rt_ip = None, rt_ua = None, rt_user = Some 1\<rparr>"

definition demo_refresh_world :: world where
  "demo_refresh_world = demo_world\<lparr>w_db := demo_db\<lparr>t_refresh := [demo_refresh_row]\<rparr>\<rparr>"

lemma length_demo_hash: "length (hash_opaque demo_env s) = 64"
  by (simp add: hash_opaque_def demo_env_def)

lemma demo_refresh_ok: "db_ok (w_db demo_refresh_world)"
proof -
  have "refresh_ok (service_ids demo_db) (user_ids demo_db) [demo_refresh_row]"
    using length_demo_hash [of "''tok''"]
    by (simp add: refresh_ok_def refresh_row_ok_def flag_def demo_refresh_row_def id_set_defs demo_db_def
        demo_service_def demo_user_def fk_ok_def)
  from db_ok_refreshI [OF demo_db_ok refl this] show ?thesis by (simp add: demo_refresh_world_def)
qed

lemma noon_unix: "unix noon = 1700000000" "unix (noon + hour) = 1700003600"
  by (simp_all add: unix_def noon_def duration_defs)

lemma demo_refresh_live: "refresh_live_at (hash_opaque demo_env ''tok'') (format_utc noon) demo_refresh_row"
proof -
  have "format_utc noon < format_utc (noon + hour)"
    by (subst format_utc_less_iff) (simp_all add: text_range_def noon_unix)
  then show ?thesis by (simp add: refresh_live_at_def demo_refresh_row_def)
qed

lemma demo_refresh_in: "demo_refresh_row \<in> set (t_refresh (w_db demo_refresh_world))"
  by (simp add: demo_refresh_world_def)

lemma demo_rand: "e_rand demo_env i n = Some (replicate n (char_of (65 + i)))"
  by (simp add: demo_env_def)

lemma demo_clock: "e_clock demo_env i = noon"
  by (simp add: demo_env_def)

lemma demo_hash_ne: "hash_opaque demo_env (hex_encode (CHR ''D'' # s)) \<noteq> hash_opaque demo_env ''tok''"
proof
  assume "hash_opaque demo_env (hex_encode (CHR ''D'' # s)) = hash_opaque demo_env ''tok''"
  then have "e_sha256 demo_env (hex_encode (CHR ''D'' # s)) = e_sha256 demo_env ''tok''"
    unfolding hash_opaque_def by (rule hex_encode_inj)
  then have "hex_digit (byte (CHR ''D'') div 16) = CHR ''t''"
    by (simp add: demo_env_def)
  moreover have "hex_digit (byte (CHR ''D'') div 16) = CHR ''4''" by code_simp
  ultimately show False by simp
qed

lemma demo_rotate:
  "\<exists>res w'. run_state (rotate_refresh demo_env ReqCtx ''tok'' [] []) demo_refresh_world = (Inr res, w') \<and>
     rr_token res = hex_encode (replicate 32 (CHR ''D''))"
proof (rule rotate_succeeds [OF quiet_demo demo_refresh_ok demo_refresh_in refl refl])
  have rep: "replicate 32 (CHR ''D'') = CHR ''D'' # replicate 31 (CHR ''D'')"
    using replicate_Suc [of 31 "CHR ''D''"] by (simp del: replicate_Suc)
  have step: "w_step demo_refresh_world = 0" by (simp add: demo_refresh_world_def demo_world_def)
  show "refresh_live_at (hash_opaque demo_env ''tok'') (format_utc (e_clock demo_env (w_step demo_refresh_world)))
      demo_refresh_row"
    using demo_refresh_live by (simp add: demo_clock)
  have "(char_of (68 :: nat) :: char) = CHR ''D''" by code_simp
  then show "e_rand demo_env (w_step demo_refresh_world + 3) 32 = Some (replicate 32 (CHR ''D''))"
    by (simp add: demo_rand step)
  show "length (hash_opaque demo_env (hex_encode (replicate 32 (CHR ''D'')))) = 64"
    by (rule length_demo_hash)
  show "hash_opaque demo_env (hex_encode (replicate 32 (CHR ''D''))) \<notin> rt_hash ` set (t_refresh (w_db demo_refresh_world))"
    using demo_hash_ne [of "replicate 31 (CHR ''D'')"] rep
    by (simp add: demo_refresh_world_def demo_refresh_row_def)
  show "compute_expires_at (e_clock demo_env (w_step demo_refresh_world)) (rt_family_expires demo_refresh_row)
      = Some (noon + 30 * 24 * hour)"
    by (simp add: compute_expires_at_def demo_refresh_row_def demo_clock)
qed

section \<open>Properties\<close>

text \<open>C3. A successful rotation consumes a live row of the presented token and inserts exactly one
  child of it: same family, user, e-mail, service and family expiry, the parent's id as parent,
  fresh hash, unused, not revoked; nothing else in the database changes, and the result names
  the parent's identity.\<close>

theorem rotate_success:
  assumes "run_state (rotate_refresh e ctx tok ip ua) w = (Inr res, w')"
    and "h = hash_opaque e tok" and "now = e_clock e (w_step w)"
  shows "\<exists>parent child ex.
     parent \<in> set (t_refresh (w_db w)) \<and> refresh_live_at h (format_utc now) parent \<and>
     w_db w' = (w_db w)\<lparr>t_refresh := upd_where (refresh_live_at h (format_utc now))
       (\<lambda>r. r\<lparr>rt_used := 1\<rparr>) (t_refresh (w_db w)) @ [child]\<rparr> \<and>
     rt_hash child = hash_opaque e (rr_token res) \<and> rt_hash child \<notin> rt_hash ` set (t_refresh (w_db w)) \<and>
     rt_used child = 0 \<and> rt_revoked child = 0 \<and> rt_parent child = Some (rt_id parent) \<and>
     rt_family child = rt_family parent \<and> rt_family_expires child = rt_family_expires parent \<and>
     rt_email child = rt_email parent \<and> rt_user child = rt_user parent \<and> rt_service child = rt_service parent \<and>
     compute_expires_at now (rt_family_expires parent) = Some ex \<and> rt_expires child = format_utc ex \<and>
     rr_email res = rt_email parent \<and> rr_family res = rt_family parent \<and> rr_user res = rt_user parent \<and>
     rr_service res = opt_str (rt_service parent)"
  using assms by (rule rotate_effect)

theorem rotate_success_witness:
  "\<exists>w' child. child \<in> set (t_refresh (w_db w')) \<and> rt_parent child = Some 1 \<and> rt_family child = ''fam'' \<and>
     snd (run_state (rotate_refresh demo_env ReqCtx ''tok'' [] []) demo_refresh_world) = w'"
proof -
  obtain res w' where run: "run_state (rotate_refresh demo_env ReqCtx ''tok'' [] []) demo_refresh_world = (Inr res, w')"
    using demo_rotate by blast
  from rotate_success [OF run refl refl] obtain parent child where
    "parent \<in> set (t_refresh (w_db demo_refresh_world))" "child \<in> set (t_refresh (w_db w'))"
    "rt_parent child = Some (rt_id parent)" "rt_family child = rt_family parent" by fastforce
  then have "rt_parent child = Some 1" "rt_family child = ''fam''" "child \<in> set (t_refresh (w_db w'))"
    by (simp_all add: demo_refresh_world_def demo_refresh_row_def)
  with run show ?thesis by (metis snd_conv)
qed

text \<open>C18. A live token rotates: with the database and the client connection up, randomness available
  and the new hash not stored yet, \<open>Rotate\<close> returns the new token and not an error.\<close>

theorem rotate_live_token_succeeds:
  assumes "quiet e" and "db_ok (w_db w)" and "r \<in> set (t_refresh (w_db w))"
    and "h = hash_opaque e tok" and "now = e_clock e (w_step w)" and "refresh_live_at h (format_utc now) r"
    and "e_rand e (w_step w + 3) 32 = Some b" and "length (hash_opaque e (hex_encode b)) = 64"
    and "hash_opaque e (hex_encode b) \<notin> rt_hash ` set (t_refresh (w_db w))"
    and "compute_expires_at now (rt_family_expires r) = Some ex"
  shows "\<exists>res w'. run_state (rotate_refresh e ctx tok ip ua) w = (Inr res, w') \<and> rr_token res = hex_encode b"
  using assms by (rule rotate_succeeds)

theorem rotate_live_token_succeeds_witness:
  "\<exists>res w'. run_state (rotate_refresh demo_env ReqCtx ''tok'' [] []) demo_refresh_world = (Inr res, w')"
proof -
  have rep: "replicate 32 (CHR ''D'') = CHR ''D'' # replicate 31 (CHR ''D'')"
    using replicate_Suc [of 31 "CHR ''D''"] by (simp del: replicate_Suc)
  have step: "w_step demo_refresh_world = 0" by (simp add: demo_refresh_world_def demo_world_def)
  have D: "(char_of (68 :: nat) :: char) = CHR ''D''" by code_simp
  have fresh: "hash_opaque demo_env (hex_encode (replicate 32 (CHR ''D''))) \<notin>
      rt_hash ` set (t_refresh (w_db demo_refresh_world))"
    using demo_hash_ne [of "replicate 31 (CHR ''D'')"] rep
    by (simp add: demo_refresh_world_def demo_refresh_row_def)
  have rand: "e_rand demo_env (w_step demo_refresh_world + 3) 32 = Some (replicate 32 (CHR ''D''))"
    by (simp add: demo_rand step D)
  have live: "refresh_live_at (hash_opaque demo_env ''tok'')
      (format_utc (e_clock demo_env (w_step demo_refresh_world))) demo_refresh_row"
    using demo_refresh_live by (simp add: demo_clock)
  have ex: "compute_expires_at (e_clock demo_env (w_step demo_refresh_world)) (rt_family_expires demo_refresh_row)
      = Some (noon + 30 * 24 * hour)"
    by (simp add: compute_expires_at_def demo_refresh_row_def demo_clock)
  show ?thesis
    using rotate_live_token_succeeds [OF quiet_demo demo_refresh_ok demo_refresh_in refl refl live rand
        length_demo_hash fresh ex] by blast
qed

text \<open>C2. A token that was rotated once never rotates again, whatever statements run in between
  (other rotations, revocations, cleanup), unless a row with the very same hash is issued anew.\<close>

theorem rotated_token_is_spent:
  assumes "db_ok (w_db w)" and "run_state (rotate_refresh e ctx tok ip ua) w = (Inr res, w')"
    and "w_db v = run_stmts ss (w_db w')"
    and "hits exec_stmt (issues_refresh (hash_opaque e tok)) ss (w_db w') = 0"
  shows "isl (fst (run_state (rotate_refresh e ctx' tok ip' ua') v))"
proof (rule ccontr)
  assume "\<not> ?thesis"
  then obtain res' v' where "run_state (rotate_refresh e ctx' tok ip' ua') v = (Inr res', v')"
    by (metis isr_ex prod.collapse)
  from rotate_needs_unspent [OF this]
  have "0 < unspent_refresh (hash_opaque e tok) (run_stmts ss (w_db w'))" by (simp add: assms(3))
  with refresh.wins_and_rest [of "hash_opaque e tok" ss "w_db w'"] unspent_after_rotate [OF assms(2,1)]
    assms(4) show False by (simp add: run_all_stmts)
qed

theorem rotated_token_is_spent_witness:
  "isl (fst (run_state (rotate_refresh demo_env ReqCtx ''tok'' [] [])
     (snd (run_state (rotate_refresh demo_env ReqCtx ''tok'' [] []) demo_refresh_world))))"
proof -
  obtain res w' where run: "run_state (rotate_refresh demo_env ReqCtx ''tok'' [] []) demo_refresh_world = (Inr res, w')"
    using demo_rotate by blast
  have "w_db w' = run_stmts [] (w_db w')" by simp
  from rotated_token_is_spent [OF demo_refresh_ok run this] run show ?thesis by simp
qed

text \<open>The request is cancelled before the transaction of the rotation begins or at its first statement.\<close>

definition cancelled_before :: "env \<Rightarrow> call_ctx \<Rightarrow> world \<Rightarrow> bool" where
  "cancelled_before e ctx w \<longleftrightarrow> ctx = ReqCtx \<and> (e_cancel e (w_step w + 1) \<or> e_cancel e (w_step w + 2))"

text \<open>C1. Presenting a token that is already used takes the family down: every row of the family ends up revoked, the
  reuse is audited and no token is returned, also when the client hangs up at any moment after the rotation has looked
  for the token.  Only a request that is cancelled before that moment has no effect at all.\<close>

theorem reuse_revokes_family:
  assumes "db_ok (w_db w)" and "r \<in> set (t_refresh (w_db w))" and "rt_hash r = hash_opaque e tok"
    and "rt_used r = 1" and "\<forall>i. \<not> e_fault e i"
    and "run_state (rotate_refresh e ctx tok ip ua) w = (res, w')"
  shows "if cancelled_before e ctx w
    then res = Inl (ErrDb Canceled) \<and> w_db w' = w_db w \<and> w_audit w' = w_audit w
    else res = Inl ErrTokenReuse \<and>
      (\<forall>s \<in> set (t_refresh (w_db w')). rt_family s = rt_family r \<longrightarrow> rt_revoked s \<noteq> 0) \<and>
      (\<exists>gap. w_audit w' = w_audit w @
        [log_event ''refresh_token_reuse'' (rt_email r) (opt_str (rt_service r)) ip ua False gap])"
proof -
  define h now where "h = hash_opaque e tok" and "now = e_clock e (w_step w)"
  obtain t w1 where tx: "run_state (in_tx e ctx ErrDb (rotate_body e ctx h now))
      (w\<lparr>w_step := Suc (w_step w)\<rparr>) = (t, w1)" by fastforce
  have "\<forall>s \<in> set (t_refresh (w_db (w\<lparr>w_step := Suc (w_step w)\<rparr>))). rt_hash s = h \<longrightarrow> rt_used s \<noteq> 0 \<or> rt_revoked s \<noteq> 0"
    using unique_row [OF assms(1,2)] assms(3,4) by (auto simp: h_def)
  from rotate_tx_dead [OF this assms(5) tx]
  have t: "t = Inl (ErrDb (if cancelled_before e ctx w then Canceled else NoRows))"
    and db: "w_db w1 = w_db w" and au: "w_audit w1 = w_audit w"
    by (simp_all add: cancelled_before_def)
  show ?thesis
  proof (cases "cancelled_before e ctx w")
    case True
    with assms(6) tx t db au show ?thesis
      by (simp add: rotate_refresh_def run_time_now flip: h_def now_def)
  next
    case False
    with t have t: "t = Inl (ErrDb NoRows)" by simp
    obtain err w2 where c: "run_state (classify_rejected e (rt_hash r) ip ua) w1 = (err, w2)" by fastforce
    have ok: "db_ok (w_db w1)" "r \<in> set (t_refresh (w_db w1))" using assms(1,2) db by simp_all
    note used = classify_used [OF ok assms(4,5) c]
    have "res = Inl err" "w' = w2"
      using assms(6) tx t c
      by (simp_all add: rotate_refresh_def run_time_now assms(3) flip: h_def now_def)
    with used False show ?thesis using revoke_family_revokes by (auto simp: au db)
  qed
qed

theorem reuse_revokes_family_witness:
  "\<exists>r w'. rt_used r = 1 \<and> run_state (rotate_refresh demo_env ReqCtx ''tok'' [] [])
     (demo_refresh_world\<lparr>w_db := demo_db\<lparr>t_refresh := [r]\<rparr>\<rparr>) = (Inl ErrTokenReuse, w')"
proof -
  define r where "r = demo_refresh_row\<lparr>rt_used := 1\<rparr>"
  define w where "w = demo_refresh_world\<lparr>w_db := demo_db\<lparr>t_refresh := [r]\<rparr>\<rparr>"
  have "refresh_ok (service_ids demo_db) (user_ids demo_db) [r]"
    using length_demo_hash [of "''tok''"]
    by (simp add: refresh_ok_def refresh_row_ok_def flag_def demo_refresh_row_def id_set_defs demo_db_def
        demo_service_def demo_user_def fk_ok_def r_def)
  from db_ok_refreshI [OF demo_db_ok refl this] have ok: "db_ok (w_db w)" by (simp add: w_def)
  have r: "r \<in> set (t_refresh (w_db w))" "rt_hash r = hash_opaque demo_env ''tok''" "rt_used r = 1"
    by (simp_all add: w_def r_def demo_refresh_row_def)
  have nf: "\<forall>i. \<not> e_fault demo_env i" by (simp add: demo_env_def)
  obtain res w' where run: "run_state (rotate_refresh demo_env ReqCtx ''tok'' [] []) w = (res, w')" by fastforce
  have "\<not> cancelled_before demo_env ReqCtx w" by (simp add: cancelled_before_def demo_env_def)
  with reuse_revokes_family [OF ok r nf run] have "res = Inl ErrTokenReuse" by simp
  with run r(3) show ?thesis unfolding w_def by blast
qed

text \<open>A failed redemption of an authorization code, at whichever point it fails, leaves the whole
  database as it was: the code stays unused and no refresh token exists.\<close>

theorem redeem_failure_changes_nothing:
  assumes "run_state (redeem_authorization_code e ctx p user svc ip ua) w = (Inl x, w')"
  shows "w_db w' = w_db w"
  using assms by (rule redeem_Inl)

definition demo_redemption :: code_redemption where
  "demo_redemption = \<lparr>cr_hash = ''h'', cr_service = ''app'', cr_redirect = ''https://app.x.no/cb'',
     cr_challenge = ''c''\<rparr>"

definition demo_code_row :: code_row where
  "demo_code_row = \<lparr>ac_id = 1, ac_code = ''h'', ac_service = ''app'', ac_email = ''ada@x.no'',
     ac_redirect = ''https://app.x.no/cb'', ac_scope = None, ac_nonce = None, ac_challenge = ''c'',
     ac_method = ''S256'', ac_created = format_utc noon, ac_expires = format_utc (noon + hour),
     ac_used = 0, ac_family = None, ac_user = Some 1\<rparr>"

definition demo_code_world :: world where
  "demo_code_world = demo_world\<lparr>w_db := demo_db\<lparr>t_codes := [demo_code_row]\<rparr>\<rparr>"

lemma demo_noon_less: "format_utc noon < format_utc (noon + hour)"
  by (subst format_utc_less_iff) (simp_all add: text_range_def noon_unix)

lemma demo_claimable: "code_claimable (redemption_claim demo_redemption noon) demo_code_row"
  using demo_noon_less by (simp add: code_claimable_def redemption_claim_def demo_redemption_def demo_code_row_def)

lemma demo_redeem:
  "\<exists>plain family w'. run_state (redeem_authorization_code demo_env ReqCtx demo_redemption demo_user
     (demo_service\<lparr>sv_refresh_max_age := None\<rparr>) [] []) demo_code_world = (Inr (plain, family), w')"
proof -
  have f: "fst (consume_code fam (redemption_claim demo_redemption noon) (w_db demo_code_world)) =
      Inr (demo_code_row\<lparr>ac_used := 1, ac_family := Some fam\<rparr>)" for fam
    using demo_claimable by (simp add: fst_consume_code update_returning_def demo_code_world_def)
  have i: "fst (insert_refresh p (snd (consume_code fam c (w_db demo_code_world)))) = Inr ()"
    if "length (rp_hash p) = 64" "rp_service p = Some ''app''" "rp_user p = Some 1" "rp_parent p = None" for p fam c
    using that by (intro insert_refresh_accepts)
      (simp_all add: snd_consume_code demo_code_world_def id_set_defs demo_db_def demo_service_def demo_user_def fk_ok_def)
  show ?thesis
    using f i by (simp add: redeem_authorization_code_def generate_family_id_def new_root_token_def
        generate_plain_token_def redeem_body_def family_expiry_def compute_expires_at_def io_simps demo_rand
        demo_clock length_demo_hash demo_user_def demo_service_def flip: redemption_claim_def)
qed

theorem redeem_failure_changes_nothing_witness:
  "\<exists>x w'. run_state (redeem_authorization_code demo_env ReqCtx demo_redemption demo_user demo_service [] [])
     demo_world = (Inl x, w') \<and> w_db w' = demo_db"
proof -
  obtain res w' where run: "run_state (redeem_authorization_code demo_env ReqCtx demo_redemption demo_user
      demo_service [] []) demo_world = (res, w')" by fastforce
  show ?thesis
  proof (cases res)
    case (Inl x)
    with redeem_failure_changes_nothing [of _ _ _ _ _ _ _ demo_world x w'] run show ?thesis
      by (auto simp: demo_world_def)
  next
    case (Inr pf)
    then obtain plain family where "run_state (redeem_authorization_code demo_env ReqCtx demo_redemption demo_user
      demo_service [] []) demo_world = (Inr (plain, family), w')" using run by (cases pf) simp
    from redeem_Inr [OF this refl] show ?thesis
      by (auto simp: fst_consume_code fst_update_returning_Inr demo_world_def demo_db_def)
  qed
qed

text \<open>A successful redemption spends a matching, unexpired, unused code with the right service,
  redirect URI and S256 challenge, writes the new family on it, and in the same transaction
  inserts the first refresh token of that family for the user and the service.\<close>

theorem redeem_success:
  assumes "run_state (redeem_authorization_code e ctx p user svc ip ua) w = (Inr (plain, family), w')"
    and "c = redemption_claim p (e_clock e (Suc (w_step w)))"
  shows "\<exists>row \<in> set (t_codes (w_db w)). \<exists>child. code_claimable c row \<and>
    t_codes (w_db w') = upd_where (code_claimable c) (\<lambda>r. r\<lparr>ac_used := 1, ac_family := Some family\<rparr>) (t_codes (w_db w)) \<and>
    t_refresh (w_db w') = t_refresh (w_db w) @ [child] \<and> rt_hash child = hash_opaque e plain \<and>
    rt_family child = family \<and> rt_user child = Some (u_id user) \<and> rt_service child = Some (sv_id svc) \<and>
    rt_parent child = None \<and> rt_used child = 0 \<and> rt_revoked child = 0"
proof -
  obtain params x y where p: "rp_hash params = hash_opaque e plain" "rp_family params = family"
      "rp_user params = Some (u_id user)" "rp_service params = Some (sv_id svc)" "rp_parent params = None"
    and c: "fst (consume_code family c (w_db w)) = Inr x"
    and i: "fst (insert_refresh params (snd (consume_code family c (w_db w)))) = Inr y"
    and d: "w_db w' = snd (insert_refresh params (snd (consume_code family c (w_db w))))"
    using redeem_Inr [OF assms] by blast
  obtain row where row: "row \<in> set (t_codes (w_db w))" "code_claimable c row"
    using c by (auto simp: fst_consume_code fst_update_returning_Inr dest: find_SomeD)
  show ?thesis
    unfolding d insert_refresh_Inr(1) [OF i]
    by (rule bexI [OF _ row(1)]) (simp add: snd_consume_code p row(2))
qed

theorem redeem_success_witness:
  "\<exists>w' child. t_refresh (w_db w') = [child] \<and> rt_user child = Some 1 \<and>
     w' = snd (run_state (redeem_authorization_code demo_env ReqCtx demo_redemption demo_user
       (demo_service\<lparr>sv_refresh_max_age := None\<rparr>) [] []) demo_code_world)"
proof -
  obtain plain family w' where run: "run_state (redeem_authorization_code demo_env ReqCtx demo_redemption demo_user
     (demo_service\<lparr>sv_refresh_max_age := None\<rparr>) [] []) demo_code_world = (Inr (plain, family), w')"
    using demo_redeem by blast
  from redeem_success [OF run refl] obtain child where
    "t_refresh (w_db w') = t_refresh (w_db demo_code_world) @ [child]" "rt_user child = Some (u_id demo_user)" by blast
  then show ?thesis using run by (simp add: demo_code_world_def demo_db_def demo_user_def)
qed

text \<open>Logging out with a refresh token: when \<open>RevokeFamilyOfToken\<close> reports success, the token
  was known and not yet revoked, and every token of its family is revoked; when it reports
  failure without a database fault, the token was unknown or already revoked.\<close>

theorem logout_revokes_family:
  assumes "run_state (revoke_family_of_token e plain reason) w = ((email, svc, ok), w')"
    and "\<forall>i. \<not> e_fault e i"
  shows "if ok then \<exists>r \<in> set (t_refresh (w_db w)). rt_hash r = hash_opaque e plain \<and> rt_revoked r \<noteq> 1 \<and>
      email = rt_email r \<and> svc = opt_str (rt_service r) \<and>
      (\<forall>s \<in> set (t_refresh (w_db w')). rt_family s = rt_family r \<longrightarrow> rt_revoked s \<noteq> 0)
    else \<forall>r. get_refresh_by_hash (hash_opaque e plain) (w_db w) = Inr r \<longrightarrow> rt_revoked r = 1"
proof (cases "get_refresh_by_hash (hash_opaque e plain) (w_db w)")
  case (Inl x)
  with assms show ?thesis by (auto simp: revoke_family_of_token_def io_simps db_failure_Detached)
next
  case (Inr r)
  then have r: "r \<in> set (t_refresh (w_db w))" "rt_hash r = hash_opaque e plain"
    unfolding get_refresh_by_hash_def by (metis (mono_tags) select_one_Inr)+
  have db: "w_db w' = snd (revoke_family reason (rt_family r) (w_db w))"
    and res: "(email, svc, ok) = (if rt_revoked r = 1 then ([], [], False) else (rt_email r, opt_str (rt_service r), True))"
    using assms Inr by (auto simp: revoke_family_of_token_def io_simps db_failure_Detached revoke_family_def)
  show ?thesis
  proof (cases ok)
    case True
    with res have "rt_revoked r \<noteq> 1" "email = rt_email r" "svc = opt_str (rt_service r)" by (auto split: if_splits)
    moreover have "\<forall>s \<in> set (t_refresh (w_db w')). rt_family s = rt_family r \<longrightarrow> rt_revoked s \<noteq> 0"
      using revoke_family_revokes by (simp add: db)
    ultimately show ?thesis using True r by auto
  next
    case False
    with res Inr show ?thesis by (auto split: if_splits)
  qed
qed

theorem logout_revokes_family_witness:
  "\<exists>email svc w'. run_state (revoke_family_of_token demo_env ''tok'' ''logout'') demo_refresh_world = ((email, svc, True), w')
     \<and> list_all (\<lambda>s. \<not> (rt_family s = ''fam'' \<and> rt_revoked s = 0)) (t_refresh (w_db w'))"
proof -
  obtain res w' where run0: "run_state (revoke_family_of_token demo_env ''tok'' ''logout'') demo_refresh_world = (res, w')"
    by fastforce
  obtain email svc ok where "res = (email, svc, ok)" by (cases res) auto
  with run0 have run: "run_state (revoke_family_of_token demo_env ''tok'' ''logout'') demo_refresh_world = ((email, svc, ok), w')"
    by simp
  have nf: "\<forall>i. \<not> e_fault demo_env i" by (simp add: demo_env_def)
  note found = get_hash_found [OF demo_refresh_ok demo_refresh_in]
  have live: "rt_hash demo_refresh_row = hash_opaque demo_env ''tok''" "rt_revoked demo_refresh_row = 0"
    "rt_family demo_refresh_row = ''fam''" by (simp_all add: demo_refresh_row_def)
  note l = logout_revokes_family [OF run nf]
  have ok
  proof (rule ccontr)
    assume "\<not> ok"
    with l found live show False by auto
  qed
  with l have "\<exists>r \<in> set (t_refresh (w_db demo_refresh_world)).
      \<forall>s \<in> set (t_refresh (w_db w')). rt_family s = rt_family r \<longrightarrow> rt_revoked s \<noteq> 0" by auto
  with run \<open>ok\<close> live show ?thesis by (auto simp: demo_refresh_world_def list_all_iff)
qed

text \<open>Rotation never outlives the family: if every stored token expires no later than its family,
  so does every token after a rotation (times compared as texts, the way SQLite does).\<close>

definition within_family :: "refresh_row \<Rightarrow> bool" where
  "within_family r \<longleftrightarrow> (\<forall>f. rt_family_expires r = Some f \<longrightarrow>
     rt_expires r \<le> f \<and> (\<exists>t. text_range t \<and> f = format_utc t))"

theorem rotation_stays_within_family:
  assumes "run_state (rotate_refresh e ctx tok ip ua) w = (Inr res, w')"
    and "\<forall>r \<in> set (t_refresh (w_db w)). within_family r"
    and "text_range (e_clock e (w_step w) + 30 * 24 * hour)"
  shows "\<forall>r \<in> set (t_refresh (w_db w')). within_family r"
proof -
  obtain parent child ex where p: "parent \<in> set (t_refresh (w_db w))"
    and d: "t_refresh (w_db w') = upd_where (refresh_live_at (hash_opaque e tok) (format_utc (e_clock e (w_step w))))
       (\<lambda>r. r\<lparr>rt_used := 1\<rparr>) (t_refresh (w_db w)) @ [child]"
    and c: "rt_family_expires child = rt_family_expires parent" "rt_expires child = format_utc ex"
    and ex: "compute_expires_at (e_clock e (w_step w)) (rt_family_expires parent) = Some ex"
    using rotate_effect [OF assms(1) refl refl] by fastforce
  have "within_family child" unfolding within_family_def
  proof (intro allI impI)
    fix f
    assume f: "rt_family_expires child = Some f"
    have "within_family parent" using assms(2) p by blast
    then obtain t where t: "text_range t" "f = format_utc t"
      using f c(1) by (auto simp: within_family_def)
    let ?std = "e_clock e (w_step w) + 30 * 24 * hour"
    have "ex = (if unix t * second < ?std then unix t * second else ?std)"
      using ex f c(1) parse_format(1) [OF t(1)] by (auto simp: compute_expires_at_def t(2) Let_def)
    moreover have "unix (unix t * second) = unix t" by (simp add: unix_def second_def)
    moreover have "unix ?std \<le> unix t" if "\<not> unix t * second < ?std"
      using that zdiv_mono1 [of ?std "unix t * second" second] by (simp add: unix_def second_def)
    ultimately have "format_utc ex \<le> f"
      using format_utc_less_iff [OF assms(3) t(1)] format_utc_cong [of ?std t]
        format_utc_cong [of "unix t * second" t] by (auto simp: t(2) order_le_less)
    with c(2) t show "rt_expires child \<le> f \<and> (\<exists>t. text_range t \<and> f = format_utc t)" by auto
  qed
  moreover have "\<forall>r \<in> set (upd_where P (\<lambda>r. r\<lparr>rt_used := 1\<rparr>) (t_refresh (w_db w))). within_family r" for P
    by (rule ball_upd_where) (use assms(2) in \<open>simp_all add: within_family_def\<close>)
  ultimately show ?thesis by (simp add: d)
qed

theorem rotation_stays_within_family_witness:
  "list_all within_family
     (t_refresh (w_db (snd (run_state (rotate_refresh demo_env ReqCtx ''tok'' [] []) demo_refresh_world))))"
proof -
  obtain res w' where run: "run_state (rotate_refresh demo_env ReqCtx ''tok'' [] []) demo_refresh_world = (Inr res, w')"
    using demo_rotate by blast
  have "text_range (noon + 30 * 24 * hour)" by code_simp
  moreover have "\<forall>r \<in> set (t_refresh (w_db demo_refresh_world)). within_family r"
    by (simp add: within_family_def demo_refresh_world_def demo_refresh_row_def)
  ultimately show ?thesis using rotation_stays_within_family [OF run] by (simp add: run demo_clock list_all_iff)
qed

end
