(* ===== verification/Weakest.thy ===== *)
theory Weakest
  imports Effects
begin

text \<open>
  Weakest preconditions of the effects: \<open>wp m Q w\<close> says that the run of \<open>m\<close> from \<open>w\<close> ends in a result
  and a state that satisfy \<open>Q\<close>.  The equations of \<open>wp_simps\<close> compute it along the shape of a handler,
  so that a fact about every path of a handler is one simplification and a case split.
\<close>

named_theorems wp_simps "computing weakest preconditions"

definition wp :: "'a io \<Rightarrow> ('a \<Rightarrow> world \<Rightarrow> bool) \<Rightarrow> world \<Rightarrow> bool" where
  "wp m Q w = (case run_state m w of (a, w') \<Rightarrow> Q a w')"

lemma wpI: "(\<And>a w'. run_state m w = (a, w') \<Longrightarrow> Q a w') \<Longrightarrow> wp m Q w"
  by (simp add: wp_def split: prod.split)

lemma wpD: "wp m Q w \<Longrightarrow> run_state m w = (a, w') \<Longrightarrow> Q a w'"
  by (simp add: wp_def)

lemma wp_mono: "wp m Q w \<Longrightarrow> (\<And>a w'. Q a w' \<Longrightarrow> R a w') \<Longrightarrow> wp m R w"
  by (simp add: wp_def split: prod.splits)

lemma wp_conj: "wp m (\<lambda>a w'. Q a w' \<and> R a w') w \<longleftrightarrow> wp m Q w \<and> wp m R w"
  by (simp add: wp_def split: prod.splits)

text \<open>The equations have no state argument, so that they also apply below a continuation.\<close>

lemma wp_return [wp_simps]: "wp (return_io a) Q = Q a"
  by (simp add: wp_def fun_eq_iff)

lemma wp_bind [wp_simps]: "wp (State_Monad.bind m f) Q = wp m (\<lambda>a. wp (f a) Q)"
  by (simp add: wp_def fun_eq_iff split: prod.split)

lemma wp_if [wp_simps]: "wp (if b then m else n) Q = (if b then wp m Q else wp n Q)"
  by simp

lemma wp_case_sum [wp_simps]:
  "wp (case s of Inl x \<Rightarrow> f x | Inr y \<Rightarrow> g y) Q = (case s of Inl x \<Rightarrow> wp (f x) Q | Inr y \<Rightarrow> wp (g y) Q)"
  by (simp split: sum.split)

lemma wp_case_option [wp_simps]:
  "wp (case s of None \<Rightarrow> m | Some y \<Rightarrow> g y) Q = (case s of None \<Rightarrow> wp m Q | Some y \<Rightarrow> wp (g y) Q)"
  by (simp split: option.split)

lemma wp_case_prod [wp_simps]:
  "wp (case p of (x, y) \<Rightarrow> f x y) Q = (case p of (x, y) \<Rightarrow> wp (f x y) Q)"
  by (simp split: prod.split)

lemma wp_case_list [wp_simps]:
  "wp (case s of [] \<Rightarrow> m | x # xs \<Rightarrow> g x xs) Q = (case s of [] \<Rightarrow> wp m Q | x # xs \<Rightarrow> wp (g x xs) Q)"
  by (simp split: list.split)

lemma wp_let [wp_simps]: "wp (Let x f) Q = wp (f x) Q"
  by simp

lemma wp_effects [wp_simps]:
  "wp (time_now e) T = (\<lambda>w. T (e_clock e (w_step w)) (w\<lparr>w_step := Suc (w_step w)\<rparr>))"
  "wp (rand_read e n) B = (\<lambda>w. B (e_rand e (w_step w) n) (w\<lparr>w_step := Suc (w_step w)\<rparr>))"
  "wp (audit_log ev) Q = (\<lambda>w. Q () (w\<lparr>w_audit := w_audit w @ [ev]\<rparr>))"
  "wp (set_cookie c) Q = (\<lambda>w. Q () (w\<lparr>w_cookies := w_cookies w @ [c]\<rparr>))"
  "wp (send_mail m) Q = (\<lambda>w. Q () (w\<lparr>w_mails := w_mails w @ [m]\<rparr>))"
  "wp (set_header k v) Q = (\<lambda>w. Q () (w\<lparr>w_headers := (k, v) # filter (\<lambda>kv. fst kv \<noteq> k) (w_headers w)\<rparr>))"
  "wp (del_header k) Q = (\<lambda>w. Q () (w\<lparr>w_headers := filter (\<lambda>kv. fst kv \<noteq> k) (w_headers w)\<rparr>))"
  by (simp_all add: wp_def io_simps fun_eq_iff)

text \<open>A call to the database fails or acts; which of the two is up to the environment.\<close>

lemma wp_db_read [wp_simps]:
  "wp (db_read e ctx f) Q = (\<lambda>w.
     (case db_failure e ctx (w_step w) of
        Some x \<Rightarrow> Q (Inl x) (w\<lparr>w_step := Suc (w_step w)\<rparr>)
      | None \<Rightarrow> Q (f (w_db w)) (w\<lparr>w_step := Suc (w_step w)\<rparr>)))"
  by (simp add: wp_def io_simps fun_eq_iff split: option.split)

lemma wp_db_write [wp_simps]:
  "wp (db_write e ctx f) Q = (\<lambda>w.
     (case db_failure e ctx (w_step w) of
        Some x \<Rightarrow> Q (Inl x) (w\<lparr>w_step := Suc (w_step w)\<rparr>)
      | None \<Rightarrow> Q (fst (f (w_db w))) (w\<lparr>w_db := snd (f (w_db w)), w_step := Suc (w_step w)\<rparr>)))"
  by (simp add: wp_def io_simps fun_eq_iff split: option.split prod.split)

lemma wp_in_tx [wp_simps]:
  "wp (in_tx e ctx wrap body) Q = (\<lambda>w.
     (case db_failure e ctx (w_step w) of
        Some x \<Rightarrow> Q (Inl (wrap x)) (w\<lparr>w_step := Suc (w_step w)\<rparr>)
      | None \<Rightarrow> wp body (\<lambda>r w'. case r of
            Inl x \<Rightarrow> Q (Inl x) (w'\<lparr>w_db := w_db w\<rparr>)
          | Inr a \<Rightarrow> (case db_failure e ctx (w_step w') of
              Some x \<Rightarrow> Q (Inl (wrap x)) (w'\<lparr>w_db := w_db w, w_step := Suc (w_step w')\<rparr>)
            | None \<Rightarrow> Q (Inr a) (w'\<lparr>w_step := Suc (w_step w')\<rparr>)))
          (w\<lparr>w_step := Suc (w_step w)\<rparr>)))"
  by (simp add: wp_def io_simps fun_eq_iff split: option.split prod.split sum.split)

text \<open>A transaction keeps the database when it fails.\<close>

lemma wp_in_tx_db:
  assumes "\<And>x w'. w_db w' = w_db w \<Longrightarrow> Q (Inl x) w'"
    and "wp body (\<lambda>r w'. \<forall>a n. r = Inr a \<longrightarrow> Q (Inr a) (w'\<lparr>w_step := n\<rparr>)) (w\<lparr>w_step := Suc (w_step w)\<rparr>)"
  shows "wp (in_tx e ctx wrap body) Q w"
proof -
  have "wp body (\<lambda>r w'. case r of
            Inl x \<Rightarrow> Q (Inl x) (w'\<lparr>w_db := w_db w\<rparr>)
          | Inr a \<Rightarrow> (case db_failure e ctx (w_step w') of
              Some x \<Rightarrow> Q (Inl (wrap x)) (w'\<lparr>w_db := w_db w, w_step := Suc (w_step w')\<rparr>)
            | None \<Rightarrow> Q (Inr a) (w'\<lparr>w_step := Suc (w_step w')\<rparr>))) (w\<lparr>w_step := Suc (w_step w)\<rparr>)"
    by (rule wp_mono [OF assms(2)]) (simp add: assms(1) split: sum.split option.split)
  then show ?thesis by (simp add: wp_in_tx assms(1) split: option.split)
qed

section \<open>Frames\<close>

text \<open>
  \<open>keeps f m\<close>: whatever happens, \<open>m\<close> leaves the observation \<open>f\<close> of the state alone.
\<close>

named_theorems keeps_intros "what an effect leaves alone"

definition keeps :: "(world \<Rightarrow> 'b) \<Rightarrow> 'a io \<Rightarrow> bool" where
  "keeps f m \<longleftrightarrow> (\<forall>w. f (snd (run_state m w)) = f w)"

lemma keepsD: "keeps f m \<Longrightarrow> run_state m w = (a, w') \<Longrightarrow> f w' = f w"
  unfolding keeps_def by (metis snd_conv)

lemma keeps_return [keeps_intros]: "keeps f (return_io a)"
  by (simp add: keeps_def)

lemma keeps_bind [keeps_intros]:
  assumes "keeps f m" and "\<And>a. keeps f (g a)"
  shows "keeps f (State_Monad.bind m g)"
  unfolding keeps_def
proof
  fix w
  obtain a w1 where m: "run_state m w = (a, w1)" by fastforce
  obtain b w2 where g: "run_state (g a) w1 = (b, w2)" by fastforce
  from keepsD [OF assms(1) m] keepsD [OF assms(2) g]
  show "f (snd (run_state (State_Monad.bind m g) w)) = f w" by (simp add: m g)
qed

lemma keeps_cases [keeps_intros]:
  "(b \<Longrightarrow> keeps f m) \<Longrightarrow> (\<not> b \<Longrightarrow> keeps f n) \<Longrightarrow> keeps f (if b then m else n)"
  "(\<And>x. keeps f (h x)) \<Longrightarrow> (\<And>y. keeps f (k y)) \<Longrightarrow> keeps f (case s of Inl x \<Rightarrow> h x | Inr y \<Rightarrow> k y)"
  "keeps f m \<Longrightarrow> (\<And>y. keeps f (k y)) \<Longrightarrow> keeps f (case t of None \<Rightarrow> m | Some y \<Rightarrow> k y)"
  "(\<And>x y. keeps f (l x y)) \<Longrightarrow> keeps f (case p of (x, y) \<Rightarrow> l x y)"
  "keeps f m \<Longrightarrow> (\<And>x xs. keeps f (q x xs)) \<Longrightarrow> keeps f (case z of [] \<Rightarrow> m | x # xs \<Rightarrow> q x xs)"
  by (simp_all split: sum.split option.split prod.split list.split)

lemma keeps_let [keeps_intros]: "keeps f (g x) \<Longrightarrow> keeps f (Let x g)"
  by simp

lemma keeps_db_ticks [keeps_intros]:
  "keeps (\<lambda>w. g (w_db w)) (time_now e)" "keeps (\<lambda>w. g (w_db w)) (rand_read e k)"
  "keeps (\<lambda>w. g (w_db w)) (db_read e ctx h)" "keeps (\<lambda>w. g (w_db w)) (audit_log ev)"
  "keeps (\<lambda>w. g (w_db w)) (set_cookie c)" "keeps (\<lambda>w. g (w_db w)) (send_mail m)"
  "keeps (\<lambda>w. g (w_db w)) (set_header a b)" "keeps (\<lambda>w. g (w_db w)) (del_header a)"
  by (simp_all add: keeps_def io_simps)

lemma keeps_audit_ticks [keeps_intros]:
  "keeps w_audit (time_now e)" "keeps w_audit (rand_read e k)" "keeps w_audit (db_read e ctx h)"
  "keeps w_audit (db_write e ctx u)" "keeps w_audit (set_cookie c)" "keeps w_audit (send_mail m)"
  "keeps w_audit (set_header a b)" "keeps w_audit (del_header a)"
  by (simp_all add: keeps_def io_simps split: option.split prod.split)

text \<open>The part of the state that becomes the response, and the mails.\<close>

definition response :: "world \<Rightarrow> cookie list \<times> (string \<times> string) list \<times> mail list" where
  "response w = (w_cookies w, w_headers w, w_mails w)"

lemma response_upd [simp]:
  "response (w\<lparr>w_db := d\<rparr>) = response w" "response (w\<lparr>w_step := n\<rparr>) = response w"
  "response (w\<lparr>w_audit := evs\<rparr>) = response w"
  by (simp_all add: response_def)

lemma keeps_response_ticks [keeps_intros]:
  "keeps response (time_now e)" "keeps response (rand_read e k)" "keeps response (db_read e ctx h)"
  "keeps response (db_write e ctx u)" "keeps response (audit_log ev)"
  by (simp_all add: keeps_def io_simps split: option.split prod.split)

lemma keeps_response_in_tx [keeps_intros]:
  assumes "keeps response body"
  shows "keeps response (in_tx e ctx wrap body)"
  unfolding keeps_def
proof
  fix w
  obtain r w' where b: "run_state body (w\<lparr>w_step := Suc (w_step w)\<rparr>) = (r, w')" by fastforce
  from keepsD [OF assms b] show "response (snd (run_state (in_tx e ctx wrap body) w)) = response w"
    by (simp add: io_simps b split: option.split sum.split)
qed

lemma keeps_db_in_tx [keeps_intros]:
  assumes "keeps (\<lambda>w. g (w_db w)) body"
  shows "keeps (\<lambda>w. g (w_db w)) (in_tx e ctx wrap body)"
  unfolding keeps_def
proof
  fix w
  obtain r w' where b: "run_state body (w\<lparr>w_step := Suc (w_step w)\<rparr>) = (r, w')" by fastforce
  from keepsD [OF assms b] show "g (w_db (snd (run_state (in_tx e ctx wrap body) w))) = g (w_db w)"
    by (simp add: io_simps b split: option.split sum.split)
qed

lemma wp_keeps: "keeps f m \<Longrightarrow> wp m Q w \<Longrightarrow> wp m (\<lambda>a w'. Q a w' \<and> f w' = f w) w"
  by (simp add: wp_def keeps_def split: prod.splits) (metis snd_conv)

lemma keeps_db_write: "(\<And>d. g (snd (h d)) = g d) \<Longrightarrow> keeps (\<lambda>w. g (w_db w)) (db_write e ctx h)"
  by (simp add: keeps_def io_simps split: option.split prod.split)

end
