(* ===== verification/Identity.thy ===== *)
theory Identity
  imports Refresh Weakest
begin

text \<open>
  Which user an external login belongs to: \<open>internal/auth/identity.go\<close>.  A known identity
  \<open>(issuer, subject)\<close> wins over the e-mail address; an unknown one is linked to the user who owns
  the confirmed address, when the service's policy allows it; otherwise a user is registered,
  or the login refused.
\<close>

section \<open>Data\<close>

datatype resolve_err =
    NoAccount
  | UserConflict
  | UserInactive
  | LinkDenied
  | RetryResolve
  | ResolveRand
  | ResolveDb db_err

datatype outcome = Matched | Linked | Registered

record ext_identity =
  xi_provider :: string
  xi_issuer :: string
  xi_subject :: string
  xi_email :: string
  xi_name :: string

record link_policy =
  lp_auto_link :: bool
  lp_auto_register :: bool
  lp_untrusted :: bool
  lp_role :: string
  lp_org :: string

record resolve_meta =
  rm_service :: string
  rm_ip :: string
  rm_ua :: string

text \<open>A user, the identity row that matched (none after a registration) and how they were found.\<close>

type_synonym resolved = "user_row \<times> identity_row option \<times> outcome"

section \<open>The resolver\<close>

definition resolver_audit :: "resolve_meta \<Rightarrow> string \<Rightarrow> string \<Rightarrow> bool \<Rightarrow> string \<Rightarrow> unit io" where
  "resolver_audit meta typ email ok details =
     audit_log (log_event typ email (rm_service meta) (rm_ip meta) (rm_ua meta) ok details)"

definition touch :: "env \<Rightarrow> int \<Rightarrow> string \<Rightarrow> unit io" where
  "touch e i email = do {
     now \<leftarrow> time_now e;
     _ \<leftarrow> db_write e ReqCtx (update_identity_seen (Some email) (format_utc now) i);
     return_io ()
   }"

definition matched :: "env \<Rightarrow> identity_row \<Rightarrow> ext_identity \<Rightarrow> resolve_meta \<Rightarrow> (resolve_err + resolved) io" where
  "matched e idn ext meta = do {
     ru \<leftarrow> db_read e ReqCtx (get_user_by_id (ui_user idn));
     case ru of
       Inl x \<Rightarrow> return_io (Inl (ResolveDb x))
     | Inr u \<Rightarrow>
         if u_deactivated u \<noteq> None then return_io (Inl UserInactive)
         else do {
           _ \<leftarrow> (if xi_email ext \<noteq> [] \<and> xi_email ext \<noteq> u_email u \<and> ui_email idn \<noteq> Some (xi_email ext)
                then resolver_audit meta ''identity_email_mismatch'' (u_email u) True
                  (''provider='' @ xi_provider ext @ '' reason=provider_email_differs_from_user'')
                else return_io ());
           touch e (ui_id idn) (xi_email ext);
           return_io (Inr (u, Some idn, Matched))
         }
   }"

definition deny_link ::
  "env \<Rightarrow> user_row \<Rightarrow> ext_identity \<Rightarrow> resolve_meta \<Rightarrow> (resolve_err + resolved) io" where
  "deny_link e user ext meta = do {
     ri \<leftarrow> db_read e ReqCtx (get_identity (xi_issuer ext) (xi_subject ext));
     case (case ri of Inl _ \<Rightarrow> None | Inr idn \<Rightarrow> if ui_user idn = u_id user then Some idn else None) of
       Some idn \<Rightarrow> matched e idn ext meta
     | None \<Rightarrow> do {
         resolver_audit meta ''identity_link_denied'' (u_email user) False (''provider='' @ xi_provider ext);
         return_io (Inl LinkDenied)
       }
   }"

definition link_params :: "user_row \<Rightarrow> ext_identity \<Rightarrow> string \<Rightarrow> identity_params" where
  "link_params user ext now =
     \<lparr>dp_user = u_id user, dp_provider = xi_provider ext, dp_issuer = xi_issuer ext,
      dp_subject = xi_subject ext, dp_email = Some (xi_email ext), dp_created = now,
      dp_last_used = Some now\<rparr>"

text \<open>The insertion: unconditional with \<open>auto_link\<close>, else only as the user's first identity.\<close>

definition link_insert ::
  "env \<Rightarrow> user_row \<Rightarrow> ext_identity \<Rightarrow> link_policy \<Rightarrow> string \<Rightarrow> (resolve_err + nat \<times> string) io" where
  "link_insert e user ext pol now =
     (if lp_auto_link pol then do {
        rh \<leftarrow> db_read e ReqCtx (has_identity (u_id user));
        case rh of
          Inl x \<Rightarrow> return_io (Inl (ResolveDb x))
        | Inr has \<Rightarrow> do {
            rn \<leftarrow> db_write e ReqCtx (insert_identity (link_params user ext now));
            return_io (case rn of
              Inl x \<Rightarrow> Inl (ResolveDb x)
            | Inr n \<Rightarrow> Inr (n, if has then ''0'' else ''1''))
          }
      }
      else do {
        rn \<leftarrow> db_write e ReqCtx (link_identity_if_first (link_params user ext now));
        return_io (case rn of Inl x \<Rightarrow> Inl (ResolveDb x) | Inr n \<Rightarrow> Inr (n, ''1''))
      })"

text \<open>After the insertion: nothing inserted means a race or an identity the user already has.\<close>

definition link_finish ::
  "env \<Rightarrow> user_row \<Rightarrow> ext_identity \<Rightarrow> link_policy \<Rightarrow> resolve_meta \<Rightarrow> nat \<Rightarrow> string \<Rightarrow> (resolve_err + resolved) io" where
  "link_finish e user ext pol meta n transition = do {
     ri \<leftarrow> db_read e ReqCtx (get_identity (xi_issuer ext) (xi_subject ext));
     if n = 0 then
       (case ri of
          Inl x \<Rightarrow> if x = NoRows \<and> \<not> lp_auto_link pol then deny_link e user ext meta
                   else return_io (Inl (ResolveDb x))
        | Inr idn \<Rightarrow>
            if \<not> lp_auto_link pol \<and> ui_user idn \<noteq> u_id user then deny_link e user ext meta
            else matched e idn ext meta)
     else
       (case ri of
          Inl x \<Rightarrow> return_io (Inl (ResolveDb x))
        | Inr idn \<Rightarrow> do {
            resolver_audit meta ''identity_linked'' (u_email user) True
              (''provider='' @ xi_provider ext @ '' issuer='' @ xi_issuer ext @ '' transition='' @ transition);
            return_io (Inr (user, Some idn, Linked))
          })
   }"

definition link ::
  "env \<Rightarrow> user_row \<Rightarrow> ext_identity \<Rightarrow> link_policy \<Rightarrow> resolve_meta \<Rightarrow> (resolve_err + resolved) io" where
  "link e user ext pol meta = do {
     now \<leftarrow> time_now e;
     r \<leftarrow> link_insert e user ext pol (format_utc now);
     case r of
       Inl x \<Rightarrow> return_io (Inl x)
     | Inr (n, transition) \<Rightarrow> link_finish e user ext pol meta n transition
   }"

definition register_body ::
  "env \<Rightarrow> ext_identity \<Rightarrow> link_policy \<Rightarrow> string \<Rightarrow> (resolve_err + user_row) io" where
  "register_body e ext pol public_id = do {
     now \<leftarrow> time_now e;
     ru \<leftarrow> db_write e ReqCtx (create_user
       \<lparr>up_public_id = public_id, up_email = xi_email ext, up_password_hash = None,
        up_name = Some (xi_name ext), up_roles = (if lp_role pol \<noteq> [] then lp_role pol else ''user''),
        up_orgs = lp_org pol, up_created = format_utc now\<rparr>);
     case ru of
       Inl x \<Rightarrow> return_io (Inl (if x = UniqueViolation then RetryResolve else ResolveDb x))
     | Inr u \<Rightarrow> do {
         rn \<leftarrow> db_write e ReqCtx (insert_identity (link_params u ext (format_utc now)));
         return_io (case rn of
           Inl x \<Rightarrow> Inl (ResolveDb x)
         | Inr n \<Rightarrow> if n = 0 then Inl RetryResolve else Inr u)
       }
   }"

definition register :: "env \<Rightarrow> ext_identity \<Rightarrow> link_policy \<Rightarrow> (resolve_err + resolved) io" where
  "register e ext pol = do {
     p \<leftarrow> new_public_id e;
     case p of
       None \<Rightarrow> return_io (Inl ResolveRand)
     | Some public_id \<Rightarrow> do {
         r \<leftarrow> in_tx e ReqCtx ResolveDb (register_body e ext pol public_id);
         return_io (case r of Inl x \<Rightarrow> Inl x | Inr u \<Rightarrow> Inr (u, None, Registered))
       }
   }"

definition resolve_once ::
  "env \<Rightarrow> ext_identity \<Rightarrow> link_policy \<Rightarrow> resolve_meta \<Rightarrow> (resolve_err + resolved) io" where
  "resolve_once e ext pol meta = do {
     ri \<leftarrow> db_read e ReqCtx (get_identity (xi_issuer ext) (xi_subject ext));
     case ri of
       Inr idn \<Rightarrow> matched e idn ext meta
     | Inl x \<Rightarrow>
         if x \<noteq> NoRows then return_io (Inl (ResolveDb x))
         else if lp_untrusted pol then return_io (Inl NoAccount)
         else do {
           ru \<leftarrow> db_read e ReqCtx (get_active_user_by_email (xi_email ext));
           case ru of
             Inr user \<Rightarrow> link e user ext pol meta
           | Inl y \<Rightarrow>
               if y \<noteq> NoRows then return_io (Inl (ResolveDb y))
               else if \<not> lp_auto_register pol then return_io (Inl NoAccount)
               else register e ext pol
         }
   }"

text \<open>The loop: a lost race is retried once; losing again is a conflict.\<close>

function resolve_attempt ::
  "env \<Rightarrow> ext_identity \<Rightarrow> link_policy \<Rightarrow> resolve_meta \<Rightarrow> nat \<Rightarrow> (resolve_err + resolved) io" where
  "resolve_attempt e ext pol meta attempt = do {
     r \<leftarrow> resolve_once e ext pol meta;
     (if r \<noteq> Inl RetryResolve then return_io r
      else if attempt \<ge> 1 then return_io (Inl UserConflict)
      else resolve_attempt e ext pol meta (attempt + 1))
   }"
  by pat_completeness auto
termination
  by (relation "measure (\<lambda>(_, _, _, _, attempt). 1 - attempt)") auto

declare resolve_attempt.simps [simp del]

definition resolve_identity ::
  "env \<Rightarrow> ext_identity \<Rightarrow> link_policy \<Rightarrow> resolve_meta \<Rightarrow> (resolve_err + resolved) io" where
  "resolve_identity e ext pol meta =
     resolve_attempt e (ext\<lparr>xi_email := normalize_email e (xi_email ext)\<rparr>) pol meta 0"

definition resolve_user ::
  "env \<Rightarrow> ext_identity \<Rightarrow> link_policy \<Rightarrow> resolve_meta \<Rightarrow> (resolve_err + user_row \<times> outcome) io" where
  "resolve_user e ext pol meta = do {
     r \<leftarrow> resolve_identity e ext pol meta;
     return_io (map_sum id (\<lambda>(u, _, out). (u, out)) r)
   }"

section \<open>Policy of a service\<close>

definition csv_has_exact :: "string \<Rightarrow> string \<Rightarrow> bool" where
  "csv_has_exact csv v \<longleftrightarrow> v \<in> set (map trim_space (split_on (CHR '','') csv))"

datatype policy_denial = MissingRole | WrongOrg

definition check_policy :: "user_row \<Rightarrow> service_row \<Rightarrow> policy_denial option" where
  "check_policy user svc =
     (if (case sv_require_role svc of None \<Rightarrow> False | Some r \<Rightarrow> r \<noteq> [] \<and> \<not> csv_has_exact (u_roles user) r)
      then Some MissingRole
      else if sv_enforce_org svc = 1 \<and>
          (case sv_default_org svc of None \<Rightarrow> False | Some org \<Rightarrow> \<not> csv_has_exact (u_orgs user) org)
      then Some WrongOrg
      else None)"

definition policy_for :: "service_row \<Rightarrow> link_policy" where
  "policy_for svc =
     \<lparr>lp_auto_link = (sv_auto_link svc = 1), lp_auto_register = (sv_auto_register svc = 1),
      lp_untrusted = False, lp_role = opt_str (sv_default_role svc), lp_org = opt_str (sv_default_org svc)\<rparr>"

section \<open>What the resolver may do to the database\<close>

lemma evolves_resolver [evolve_intros]: "evolves db_step (resolve_once e ext pol meta)"
  unfolding resolve_once_def matched_def link_def link_insert_def link_finish_def deny_link_def register_def register_body_def
    resolver_audit_def touch_def new_public_id_def
  by (intro evolve_intros)+

lemma resolve_two_attempts:
  "resolve_attempt e ext pol meta 0 = do {
     r \<leftarrow> resolve_once e ext pol meta;
     (if r \<noteq> Inl RetryResolve then return_io r
      else do {
        r2 \<leftarrow> resolve_once e ext pol meta;
        return_io (if r2 = Inl RetryResolve then Inl UserConflict else r2)
      })
   }"
  by (subst resolve_attempt.simps, subst resolve_attempt.simps)
    (simp, rule arg_cong [where f = "State_Monad.bind _"], rule ext, simp,
     intro impI arg_cong [where f = "State_Monad.bind _"], rule ext, simp)

lemma evolves_resolve_identity [evolve_intros]: "evolves db_step (resolve_identity e ext pol meta)"
  unfolding resolve_identity_def resolve_two_attempts by (intro evolve_intros)+

lemma evolves_resolve_user [evolve_intros]: "evolves db_step (resolve_user e ext pol meta)"
  unfolding resolve_user_def by (intro evolve_intros)+

text \<open>Who an identity belongs to, the part of the table that logging in again does not touch.\<close>

definition identity_keys :: "db \<Rightarrow> (int \<times> string \<times> string \<times> int) list" where
  "identity_keys d = map (\<lambda>i. (ui_id i, ui_issuer i, ui_subject i, ui_user i)) (t_identities d)"

definition owner_of :: "db \<Rightarrow> string \<Rightarrow> string \<Rightarrow> int \<Rightarrow> bool" where
  "owner_of d issuer subject uid \<longleftrightarrow> (\<exists>i. (i, issuer, subject, uid) \<in> set (identity_keys d))"

lemma owner_of_row: "i \<in> set (t_identities d) \<Longrightarrow> owner_of d (ui_issuer i) (ui_subject i) (ui_user i)"
  by (force simp: owner_of_def identity_keys_def)

lemma identity_keys_seen: "identity_keys (snd (update_identity_seen email now i d)) = identity_keys d"
  by (simp add: identity_keys_def update_identity_seen_def map_upd_where)

lemma users_of_seen: "t_users (snd (update_identity_seen email now i d)) = t_users d"
  by (simp add: update_identity_seen_def)

lemma get_identity_Inr: "get_identity iss sub d = Inr i \<Longrightarrow>
    i \<in> set (t_identities d) \<and> ui_issuer i = iss \<and> ui_subject i = sub"
  by (auto simp: get_identity_def dest: select_one_Inr)

lemma get_user_by_id_Inr: "get_user_by_id k d = Inr u \<Longrightarrow> u \<in> set (t_users d) \<and> u_id u = k"
  by (auto simp: get_user_by_id_def dest: select_one_Inr)

lemma get_active_by_email_Inr: "get_active_user_by_email m d = Inr u \<Longrightarrow>
    u \<in> set (t_users d) \<and> u_email u = m \<and> u_deactivated u = None"
  by (auto simp: get_active_user_by_email_def user_active_def dest: select_one_Inr)

lemma find_append: "List.find P (xs @ ys) = (case List.find P xs of None \<Rightarrow> List.find P ys | Some x \<Rightarrow> Some x)"
  by (induction xs) auto

lemma insert_identity_won:
  assumes "fst (insert_identity p d) = Inr n" and "n \<noteq> 0"
  shows "t_users (snd (insert_identity p d)) = t_users d"
    and "get_identity (dp_issuer p) (dp_subject p) (snd (insert_identity p d)) = Inr i \<Longrightarrow> ui_user i = dp_user p"
    and "owner_of (snd (insert_identity p d)) (dp_issuer p) (dp_subject p) (dp_user p)"
  using assms
  by (auto simp: insert_identity_def get_identity_def select_one_def owner_of_def identity_keys_def
      find_append split: if_splits option.splits dest: find_SomeD)

lemma insert_identity_inserted: "fst (insert_identity p d) = Inr n \<Longrightarrow> 0 < n \<Longrightarrow>
    t_users (snd (insert_identity p d)) = t_users d \<and>
    owner_of (snd (insert_identity p d)) (dp_issuer p) (dp_subject p) (dp_user p)"
  using insert_identity_won(1,3) by simp

lemma insert_identity_lost: "fst (insert_identity p d) = Inl x \<or> fst (insert_identity p d) = Inr 0 \<Longrightarrow>
    snd (insert_identity p d) = d"
  by (auto simp: insert_identity_def split: if_splits)

lemma link_if_first_cases: "link_identity_if_first p d = (Inr 0, d) \<or> link_identity_if_first p d = insert_identity p d"
  by (simp add: link_identity_if_first_def)

section \<open>What the resolver leaves alone\<close>

lemma keeps_refresh_stmts [keeps_intros]:
  "keeps (\<lambda>w. t_refresh (w_db w)) (db_write e ctx (create_user up))"
  "keeps (\<lambda>w. t_refresh (w_db w)) (db_write e ctx (insert_identity dp))"
  "keeps (\<lambda>w. t_refresh (w_db w)) (db_write e ctx (link_identity_if_first dp))"
  "keeps (\<lambda>w. t_refresh (w_db w)) (db_write e ctx (update_identity_seen m now k))"
  "keeps (\<lambda>w. t_refresh (w_db w)) (db_write e ctx (update_last_login now k))"
  by (rule keeps_db_write, simp add: create_user_def insert_identity_def link_identity_if_first_def
      update_identity_seen_def update_last_login_def Let_def)+

lemma keeps_resolve_once: 
  "keeps response (resolve_once e ext pol meta)"
  "keeps (\<lambda>w. t_refresh (w_db w)) (resolve_once e ext pol meta)"
  unfolding resolve_once_def matched_def link_def link_insert_def link_finish_def deny_link_def register_def
    register_body_def resolver_audit_def touch_def new_public_id_def
  by (intro keeps_intros)+

lemma keeps_resolver [keeps_intros]:
  "keeps response (resolve_user e ext pol meta)" "keeps (\<lambda>w. t_refresh (w_db w)) (resolve_user e ext pol meta)"
  unfolding resolve_user_def resolve_identity_def resolve_two_attempts
  by (intro keeps_intros keeps_resolve_once)+

section \<open>What a resolved login guarantees\<close>

definition resolved_ok :: "ext_identity \<Rightarrow> link_policy \<Rightarrow> db \<Rightarrow> resolve_err + resolved \<Rightarrow> db \<Rightarrow> bool" where
  "resolved_ok ext pol d r d' \<longleftrightarrow>
     (lp_untrusted pol \<longrightarrow> identity_keys d' = identity_keys d) \<and> (r = Inl RetryResolve \<longrightarrow> d' = d) \<and>
     (case r of
        Inl _ \<Rightarrow> t_users d' = t_users d
      | Inr (u, _, out) \<Rightarrow>
          u_deactivated u = None \<and> owner_of d' (xi_issuer ext) (xi_subject ext) (u_id u) \<and>
          (case out of
             Matched \<Rightarrow> t_users d' = t_users d \<and> u \<in> set (t_users d) \<and> identity_keys d' = identity_keys d
           | Linked \<Rightarrow> t_users d' = t_users d \<and> u \<in> set (t_users d) \<and> u_email u = xi_email ext \<and> \<not> lp_untrusted pol
           | Registered \<Rightarrow> t_users d' = t_users d @ [u] \<and> u_email u = xi_email ext \<and>
               \<not> lp_untrusted pol \<and> lp_auto_register pol))"

lemma resolved_ok_Inl: "resolved_ok ext pol d (Inl x) d"
  by (simp add: resolved_ok_def)

lemma owner_of_keys: "identity_keys d' = identity_keys d \<Longrightarrow> owner_of d' = owner_of d"
  by (simp add: owner_of_def fun_eq_iff)

lemma matched_wp:
  assumes "i \<in> set (t_identities (w_db w))" and "ui_issuer i = xi_issuer ext" and "ui_subject i = xi_subject ext"
  shows "wp (matched e i ext meta) (\<lambda>r w'. resolved_ok ext pol (w_db w) r (w_db w')) w"
  using owner_of_row [OF assms(1)] assms(2,3)
  by (auto simp: matched_def touch_def resolver_audit_def wp_simps resolved_ok_def identity_keys_seen users_of_seen
      owner_of_keys [OF identity_keys_seen] split: option.split sum.split dest!: get_user_by_id_Inr)

lemma matched_same:
  assumes "get_identity (xi_issuer ext) (xi_subject ext) d = Inr i" and "d = w_db w"
  shows "wp (matched e i ext meta) (\<lambda>r w'. resolved_ok ext pol d r (w_db w')) w"
  using matched_wp [of i w ext e meta pol] get_identity_Inr [OF assms(1)] assms(2) by auto

lemma deny_link_wp: "wp (deny_link e user ext meta) (\<lambda>r w'. resolved_ok ext pol (w_db w) r (w_db w')) w"
  by (auto simp: deny_link_def resolver_audit_def wp_simps resolved_ok_Inl split: option.split sum.split if_splits
      intro!: matched_same)

definition link_ok :: "identity_params \<Rightarrow> db \<Rightarrow> 'e + nat \<Rightarrow> db \<Rightarrow> bool" where
  "link_ok p d r d' \<longleftrightarrow>
     (case r of
        Inl _ \<Rightarrow> d' = d
      | Inr n \<Rightarrow>
          if n = 0 then d' = d
          else t_users d' = t_users d \<and> owner_of d' (dp_issuer p) (dp_subject p) (dp_user p))"

lemma insert_link_ok: "link_ok p d (fst (insert_identity p d)) (snd (insert_identity p d))"
  using insert_identity_lost [of p d] insert_identity_won(1,3) [of p d]
  by (simp add: link_ok_def split: sum.split)

lemma link_if_first_ok: "link_ok p d (fst (link_identity_if_first p d)) (snd (link_identity_if_first p d))"
  by (rule link_if_first_cases [of p d, THEN disjE]) (simp_all add: insert_link_ok, simp add: link_ok_def)

lemma link_params_sel [simp]:
  "dp_user (link_params user ext now) = u_id user" "dp_issuer (link_params user ext now) = xi_issuer ext"
  "dp_subject (link_params user ext now) = xi_subject ext"
  by (simp_all add: link_params_def)

lemma link_ok_Inl: "link_ok p d (Inl x) d' \<longleftrightarrow> d' = d"
  and link_ok_Inr: "link_ok p d (Inr n) d' \<longleftrightarrow>
    (if n = 0 then d' = d
     else t_users d' = t_users d \<and> owner_of d' (dp_issuer p) (dp_subject p) (dp_user p))"
  by (simp_all add: link_ok_def)

lemma link_insert_wp:
  "wp (link_insert e user ext pol now)
     (\<lambda>r w'. link_ok (link_params user ext now) (w_db w) (map_sum id fst r) (w_db w')) w"
  using insert_link_ok [of "link_params user ext now" "w_db w"] link_if_first_ok [of "link_params user ext now" "w_db w"]
  by (auto simp: link_insert_def wp_simps link_ok_Inl link_ok_Inr split: option.split sum.split)

lemma link_finish_wp:
  assumes "user \<in> set (t_users d)" and "u_email user = xi_email ext" and "u_deactivated user = None"
    and "\<not> lp_untrusted pol"
    and "if n = 0 then w_db w = d
         else t_users (w_db w) = t_users d \<and> owner_of (w_db w) (xi_issuer ext) (xi_subject ext) (u_id user)"
  shows "wp (link_finish e user ext pol meta n t) (\<lambda>r w'. resolved_ok ext pol d r (w_db w')) w"
proof (cases "n = 0")
  case True
  with assms(5) have d: "d = w_db w" by simp
  have "wp (deny_link e user ext meta) (\<lambda>r w'. resolved_ok ext pol d r (w_db w')) (w\<lparr>w_step := k\<rparr>)" for k
    using deny_link_wp [of e user ext meta pol "w\<lparr>w_step := k\<rparr>"] d by simp
  moreover have "wp (matched e i ext meta) (\<lambda>r w'. resolved_ok ext pol d r (w_db w')) (w\<lparr>w_step := k\<rparr>)"
    if "get_identity (xi_issuer ext) (xi_subject ext) d = Inr i" for i k
    by (rule matched_same [OF that]) (simp add: d)
  ultimately show ?thesis using True d
    by (simp add: link_finish_def wp_simps resolved_ok_Inl split: option.split sum.split)
next
  case False
  with assms show ?thesis
    by (auto simp: link_finish_def wp_simps resolver_audit_def resolved_ok_def split: option.split sum.split)
qed

lemma link_wp:
  assumes "user \<in> set (t_users (w_db w))" and "u_email user = xi_email ext" and "u_deactivated user = None"
    and "\<not> lp_untrusted pol"
  shows "wp (link e user ext pol meta) (\<lambda>r w'. resolved_ok ext pol (w_db w) r (w_db w')) w"
  unfolding link_def wp_simps
proof (rule wp_mono [OF link_insert_wp])
  fix r :: "resolve_err + nat \<times> string" and w' :: world
  assume "link_ok (link_params user ext (format_utc (e_clock e (w_step w)))) (w_db (w\<lparr>w_step := Suc (w_step w)\<rparr>))
     (map_sum id fst r) (w_db w')"
  then have ok: "link_ok (link_params user ext (format_utc (e_clock e (w_step w)))) (w_db w) (map_sum id fst r) (w_db w')"
    by simp
  show "(case r of
       Inl x \<Rightarrow> (\<lambda>w'. resolved_ok ext pol (w_db w) (Inl x) (w_db w'))
     | Inr y \<Rightarrow> (case y of (n, t) \<Rightarrow> wp (link_finish e user ext pol meta n t) (\<lambda>r w'. resolved_ok ext pol (w_db w) r (w_db w')))) w'"
  proof (cases r)
    case (Inl x)
    with ok show ?thesis by (simp add: link_ok_def resolved_ok_Inl)
  next
    case (Inr y)
    obtain n t where "y = (n, t)" by (cases y)
    with Inr ok show ?thesis
      by (simp, intro link_finish_wp [OF assms]) (simp add: link_ok_def split: if_splits)
  qed
qed

lemma create_user_Inr: "fst (create_user p d) = Inr u \<Longrightarrow>
    t_users (snd (create_user p d)) = t_users d @ [u] \<and> u_email u = up_email p \<and> u_deactivated u = None"
  by (auto simp: create_user_def Let_def split: if_splits)

lemma register_body_wp:
  assumes "\<not> lp_untrusted pol" and "lp_auto_register pol"
  shows "wp (register_body e ext pol p) (\<lambda>r w'. case r of Inl _ \<Rightarrow> True
      | Inr u \<Rightarrow> resolved_ok ext pol (w_db w) (Inr (u, None, Registered)) (w_db w')) w"
  using assms
  by (auto simp: register_body_def wp_simps resolved_ok_def split: option.split sum.split
      dest!: create_user_Inr insert_identity_inserted)

lemma register_wp:
  assumes "\<not> lp_untrusted pol" and "lp_auto_register pol"
  shows "wp (register e ext pol) (\<lambda>r w'. resolved_ok ext pol (w_db w) r (w_db w')) w"
proof -
  have "wp (in_tx e ReqCtx ResolveDb (register_body e ext pol p))
      (\<lambda>r w'. resolved_ok ext pol (w_db w) (case r of Inl x \<Rightarrow> Inl x | Inr u \<Rightarrow> Inr (u, None, Registered)) (w_db w'))
      (w\<lparr>w_step := k\<rparr>)" for p k
    by (rule wp_in_tx_db, simp add: resolved_ok_Inl, rule wp_mono [OF register_body_wp [OF assms]])
      (simp split: sum.splits)
  then show ?thesis
    by (simp add: register_def new_public_id_def wp_bind wp_return wp_effects wp_case_option resolved_ok_Inl split: option.split)
qed

lemma resolve_once_wp: "wp (resolve_once e ext pol meta) (\<lambda>r w'. resolved_ok ext pol (w_db w) r (w_db w')) w"
proof -
  have "wp (matched e i ext meta) (\<lambda>r w'. resolved_ok ext pol (w_db w) r (w_db w')) (w\<lparr>w_step := k\<rparr>)"
    if "get_identity (xi_issuer ext) (xi_subject ext) (w_db w) = Inr i" for i k
    by (rule matched_same [OF that]) simp
  moreover have "wp (link e user ext pol meta) (\<lambda>r w'. resolved_ok ext pol (w_db w) r (w_db w')) (w\<lparr>w_step := k\<rparr>)"
    if "get_active_user_by_email (xi_email ext) (w_db w) = Inr user" "\<not> lp_untrusted pol" for user k
    using link_wp [of user "w\<lparr>w_step := k\<rparr>" ext pol e meta] get_active_by_email_Inr [OF that(1)] that(2) by simp
  moreover have "wp (register e ext pol) (\<lambda>r w'. resolved_ok ext pol (w_db w) r (w_db w')) (w\<lparr>w_step := k\<rparr>)"
    if "\<not> lp_untrusted pol" "lp_auto_register pol" for k
    using register_wp [OF that, of e ext "w\<lparr>w_step := k\<rparr>"] by simp
  ultimately show ?thesis
    by (simp add: resolve_once_def wp_simps resolved_ok_Inl split: option.split sum.split)
qed

lemma resolve_identity_wp:
  "wp (resolve_identity e ext pol meta) (\<lambda>r w'. r \<noteq> Inl RetryResolve \<and>
      resolved_ok (ext\<lparr>xi_email := normalize_email e (xi_email ext)\<rparr>) pol (w_db w) r (w_db w')) w"
proof -
  let ?ext = "ext\<lparr>xi_email := normalize_email e (xi_email ext)\<rparr>"
  let ?once = "resolve_once e ?ext pol meta"
  have "wp ?once (\<lambda>r2 w2. (if r2 = Inl RetryResolve then Inl UserConflict else r2) \<noteq> Inl RetryResolve \<and>
      resolved_ok ?ext pol (w_db w) (if r2 = Inl RetryResolve then Inl UserConflict else r2) (w_db w2)) w1"
    if "w_db w1 = w_db w" for w1
    by (rule wp_mono [OF resolve_once_wp]) (auto simp: that resolved_ok_def)
  then show ?thesis
    unfolding resolve_identity_def resolve_two_attempts wp_bind
    by (intro wp_mono [OF resolve_once_wp]) (auto simp: wp_simps resolved_ok_def)
qed

lemma resolve_identity_result:
  assumes "run_state (resolve_identity e ext pol meta) w = (r, w')"
  shows "r \<noteq> Inl RetryResolve"
    and "resolved_ok (ext\<lparr>xi_email := normalize_email e (xi_email ext)\<rparr>) pol (w_db w) r (w_db w')"
  using wpD [OF resolve_identity_wp assms] by blast+

lemma resolve_user_result:
  assumes "run_state (resolve_user e ext pol meta) w = (Inr (u, out), w')"
  shows "\<exists>i. resolved_ok (ext\<lparr>xi_email := normalize_email e (xi_email ext)\<rparr>) pol (w_db w) (Inr (u, i, out)) (w_db w')"
proof -
  obtain r w1 where r: "run_state (resolve_identity e ext pol meta) w = (r, w1)" by fastforce
  with assms obtain i where "r = Inr (u, i, out)" "w1 = w'"
    by (cases r) (auto simp: resolve_user_def)
  with resolve_identity_result(2) [OF r] show ?thesis by blast
qed

section \<open>What an attempt costs\<close>

text \<open>The effects of an attempt (calls to the database, the clock and the random source); a lost race leaves no trace.\<close>

definition lost_race :: "ext_identity \<Rightarrow> link_policy \<Rightarrow> db \<Rightarrow> bool" where
  "lost_race ext pol d \<longleftrightarrow> lp_auto_register pol \<and> \<not> lp_untrusted pol \<and>
     get_identity (xi_issuer ext) (xi_subject ext) d = Inl NoRows \<and> get_active_user_by_email (xi_email ext) d = Inl NoRows"

lemma matched_steps: "wp (matched e i ext meta) (\<lambda>r w'. w_step w' \<le> w_step w + 3 \<and> r \<noteq> Inl RetryResolve \<and> r \<noteq> Inl UserConflict) w"
  by (auto simp: matched_def touch_def resolver_audit_def wp_simps split: option.split sum.split)

lemma deny_link_steps:
  "wp (deny_link e user ext meta) (\<lambda>r w'. w_step w' \<le> w_step w + 4 \<and> r \<noteq> Inl RetryResolve \<and> r \<noteq> Inl UserConflict) w"
  by (auto simp: deny_link_def resolver_audit_def wp_simps intro!: wp_mono [OF matched_steps] split: option.split sum.split if_splits)

lemma link_steps:
  "wp (link e user ext pol meta) (\<lambda>r w'. w_step w' \<le> w_step w + 7 \<and> r \<noteq> Inl RetryResolve \<and> r \<noteq> Inl UserConflict) w"
proof -
  have ins: "wp (link_insert e user ext pol now) (\<lambda>r w'. w_step w' \<le> w_step w1 + (if lp_auto_link pol then 2 else 1) \<and>
      r \<noteq> Inl RetryResolve \<and> r \<noteq> Inl UserConflict) w1" for now w1
    by (auto simp: link_insert_def wp_simps split: option.split sum.split)
  have fin: "wp (link_finish e user ext pol meta n t) (\<lambda>r w'. w_step w' \<le> w_step w1 + (if lp_auto_link pol then 4 else 5) \<and>
      r \<noteq> Inl RetryResolve \<and> r \<noteq> Inl UserConflict) w1" for n t w1
    by (auto simp: link_finish_def wp_simps resolver_audit_def split: option.split sum.split
        intro!: wp_mono [OF matched_steps] wp_mono [OF deny_link_steps])
  show ?thesis
    unfolding link_def wp_simps
    by (rule wp_mono [OF ins]) (auto split: sum.split prod.split if_splits intro!: wp_mono [OF fin])
qed

lemma register_steps:
  "wp (register e ext pol) (\<lambda>r w'. w_step w' \<le> w_step w + 6 \<and> r \<noteq> Inl UserConflict \<and>
     (r = Inl RetryResolve \<longrightarrow> w_step w + 4 \<le> w_step w' \<and> w_step w' \<le> w_step w + 5 \<and> w_audit w' = w_audit w)) w"
  by (auto simp: register_def register_body_def new_public_id_def wp_simps split: option.split sum.split)

lemma failure_not_NoRows: "db_failure e ctx i \<noteq> Some NoRows"
  by (simp add: db_failure_def)

lemma resolve_once_steps:
  "wp (resolve_once e ext pol meta) (\<lambda>r w'. r \<noteq> Inl UserConflict \<and> w_step w' \<le> w_step w + 9 \<and>
     (r = Inl RetryResolve \<longrightarrow> w_step w + 6 \<le> w_step w' \<and> w_step w' \<le> w_step w + 7 \<and> w_audit w' = w_audit w \<and>
        lost_race ext pol (w_db w))) w"
  by (auto simp: resolve_once_def wp_simps lost_race_def failure_not_NoRows split: option.split sum.split
      intro!: wp_mono [OF matched_steps] wp_mono [OF link_steps] wp_mono [OF register_steps])

section \<open>Runs on a quiet day\<close>

lemma get_identity_found:
  assumes "identities_ok users (t_identities d)" and "i \<in> set (t_identities d)"
  shows "get_identity (ui_issuer i) (ui_subject i) d = Inr i"
proof -
  have "List.find (\<lambda>r. ui_issuer r = ui_issuer i \<and> ui_subject r = ui_subject i) (t_identities d) = Some i"
    by (rule find_unique [where g = "\<lambda>r. (ui_issuer r, ui_subject r)"])
      (use assms in \<open>auto simp: identities_ok_def\<close>)
  then show ?thesis by (simp add: get_identity_def select_one_def)
qed

lemma get_user_found:
  assumes "users_ok (t_users d)" and "u \<in> set (t_users d)"
  shows "get_user_by_id (u_id u) d = Inr u"
proof -
  have "List.find (\<lambda>r. u_id r = u_id u) (t_users d) = Some u"
    by (rule find_unique [where g = u_id]) (use assms in \<open>auto simp: users_ok_def\<close>)
  then show ?thesis by (simp add: get_user_by_id_def select_one_def)
qed

lemma get_active_by_email_found:
  assumes "users_ok (t_users d)" and "u \<in> set (t_users d)" and "u_deactivated u = None"
  shows "get_active_user_by_email (u_email u) d = Inr u"
proof -
  have "List.find (\<lambda>r. u_email r = u_email u \<and> user_active r) (t_users d) = Some u"
    by (rule find_unique [where g = "\<lambda>r. sql_norm (u_email r)"])
      (use assms in \<open>auto simp: users_ok_def user_active_def\<close>)
  then show ?thesis by (simp add: get_active_user_by_email_def select_one_def)
qed

lemma matched_quiet:
  assumes "quiet e" and "users_ok (t_users (w_db w))" and "u \<in> set (t_users (w_db w))" and "ui_user i = u_id u"
  shows "fst (run_state (matched e i ext meta) w) =
    (if u_deactivated u = None then Inr (u, Some i, Matched) else Inl UserInactive)"
  using assms get_user_found [OF assms(2,3)]
  by (simp add: matched_def touch_def resolver_audit_def io_simps split: prod.split)

lemma known_identity_run:
  assumes "quiet e" and "db_ok (w_db w)" and "i \<in> set (t_identities (w_db w))"
    and "u \<in> set (t_users (w_db w))" and "ui_user i = u_id u"
    and "xi_issuer ext = ui_issuer i" and "xi_subject ext = ui_subject i"
  shows "fst (run_state (resolve_identity e ext pol meta) w) =
    (if u_deactivated u = None then Inr (u, Some i, Matched) else Inl UserInactive)"
proof -
  let ?ext = "ext\<lparr>xi_email := normalize_email e (xi_email ext)\<rparr>"
  let ?w = "w\<lparr>w_step := Suc (w_step w)\<rparr>"
  have "get_identity (ui_issuer i) (ui_subject i) (w_db w) = Inr i"
    using assms(2,3) get_identity_found by (auto simp: db_ok_def)
  then have once: "run_state (resolve_once e ?ext pol meta) w = run_state (matched e i ?ext meta) ?w"
    using assms by (simp add: resolve_once_def io_simps)
  have m: "fst (run_state (matched e i ?ext meta) ?w) =
      (if u_deactivated u = None then Inr (u, Some i, Matched) else Inl UserInactive)"
    by (rule matched_quiet) (use assms in \<open>auto simp: db_ok_def\<close>)
  obtain r w1 where r: "run_state (matched e i ?ext meta) ?w = (r, w1)" by fastforce
  with m have "r = (if u_deactivated u = None then Inr (u, Some i, Matched) else Inl UserInactive)" by simp
  then have "r \<noteq> Inl RetryResolve" by simp
  with r m show ?thesis
    by (simp add: resolve_identity_def resolve_two_attempts once)
qed

text \<open>A user who has an identity, and a service without \<open>auto_link\<close>: an unknown identity is refused.\<close>

lemma link_refused_run:
  assumes "quiet e" and "db_ok (w_db w)" and "u \<in> set (t_users (w_db w))" and "u_deactivated u = None"
    and "list_ex (\<lambda>i. ui_user i = u_id u) (t_identities (w_db w))"
    and "list_all (\<lambda>i. (ui_issuer i, ui_subject i) \<noteq> (xi_issuer ext, xi_subject ext)) (t_identities (w_db w))"
    and "normalize_email e (xi_email ext) = u_email u" and "\<not> lp_auto_link pol" and "\<not> lp_untrusted pol"
  shows "run_state (resolve_identity e ext pol meta) w =
    (Inl LinkDenied, w\<lparr>w_step := w_step w + 6,
       w_audit := w_audit w @ [log_event ''identity_link_denied'' (u_email u) (rm_service meta) (rm_ip meta) (rm_ua meta)
         False (''provider='' @ xi_provider ext)]\<rparr>)"
proof -
  have none: "get_identity (xi_issuer ext) (xi_subject ext) (w_db w) = Inl NoRows"
    using assms(6) by (simp add: get_identity_def select_one_Inl list_all_iff)
  have user: "get_active_user_by_email (u_email u) (w_db w) = Inr u"
    using get_active_by_email_found assms(2-4) by (simp add: db_ok_def)
  have first: "link_identity_if_first (link_params u x now) (w_db w) = (Inr 0, w_db w)" for x now
    using assms(5) by (auto simp: link_identity_if_first_def list_ex_iff)
  show ?thesis
    unfolding resolve_identity_def resolve_two_attempts
    using assms(1,7-9) none user first
    by (simp add: resolve_once_def link_def link_insert_def link_finish_def deny_link_def resolver_audit_def io_simps)
qed

section \<open>Properties\<close>

text \<open>C31. Whoever an external login is resolved to is an active user, and the identity \<open>(issuer, subject)\<close>
  belongs to that user from then on.  Existing users are never changed; a user is added
  only by a registration, and only under the confirmed address and an \<open>auto_register\<close> policy; an
  identity is linked only to the active owner of the confirmed address.  Where the provider's address
  is not trusted, nobody is registered and no identity changes hands.\<close>

theorem resolve_sound:
  assumes "run_state (resolve_identity e ext pol meta) w = (Inr (u, i, out), w')"
  shows "u_deactivated u = None \<and> owner_of (w_db w') (xi_issuer ext) (xi_subject ext) (u_id u) \<and>
    t_users (w_db w') = t_users (w_db w) @ (if out = Registered then [u] else []) \<and>
    (out \<noteq> Registered \<longrightarrow> u \<in> set (t_users (w_db w))) \<and>
    (out = Matched \<longrightarrow> owner_of (w_db w) (xi_issuer ext) (xi_subject ext) (u_id u)) \<and>
    (out \<noteq> Matched \<longrightarrow> u_email u = normalize_email e (xi_email ext) \<and> \<not> lp_untrusted pol) \<and>
    (out = Registered \<longrightarrow> lp_auto_register pol) \<and>
    (lp_untrusted pol \<longrightarrow> identity_keys (w_db w') = identity_keys (w_db w))"
  using resolve_identity_result(2) [OF assms] owner_of_keys [of "w_db w'" "w_db w"]
  by (cases out) (auto simp: resolved_ok_def)

text \<open>C34. The resolver ends after two attempts, whatever happens: it has at most 16 effects, where an attempt that loses
  its race has at least 6, and its internal marker never reaches the caller.  It reports a conflict only after exactly
  two lost attempts (12 to 14 effects), both rolled back: the database and the audit log are as before, the policy
  allowed a registration, the identity was unknown and no active user had the address.\<close>

theorem resolve_at_most_twice:
  assumes "run_state (resolve_identity e ext pol meta) w = (r, w')"
  shows "r \<noteq> Inl RetryResolve \<and> w_step w' \<le> w_step w + 16 \<and>
    (r = Inl UserConflict \<longrightarrow> w_step w + 12 \<le> w_step w' \<and> w_step w' \<le> w_step w + 14 \<and>
       w_db w' = w_db w \<and> w_audit w' = w_audit w \<and> lp_auto_register pol \<and> \<not> lp_untrusted pol \<and>
       get_identity (xi_issuer ext) (xi_subject ext) (w_db w) = Inl NoRows \<and>
       get_active_user_by_email (normalize_email e (xi_email ext)) (w_db w) = Inl NoRows)"
proof -
  let ?ext = "ext\<lparr>xi_email := normalize_email e (xi_email ext)\<rparr>"
  let ?Q = "\<lambda>r w'. r \<noteq> Inl RetryResolve \<and> w_step w' \<le> w_step w + 16 \<and> (r = Inl UserConflict \<longrightarrow>
      w_step w + 12 \<le> w_step w' \<and> w_step w' \<le> w_step w + 14 \<and> w_db w' = w_db w \<and> w_audit w' = w_audit w \<and> lost_race ?ext pol (w_db w))"
  have once: "wp (resolve_once e ?ext pol meta) (\<lambda>r w'. (r \<noteq> Inl UserConflict \<and> w_step w' \<le> w_step w1 + 9 \<and>
      (r = Inl RetryResolve \<longrightarrow> w_step w1 + 6 \<le> w_step w' \<and> w_step w' \<le> w_step w1 + 7 \<and> w_audit w' = w_audit w1 \<and>
        lost_race ?ext pol (w_db w1))) \<and> resolved_ok ?ext pol (w_db w1) r (w_db w')) w1" for w1
    by (rule wpI) (use wpD [OF resolve_once_steps] wpD [OF resolve_once_wp] in blast)
  have "wp (resolve_identity e ext pol meta) ?Q w"
    unfolding resolve_identity_def resolve_two_attempts wp_bind
  proof (rule wp_mono [OF once], goal_cases)
    case (1 r w1)
    show ?case
    proof (cases "r = Inl RetryResolve")
      case True
      with 1 show ?thesis
        by (simp add: wp_simps) (rule wp_mono [OF once], auto simp: resolved_ok_def)
    qed (use 1 in \<open>simp add: wp_simps\<close>)
  qed
  from wpD [OF this assms] show ?thesis by (auto simp: lost_race_def)
qed

text \<open>A known identity wins: on a database that is up, the login is resolved to the user the identity
  belongs to, whatever address the provider reports and whatever the policy says, and refused
  exactly when that user is deactivated.\<close>

theorem known_identity_wins:
  assumes "quiet e" and "db_ok (w_db w)" and "i \<in> set (t_identities (w_db w))"
    and "u \<in> set (t_users (w_db w))" and "ui_user i = u_id u"
    and "xi_issuer ext = ui_issuer i" and "xi_subject ext = ui_subject i"
  shows "fst (run_state (resolve_identity e ext pol meta) w) =
    (if u_deactivated u = None then Inr (u, Some i, Matched) else Inl UserInactive)"
  using assms by (rule known_identity_run)

definition demo_identity :: identity_row where
  "demo_identity = \<lparr>ui_id = 1, ui_user = 1, ui_provider = ''google'', ui_issuer = ''https://g'', ui_subject = ''s1'',
     ui_email = Some ''ada@x.no'', ui_created = ''2023-01-01T00:00:00Z'', ui_last_used = None, ui_admin_ok = 0\<rparr>"

definition demo_ext :: ext_identity where
  "demo_ext = \<lparr>xi_provider = ''google'', xi_issuer = ''https://g'', xi_subject = ''s1'', xi_email = ''new@y.no'',
     xi_name = ''Ada''\<rparr>"

definition demo_meta :: resolve_meta where
  "demo_meta = \<lparr>rm_service = ''app'', rm_ip = ''10.0.0.1'', rm_ua = ''ua''\<rparr>"

definition demo_known_world :: world where
  "demo_known_world = demo_world\<lparr>w_db := demo_db\<lparr>t_identities := [demo_identity]\<rparr>\<rparr>"

lemma demo_known_ok: "db_ok (w_db demo_known_world)"
  by (rule db_ok_identitiesI [OF demo_db_ok, where rows = "[demo_identity]"])
    (simp_all add: demo_known_world_def demo_defs identities_ok_def identity_row_ok_def demo_identity_def
      known_provider_def flag_def user_ids_def)

lemma demo_known_in: "demo_identity \<in> set (t_identities (w_db demo_known_world))"
  "demo_user \<in> set (t_users (w_db demo_known_world))" "ui_user demo_identity = u_id demo_user"
  by (simp_all add: demo_known_world_def demo_db_def demo_identity_def demo_user_def)

theorem known_identity_wins_witness:
  "fst (run_state (resolve_identity demo_env demo_ext (policy_for demo_service) demo_meta) demo_known_world) =
     Inr (demo_user, Some demo_identity, Matched)"
  using known_identity_wins [OF quiet_demo demo_known_ok demo_known_in, of demo_ext]
  by (simp add: demo_ext_def demo_identity_def demo_user_def)

theorem resolve_sound_witness: "u_deactivated demo_user = None \<and> u_id demo_user = 1"
proof -
  obtain r w' where "run_state (resolve_identity demo_env demo_ext (policy_for demo_service) demo_meta) demo_known_world = (r, w')"
    by fastforce
  with known_identity_run [OF quiet_demo demo_known_ok demo_known_in, of demo_ext "policy_for demo_service" demo_meta]
  have "run_state (resolve_identity demo_env demo_ext (policy_for demo_service) demo_meta) demo_known_world =
      (Inr (demo_user, Some demo_identity, Matched), w')"
    by (simp add: demo_ext_def demo_identity_def demo_user_def)
  from resolve_sound [OF this] show ?thesis by (simp add: demo_user_def)
qed

lemma demo_mail: "normalize_email demo_env ''ada@x.no'' = ''ada@x.no''"
  by code_simp

text \<open>The address of a deactivated account, where users register themselves: both attempts lose.\<close>

definition gone_world :: world where
  "gone_world = demo_world\<lparr>w_db := demo_db\<lparr>t_users := [demo_user\<lparr>u_deactivated := Some ''2023-06-01T00:00:00Z''\<rparr>]\<rparr>\<rparr>"

theorem resolve_at_most_twice_witness:
  "\<exists>w'. run_state (resolve_identity demo_env (demo_ext\<lparr>xi_email := ''ada@x.no''\<rparr>)
      ((policy_for demo_service)\<lparr>lp_auto_register := True\<rparr>) demo_meta) gone_world = (Inl UserConflict, w') \<and>
    w_db w' = w_db gone_world \<and> w_step gone_world + 12 \<le> w_step w'"
proof -
  let ?ext = "demo_ext\<lparr>xi_email := ''ada@x.no''\<rparr>"
  let ?pol = "(policy_for demo_service)\<lparr>lp_auto_register := True\<rparr>"
  have norm: "?ext\<lparr>xi_email := normalize_email demo_env ''ada@x.no''\<rparr> = ?ext" by (simp add: demo_mail)
  have "get_identity i x (w_db gone_world) = Inl NoRows" "get_active_user_by_email m (w_db gone_world) = Inl NoRows" for i x m
    by (simp_all add: gone_world_def demo_db_def get_identity_def get_active_user_by_email_def select_one_def user_active_def)
  moreover have "create_user p (w_db gone_world) = (Inl UniqueViolation, w_db gone_world)" if "up_email p = ''ada@x.no''" for p
    using that by (simp add: create_user_def email_taken_def gone_world_def demo_user_def)
  ultimately have "fst (run_state (resolve_identity demo_env ?ext ?pol demo_meta) gone_world) = Inl UserConflict"
    unfolding resolve_identity_def resolve_two_attempts
    using quiet_demo by (simp add: norm resolve_once_def register_def register_body_def new_public_id_def io_simps demo_rand policy_for_def)
  then obtain w' where run: "run_state (resolve_identity demo_env ?ext ?pol demo_meta) gone_world = (Inl UserConflict, w')"
    by (metis prod.collapse)
  with resolve_at_most_twice [OF run] show ?thesis by blast
qed

text \<open>Without \<open>auto_link\<close> a user who already has an identity keeps it the only one: the login of an
  unknown identity under the user's address is refused, audited, and changes nothing.\<close>

theorem second_identity_is_refused:
  assumes "quiet e" and "db_ok (w_db w)" and "u \<in> set (t_users (w_db w))" and "u_deactivated u = None"
    and "list_ex (\<lambda>i. ui_user i = u_id u) (t_identities (w_db w))"
    and "list_all (\<lambda>i. (ui_issuer i, ui_subject i) \<noteq> (xi_issuer ext, xi_subject ext)) (t_identities (w_db w))"
    and "normalize_email e (xi_email ext) = u_email u" and "\<not> lp_auto_link pol" and "\<not> lp_untrusted pol"
  shows "run_state (resolve_identity e ext pol meta) w =
    (Inl LinkDenied, w\<lparr>w_step := w_step w + 6,
       w_audit := w_audit w @ [log_event ''identity_link_denied'' (u_email u) (rm_service meta) (rm_ip meta) (rm_ua meta)
         False (''provider='' @ xi_provider ext)]\<rparr>)"
  using assms by (rule link_refused_run)

theorem second_identity_is_refused_witness:
  "fst (run_state (resolve_identity demo_env (demo_ext\<lparr>xi_subject := ''s2'', xi_email := ''ada@x.no''\<rparr>)
      ((policy_for demo_service)\<lparr>lp_auto_link := False\<rparr>) demo_meta) demo_known_world) = Inl LinkDenied"
proof -
  let ?ext = "demo_ext\<lparr>xi_subject := ''s2'', xi_email := ''ada@x.no''\<rparr>"
  let ?pol = "(policy_for demo_service)\<lparr>lp_auto_link := False\<rparr>"
  have "u_deactivated demo_user = None" "list_ex (\<lambda>i. ui_user i = u_id demo_user) (t_identities (w_db demo_known_world))"
    "list_all (\<lambda>i. (ui_issuer i, ui_subject i) \<noteq> (xi_issuer ?ext, xi_subject ?ext)) (t_identities (w_db demo_known_world))"
    by (simp_all add: demo_known_world_def demo_identity_def demo_user_def demo_ext_def)
  moreover have "normalize_email demo_env (xi_email ?ext) = u_email demo_user" by (simp add: demo_mail) (simp add: demo_user_def)
  moreover have "\<not> lp_auto_link ?pol" "\<not> lp_untrusted ?pol" by (simp_all add: policy_for_def)
  ultimately have "run_state (resolve_identity demo_env ?ext ?pol demo_meta) demo_known_world = (Inl LinkDenied,
      demo_known_world\<lparr>w_step := w_step demo_known_world + 6, w_audit := w_audit demo_known_world @
        [log_event ''identity_link_denied'' (u_email demo_user) (rm_service demo_meta) (rm_ip demo_meta) (rm_ua demo_meta)
          False (''provider='' @ xi_provider ?ext)]\<rparr>)"
    by (rule second_identity_is_refused [OF quiet_demo demo_known_ok demo_known_in(2)])
  then show ?thesis by (simp only: fst_conv)
qed

end
