(* ===== verification/Registry.thy ===== *)
theory Registry
  imports TokenUtil
begin

text \<open>
  Which service a request is for: the registry of \<open>internal/service\<close> (\<open>registry.go\<close>,
  \<open>callback.go\<close>, \<open>secret_check.go\<close>) and the choice of the login handlers
  (\<open>internal/auth/social_service.go\<close>).  The registry is the list of active services it last
  read from the database; a lookup returns a copy of an entry.
\<close>

section \<open>Lookup\<close>

abbreviation lower :: "env \<Rightarrow> string \<Rightarrow> string" where
  "lower e \<equiv> to_lower (e_lower e)"

definition redirect_host :: "env \<Rightarrow> string \<Rightarrow> string option" where
  "redirect_host e uri =
     (if uri = [] then None
      else case e_url_parse e uri of
        None \<Rightarrow> None
      | Some u \<Rightarrow> if ul_host u \<noteq> [] then Some (lower e (ul_host u)) else None)"

definition by_domain :: "env \<Rightarrow> string \<Rightarrow> service_row \<Rightarrow> bool" where
  "by_domain e uri s \<longleftrightarrow> redirect_host e uri = Some (lower e (sv_domain s))"

definition by_auth_host :: "env \<Rightarrow> string \<Rightarrow> service_row \<Rightarrow> bool" where
  "by_auth_host e host s \<longleftrightarrow>
     host \<noteq> [] \<and> (case sv_auth_host s of None \<Rightarrow> False | Some a \<Rightarrow> lower e a = lower e host)"

definition by_id :: "string \<Rightarrow> service_row \<Rightarrow> bool" where
  "by_id sid s \<longleftrightarrow> sid \<noteq> [] \<and> sv_id s = sid"

definition by_suffix :: "env \<Rightarrow> string \<Rightarrow> service_row \<Rightarrow> bool" where
  "by_suffix e uri s \<longleftrightarrow>
     (case redirect_host e uri of None \<Rightarrow> False | Some h \<Rightarrow> has_suffix h (''.'' @ lower e (sv_domain s)))"

text \<open>The loop of level 4: the longest matching domain, the first of equally long ones.\<close>

fun best_suffix :: "env \<Rightarrow> string \<Rightarrow> service_row option \<Rightarrow> service_row list \<Rightarrow> service_row option" where
  "best_suffix e uri best [] = best"
| "best_suffix e uri best (s # ss) =
     best_suffix e uri
       (if by_suffix e uri s \<and>
           (case best of None \<Rightarrow> True
            | Some b \<Rightarrow> length (lower e (sv_domain s)) > length (lower e (sv_domain b)))
        then Some s else best) ss"

definition resolve :: "env \<Rightarrow> service_row list \<Rightarrow> string \<Rightarrow> string \<Rightarrow> string \<Rightarrow> service_row option" where
  "resolve e cache host sid uri =
     (case List.find (by_domain e uri) cache of
        Some s \<Rightarrow> Some s
      | None \<Rightarrow> (case List.find (by_auth_host e host) cache of
          Some s \<Rightarrow> Some s
        | None \<Rightarrow> (case List.find (by_id sid) cache of
            Some s \<Rightarrow> Some s
          | None \<Rightarrow> best_suffix e uri None cache)))"

definition default_service :: "service_row list \<Rightarrow> service_row option" where
  "default_service cache =
     (case List.find (\<lambda>s. sv_is_default s = 1) cache of
        Some s \<Rightarrow> Some s
      | None \<Rightarrow> (case cache of [] \<Rightarrow> None | s # _ \<Rightarrow> Some s))"

definition resolve_or_default ::
  "env \<Rightarrow> service_row list \<Rightarrow> string \<Rightarrow> string \<Rightarrow> string \<Rightarrow> service_row option" where
  "resolve_or_default e cache host sid uri =
     (case resolve e cache host sid uri of Some s \<Rightarrow> Some s | None \<Rightarrow> default_service cache)"

definition all_services :: "service_row list \<Rightarrow> service_row list" where
  "all_services cache = cache"

definition warmup :: "env \<Rightarrow> call_ctx \<Rightarrow> service_row list \<Rightarrow> (db_err option \<times> service_row list) io" where
  "warmup e ctx old = do {
     res \<leftarrow> db_read e ctx list_active_services;
     return_io (case res of Inl x \<Rightarrow> (Some x, old) | Inr rows \<Rightarrow> (None, rows))
   }"

section \<open>Callbacks\<close>

definition callback_urls :: "string \<Rightarrow> string list" where
  "callback_urls raw = filter (\<lambda>p. p \<noteq> []) (map trim_space (split_on (CHR '','') raw))"

definition primary_callback :: "service_row \<Rightarrow> string" where
  "primary_callback s = (case callback_urls (sv_callback s) of [] \<Rightarrow> [] | c # _ \<Rightarrow> c)"

definition is_allowed_callback :: "service_row option \<Rightarrow> string \<Rightarrow> bool" where
  "is_allowed_callback svc uri =
     (case svc of
        None \<Rightarrow> False
      | Some s \<Rightarrow> if uri = [] then False else uri \<in> set (callback_urls (sv_callback s)))"

definition bad_callback_char :: "char \<Rightarrow> bool" where
  "bad_callback_char c \<longleftrightarrow> c \<in> {CHR ''#'', CHR '' '', CHR 0x09, CHR 0x22, CHR 0x27, CHR ''<'', CHR ''>'',
     CHR 0x5C, CHR 0x60}"

definition callback_ok :: "env \<Rightarrow> string \<Rightarrow> bool" where
  "callback_ok e p \<longleftrightarrow>
     (case e_url_parse e p of
        None \<Rightarrow> False
      | Some u \<Rightarrow>
          p \<noteq> [] \<and> ul_scheme u \<noteq> [] \<and> ul_host u \<noteq> [] \<and> ul_hostname u \<noteq> [] \<and> \<not> ul_has_user u \<and>
          ul_fragment u = [] \<and> \<not> list_ex bad_callback_char p \<and>
          (lower e (ul_scheme u) = ''https'' \<or>
           lower e (ul_scheme u) = ''http'' \<and> ul_hostname u \<in> {''localhost'', ''127.0.0.1'', ''::1''}))"

definition normalize_callback_urls :: "env \<Rightarrow> string \<Rightarrow> string option" where
  "normalize_callback_urls e raw =
     (let parts = map trim_space (split_on (CHR '','') raw)
      in if list_all (callback_ok e) parts then Some (join_with '','' parts) else None)"

definition link_base_url :: "string \<Rightarrow> service_row option \<Rightarrow> string" where
  "link_base_url base svc =
     (case svc of
        Some s \<Rightarrow> (case sv_auth_host s of
            Some h \<Rightarrow> if h \<noteq> [] then ''https://'' @ h else base
          | None \<Rightarrow> base)
      | None \<Rightarrow> base)"

section \<open>Startup warnings about client secrets\<close>

datatype secret_warning =
    MissingSecret string string string
  | PlaintextSecret string string
  | MissingClientID string string

definition client_secret_env_re :: "string \<Rightarrow> bool" where
  "client_secret_env_re s =
     (case cut_prefix s ''KAUTH_SVC_'' of
        Some (c # cs) \<Rightarrow> list_all env_name_char (c # cs)
      | _ \<Rightarrow> False)"

definition nonempty :: "string option \<Rightarrow> bool" where
  "nonempty s = (case s of None \<Rightarrow> False | Some x \<Rightarrow> x \<noteq> [])"

definition method_warnings ::
  "env \<Rightarrow> string \<Rightarrow> string \<times> string option \<times> string option \<Rightarrow> secret_warning list" where
  "method_warnings e sid = (\<lambda>(name, env_ref, column).
     (case env_ref of
        Some v \<Rightarrow> if v \<noteq> [] \<and> (\<not> client_secret_env_re v \<or> trim_space (e_getenv e v) = [])
                  then [MissingSecret sid name v] else []
      | None \<Rightarrow> []) @
     (if nonempty column then [PlaintextSecret sid name] else []))"

definition service_warnings :: "env \<Rightarrow> service_row \<Rightarrow> secret_warning list" where
  "service_warnings e s =
     concat (map (method_warnings e (sv_id s))
       [(''google'', sv_google_secret_env s, sv_google_client_secret s),
        (''microsoft'', sv_microsoft_secret_env s, sv_microsoft_client_secret s),
        (''github'', sv_github_secret_env s, None)]) @
     (if sv_auth_github s = 1 then
        (if \<not> nonempty (sv_github_secret_env s) \<and> trim_space (e_getenv e ''KAUTH_GITHUB_CLIENT_SECRET'') = []
         then [MissingSecret (sv_id s) ''github'' ''KAUTH_GITHUB_CLIENT_SECRET''] else []) @
        (if \<not> nonempty (sv_github_client_id s) \<and> e_getenv e ''KAUTH_GITHUB_CLIENT_ID'' = []
         then [MissingClientID (sv_id s) ''KAUTH_GITHUB_CLIENT_ID''] else [])
      else [])"

definition check_client_secrets :: "env \<Rightarrow> service_row list \<Rightarrow> secret_warning list" where
  "check_client_secrets e cache = concat (map (service_warnings e) cache)"

section \<open>The service of a login request\<close>

definition fold_eq :: "env \<Rightarrow> string \<Rightarrow> string \<Rightarrow> bool" where
  "fold_eq e a b = equal_fold (e_fold e) a b"

definition host_may_start :: "env \<Rightarrow> string \<Rightarrow> service_row \<Rightarrow> bool" where
  "host_may_start e host s \<longleftrightarrow>
     (case sv_auth_host s of None \<Rightarrow> True | Some a \<Rightarrow> a = [] \<or> fold_eq e a host)"

definition resolve_requested_service ::
  "env \<Rightarrow> service_row list \<Rightarrow> request \<Rightarrow> string \<Rightarrow> service_row option" where
  "resolve_requested_service e cache r requested =
     (case (if requested \<noteq> [] then resolve e cache [] requested [] else None) of
        Some s \<Rightarrow> if host_may_start e (rq_host r) s then Some s
                  else resolve_or_default e cache (rq_host r) [] []
      | None \<Rightarrow> resolve_or_default e cache (rq_host r) [] [])"

definition resolve_social_service :: "env \<Rightarrow> service_row list \<Rightarrow> request \<Rightarrow> service_row option" where
  "resolve_social_service e cache r = resolve_requested_service e cache r (query_get r ''service'')"

section \<open>Trimming twice is trimming once\<close>

lemma trim_left_drops:
  "trim_left (a # s) = a # s \<or> trim_left (a # s) = trim_left s \<or>
   (\<exists>b t. s = b # t \<and> trim_left (a # s) = trim_left t) \<or>
   (\<exists>b c u. s = b # c # u \<and> trim_left (a # s) = trim_left u)"
  by (simp split: list.split)

lemma trim_left_length: "length (trim_left s) \<le> length s"
proof (induction s rule: length_induct)
  case (1 s)
  show ?case
  proof (cases s)
    case (Cons a t)
    from 1 have IH: "length (trim_left u) \<le> length u" if "length u < length s" for u using that by blast
    from trim_left_drops [of a t] show ?thesis unfolding Cons
    proof (elim disjE exE conjE)
      assume "trim_left (a # t) = trim_left t"
      with IH [of t] show "length (trim_left (a # t)) \<le> length (a # t)" by (simp add: Cons del: trim_left.simps)
    next
      fix b u
      assume "t = b # u" "trim_left (a # t) = trim_left u"
      with IH [of u] show "length (trim_left (a # t)) \<le> length (a # t)" by (simp add: Cons del: trim_left.simps)
    next
      fix b c u
      assume "t = b # c # u" "trim_left (a # t) = trim_left u"
      with IH [of u] show "length (trim_left (a # t)) \<le> length (a # t)" by (simp add: Cons del: trim_left.simps)
    qed simp
  qed simp
qed

lemma trim_left_fix:
  "trim_left (a # s) = a # s \<longleftrightarrow> \<not> space1 a \<and>
     (case s of [] \<Rightarrow> True | b # t \<Rightarrow> \<not> space2 a b \<and> (case t of [] \<Rightarrow> True | c # u \<Rightarrow> \<not> space3 a b c))"
proof -
  have "trim_left s \<noteq> a # s" for s a
  proof
    assume "trim_left s = a # s"
    with trim_left_length [of s] show False by simp
  qed
  moreover have "trim_left t \<noteq> a # b # t" for t a b
  proof
    assume "trim_left t = a # b # t"
    with trim_left_length [of t] show False by simp
  qed
  moreover have "trim_left t \<noteq> a # b # c # t" for t a b c
  proof
    assume "trim_left t = a # b # c # t"
    with trim_left_length [of t] show False by simp
  qed
  ultimately show ?thesis
    unfolding trim_left.simps(2) by (simp del: trim_left.simps split: list.split)
qed

lemma trim_left_subset: "set (trim_left s) \<subseteq> set s"
proof (induction s rule: length_induct)
  case (1 s)
  show ?case
  proof (cases s)
    case (Cons a t)
    from 1 have IH: "set (trim_left u) \<subseteq> set u" if "length u < length s" for u using that by blast
    from trim_left_drops [of a t] show ?thesis unfolding Cons
    proof (elim disjE exE conjE)
      assume "trim_left (a # t) = trim_left t"
      with IH [of t] show "set (trim_left (a # t)) \<subseteq> set (a # t)" by (auto simp: Cons)
    next
      fix b u
      assume "t = b # u" "trim_left (a # t) = trim_left u"
      with IH [of u] show "set (trim_left (a # t)) \<subseteq> set (a # t)" by (auto simp: Cons)
    next
      fix b c u
      assume "t = b # c # u" "trim_left (a # t) = trim_left u"
      with IH [of u] show "set (trim_left (a # t)) \<subseteq> set (a # t)" by (auto simp: Cons)
    qed simp
  qed simp
qed

lemma trim_left_idem: "trim_left (trim_left s) = trim_left s"
  by (induction s rule: trim_left.induct) (auto split: list.split)

lemma trim_left_prefix:
  assumes "trim_left (p @ q) = p @ q"
  shows "trim_left p = p"
proof (cases p)
  case (Cons a s)
  with assms have "trim_left (a # s @ q) = a # s @ q" by simp
  then have "trim_left (a # s) = a # s"
    unfolding trim_left_fix by (cases s; cases "tl s") auto
  with Cons show ?thesis by simp
qed simp

lemma trim_right_idem: "trim_right_rev (trim_right_rev s) = trim_right_rev s"
  by (induction s rule: trim_right_rev.induct) (auto split: list.split)

lemma trim_space_idem: "trim_space (trim_space s) = trim_space s"
proof -
  define l r where "l = trim_left s" and "r = trim_right_rev (rev l)"
  have t: "trim_space s = rev r" by (simp add: trim_space_def l_def r_def)
  obtain p where "rev l = p @ r" using trim_right_rev_suffix unfolding r_def by blast
  then have "l = rev r @ rev p" by (metis rev_append rev_rev_ident)
  moreover have "trim_left l = l" by (simp add: l_def trim_left_idem)
  ultimately have "trim_left (rev r) = rev r" using trim_left_prefix by metis
  then show ?thesis by (simp add: t, simp add: trim_space_def r_def trim_right_idem)
qed

lemma trim_space_subset: "set (trim_space s) \<subseteq> set s"
proof -
  obtain p where "rev (trim_left s) = p @ trim_right_rev (rev (trim_left s))"
    using trim_right_rev_suffix by blast
  then have "set (trim_right_rev (rev (trim_left s))) \<subseteq> set (trim_left s)"
    by (metis set_append set_rev sup_ge2)
  with trim_left_subset [of s] show ?thesis by (simp add: trim_space_def)
qed

section \<open>The lookup cascade\<close>

lemma resolve_cases:
  assumes "resolve e cache host sid uri = Some s"
  shows "s \<in> set cache" and "by_domain e uri s \<or> by_auth_host e host s \<or> by_id sid s \<or> by_suffix e uri s"
proof -
  have best: "best_suffix e uri b ss = Some s \<Longrightarrow> b = Some s \<or> s \<in> set ss \<and> by_suffix e uri s" for b ss
    by (induction ss arbitrary: b) (auto split: if_splits)
  show "s \<in> set cache" "by_domain e uri s \<or> by_auth_host e host s \<or> by_id sid s \<or> by_suffix e uri s"
    using assms best [of None cache]
    by (auto simp: resolve_def split: option.splits dest: find_SomeD)
qed

lemma best_suffix_max:
  assumes "best_suffix e uri b ss = Some s" and "t \<in> set ss \<and> by_suffix e uri t \<or> b = Some t"
  shows "length (lower e (sv_domain t)) \<le> length (lower e (sv_domain s))"
proof -
  have keeps: "\<exists>s. best_suffix e uri (Some b) ss = Some s \<and>
      length (lower e (sv_domain b)) \<le> length (lower e (sv_domain s))" for b ss
  proof (induction ss arbitrary: b)
    case (Cons u ss)
    show ?case
    proof (cases "by_suffix e uri u \<and> length (lower e (sv_domain u)) > length (lower e (sv_domain b))")
      case True
      with Cons [of u] show ?thesis by auto
    next
      case False
      with Cons [of b] show ?thesis by auto
    qed
  qed simp
  show ?thesis using assms
  proof (induction ss arbitrary: b)
    case (Cons u ss)
    define b' where "b' = (if by_suffix e uri u \<and>
           (case b of None \<Rightarrow> True | Some b \<Rightarrow> length (lower e (sv_domain u)) > length (lower e (sv_domain b)))
        then Some u else b)"
    have run: "best_suffix e uri b' ss = Some s" using Cons.prems(1) by (simp add: b'_def)
    show ?case
    proof (cases "t \<in> set ss \<and> by_suffix e uri t")
      case True
      with Cons.IH run show ?thesis by blast
    next
      case False
      with Cons.prems(2) have "t = u \<and> by_suffix e uri u \<or> b = Some t" by auto
      then have "\<exists>c. b' = Some c \<and> length (lower e (sv_domain t)) \<le> length (lower e (sv_domain c))"
        unfolding b'_def by (cases b) auto
      then obtain c where "b' = Some c" "length (lower e (sv_domain t)) \<le> length (lower e (sv_domain c))" by blast
      with keeps [of c ss] run show ?thesis by auto
    qed
  qed simp
qed

lemma best_suffix_some:
  "t \<in> set ss \<Longrightarrow> by_suffix e uri t \<Longrightarrow> best_suffix e uri b ss \<noteq> None"
proof (induction ss arbitrary: b)
  case (Cons u ss)
  have keep: "best_suffix e uri (Some c) ss \<noteq> None" for c ss
    by (induction ss arbitrary: c) auto
  show ?case using Cons keep by (cases b) (auto split: option.split)
qed simp

lemma resolve_by_id:
  assumes "resolve e cache [] sid [] = Some s"
  shows "s \<in> set cache" and "sv_id s = sid"
  using resolve_cases [OF assms]
  by (auto simp: by_domain_def by_suffix_def redirect_host_def by_auth_host_def by_id_def)

section \<open>Properties\<close>

text \<open>The cascade of \<open>Resolve\<close>: an exact match of the redirect host with a domain beats the host
  header, which beats an explicit id, which beats a domain that is only a suffix; every answer
  is an entry of the registry, and the suffix level picks a longest domain.\<close>

theorem resolve_cascade:
  assumes "resolve e cache host sid uri = Some s"
  shows "s \<in> set cache \<and>
    (by_domain e uri s \<or>
     list_all (\<lambda>t. \<not> by_domain e uri t) cache \<and>
       (by_auth_host e host s \<or>
        list_all (\<lambda>t. \<not> by_auth_host e host t) cache \<and>
          (by_id sid s \<or>
           list_all (\<lambda>t. \<not> by_id sid t) cache \<and> by_suffix e uri s \<and>
             list_all (\<lambda>t. \<not> (by_suffix e uri t \<and>
               length (lower e (sv_domain s)) < length (lower e (sv_domain t)))) cache)))"
proof -
  have max: "list_all (\<lambda>t. \<not> (by_suffix e uri t \<and>
      length (lower e (sv_domain s)) < length (lower e (sv_domain t)))) cache"
    if "best_suffix e uri None cache = Some s"
    using best_suffix_max [OF that] by (fastforce simp: list_all_iff)
  show ?thesis
    using assms resolve_cases [OF assms] max
    by (auto simp: resolve_def list_all_iff find_None_all split: option.splits dest: find_SomeD)
qed

theorem resolve_cascade_witness:
  "resolve demo_env [demo_service] ''login.x.no'' [] [] = Some demo_service \<and> demo_service \<in> set [demo_service]"
proof -
  have r: "resolve demo_env [demo_service] ''login.x.no'' [] [] = Some demo_service"
    by (simp add: resolve_def by_domain_def redirect_host_def by_auth_host_def demo_service_def)
  from resolve_cascade [OF r] r show ?thesis by blast
qed

text \<open>Tenant isolation of the login endpoints: the service started for a request comes from the
  registry and is one the request's host may start (no \<open>auth_host\<close> of its own, or this host), or the one
  the host itself names, or the default service.  A \<open>service=\<close> parameter cannot start a flow of
  a service that lives on another host.\<close>

theorem requested_service_isolation:
  assumes "resolve_requested_service e cache r requested = Some s"
  shows "s \<in> set cache \<and>
    (host_may_start e (rq_host r) s \<or> by_auth_host e (rq_host r) s \<or> default_service cache = Some s)"
proof -
  have no_uri: "\<not> by_domain e [] t" "\<not> by_suffix e [] t" for t
    by (simp_all add: by_domain_def by_suffix_def redirect_host_def)
  have host: "t \<in> set cache \<and> (by_auth_host e (rq_host r) t \<or> default_service cache = Some t)"
    if "resolve_or_default e cache (rq_host r) [] [] = Some t" for t
  proof (cases "resolve e cache (rq_host r) [] []")
    case None
    with that have "default_service cache = Some t" by (simp add: resolve_or_default_def)
    moreover from this have "t \<in> set cache"
      by (auto simp: default_service_def split: option.splits list.splits dest: find_SomeD)
    ultimately show ?thesis by simp
  next
    case (Some u)
    with that resolve_cases [OF Some] no_uri show ?thesis by (auto simp: resolve_or_default_def by_id_def)
  qed
  show ?thesis
    using assms host resolve_cases
    by (auto simp: resolve_requested_service_def split: if_splits option.splits)
qed

definition demo_request :: request where
  "demo_request = \<lparr>rq_method = ''GET'', rq_host = ''login.x.no'', rq_path = ''/login'', rq_query = [], rq_form = [],
     rq_cookies = [], rq_headers = [], rq_client_ip = ''10.0.0.1''\<rparr>"

theorem requested_service_isolation_witness:
  "resolve_requested_service demo_env [demo_service] demo_request ''app'' = Some demo_service \<and>
   demo_service \<in> set [demo_service]"
proof -
  have r: "resolve_requested_service demo_env [demo_service] demo_request ''app'' = Some demo_service"
    by (simp add: resolve_requested_service_def resolve_def by_domain_def redirect_host_def by_auth_host_def
        by_id_def demo_service_def host_may_start_def demo_request_def fold_eq_def equal_fold_def ascii_def
        less_char_def)
  from requested_service_isolation [OF r] r show ?thesis by blast
qed

text \<open>A callback list accepted by the admin form reads back as exactly the trimmed entries, all of
  them absolute https addresses (http only for loopback), is a fixed point of the normalisation,
  and a redirect URI is allowed for the service exactly when it is one of the entries.\<close>

theorem callback_list_roundtrip:
  assumes "normalize_callback_urls e raw = Some n"
  shows "callback_urls n = map trim_space (split_on (CHR '','') raw) \<and> normalize_callback_urls e n = Some n \<and>
    list_all (callback_ok e) (callback_urls n) \<and>
    (\<forall>uri. is_allowed_callback (Some (s\<lparr>sv_callback := n\<rparr>)) uri \<longleftrightarrow> uri \<in> set (callback_urls n))"
proof -
  define parts where "parts = map trim_space (split_on (CHR '','') raw)"
  have ok: "list_all (callback_ok e) parts" and n: "n = join_with '','' parts"
    using assms by (auto simp: normalize_callback_urls_def parts_def Let_def split: if_splits)
  have ne: "\<forall>p \<in> set parts. p \<noteq> []" using ok by (auto simp: list_all_iff callback_ok_def split: option.splits)
  have "\<forall>p \<in> set parts. CHR '','' \<notin> set p"
    using split_on_parts trim_space_subset unfolding parts_def by fastforce
  then have split: "split_on (CHR '','') n = parts"
    unfolding n by (intro split_join) (simp_all add: parts_def)
  have trim: "map trim_space parts = parts" by (simp add: parts_def trim_space_idem)
  have cb: "callback_urls n = parts" using ne by (simp add: callback_urls_def split trim)
  moreover have "normalize_callback_urls e n = Some n"
    unfolding normalize_callback_urls_def Let_def split trim using ok n by simp
  ultimately show ?thesis using ok ne by (auto simp: parts_def is_allowed_callback_def)
qed

theorem callback_list_roundtrip_witness:
  "callback_urls ''https://a.no/x,https://b.no/y'' = [''https://a.no/x'', ''https://b.no/y'']"
proof -
  have "normalize_callback_urls demo_env ''https://a.no/x, https://b.no/y'' = Some ''https://a.no/x,https://b.no/y''"
    by code_simp
  from callback_list_roundtrip [OF this]
  have "callback_urls ''https://a.no/x,https://b.no/y'' =
      map trim_space (split_on (CHR '','') ''https://a.no/x, https://b.no/y'')" by blast
  also have "\<dots> = [''https://a.no/x'', ''https://b.no/y'']" by code_simp
  finally show ?thesis .
qed

end
