(* ===== verification/StateToken.thy ===== *)
theory StateToken
  imports Samples TokenUtil
begin

text \<open>
  The signed \<open>state\<close> parameter of the federated flows: \<open>internal/auth/state.go\<close>.

  \<open>state = base64url(payload . hmacHex)\<close> with payload \<open>service:nonce:iat\<close>, optionally followed by
  \<open>:admin\<close>, \<open>:github\<close>, \<open>:idp=slug\<close> or \<open>:idp=slug:link=id\<close>.  The payload is read from the right.
\<close>

section \<open>Signing\<close>

definition state_max_age :: duration where "state_max_age = 10 * minute"
definition state_max_skew :: duration where "state_max_skew = 60 * second"

record state_claims =
  st_service :: string
  st_nonce :: string
  st_admin :: bool
  st_idp :: string
  st_link :: int
  st_github :: bool

definition compute_hmac :: "env \<Rightarrow> string \<Rightarrow> string \<Rightarrow> string" where
  "compute_hmac e secret payload = hex_encode (e_hmac e secret payload)"

definition sign_state_payload :: "env \<Rightarrow> string \<Rightarrow> string \<Rightarrow> string" where
  "sign_state_payload e secret payload = b64_encode (payload @ ''.'' @ compute_hmac e secret payload)"

definition issued_at :: "instant \<Rightarrow> string" where
  "issued_at now = format_int (unix now)"

definition base_payload :: "string \<Rightarrow> string \<Rightarrow> instant \<Rightarrow> string" where
  "base_payload svc nonce now = svc @ '':'' @ nonce @ '':'' @ issued_at now"

definition sign_state :: "env \<Rightarrow> instant \<Rightarrow> string \<Rightarrow> string \<Rightarrow> string \<Rightarrow> string" where
  "sign_state e now secret svc nonce = sign_state_payload e secret (base_payload svc nonce now)"

definition sign_admin_state :: "env \<Rightarrow> instant \<Rightarrow> string \<Rightarrow> string \<Rightarrow> string \<Rightarrow> string" where
  "sign_admin_state e now secret svc nonce =
     sign_state_payload e secret (base_payload svc nonce now @ '':admin'')"

definition sign_github_state :: "env \<Rightarrow> instant \<Rightarrow> string \<Rightarrow> string \<Rightarrow> string \<Rightarrow> string" where
  "sign_github_state e now secret svc nonce =
     sign_state_payload e secret (base_payload svc nonce now @ '':github'')"

definition sign_idp_state :: "env \<Rightarrow> instant \<Rightarrow> string \<Rightarrow> string \<Rightarrow> string \<Rightarrow> string \<Rightarrow> string" where
  "sign_idp_state e now secret svc nonce slug =
     sign_state_payload e secret (base_payload svc nonce now @ '':idp='' @ slug)"

definition sign_link_state ::
  "env \<Rightarrow> instant \<Rightarrow> string \<Rightarrow> string \<Rightarrow> string \<Rightarrow> string \<Rightarrow> int \<Rightarrow> string" where
  "sign_link_state e now secret svc nonce slug invite =
     sign_state_payload e secret (base_payload svc nonce now @ '':idp='' @ slug @ '':link='' @ format_int invite)"

section \<open>Parsing\<close>

definition slug_char :: "char \<Rightarrow> bool" where
  "slug_char c \<longleftrightarrow> CHR ''a'' \<le> c \<and> c \<le> CHR ''z'' \<or> is_digit c \<or> c = CHR ''-''"

definition state_slug_re :: "string \<Rightarrow> bool" where
  "state_slug_re s \<longleftrightarrow> 1 \<le> length s \<and> length s \<le> 32 \<and> list_all slug_char s"

definition count_colon :: "string \<Rightarrow> nat" where
  "count_colon s = count_char (CHR '':'') s"

text \<open>The \<open>link=\<close> suffix: \<open>None\<close> is a rejection, otherwise the shorter payload and the id (0: none).\<close>

definition parse_link :: "string \<Rightarrow> (string \<times> int) option" where
  "parse_link payload =
     (case cut_last (CHR '':'') payload of
        None \<Rightarrow> Some (payload, 0)
      | Some (rest, seg) \<Rightarrow>
          (case cut_prefix seg ''link='' of
             None \<Rightarrow> Some (payload, 0)
           | Some digits \<Rightarrow>
               (case parse_int64 digits of
                  None \<Rightarrow> None
                | Some i \<Rightarrow>
                    if i \<le> 0 \<or> format_int i \<noteq> digits then None
                    else (case cut_last (CHR '':'') rest of
                            None \<Rightarrow> None
                          | Some (_, seg') \<Rightarrow> if has_prefix seg' ''idp='' then Some (rest, i) else None))))"

text \<open>The purpose: remaining payload, admin, slug, github.\<close>

definition parse_purpose :: "string \<Rightarrow> (string \<times> bool \<times> string \<times> bool) option" where
  "parse_purpose payload =
     (case (case cut_last (CHR '':'') payload of
              None \<Rightarrow> None
            | Some (rest, seg) \<Rightarrow> map_option (Pair rest) (cut_prefix seg ''idp='')) of
        Some (rest, slug) \<Rightarrow> if state_slug_re slug then Some (rest, False, slug, False) else None
      | None \<Rightarrow>
          (case cut_suffix payload '':admin'' of
             Some rest \<Rightarrow>
               if count_colon rest \<ge> 2 then Some (rest, True, [], False)
               else (case cut_suffix payload '':github'' of
                       Some rest \<Rightarrow> if count_colon rest \<ge> 2 then Some (rest, False, [], True)
                                    else Some (payload, False, [], False)
                     | None \<Rightarrow> Some (payload, False, [], False))
           | None \<Rightarrow>
               (case cut_suffix payload '':github'' of
                  Some rest \<Rightarrow> if count_colon rest \<ge> 2 then Some (rest, False, [], True)
                               else Some (payload, False, [], False)
                | None \<Rightarrow> Some (payload, False, [], False))))"

definition parse_base :: "instant \<Rightarrow> string \<Rightarrow> (string \<times> string) option" where
  "parse_base now payload = do {
     (rest, iat) \<leftarrow> cut_last (CHR '':'') payload;
     i \<leftarrow> parse_int64 iat;
     (svc, nonce) \<leftarrow> cut_last (CHR '':'') rest;
     (if now - i * second > state_max_age \<or> i * second - now > state_max_skew then None
      else Some (svc, nonce))
   }"

definition parse_payload :: "instant \<Rightarrow> string \<Rightarrow> state_claims option" where
  "parse_payload now payload = do {
     (p1, link) \<leftarrow> parse_link payload;
     (p2, admin, slug, github) \<leftarrow> parse_purpose p1;
     (svc, nonce) \<leftarrow> parse_base now p2;
     Some \<lparr>st_service = svc, st_nonce = nonce, st_admin = admin, st_idp = slug, st_link = link,
           st_github = github\<rparr>
   }"

definition parse_state :: "env \<Rightarrow> instant \<Rightarrow> string \<Rightarrow> string \<Rightarrow> state_claims option" where
  "parse_state e now secret state = do {
     raw \<leftarrow> b64_decode state;
     (payload, mac) \<leftarrow> cut_last (CHR ''.'') raw;
     (if mac = compute_hmac e secret payload then parse_payload now payload else None)
   }"

definition verify_state :: "env \<Rightarrow> instant \<Rightarrow> string \<Rightarrow> string \<Rightarrow> string option" where
  "verify_state e now secret state =
     (case parse_state e now secret state of
        None \<Rightarrow> None
      | Some c \<Rightarrow> if st_admin c \<or> st_github c \<or> st_idp c \<noteq> [] \<or> st_link c \<noteq> 0 then None
                  else Some (st_service c))"

definition generate_nonce :: "env \<Rightarrow> string option io" where
  "generate_nonce e = do { b \<leftarrow> rand_read e 16; return_io (map_option hex_encode b) }"

section \<open>Reading what was signed\<close>

lemma parse_signed: "parse_state e now secret (sign_state_payload e secret p) = parse_payload now p"
proof -
  have "cut_last (CHR ''.'') (p @ ''.'' @ compute_hmac e secret p) = Some (p, compute_hmac e secret p)"
    using cut_last_append [of "CHR ''.''" "compute_hmac e secret p" p] by (simp add: compute_hmac_def)
  then show ?thesis by (simp add: parse_state_def sign_state_payload_def b64_decode_encode)
qed

text \<open>The window of acceptance, and a clock whose seconds fit into an \<open>int64\<close>.\<close>

definition state_fresh :: "instant \<Rightarrow> instant \<Rightarrow> bool" where
  "state_fresh issued now \<longleftrightarrow>
     now - unix issued * second \<le> state_max_age \<and> unix issued * second - now \<le> state_max_skew \<and>
     - (2 ^ 63) \<le> unix issued \<and> unix issued < 2 ^ 63"

lemma base_cut:
  "cut_last (CHR '':'') (base_payload svc nonce now) = Some (svc @ '':'' @ nonce, issued_at now)"
  using cut_last_append [of "CHR '':''" "issued_at now" "svc @ '':'' @ nonce"]
  by (simp add: base_payload_def issued_at_def)

lemma parse_base_payload:
  assumes "CHR '':'' \<notin> set nonce" and "state_fresh issued now"
  shows "parse_base now (base_payload svc nonce issued) = Some (svc, nonce)"
proof -
  have "cut_last (CHR '':'') (svc @ '':'' @ nonce) = Some (svc, nonce)"
    using cut_last_append [OF assms(1), of svc] by simp
  moreover have "parse_int64 (issued_at issued) = Some (unix issued)"
    using assms(2) by (simp add: issued_at_def state_fresh_def parse_format_int64)
  ultimately show ?thesis
    using assms(2) by (simp add: parse_base_def base_cut state_fresh_def)
qed

text \<open>A last segment that starts like a digit or a minus is neither a link, a slug nor a purpose.\<close>

lemma issued_at_first: "\<exists>c cs. issued_at t = c # cs \<and> (is_digit c \<or> c = CHR ''-'')"
proof -
  have ne: "issued_at t \<noteq> []" by (simp add: issued_at_def format_int_def)
  then obtain c cs where "issued_at t = c # cs" by (cases "issued_at t") auto
  moreover from this have "c \<in> set (format_int (unix t))" by (simp add: issued_at_def)
  ultimately show ?thesis using format_int_chars by blast
qed

lemma cut_prefix_issued:
  assumes "p \<noteq> []" and "\<not> is_digit (hd p)" and "hd p \<noteq> CHR ''-''"
  shows "cut_prefix (issued_at t) p = None"
  using issued_at_first [of t] assms by (cases p) (auto simp: cut_prefix_def has_prefix_def)

lemma cut_suffix_segment:
  assumes "CHR '':'' \<notin> set seg" and "CHR '':'' \<notin> set p"
  shows "cut_suffix (a @ CHR '':'' # seg) (CHR '':'' # p) = (if seg = p then Some a else None)"
proof (cases "cut_suffix (a @ CHR '':'' # seg) (CHR '':'' # p)")
  case None
  have "seg \<noteq> p"
  proof
    assume "seg = p"
    then have "cut_suffix (a @ CHR '':'' # seg) (CHR '':'' # p) = Some a" by (simp add: cut_suffix_Some)
    with None show False by simp
  qed
  with None show ?thesis by simp
next
  case (Some t)
  then have "a @ CHR '':'' # seg = t @ CHR '':'' # p" by (simp add: cut_suffix_Some)
  then have "cut_last (CHR '':'') (a @ CHR '':'' # seg) = cut_last (CHR '':'') (t @ CHR '':'' # p)" by simp
  then have "a = t" "seg = p" using assms by (simp_all add: cut_last_append)
  with Some show ?thesis by simp
qed

lemma hd_literals: "\<not> is_digit (CHR ''l'')" "\<not> is_digit (CHR ''i'')" "\<not> is_digit (CHR ''a'')" "\<not> is_digit (CHR ''g'')"
  by (simp_all add: is_digit_def)

lemma count_base: "CHR '':'' \<notin> set nonce \<Longrightarrow> 2 \<le> count_colon (base_payload svc nonce t)"
  by (simp add: count_colon_def count_char_def base_payload_def)

lemma parse_link_none:
  assumes "CHR '':'' \<notin> set seg" and "cut_prefix seg ''link='' = None"
  shows "parse_link (a @ CHR '':'' # seg) = Some (a @ CHR '':'' # seg, 0)"
  using assms by (simp add: parse_link_def cut_last_append)

lemma base_as_segment: "base_payload svc nonce t = (svc @ '':'' @ nonce) @ CHR '':'' # issued_at t"
  by (simp add: base_payload_def)

lemma issued_no_colon: "CHR '':'' \<notin> set (issued_at t)"
  by (simp add: issued_at_def)

lemma issued_ne_word: "p \<noteq> [] \<Longrightarrow> \<not> is_digit (hd p) \<Longrightarrow> hd p \<noteq> CHR ''-'' \<Longrightarrow> issued_at t \<noteq> p"
  using issued_at_first [of t] by (cases p) auto

lemma parse_payload_plain:
  assumes "CHR '':'' \<notin> set nonce" and "state_fresh issued now"
  shows "parse_payload now (base_payload svc nonce issued) =
    Some \<lparr>st_service = svc, st_nonce = nonce, st_admin = False, st_idp = [], st_link = 0, st_github = False\<rparr>"
proof -
  let ?p = "base_payload svc nonce issued"
  have l: "parse_link ?p = Some (?p, 0)"
    unfolding base_as_segment
    by (rule parse_link_none) (simp_all add: issued_no_colon cut_prefix_issued hd_literals)
  have "cut_suffix ?p '':admin'' = None" "cut_suffix ?p '':github'' = None"
    unfolding base_as_segment
    using cut_suffix_segment [OF issued_no_colon, of "''admin''" "svc @ '':'' @ nonce" issued]
      cut_suffix_segment [OF issued_no_colon, of "''github''" "svc @ '':'' @ nonce" issued]
    by (simp_all add: issued_ne_word hd_literals)
  then have "parse_purpose ?p = Some (?p, False, [], False)"
    by (simp add: parse_purpose_def base_cut cut_prefix_issued hd_literals)
  with l show ?thesis
    by (simp add: parse_payload_def parse_base_payload [OF assms])
qed

lemma parse_payload_admin:
  assumes "CHR '':'' \<notin> set nonce" and "state_fresh issued now"
  shows "parse_payload now (base_payload svc nonce issued @ '':admin'') =
    Some \<lparr>st_service = svc, st_nonce = nonce, st_admin = True, st_idp = [], st_link = 0, st_github = False\<rparr>"
proof -
  let ?b = "base_payload svc nonce issued"
  have l: "parse_link (?b @ '':admin'') = Some (?b @ '':admin'', 0)"
    using parse_link_none [of "''admin''" ?b] by (simp add: cut_prefix_def has_prefix_def)
  have "cut_last (CHR '':'') (?b @ '':admin'') = Some (?b, ''admin'')"
    using cut_last_append [of "CHR '':''" "''admin''" ?b] by simp
  then have "parse_purpose (?b @ '':admin'') = Some (?b, True, [], False)"
    by (simp add: parse_purpose_def cut_prefix_def has_prefix_def count_base [OF assms(1)])
  with l show ?thesis by (simp add: parse_payload_def parse_base_payload [OF assms])
qed

lemma parse_payload_github:
  assumes "CHR '':'' \<notin> set nonce" and "state_fresh issued now"
  shows "parse_payload now (base_payload svc nonce issued @ '':github'') =
    Some \<lparr>st_service = svc, st_nonce = nonce, st_admin = False, st_idp = [], st_link = 0, st_github = True\<rparr>"
proof -
  let ?b = "base_payload svc nonce issued"
  have l: "parse_link (?b @ '':github'') = Some (?b @ '':github'', 0)"
    using parse_link_none [of "''github''" ?b] by (simp add: cut_prefix_def has_prefix_def)
  have "cut_last (CHR '':'') (?b @ '':github'') = Some (?b, ''github'')"
    using cut_last_append [of "CHR '':''" "''github''" ?b] by simp
  moreover have "cut_suffix (?b @ '':github'') '':admin'' = None"
    using cut_suffix_segment [of "''github''" "''admin''" ?b] by simp
  ultimately have "parse_purpose (?b @ '':github'') = Some (?b, False, [], True)"
    by (simp add: parse_purpose_def cut_prefix_def has_prefix_def count_base [OF assms(1)])
  with l show ?thesis by (simp add: parse_payload_def parse_base_payload [OF assms])
qed

lemma slug_no_colon: "state_slug_re slug \<Longrightarrow> CHR '':'' \<notin> set slug"
  by (auto simp: state_slug_re_def list_all_iff slug_char_def is_digit_def)

lemma parse_purpose_idp:
  assumes "state_slug_re slug"
  shows "parse_purpose (b @ '':idp='' @ slug) = Some (b, False, slug, False)"
proof -
  have "cut_last (CHR '':'') (b @ '':idp='' @ slug) = Some (b, ''idp='' @ slug)"
    using cut_last_append [of "CHR '':''" "''idp='' @ slug" b] slug_no_colon [OF assms] by simp
  then show ?thesis using assms
    by (simp add: parse_purpose_def cut_prefix_def has_prefix_def)
qed

lemma parse_payload_idp:
  assumes "CHR '':'' \<notin> set nonce" and "state_fresh issued now" and "state_slug_re slug"
  shows "parse_payload now (base_payload svc nonce issued @ '':idp='' @ slug) =
    Some \<lparr>st_service = svc, st_nonce = nonce, st_admin = False, st_idp = slug, st_link = 0, st_github = False\<rparr>"
proof -
  let ?b = "base_payload svc nonce issued"
  have "parse_link (?b @ '':idp='' @ slug) = Some (?b @ '':idp='' @ slug, 0)"
    using parse_link_none [of "''idp='' @ slug" ?b] slug_no_colon [OF assms(3)]
    by (simp add: cut_prefix_def has_prefix_def)
  then show ?thesis
    by (simp add: parse_payload_def parse_base_payload [OF assms(1,2)] parse_purpose_idp [OF assms(3), simplified])
qed

lemma parse_payload_link:
  assumes "CHR '':'' \<notin> set nonce" and "state_fresh issued now" and "state_slug_re slug"
    and "0 < i" and "i < 2 ^ 63"
  shows "parse_payload now (base_payload svc nonce issued @ '':idp='' @ slug @ '':link='' @ format_int i) =
    Some \<lparr>st_service = svc, st_nonce = nonce, st_admin = False, st_idp = slug, st_link = i, st_github = False\<rparr>"
proof -
  let ?b = "base_payload svc nonce issued"
  have "cut_last (CHR '':'') ((?b @ '':idp='' @ slug) @ CHR '':'' # ''link='' @ format_int i) =
      Some (?b @ '':idp='' @ slug, ''link='' @ format_int i)"
    by (rule cut_last_append) simp
  moreover have "cut_last (CHR '':'') (?b @ CHR '':'' # ''idp='' @ slug) = Some (?b, ''idp='' @ slug)"
    by (rule cut_last_append) (simp add: slug_no_colon [OF assms(3)])
  ultimately have "parse_link (?b @ '':idp='' @ slug @ '':link='' @ format_int i) = Some (?b @ '':idp='' @ slug, i)"
    using assms(4,5) by (simp add: parse_link_def cut_prefix_def has_prefix_def parse_format_int64)
  then show ?thesis
    by (simp add: parse_payload_def parse_base_payload [OF assms(1,2)] parse_purpose_idp [OF assms(3), simplified])
qed

lemma parse_state_Some:
  assumes "parse_state e now secret state = Some c"
  shows "\<exists>payload. b64_decode state = Some (payload @ ''.'' @ compute_hmac e secret payload) \<and>
    parse_payload now payload = Some c"
  using assms
  by (auto simp: parse_state_def cut_last_Some split: Option.bind_splits if_splits)

lemma parse_link_bounds: "parse_link p = Some (r, i) \<Longrightarrow>
    i = 0 \<and> r = p \<or> 0 < i \<and> (\<exists>a seg. cut_last (CHR '':'') r = Some (a, seg) \<and> has_prefix seg ''idp='')"
  by (auto simp: parse_link_def split: option.splits if_splits)

lemma parse_purpose_exclusive: "parse_purpose p = Some (r, admin, slug, github) \<Longrightarrow>
    \<not> (admin \<and> github) \<and> (slug \<noteq> [] \<longrightarrow> \<not> admin \<and> \<not> github \<and> state_slug_re slug) \<and>
    ((\<exists>a seg. cut_last (CHR '':'') p = Some (a, seg) \<and> has_prefix seg ''idp='') \<longrightarrow> slug \<noteq> [])"
  by (auto simp: parse_purpose_def cut_prefix_def state_slug_re_def split: option.splits if_splits)

lemma parse_link_prefix: "parse_link p = Some (r, i) \<Longrightarrow> \<exists>t. p = r @ t"
  by (auto simp: parse_link_def cut_last_Some split: option.splits if_splits)

lemma parse_purpose_prefix: "parse_purpose p = Some (r, x) \<Longrightarrow> \<exists>t. p = r @ t"
  by (auto simp: parse_purpose_def cut_last_Some cut_suffix_Some split: option.splits if_splits)

lemma parse_base_window:
  assumes "parse_base now p = Some (svc, nonce)"
  shows "\<exists>ts i. p = svc @ '':'' @ nonce @ '':'' @ ts \<and> parse_int64 ts = Some i \<and>
    now - i * second \<le> state_max_age \<and> i * second - now \<le> state_max_skew"
  using assms by (auto simp: parse_base_def not_less cut_last_Some split: Option.bind_splits if_splits)

section \<open>Properties\<close>

text \<open>C20. A state signed by any of the five functions and presented within ten minutes is read back
  with exactly the service, nonce and purpose it was signed for, even when the service id contains
  a colon.\<close>

theorem state_roundtrip:
  assumes "CHR '':'' \<notin> set nonce" and "state_fresh issued now" and "state_slug_re slug"
    and "0 < i" and "i < 2 ^ 63"
  shows "parse_state e now secret (sign_state e issued secret svc nonce) =
      Some \<lparr>st_service = svc, st_nonce = nonce, st_admin = False, st_idp = [], st_link = 0, st_github = False\<rparr> \<and>
    parse_state e now secret (sign_admin_state e issued secret svc nonce) =
      Some \<lparr>st_service = svc, st_nonce = nonce, st_admin = True, st_idp = [], st_link = 0, st_github = False\<rparr> \<and>
    parse_state e now secret (sign_github_state e issued secret svc nonce) =
      Some \<lparr>st_service = svc, st_nonce = nonce, st_admin = False, st_idp = [], st_link = 0, st_github = True\<rparr> \<and>
    parse_state e now secret (sign_idp_state e issued secret svc nonce slug) =
      Some \<lparr>st_service = svc, st_nonce = nonce, st_admin = False, st_idp = slug, st_link = 0, st_github = False\<rparr> \<and>
    parse_state e now secret (sign_link_state e issued secret svc nonce slug i) =
      Some \<lparr>st_service = svc, st_nonce = nonce, st_admin = False, st_idp = slug, st_link = i, st_github = False\<rparr>"
  by (simp only: sign_state_def sign_admin_state_def sign_github_state_def sign_idp_state_def
      sign_link_state_def parse_signed parse_payload_plain [OF assms(1,2)] parse_payload_admin [OF assms(1,2)]
      parse_payload_github [OF assms(1,2)] parse_payload_idp [OF assms(1-3)] parse_payload_link [OF assms])

theorem state_roundtrip_witness:
  "parse_state demo_env (noon + minute) ''key'' (sign_link_state demo_env noon ''key'' ''a:b'' ''4f'' ''idp'' 7) =
     Some \<lparr>st_service = ''a:b'', st_nonce = ''4f'', st_admin = False, st_idp = ''idp'', st_link = 7, st_github = False\<rparr>"
proof -
  have "state_fresh noon (noon + minute)" by code_simp
  moreover have "state_slug_re ''idp''" by code_simp
  moreover have "CHR '':'' \<notin> set ''4f''" by simp
  ultimately show ?thesis using state_roundtrip [of "''4f''" noon "noon + minute" "''idp''" 7] by simp
qed

text \<open>C21. Only states with the right MAC are accepted; the service and nonce read are the ones in the
  MACed payload, whose issue time is no older than ten minutes and no more than a minute in the
  future; and no accepted state mixes purposes: admin and GitHub exclude each other and
  any slug, and an invitation id comes only with a slug.\<close>

theorem state_accepted_only_if:
  assumes "parse_state e now secret state = Some c"
  shows "(\<exists>payload ts rest i. b64_decode state = Some (payload @ ''.'' @ compute_hmac e secret payload) \<and>
      payload = st_service c @ '':'' @ st_nonce c @ '':'' @ ts @ rest \<and> parse_int64 ts = Some i \<and>
      now - i * second \<le> state_max_age \<and> i * second - now \<le> state_max_skew) \<and>
    \<not> (st_admin c \<and> st_github c) \<and> (st_idp c \<noteq> [] \<longrightarrow> \<not> st_admin c \<and> \<not> st_github c \<and> state_slug_re (st_idp c)) \<and>
    0 \<le> st_link c \<and> (st_link c \<noteq> 0 \<longrightarrow> st_idp c \<noteq> [])"
proof -
  obtain payload where p: "b64_decode state = Some (payload @ ''.'' @ compute_hmac e secret payload)"
    and "parse_payload now payload = Some c" using parse_state_Some [OF assms] by blast
  then obtain p1 link p2 admin slug github svc nonce where
    l: "parse_link payload = Some (p1, link)" and u: "parse_purpose p1 = Some (p2, admin, slug, github)"
    and b: "parse_base now p2 = Some (svc, nonce)"
    and c: "c = \<lparr>st_service = svc, st_nonce = nonce, st_admin = admin, st_idp = slug, st_link = link, st_github = github\<rparr>"
    by (auto simp: parse_payload_def split: Option.bind_splits)
  from parse_link_prefix [OF l] parse_purpose_prefix [OF u] obtain t1 t2 where t: "payload = (p2 @ t2) @ t1" by auto
  from parse_base_window [OF b] obtain ts i where i: "p2 = svc @ '':'' @ nonce @ '':'' @ ts" "parse_int64 ts = Some i"
    "now - i * second \<le> state_max_age" "i * second - now \<le> state_max_skew" by blast
  then have "payload = svc @ '':'' @ nonce @ '':'' @ ts @ t2 @ t1" using t by simp
  with p i have "\<exists>payload ts rest i. b64_decode state = Some (payload @ ''.'' @ compute_hmac e secret payload) \<and>
      payload = svc @ '':'' @ nonce @ '':'' @ ts @ rest \<and> parse_int64 ts = Some i \<and>
      now - i * second \<le> state_max_age \<and> i * second - now \<le> state_max_skew" by blast
  with parse_link_bounds [OF l] parse_purpose_exclusive [OF u] show ?thesis by (auto simp: c)
qed

theorem state_accepted_only_if_witness:
  "st_link \<lparr>st_service = ''app'', st_nonce = ''4f'', st_admin = False, st_idp = ''idp'', st_link = 7, st_github = False\<rparr> \<noteq> 0
   \<and> \<not> st_admin \<lparr>st_service = ''app'', st_nonce = ''4f'', st_admin = False, st_idp = ''idp'', st_link = 7, st_github = False\<rparr>"
proof -
  have "state_fresh noon (noon + minute)" "state_slug_re ''idp''" by code_simp+
  then have "parse_state demo_env (noon + minute) ''key'' (sign_link_state demo_env noon ''key'' ''app'' ''4f'' ''idp'' 7) =
     Some \<lparr>st_service = ''app'', st_nonce = ''4f'', st_admin = False, st_idp = ''idp'', st_link = 7, st_github = False\<rparr>"
    using parse_payload_link [of "''4f''" noon "noon + minute" "''idp''" 7 "''app''"]
    by (simp add: sign_link_state_def parse_signed del: append.simps append_Cons)
  from state_accepted_only_if [OF this] show ?thesis by simp
qed

text \<open>\<open>VerifyState\<close> serves plain logins only: it returns the service of a plain state and refuses
  every admin, GitHub, provider and invitation state, signed with the same secret and fresh.\<close>

theorem verify_state_plain_only:
  assumes "CHR '':'' \<notin> set nonce" and "state_fresh issued now" and "state_slug_re slug"
    and "0 < i" and "i < 2 ^ 63"
  shows "verify_state e now secret (sign_state e issued secret svc nonce) = Some svc \<and>
    verify_state e now secret (sign_admin_state e issued secret svc nonce) = None \<and>
    verify_state e now secret (sign_github_state e issued secret svc nonce) = None \<and>
    verify_state e now secret (sign_idp_state e issued secret svc nonce slug) = None \<and>
    verify_state e now secret (sign_link_state e issued secret svc nonce slug i) = None"
proof -
  have "slug \<noteq> []" using assms(3) by (auto simp: state_slug_re_def)
  then show ?thesis
    by (simp add: verify_state_def sign_state_def sign_admin_state_def sign_github_state_def sign_idp_state_def
        sign_link_state_def parse_signed parse_payload_plain [OF assms(1,2)] parse_payload_admin [OF assms(1,2), simplified]
        parse_payload_github [OF assms(1,2), simplified] parse_payload_idp [OF assms(1-3), simplified]
        parse_payload_link [OF assms, simplified])
qed

theorem verify_state_plain_only_witness:
  "verify_state demo_env (noon + minute) ''key'' (sign_admin_state demo_env noon ''key'' ''app'' ''4f'') = None"
proof -
  have "state_fresh noon (noon + minute)" "state_slug_re ''idp''" by code_simp+
  with verify_state_plain_only [of "''4f''" noon "noon + minute" "''idp''" 7] show ?thesis by simp
qed

end
