(* ===== verification/Issuer.thy ===== *)
theory Issuer
  imports TokenUtil
begin

text \<open>
  Signed tokens: \<open>internal/token/issuer.go\<close> and the key ring \<open>internal/token/keyring.go\<close>.

  Signing, decoding and checking a signature, and the validation of the registered claims are the
  JWT library's (\<open>e_jwt_sign\<close>, \<open>e_jwt_decode\<close>, \<open>e_jwt_sig_ok\<close>, \<open>e_jwt_valid\<close>).  Here: which key is used,
  which tokens are tried with which key, and what the claims are.
\<close>

section \<open>The key ring\<close>

record public_key =
  pe_kid :: string
  pe_key :: "pubkey option"

record key_ring =
  kr_kid :: string
  kr_private :: "privkey option"
  kr_public :: "pubkey option"
  kr_next :: "public_key option"
  kr_previous :: "public_key option"

datatype ring_err =
    NoPrivateKey
  | NoPublicKey string
  | BadKID string
  | WeakKey string
  | KeyMismatch
  | DuplicateKID string
  | SameAsCurrent string
  | NextIsPrevious
  | NoIssuerName

definition min_rsa_bits :: nat where "min_rsa_bits = 2048"

definition kid_char :: "char \<Rightarrow> bool" where
  "kid_char c \<longleftrightarrow> CHR ''A'' \<le> c \<and> c \<le> CHR ''Z'' \<or> CHR ''a'' \<le> c \<and> c \<le> CHR ''z'' \<or> is_digit c \<or>
     c \<in> {CHR ''.'', CHR ''_'', CHR ''-''}"

definition valid_kid :: "string \<Rightarrow> bool" where
  "valid_kid kid \<longleftrightarrow> 1 \<le> length kid \<and> length kid \<le> 64 \<and> list_all kid_char kid"

text \<open>\<open>N.BitLen() < n\<close> is \<open>N < 2^(n-1)\<close>.\<close>

definition bit_len_less :: "nat \<Rightarrow> nat \<Rightarrow> bool" where
  "bit_len_less k n \<longleftrightarrow> 0 < n \<and> k < 2 ^ (n - 1)"

definition new_single_key_ring :: "privkey \<Rightarrow> key_ring" where
  "new_single_key_ring sk =
     \<lparr>kr_kid = ''kauth-1'', kr_private = Some sk, kr_public = Some \<lparr>pk_n = sk_n sk, pk_e = sk_e sk\<rparr>,
      kr_next = None, kr_previous = None\<rparr>"

definition check_pub :: "string \<Rightarrow> string \<Rightarrow> pubkey option \<Rightarrow> ring_err option" where
  "check_pub name kid pub =
     (case pub of
        None \<Rightarrow> Some (NoPublicKey name)
      | Some k \<Rightarrow>
          if \<not> valid_kid kid then Some (BadKID name)
          else if bit_len_less (pk_n k) min_rsa_bits then Some (WeakKey name)
          else None)"

definition same_key :: "pubkey \<Rightarrow> pubkey \<Rightarrow> bool" where
  "same_key a b \<longleftrightarrow> pk_e a = pk_e b \<and> pk_n a = pk_n b"

definition same_key_opt :: "pubkey option \<Rightarrow> pubkey option \<Rightarrow> bool" where
  "same_key_opt a b \<longleftrightarrow> (case (a, b) of (Some x, Some y) \<Rightarrow> same_key x y | _ \<Rightarrow> False)"

text \<open>The loop over next and previous, with the kids seen so far.\<close>

fun check_others :: "pubkey option \<Rightarrow> string list \<Rightarrow> (string \<times> public_key option) list \<Rightarrow> ring_err option" where
  "check_others cur seen [] = None"
| "check_others cur seen ((name, None) # ks) = check_others cur seen ks"
| "check_others cur seen ((name, Some k) # ks) =
     (case check_pub name (pe_kid k) (pe_key k) of
        Some x \<Rightarrow> Some x
      | None \<Rightarrow>
          if pe_kid k \<in> set seen then Some (DuplicateKID name)
          else if same_key_opt (pe_key k) cur then Some (SameAsCurrent name)
          else check_others cur (pe_kid k # seen) ks)"

definition validate_ring :: "key_ring \<Rightarrow> ring_err option" where
  "validate_ring r =
     (case kr_private r of
        None \<Rightarrow> Some NoPrivateKey
      | Some sk \<Rightarrow>
          (case check_pub ''current'' (kr_kid r) (kr_public r) of
             Some x \<Rightarrow> Some x
           | None \<Rightarrow>
               if \<not> same_key_opt (Some \<lparr>pk_n = sk_n sk, pk_e = sk_e sk\<rparr>) (kr_public r) then Some KeyMismatch
               else (case check_others (kr_public r) [kr_kid r]
                            [(''next'', kr_next r), (''previous'', kr_previous r)] of
                       Some x \<Rightarrow> Some x
                     | None \<Rightarrow>
                         (case (kr_next r, kr_previous r) of
                            (Some n, Some p) \<Rightarrow>
                              if same_key_opt (pe_key n) (pe_key p) then Some NextIsPrevious else None
                          | _ \<Rightarrow> None))))"

section \<open>Issuing\<close>

record issuer =
  is_ring :: key_ring
  is_name :: string
  is_default_ttl :: duration
  is_admin_ttl :: duration

definition new_issuer :: "key_ring \<Rightarrow> string \<Rightarrow> duration \<Rightarrow> duration \<Rightarrow> ring_err + issuer" where
  "new_issuer ring name dttl attl =
     (case validate_ring ring of
        Some x \<Rightarrow> Inl x
      | None \<Rightarrow>
          if name = [] then Inl NoIssuerName
          else Inr \<lparr>is_ring = ring, is_name = name, is_default_ttl = dttl, is_admin_ttl = attl\<rparr>)"

datatype issue_err = IssueRand | IssueNoPublicID | IssueSign

record issued =
  ji_token :: string
  ji_jti :: string

definition new_jti :: "env \<Rightarrow> string option io" where
  "new_jti e = do { b \<leftarrow> rand_read e 16; return_io (map_option b64_encode b) }"

definition opt_text :: "string option \<Rightarrow> string" where
  "opt_text s = (case s of None \<Rightarrow> [] | Some x \<Rightarrow> x)"

definition subject_of :: "user_row \<Rightarrow> service_row option \<Rightarrow> string option" where
  "subject_of user svc =
     (case svc of
        Some s \<Rightarrow> if sv_sub_format s = ''id'' then (if u_public_id user = [] then None else Some (u_public_id user))
                  else Some (u_email user)
      | None \<Rightarrow> Some (u_email user))"

definition build_claims ::
  "env \<Rightarrow> issuer \<Rightarrow> user_row \<Rightarrow> service_row option \<Rightarrow> duration \<Rightarrow> string \<Rightarrow> (issue_err + claims) io" where
  "build_claims e i user svc ttl token_use = do {
     j \<leftarrow> new_jti e;
     case j of
       None \<Rightarrow> return_io (Inl IssueRand)
     | Some jti \<Rightarrow> do {
         now \<leftarrow> time_now e;
         return_io (case subject_of user svc of
           None \<Rightarrow> Inl IssueNoPublicID
         | Some subject \<Rightarrow> Inr
             \<lparr>c_jti = jti, c_iss = is_name i, c_sub = subject, c_aud = [], c_iat = Some (unix now),
              c_nbf = Some (unix now), c_exp = Some (unix (now + ttl)), c_email = u_email user,
              c_org = split_csv (u_orgs user), c_groups = split_csv (u_roles user),
              c_name = opt_text (u_name user), c_use = token_use, c_nonce = []\<rparr>)
       }
   }"

definition sign :: "env \<Rightarrow> issuer \<Rightarrow> claims \<Rightarrow> string option" where
  "sign e i c =
     (case kr_private (is_ring i) of
        None \<Rightarrow> None
      | Some sk \<Rightarrow> e_jwt_sign e (kr_kid (is_ring i)) sk c)"

definition sign_claims ::
  "env \<Rightarrow> issuer \<Rightarrow> user_row \<Rightarrow> service_row option \<Rightarrow> duration \<Rightarrow> string \<Rightarrow> string \<Rightarrow> string \<Rightarrow>
   (issue_err + issued) io" where
  "sign_claims e i user svc ttl token_use aud nonce = do {
     b \<leftarrow> build_claims e i user svc ttl token_use;
     return_io (case b of
       Inl x \<Rightarrow> Inl x
     | Inr c \<Rightarrow> (case sign e i (c\<lparr>c_aud := [aud], c_nonce := nonce\<rparr>) of
           None \<Rightarrow> Inl IssueSign
         | Some s \<Rightarrow> Inr \<lparr>ji_token = s, ji_jti = c_jti c\<rparr>))
   }"

definition service_ttl :: "env \<Rightarrow> issuer \<Rightarrow> service_row \<Rightarrow> duration" where
  "service_ttl e i svc =
     (case parse_iso8601 (e_upper e) (sv_access_ttl svc) of
        Some d \<Rightarrow> if d > 0 then d else is_default_ttl i
      | None \<Rightarrow> is_default_ttl i)"

definition issue_access_detailed :: "env \<Rightarrow> issuer \<Rightarrow> user_row \<Rightarrow> service_row \<Rightarrow> (issue_err + issued) io" where
  "issue_access_detailed e i user svc =
     sign_claims e i user (Some svc) (service_ttl e i svc) ''access'' (sv_id svc) []"

definition issue_access :: "env \<Rightarrow> issuer \<Rightarrow> user_row \<Rightarrow> service_row \<Rightarrow> (issue_err + string) io" where
  "issue_access e i user svc = do {
     r \<leftarrow> issue_access_detailed e i user svc;
     return_io (map_sum id ji_token r)
   }"

definition issue_id_token_detailed ::
  "env \<Rightarrow> issuer \<Rightarrow> user_row \<Rightarrow> service_row \<Rightarrow> string \<Rightarrow> (issue_err + issued) io" where
  "issue_id_token_detailed e i user svc nonce =
     sign_claims e i user (Some svc) (service_ttl e i svc) ''id'' (sv_id svc) nonce"

definition issue_id_token :: "env \<Rightarrow> issuer \<Rightarrow> user_row \<Rightarrow> service_row \<Rightarrow> string \<Rightarrow> (issue_err + string) io" where
  "issue_id_token e i user svc nonce = do {
     r \<leftarrow> issue_id_token_detailed e i user svc nonce;
     return_io (map_sum id ji_token r)
   }"

definition admin_audience :: string where "admin_audience = ''kauth-admin''"

definition issue_admin :: "env \<Rightarrow> issuer \<Rightarrow> user_row \<Rightarrow> duration \<Rightarrow> (issue_err + string) io" where
  "issue_admin e i user ttl = do {
     r \<leftarrow> sign_claims e i user None (if ttl \<le> 0 then is_admin_ttl i else ttl) ''admin'' admin_audience [];
     return_io (map_sum id ji_token r)
   }"

section \<open>Verifying\<close>

record expect =
  ex_use :: string
  ex_aud :: string

definition expect_access :: expect where "expect_access = \<lparr>ex_use = ''access'', ex_aud = []\<rparr>"
definition expect_admin :: expect where "expect_admin = \<lparr>ex_use = ''admin'', ex_aud = admin_audience\<rparr>"

text \<open>What \<open>parse\<close> can tell apart: a bad signature (or algorithm) from every other refusal.\<close>

datatype tok_err = TokSignature | TokOther | TokNoExpectation | TokWrongUse | TokWrongAudience

text \<open>\<open>jwt.ParseWithClaims\<close> with \<open>WithValidMethods(RS256)\<close>: decode, algorithm, key choice, signature, claims.\<close>

definition jwt_try ::
  "env \<Rightarrow> issuer \<Rightarrow> (jwt_header \<Rightarrow> pubkey option) \<Rightarrow> string \<Rightarrow> (tok_err + claims) io" where
  "jwt_try e i keyfunc tok =
     (case e_jwt_decode e tok of
        None \<Rightarrow> return_io (Inl TokOther)
      | Some (h, c) \<Rightarrow>
          if jh_alg h \<noteq> ''RS256'' then return_io (Inl TokSignature)
          else (case keyfunc h of
                  None \<Rightarrow> return_io (Inl TokOther)
                | Some k \<Rightarrow>
                    if \<not> e_jwt_sig_ok e tok k then return_io (Inl TokSignature)
                    else do {
                      now \<leftarrow> time_now e;
                      return_io (if e_jwt_valid e now (is_name i) c then Inr c else Inl TokOther)
                    }))"

definition key_by_kid :: "key_ring \<Rightarrow> jwt_header \<Rightarrow> pubkey option" where
  "key_by_kid r h =
     (case jh_kid h of
        NoKid \<Rightarrow> kr_public r
      | KidOther \<Rightarrow> None
      | KidString kid \<Rightarrow>
          if kid = kr_kid r then kr_public r
          else (case kr_previous r of
                  Some p \<Rightarrow> if kid = pe_kid p then pe_key p else None
                | None \<Rightarrow> None))"

definition kid_present :: "env \<Rightarrow> string \<Rightarrow> bool" where
  "kid_present e tok =
     (case e_jwt_decode e tok of
        Some (h, _) \<Rightarrow> jh_alg h = ''RS256'' \<and> jh_kid h \<noteq> NoKid
      | None \<Rightarrow> False)"

definition parse_token :: "env \<Rightarrow> issuer \<Rightarrow> string \<Rightarrow> (tok_err + claims) io" where
  "parse_token e i tok = do {
     r \<leftarrow> jwt_try e i (key_by_kid (is_ring i)) tok;
     case r of
       Inr c \<Rightarrow> return_io (Inr c)
     | Inl x \<Rightarrow>
         (case kr_previous (is_ring i) of
            None \<Rightarrow> return_io (Inl x)
          | Some p \<Rightarrow>
              if x \<noteq> TokSignature then return_io (Inl x)
              else if kid_present e tok then return_io (Inl x)
              else jwt_try e i (\<lambda>_. pe_key p) tok)
   }"

definition verify :: "env \<Rightarrow> issuer \<Rightarrow> string \<Rightarrow> expect \<Rightarrow> (tok_err + claims) io" where
  "verify e i tok ex =
     (if ex_use ex = [] then return_io (Inl TokNoExpectation)
      else do {
        r \<leftarrow> parse_token e i tok;
        return_io (case r of
          Inl x \<Rightarrow> Inl x
        | Inr c \<Rightarrow>
            if c_use c \<noteq> ex_use ex then Inl TokWrongUse
            else if ex_aud ex \<noteq> [] \<and> ex_aud ex \<notin> set (c_aud c) then Inl TokWrongAudience
            else Inr c)
      })"

section \<open>Published keys\<close>

fun bytes_of_nat :: "nat \<Rightarrow> string" where
  "bytes_of_nat n = (if n = 0 then [] else bytes_of_nat (n div 256) @ [char_of (n mod 256)])"

declare bytes_of_nat.simps [simp del]

record jwk_entry =
  jw_kid :: string
  jw_n :: string
  jw_e :: string

definition jwk :: "string \<Rightarrow> pubkey \<Rightarrow> jwk_entry" where
  "jwk kid k = \<lparr>jw_kid = kid, jw_n = b64_encode (bytes_of_nat (pk_n k)),
     jw_e = b64_encode (bytes_of_nat (nat \<bar>pk_e k\<bar>))\<rparr>"

definition jwks :: "key_ring \<Rightarrow> jwk_entry list" where
  "jwks r =
     (case kr_public r of Some k \<Rightarrow> [jwk (kr_kid r) k] | None \<Rightarrow> []) @
     concat (map (\<lambda>p. case p of
          Some q \<Rightarrow> (case pe_key q of Some k \<Rightarrow> [jwk (pe_kid q) k] | None \<Rightarrow> [])
        | None \<Rightarrow> []) [kr_next r, kr_previous r])"

definition discovery :: "issuer \<Rightarrow> (string \<times> string list) list" where
  "discovery i =
     [(''issuer'', [is_name i]),
      (''jwks_uri'', [is_name i @ ''/.well-known/jwks.json'']),
      (''authorization_endpoint'', [is_name i @ ''/login'']),
      (''token_endpoint'', [is_name i @ ''/token'']),
      (''response_types_supported'', [''code'']),
      (''subject_types_supported'', [''public'']),
      (''id_token_signing_alg_values_supported'', [''RS256'']),
      (''grant_types_supported'', [''authorization_code'', ''refresh_token'']),
      (''code_challenge_methods_supported'', [''S256'']),
      (''scopes_supported'', [''openid'', ''email'', ''profile'']),
      (''token_endpoint_auth_methods_supported'', [''none''])]"

section \<open>What a successful check means\<close>

lemma jwt_try_Inr:
  assumes "run_state (jwt_try e i f tok) w = (Inr c, w')"
  shows "\<exists>h k. e_jwt_decode e tok = Some (h, c) \<and> jh_alg h = ''RS256'' \<and> f h = Some k \<and>
    e_jwt_sig_ok e tok k \<and> e_jwt_valid e (e_clock e (w_step w)) (is_name i) c"
  using assms by (auto simp: jwt_try_def run_time_now split: option.splits if_splits prod.splits)

lemma jwt_try_Inl_step:
  "run_state (jwt_try e i f tok) w = (Inl TokSignature, w') \<Longrightarrow> w' = w"
  by (auto simp: jwt_try_def run_time_now split: option.splits if_splits prod.splits)

text \<open>The keys a token may have been checked with.\<close>

definition accepting_key :: "key_ring \<Rightarrow> jwt_header \<Rightarrow> pubkey \<Rightarrow> bool" where
  "accepting_key r h k \<longleftrightarrow>
     (case jh_kid h of
        KidOther \<Rightarrow> False
      | KidString kid \<Rightarrow> kid = kr_kid r \<and> kr_public r = Some k \<or>
          kr_previous r = Some \<lparr>pe_kid = kid, pe_key = Some k\<rparr>
      | NoKid \<Rightarrow> kr_public r = Some k \<or> (\<exists>p. kr_previous r = Some p \<and> pe_key p = Some k))"

lemma accepting_by_kid: "key_by_kid r h = Some k \<Longrightarrow> accepting_key r h k"
  by (auto simp: key_by_kid_def accepting_key_def split: kid_entry.splits if_splits option.splits)

lemma parse_token_Inr:
  assumes "run_state (parse_token e i tok) w = (Inr c, w')"
  shows "\<exists>h k. e_jwt_decode e tok = Some (h, c) \<and> jh_alg h = ''RS256'' \<and> accepting_key (is_ring i) h k \<and>
    e_jwt_sig_ok e tok k \<and> e_jwt_valid e (e_clock e (w_step w)) (is_name i) c"
proof -
  obtain r w1 where r: "run_state (jwt_try e i (key_by_kid (is_ring i)) tok) w = (r, w1)" by fastforce
  show ?thesis
  proof (cases r)
    case (Inr d)
    with assms r have "d = c" by (simp add: parse_token_def)
    with jwt_try_Inr [of e i _ tok w d w1] r Inr accepting_by_kid show ?thesis by blast
  next
    case (Inl x)
    with assms r obtain p where p: "kr_previous (is_ring i) = Some p" "x = TokSignature" "\<not> kid_present e tok"
      and t: "run_state (jwt_try e i (\<lambda>_. pe_key p) tok) w1 = (Inr c, w')"
      by (auto simp: parse_token_def split: option.splits if_splits)
    from jwt_try_Inl_step r Inl p(2) have "w1 = w" by blast
    with jwt_try_Inr [OF t] obtain h k where "e_jwt_decode e tok = Some (h, c)" "jh_alg h = ''RS256''"
      "pe_key p = Some k" "e_jwt_sig_ok e tok k" "e_jwt_valid e (e_clock e (w_step w)) (is_name i) c" by blast
    with p show ?thesis by (auto simp: kid_present_def accepting_key_def)
  qed
qed

lemma verify_Inr:
  assumes "run_state (verify e i tok ex) w = (Inr c, w')"
  shows "\<exists>h k. e_jwt_decode e tok = Some (h, c) \<and> jh_alg h = ''RS256'' \<and> accepting_key (is_ring i) h k \<and>
    e_jwt_sig_ok e tok k \<and> e_jwt_valid e (e_clock e (w_step w)) (is_name i) c \<and>
    ex_use ex \<noteq> [] \<and> c_use c = ex_use ex \<and> (ex_aud ex = [] \<or> ex_aud ex \<in> set (c_aud c))"
proof -
  obtain r w1 where r: "run_state (parse_token e i tok) w = (r, w1)" by fastforce
  with assms obtain "r = Inr c" "ex_use ex \<noteq> []" "c_use c = ex_use ex" "ex_aud ex = [] \<or> ex_aud ex \<in> set (c_aud c)"
    by (auto simp: verify_def split: if_splits sum.splits)
  with parse_token_Inr r show ?thesis by blast
qed

lemma check_others_None:
  assumes "validate_ring r = None"
  shows "\<exists>sk k. kr_private r = Some sk \<and> kr_public r = Some k \<and> pk_n k = sk_n sk \<and> pk_e k = sk_e sk"
    and "kr_next r = Some n \<Longrightarrow> pe_kid n \<noteq> kr_kid r"
    and "kr_previous r = Some p \<Longrightarrow> pe_kid p \<noteq> kr_kid r"
    and "kr_next r = Some n \<Longrightarrow> kr_previous r = Some p \<Longrightarrow> pe_kid n \<noteq> pe_kid p"
  using assms
  by (auto simp: validate_ring_def same_key_opt_def same_key_def split: option.splits if_splits)

lemma evolves_issuer [evolve_intros]:
  "evolves R (sign_claims e i user osvc ttl u aud nonce)" "evolves R (issue_access e i user svc)"
  "evolves R (issue_access_detailed e i user svc)"
  "evolves R (issue_id_token_detailed e i user svc nonce)" "evolves R (issue_admin e i user attl)"
  "evolves R (verify e i tok ex)"
  unfolding sign_claims_def build_claims_def new_jti_def issue_access_def issue_access_detailed_def
    issue_id_token_detailed_def issue_admin_def verify_def parse_token_def jwt_try_def
  by (intro evolve_intros)+

section \<open>Properties\<close>

text \<open>C19. A verified token was decoded under RS256, carries a good signature of the key its \<open>kid\<close> names
  (the current or the previous key; without \<open>kid\<close> one of the two), is valid for this issuer at the
  time of the check, and has exactly the expected use and audience.\<close>

theorem verify_sound:
  assumes "run_state (verify e i tok ex) w = (Inr c, w')"
  shows "\<exists>h k. e_jwt_decode e tok = Some (h, c) \<and> jh_alg h = ''RS256'' \<and> accepting_key (is_ring i) h k \<and>
    e_jwt_sig_ok e tok k \<and> e_jwt_valid e (e_clock e (w_step w)) (is_name i) c \<and>
    ex_use ex \<noteq> [] \<and> c_use c = ex_use ex \<and> (ex_aud ex = [] \<or> ex_aud ex \<in> set (c_aud c))"
  using assms by (rule verify_Inr)

definition demo_issuer :: issuer where
  "demo_issuer = \<lparr>is_ring = \<lparr>kr_kid = ''kauth-1'', kr_private = Some \<lparr>sk_n = 7, sk_e = 3, sk_d = 1\<rparr>,
      kr_public = Some \<lparr>pk_n = 7, pk_e = 3\<rparr>, kr_next = None, kr_previous = None\<rparr>,
     is_name = ''https://login.x.no'', is_default_ttl = 15 * minute, is_admin_ttl = hour\<rparr>"

lemma demo_verify: "run_state (verify demo_env demo_issuer ''tok'' expect_access) demo_world =
    (Inr demo_claims, demo_world\<lparr>w_step := Suc (w_step demo_world)\<rparr>)"
  by (simp add: verify_def parse_token_def jwt_try_def demo_env_def demo_issuer_def key_by_kid_def
      expect_access_def run_time_now demo_claims_def noon_def unix_def second_def)

theorem verify_sound_witness: "c_use demo_claims = ex_use expect_access"
  using verify_sound [OF demo_verify] by blast

text \<open>A token cannot serve two purposes: what is accepted as an access token is refused as an admin
  token, at any time and for any token.\<close>

theorem access_token_is_not_admin:
  assumes "\<not> isl (fst (run_state (verify e i tok expect_access) w))"
  shows "isl (fst (run_state (verify e i tok expect_admin) w2))"
proof (rule ccontr)
  assume "\<not> ?thesis"
  then obtain c c2 w' w2' where "run_state (verify e i tok expect_access) w = (Inr c, w')"
    "run_state (verify e i tok expect_admin) w2 = (Inr c2, w2')"
    using assms by (metis prod.collapse sum.collapse(2))
  from verify_Inr [OF this(1)] verify_Inr [OF this(2)] show False
    by (auto simp: expect_access_def expect_admin_def)
qed

theorem access_token_is_not_admin_witness:
  "isl (fst (run_state (verify demo_env demo_issuer ''tok'' expect_admin) demo_world))"
  by (rule access_token_is_not_admin [where w = demo_world]) (simp add: demo_verify)

text \<open>A key that is only announced (next) verifies nothing: in a valid ring a token naming its
  \<open>kid\<close> is refused.\<close>

theorem next_key_is_refused:
  assumes "validate_ring (is_ring i) = None" and "kr_next (is_ring i) = Some n"
    and "e_jwt_decode e tok = Some (h, c)" and "jh_kid h = KidString (pe_kid n)"
  shows "isl (fst (run_state (verify e i tok ex) w))"
proof (rule ccontr)
  assume "\<not> ?thesis"
  then obtain d w' where "run_state (verify e i tok ex) w = (Inr d, w')"
    by (metis prod.collapse sum.collapse(2))
  from verify_Inr [OF this] obtain k where "accepting_key (is_ring i) h k" using assms(3) by auto
  with check_others_None(2) [OF assms(1,2)] check_others_None(4) [OF assms(1,2)] assms(4)
  show False by (fastforce simp: accepting_key_def)
qed

definition demo_ring :: key_ring where
  "demo_ring = \<lparr>kr_kid = ''k2'', kr_private = Some \<lparr>sk_n = 2 ^ 2047, sk_e = 3, sk_d = 1\<rparr>,
     kr_public = Some \<lparr>pk_n = 2 ^ 2047, pk_e = 3\<rparr>,
     kr_next = Some \<lparr>pe_kid = ''kauth-1'', pe_key = Some \<lparr>pk_n = 2 ^ 2048, pk_e = 3\<rparr>\<rparr>, kr_previous = None\<rparr>"

lemma demo_ring_valid: "validate_ring demo_ring = None"
  by (simp add: validate_ring_def demo_ring_def check_pub_def valid_kid_def kid_char_def is_digit_def
      bit_len_less_def min_rsa_bits_def same_key_opt_def same_key_def)

theorem next_key_is_refused_witness:
  "isl (fst (run_state (verify demo_env (demo_issuer\<lparr>is_ring := demo_ring\<rparr>) ''tok'' expect_access) demo_world))"
proof -
  have "e_jwt_decode demo_env ''tok'' = Some (\<lparr>jh_alg = ''RS256'', jh_kid = KidString ''kauth-1''\<rparr>, demo_claims)"
    by (simp add: demo_env_def)
  then show ?thesis
    by (rule next_key_is_refused [where n = "\<lparr>pe_kid = ''kauth-1'', pe_key = Some \<lparr>pk_n = 2 ^ 2048, pk_e = 3\<rparr>\<rparr>", rotated 2])
      (simp_all add: demo_ring_valid, simp add: demo_ring_def)
qed

end
