(* ===== verification/QueryString.thy ===== *)
theory QueryString
  imports Encoding "HOL-Library.List_Lexorder" "HOL-Library.Char_ord"
begin

text \<open>
  Query strings as \<open>net/url\<close> writes and reads them: \<open>QueryEscape\<close>, \<open>QueryUnescape\<close>, \<open>ParseQuery\<close>
  (which \<open>URL.Query\<close> calls, ignoring the error) and \<open>Values\<close> with \<open>Set\<close>, \<open>Del\<close> and \<open>Encode\<close>.
  A \<open>url.Values\<close> map is a list of pairs; \<open>Encode\<close> sorts it by key.
\<close>

section \<open>Escaping\<close>

definition unreserved :: "char \<Rightarrow> bool" where
  "unreserved c \<longleftrightarrow> CHR ''A'' \<le> c \<and> c \<le> CHR ''Z'' \<or> CHR ''a'' \<le> c \<and> c \<le> CHR ''z'' \<or> is_digit c \<or>
     c \<in> {CHR ''-'', CHR ''_'', CHR ''.'', CHR ''~''}"

definition upper_hex :: "nat \<Rightarrow> char" where
  "upper_hex d = (if d < 10 then char_of (48 + d) else char_of (55 + d))"

definition hex_val :: "char \<Rightarrow> nat option" where
  "hex_val c =
     (let n = byte c in
      if 48 \<le> n \<and> n \<le> 57 then Some (n - 48)
      else if 97 \<le> n \<and> n \<le> 102 then Some (n - 87)
      else if 65 \<le> n \<and> n \<le> 70 then Some (n - 55)
      else None)"

fun query_escape :: "string \<Rightarrow> string" where
  "query_escape [] = []"
| "query_escape (c # s) =
     (if c = CHR '' '' then CHR ''+'' # query_escape s
      else if unreserved c then c # query_escape s
      else CHR ''%'' # upper_hex (byte c div 16) # upper_hex (byte c mod 16) # query_escape s)"

fun query_unescape :: "string \<Rightarrow> string option" where
  "query_unescape [] = Some []"
| "query_unescape (c # s) =
     (if c = CHR ''%'' then
        (case s of
           a # b # r \<Rightarrow> (case (hex_val a, hex_val b) of
               (Some x, Some y) \<Rightarrow> map_option (Cons (char_of (16 * x + y))) (query_unescape r)
             | _ \<Rightarrow> None)
         | _ \<Rightarrow> None)
      else map_option (Cons (if c = CHR ''+'' then CHR '' '' else c)) (query_unescape s))"

lemma hex_val_upper: "d < 16 \<Longrightarrow> hex_val (upper_hex d) = Some d"
  by (auto simp: hex_val_def upper_hex_def Let_def)

lemma unreserved_ne: "unreserved c \<Longrightarrow> c \<noteq> CHR ''%'' \<and> c \<noteq> CHR ''+'' \<and> c \<noteq> CHR '' ''"
  by (auto simp: unreserved_def is_digit_def less_eq_char_def)

lemma unescape_escape_append:
  "query_unescape (query_escape s @ t) = map_option ((@) s) (query_unescape t)"
proof (induction s)
  case Nil
  show ?case by (cases "query_unescape t") auto
next
  case (Cons c s)
  have "byte c div 16 < 16" "byte c mod 16 < 16" by (simp_all add: less_mult_imp_div_less)
  moreover have "char_of (16 * (byte c div 16) + byte c mod 16) = c" by (metis char_of_byte mult_div_mod_eq)
  ultimately show ?case using Cons unreserved_ne [of c]
    by (cases "query_unescape t") (auto simp: hex_val_upper)
qed

lemma unescape_escape [simp]: "query_unescape (query_escape s) = Some s"
  using unescape_escape_append [of s "[]"] by simp

text \<open>An escaped text has none of the separators of a query string.\<close>

definition query_char :: "char \<Rightarrow> bool" where
  "query_char c \<longleftrightarrow> unreserved c \<or> c = CHR ''+'' \<or> c = CHR ''%''"

lemma unreserved_upper_hex: "d < 16 \<Longrightarrow> unreserved (upper_hex d)"
proof -
  assume "d < 16"
  then have "d \<in> set [0..<16]" by simp
  moreover have "list_all (\<lambda>d. unreserved (upper_hex d)) [0..<16]" by code_simp
  ultimately show ?thesis by (simp add: list_all_iff)
qed

lemma query_escape_chars: "c \<in> set (query_escape s) \<Longrightarrow> query_char c"
  by (induction s) (auto simp: query_char_def unreserved_upper_hex less_mult_imp_div_less split: if_splits)

lemma query_char_ne:
  "query_char c \<Longrightarrow> c \<noteq> CHR ''&'' \<and> c \<noteq> CHR ''='' \<and> c \<noteq> CHR '';'' \<and> c \<noteq> CHR ''#'' \<and> c \<noteq> CHR ''?''"
  by (auto simp: query_char_def unreserved_def is_digit_def less_eq_char_def)

lemma escape_no_sep [simp]:
  "CHR ''&'' \<notin> set (query_escape s)" "CHR ''='' \<notin> set (query_escape s)" "CHR '';'' \<notin> set (query_escape s)"
  "CHR ''#'' \<notin> set (query_escape s)" "CHR ''?'' \<notin> set (query_escape s)"
  using query_escape_chars query_char_ne by blast+

lemma escape_inj: "query_escape s = query_escape t \<Longrightarrow> s = t"
  by (metis unescape_escape option.inject)

section \<open>Values\<close>

type_synonym url_values = "(string \<times> string) list"

definition cut_at :: "char \<Rightarrow> string \<Rightarrow> string \<times> string" where
  "cut_at c s = (takeWhile (\<lambda>d. d \<noteq> c) s, drop 1 (dropWhile (\<lambda>d. d \<noteq> c) s))"

text \<open>One part between ampersands: an error, nothing, or a pair.\<close>

definition query_pair :: "string \<Rightarrow> unit + (string \<times> string) option" where
  "query_pair p =
     (if CHR '';'' \<in> set p then Inl ()
      else if p = [] then Inr None
      else (case cut_at (CHR ''='') p of (k, v) \<Rightarrow>
              (case (query_unescape k, query_unescape v) of
                 (Some k', Some v') \<Rightarrow> Inr (Some (k', v'))
               | _ \<Rightarrow> Inl ())))"

fun query_pairs :: "string list \<Rightarrow> url_values \<times> bool" where
  "query_pairs [] = ([], True)"
| "query_pairs (p # ps) =
     (case query_pairs ps of (vs, ok) \<Rightarrow>
        (case query_pair p of
           Inl _ \<Rightarrow> (vs, False)
         | Inr None \<Rightarrow> (vs, ok)
         | Inr (Some kv) \<Rightarrow> (kv # vs, ok)))"

definition url_query :: "string \<Rightarrow> url_values" where
  "url_query raw = fst (query_pairs (split_on (CHR ''&'') raw))"

definition parse_query :: "string \<Rightarrow> url_values option" where
  "parse_query raw = (case query_pairs (split_on (CHR ''&'') raw) of (vs, ok) \<Rightarrow> if ok then Some vs else None)"

definition values_get :: "url_values \<Rightarrow> string \<Rightarrow> string" where
  "values_get vs k = (case map_of vs k of None \<Rightarrow> [] | Some v \<Rightarrow> v)"

definition values_del :: "string \<Rightarrow> url_values \<Rightarrow> url_values" where
  "values_del k vs = filter (\<lambda>kv. fst kv \<noteq> k) vs"

definition values_set :: "string \<Rightarrow> string \<Rightarrow> url_values \<Rightarrow> url_values" where
  "values_set k v vs = (k, v) # values_del k vs"

definition encode_pair :: "string \<times> string \<Rightarrow> string" where
  "encode_pair kv = query_escape (fst kv) @ CHR ''='' # query_escape (snd kv)"

definition values_encode :: "url_values \<Rightarrow> string" where
  "values_encode vs = join_with ''&'' (map encode_pair (sort_key fst vs))"

lemma cut_at_sep: "c \<notin> set a \<Longrightarrow> cut_at c (a @ c # b) = (a, b)"
  by (induction a) (auto simp: cut_at_def)

lemma query_pair_encode [simp]: "query_pair (encode_pair kv) = Inr (Some kv)"
  by (simp add: query_pair_def encode_pair_def cut_at_sep)

lemma query_pairs_encode: "query_pairs (map encode_pair vs) = (vs, True)"
  by (induction vs) auto

lemma encode_pair_no_amp: "CHR ''&'' \<notin> set (encode_pair kv)"
  by (simp add: encode_pair_def)

lemma pairs_of_encode: "query_pairs (split_on (CHR ''&'') (values_encode vs)) = (sort_key fst vs, True)"
proof (cases "vs = []")
  case True
  then show ?thesis by (simp add: values_encode_def query_pair_def)
next
  case False
  then have "sort_key fst vs \<noteq> []" by (metis length_0_conv length_sort)
  then have "split_on (CHR ''&'') (values_encode vs) = map encode_pair (sort_key fst vs)"
    unfolding values_encode_def by (intro split_join) (auto simp: encode_pair_no_amp)
  then show ?thesis by (simp add: query_pairs_encode)
qed

lemma parse_encode: "parse_query (values_encode vs) = Some (sort_key fst vs)"
  and url_query_encode: "url_query (values_encode vs) = sort_key fst vs"
  by (simp_all add: parse_query_def url_query_def pairs_of_encode)

lemma map_of_filter: "map_of vs k = (case filter (\<lambda>kv. fst kv = k) vs of [] \<Rightarrow> None | kv # _ \<Rightarrow> Some (snd kv))"
  by (induction vs) auto

lemma map_of_sort: "map_of (sort_key fst vs) k = map_of vs k"
  by (simp add: map_of_filter sort_key_stable)

lemma values_get_sort [simp]: "values_get (sort_key fst vs) k = values_get vs k"
  by (simp add: values_get_def map_of_sort)

lemma values_get_set [simp]: "values_get (values_set k v vs) l = (if l = k then v else values_get vs l)"
proof -
  have "l \<noteq> k \<Longrightarrow> map_of (values_del k vs) l = map_of vs l" by (induction vs) (auto simp: values_del_def)
  then show ?thesis by (auto simp: values_get_def values_set_def)
qed

lemma values_get_Nil [simp]: "values_get [] k = []"
  by (simp add: values_get_def)

end
