(* ===== verification/Login.thy ===== *)
theory Login
  imports Identity Registry StateToken Issuer QueryString
begin

text \<open>
  Finishing a login: \<open>login_complete.go\<close> (the one place that issues tokens after an authentication),
  \<open>federated.go\<close> (the common end of Google, Microsoft, generic OIDC and GitHub), \<open>password.go\<close>,
  \<open>cookies.go\<close>, \<open>loginerror.go\<close> and \<open>client_secret.go\<close> of \<open>internal/auth\<close>.

  A handler that dereferences a missing service panics, and the \<open>Recoverer\<close> middleware answers with an
  empty 500 (\<open>panic_reply\<close>).
\<close>

definition panic_reply :: reply where "panic_reply = Plain 500 []"

section \<open>Cookies\<close>

definition month_seconds :: int where "month_seconds = 30 * 24 * 3600"

definition auth_cookie :: "env \<Rightarrow> string \<Rightarrow> string \<Rightarrow> same_site \<Rightarrow> int \<Rightarrow> cookie" where
  "auth_cookie e name v site age =
     \<lparr>ck_name = name, ck_value = v, ck_path = ''/'', ck_max_age = age, ck_http_only = True,
      ck_secure = (\<not> e_insecure_cookies e), ck_same_site = site\<rparr>"

text \<open>The lifetime of an access token in whole seconds, with a default for texts that are no positive duration.\<close>

definition access_seconds :: "env \<Rightarrow> service_row \<Rightarrow> duration \<Rightarrow> int" where
  "access_seconds e svc dflt =
     (case parse_iso8601 (e_upper e) (sv_access_ttl svc) of
        Some d \<Rightarrow> if d \<le> 0 then dflt div second else d div second
      | None \<Rightarrow> dflt div second)"

definition set_refresh_cookie :: "env \<Rightarrow> string \<Rightarrow> unit io" where
  "set_refresh_cookie e rt = set_cookie (auth_cookie e ''refresh_token'' rt SameSiteNone month_seconds)"

definition set_auth_cookies :: "env \<Rightarrow> service_row \<Rightarrow> string \<Rightarrow> string \<Rightarrow> unit io" where
  "set_auth_cookies e svc at rt = do {
     set_cookie (auth_cookie e (sv_cookie_name svc) at SameSiteLax (access_seconds e svc (30 * 24 * hour)));
     set_refresh_cookie e rt
   }"

definition clear_cookie :: "env \<Rightarrow> string \<Rightarrow> unit io" where
  "clear_cookie e name = set_cookie (auth_cookie e name [] SameSiteDefault (-1))"

section \<open>Error redirects\<close>

datatype login_error = LoginFailed | AccessDenied | AccountNotLinked | InvalidRedirect

fun error_code :: "login_error \<Rightarrow> string" where
  "error_code LoginFailed = ''login_failed''"
| "error_code AccessDenied = ''access_denied''"
| "error_code AccountNotLinked = ''account_not_linked''"
| "error_code InvalidRedirect = ''invalid_redirect''"

definition known_login_error :: "string \<Rightarrow> bool" where
  "known_login_error s \<longleftrightarrow> s \<in> error_code ` {LoginFailed, AccessDenied, AccountNotLinked, InvalidRedirect}"

definition redirect_login_error :: "string \<Rightarrow> login_error \<Rightarrow> reply" where
  "redirect_login_error sid code =
     (let q = values_set ''error'' (error_code code) [];
          q' = if sid \<noteq> [] then values_set ''service'' sid q else q
      in Redirect 303 (''/login?'' @ values_encode q'))"

definition redirect_admin_login_error :: reply where
  "redirect_admin_login_error = Redirect 303 ''/admin/login?err=ingen_tilgang''"

section \<open>Issuing after a login\<close>

record login_method =
  lm_audit :: string
  lm_method :: string
  lm_prefix :: string
  lm_cookie :: string

definition login_google :: login_method where
  "login_google = \<lparr>lm_audit = ''google_oidc_login'', lm_method = ''google'', lm_prefix = ''google'', lm_cookie = ''oidc_state''\<rparr>"
definition login_microsoft :: login_method where
  "login_microsoft = \<lparr>lm_audit = ''microsoft_oidc_login'', lm_method = ''microsoft'', lm_prefix = ''microsoft'', lm_cookie = ''ms_state''\<rparr>"
definition login_magic :: login_method where
  "login_magic = \<lparr>lm_audit = ''magic_link_login'', lm_method = ''magic_link'', lm_prefix = ''magic-link'', lm_cookie = []\<rparr>"
definition login_password :: login_method where
  "login_password = \<lparr>lm_audit = ''login_success'', lm_method = ''password'', lm_prefix = ''password'', lm_cookie = []\<rparr>"
definition login_oidc :: login_method where
  "login_oidc = \<lparr>lm_audit = ''oidc_login'', lm_method = ''oidc'', lm_prefix = ''oidc'', lm_cookie = ''idp_state''\<rparr>"
definition login_github :: login_method where
  "login_github = \<lparr>lm_audit = ''github_oauth_login'', lm_method = ''github'', lm_prefix = ''github'', lm_cookie = ''gh_state''\<rparr>"

datatype complete_err = PolicyDenied policy_denial | IssueFailed

fun denial_text :: "policy_denial \<Rightarrow> string" where
  "denial_text MissingRole = ''mangler rolle''"
| "denial_text WrongOrg = ''ikke autorisert''"

definition user_agent :: "request \<Rightarrow> string" where
  "user_agent r = header_get r ''User-Agent''"

definition method_event ::
  "request \<Rightarrow> string \<Rightarrow> string \<Rightarrow> string \<Rightarrow> string \<Rightarrow> bool \<Rightarrow> string \<Rightarrow> event" where
  "method_event r typ meth email sid ok details =
     \<lparr>ev_type = typ, ev_method = meth, ev_email = email, ev_service = sid, ev_ip = rq_client_ip r,
      ev_ua = user_agent r, ev_success = ok, ev_details = details\<rparr>"

definition dispatch_url :: "string \<Rightarrow> string \<Rightarrow> string \<Rightarrow> string" where
  "dispatch_url at rt sid =
     ''/dispatch?token='' @ query_escape at @ ''&rt='' @ query_escape rt @ ''&service='' @ query_escape sid"

text \<open>The answer once both tokens exist: cookies, last login, audit, and the redirect to \<open>/dispatch\<close>.\<close>

definition answer_login ::
  "env \<Rightarrow> request \<Rightarrow> service_row \<Rightarrow> user_row \<Rightarrow> login_method \<Rightarrow> string \<Rightarrow> string \<Rightarrow> reply io" where
  "answer_login e r svc user m at rt = do {
     set_refresh_cookie e rt;
     (if lm_cookie m \<noteq> [] then clear_cookie e (lm_cookie m) else return_io ());
     now \<leftarrow> time_now e;
     _ \<leftarrow> db_write e ReqCtx (update_last_login (format_utc now) (u_id user));
     audit_log (method_event r (lm_audit m) (lm_method m) (u_email user) (sv_id svc) True []);
     set_header ''Cache-Control'' ''no-store'';
     return_io (Redirect 302 (dispatch_url at rt (sv_id svc)))
   }"

definition complete_login ::
  "env \<Rightarrow> issuer \<Rightarrow> request \<Rightarrow> service_row \<Rightarrow> user_row \<Rightarrow> login_method \<Rightarrow> (complete_err + reply) io" where
  "complete_login e i r svc user m =
     (case check_policy user svc of
        Some d \<Rightarrow> return_io (Inl (PolicyDenied d))
      | None \<Rightarrow> do {
          ra \<leftarrow> issue_access e i user svc;
          case ra of
            Inl _ \<Rightarrow> return_io (Inl IssueFailed)
          | Inr at \<Rightarrow> do {
              rr \<leftarrow> issue e ReqCtx user svc (rq_client_ip r) (user_agent r);
              case rr of
                Inl _ \<Rightarrow> return_io (Inl IssueFailed)
              | Inr rt \<Rightarrow> do {
                  reply \<leftarrow> answer_login e r svc user m at rt;
                  return_io (Inr reply)
                }
            }
        })"

section \<open>The common end of the external providers\<close>

record federated_provider =
  fp_login :: login_method
  fp_rejected :: string

definition provider_google :: federated_provider where
  "provider_google = \<lparr>fp_login = login_google, fp_rejected = ''google_oidc_rejected''\<rparr>"
definition provider_microsoft :: federated_provider where
  "provider_microsoft = \<lparr>fp_login = login_microsoft, fp_rejected = ''microsoft_oidc_rejected''\<rparr>"
definition provider_github :: federated_provider where
  "provider_github = \<lparr>fp_login = login_github, fp_rejected = ''github_oauth_rejected''\<rparr>"
definition provider_oidc :: federated_provider where
  "provider_oidc = \<lparr>fp_login = login_oidc, fp_rejected = ''oidc_rejected''\<rparr>"

definition read_state ::
  "env \<Rightarrow> request \<Rightarrow> string \<Rightarrow> string \<Rightarrow> (reply + state_claims) io" where
  "read_state e r cookie_name secret =
     (case cookie_get r cookie_name of
        None \<Rightarrow> return_io (Inl (redirect_login_error [] LoginFailed))
      | Some v \<Rightarrow>
          if v \<noteq> query_get r ''state'' then return_io (Inl (redirect_login_error [] LoginFailed))
          else do {
            now \<leftarrow> time_now e;
            return_io (case parse_state e now secret v of
              None \<Rightarrow> Inl (redirect_login_error [] LoginFailed)
            | Some c \<Rightarrow> Inr c)
          })"

record rejection =
  rj_email :: string
  rj_context :: string
  rj_reason :: string

definition rejection_details :: "rejection \<Rightarrow> string" where
  "rejection_details rej =
     (let d = ''reason='' @ rj_reason rej in if rj_context rej \<noteq> [] then rj_context rej @ '' '' @ d else d)"

definition audit_rejected :: "request \<Rightarrow> federated_provider \<Rightarrow> string \<Rightarrow> rejection \<Rightarrow> unit io" where
  "audit_rejected r p sid rej =
     audit_log (method_event r (fp_rejected p) (lm_method (fp_login p)) (rj_email rej) sid False (rejection_details rej))"

definition reject :: "request \<Rightarrow> federated_provider \<Rightarrow> service_row \<Rightarrow> rejection \<Rightarrow> reply io" where
  "reject r p svc rej = do {
     audit_rejected r p (sv_id svc) rej;
     return_io (redirect_login_error (sv_id svc) LoginFailed)
   }"

definition finish_with_policy ::
  "env \<Rightarrow> issuer \<Rightarrow> request \<Rightarrow> federated_provider \<Rightarrow> service_row \<Rightarrow> ext_identity \<Rightarrow> link_policy \<Rightarrow> string \<Rightarrow> reply io" where
  "finish_with_policy e i r p svc ext pol rej_ctx = do {
     res \<leftarrow> resolve_user e ext pol \<lparr>rm_service = sv_id svc, rm_ip = rq_client_ip r, rm_ua = user_agent r\<rparr>;
     case res of
       Inr (user, _) \<Rightarrow> do {
         done \<leftarrow> complete_login e i r svc user (fp_login p);
         return_io (case done of
           Inr reply \<Rightarrow> reply
         | Inl (PolicyDenied _) \<Rightarrow> redirect_login_error (sv_id svc) AccessDenied
         | Inl IssueFailed \<Rightarrow> redirect_login_error (sv_id svc) LoginFailed)
       }
     | Inl NoAccount \<Rightarrow> do {
         (if lp_untrusted pol
          then audit_rejected r p (sv_id svc) \<lparr>rj_email = xi_email ext, rj_context = rej_ctx, rj_reason = ''email_untrusted''\<rparr>
          else return_io ());
         return_io (redirect_login_error (sv_id svc) AccessDenied)
       }
     | Inl UserInactive \<Rightarrow> do {
         audit_rejected r p (sv_id svc) \<lparr>rj_email = xi_email ext, rj_context = [], rj_reason = ''user_inactive''\<rparr>;
         return_io (redirect_login_error (sv_id svc) AccessDenied)
       }
     | Inl LinkDenied \<Rightarrow> return_io (redirect_login_error (sv_id svc) AccountNotLinked)
     | Inl UserConflict \<Rightarrow>
         reject r p svc \<lparr>rj_email = xi_email ext, rj_context = [], rj_reason = ''user_conflict''\<rparr>
     | Inl _ \<Rightarrow> return_io (redirect_login_error (sv_id svc) LoginFailed)
   }"

definition finish ::
  "env \<Rightarrow> issuer \<Rightarrow> request \<Rightarrow> federated_provider \<Rightarrow> service_row \<Rightarrow> ext_identity \<Rightarrow> reply io" where
  "finish e i r p svc ext =
     (if lm_method (fp_login p) = lm_method login_oidc \<or> lm_method (fp_login p) = lm_method login_github
      then do {
        audit_rejected r p (sv_id svc) \<lparr>rj_email = xi_email ext, rj_context = [], rj_reason = ''internal''\<rparr>;
        return_io (redirect_login_error (sv_id svc) LoginFailed)
      }
      else finish_with_policy e i r p svc ext (policy_for svc) [])"

section \<open>Password login\<close>

definition password_ok :: "env \<Rightarrow> user_row \<Rightarrow> string \<Rightarrow> bool" where
  "password_ok e user pw \<longleftrightarrow>
     (case u_password_hash user of None \<Rightarrow> False | Some h \<Rightarrow> h \<noteq> [] \<and> e_bcrypt e h pw)"

definition do_login :: "env \<Rightarrow> issuer \<Rightarrow> service_row list \<Rightarrow> bool \<Rightarrow> request \<Rightarrow> reply io" where
  "do_login e i cache enabled r =
     (if \<not> enabled then return_io (HttpError 403 ''passord-innlogging ikke aktivert'')
      else (let email = normalize_email e (form_value r ''email'') in
        case resolve_requested_service e cache r (form_value r ''service_id'') of
          None \<Rightarrow> return_io panic_reply
        | Some svc \<Rightarrow>
            if sv_auth_password svc \<noteq> 1 then return_io (HttpError 403 ''passord-innlogging ikke aktivert'')
            else do {
              ru \<leftarrow> db_read e ReqCtx (get_active_user_by_email email);
              case (case ru of Inl _ \<Rightarrow> None
                      | Inr user \<Rightarrow> if password_ok e user (form_value r ''password'') then Some user else None) of
                None \<Rightarrow> do {
                  audit_log (method_event r ''login_failed'' ''password'' email (sv_id svc) False []);
                  return_io (HttpError 401 ''ugyldig e-post eller passord'')
                }
              | Some user \<Rightarrow> do {
                  done \<leftarrow> complete_login e i r svc user login_password;
                  case done of
                    Inr reply \<Rightarrow> return_io reply
                  | Inl IssueFailed \<Rightarrow> return_io (HttpError 500 ''intern feil'')
                  | Inl (PolicyDenied d) \<Rightarrow> do {
                      audit_log (method_event r ''login_failed'' ''password'' (u_email user) (sv_id svc) False (denial_text d));
                      return_io (HttpError 403 (denial_text d))
                    }
                }
            }))"

section \<open>The client secret of a method\<close>

definition resolve_client_secret ::
  "(string \<Rightarrow> string) \<Rightarrow> string option \<Rightarrow> string option \<Rightarrow> string \<Rightarrow> string option" where
  "resolve_client_secret getenv env_ref column global =
     (if nonempty env_ref
      then (let name = opt_str env_ref; v = trim_space (getenv name)
            in if client_secret_env_re name \<and> v \<noteq> [] then Some v else None)
      else if nonempty column then column
      else Some global)"

section \<open>Handlers stay within the statements\<close>

lemma evolves_case_resolve_err [evolve_intros]:
  "evolves R a \<Longrightarrow> evolves R b \<Longrightarrow> evolves R c \<Longrightarrow> evolves R d \<Longrightarrow> evolves R f \<Longrightarrow> evolves R g \<Longrightarrow>
   (\<And>y. evolves R (h y)) \<Longrightarrow>
   evolves R (case x of NoAccount \<Rightarrow> a | UserConflict \<Rightarrow> b | UserInactive \<Rightarrow> c | LinkDenied \<Rightarrow> d
     | RetryResolve \<Rightarrow> f | ResolveRand \<Rightarrow> g | ResolveDb y \<Rightarrow> h y)"
  by (cases x) auto

lemma evolves_case_complete_err [evolve_intros]:
  "(\<And>y. evolves R (h y)) \<Longrightarrow> evolves R b \<Longrightarrow> evolves R (case x of PolicyDenied y \<Rightarrow> h y | IssueFailed \<Rightarrow> b)"
  by (cases x) auto

lemma wp_case_resolve_err [wp_simps]:
  "wp (case x of NoAccount \<Rightarrow> a | UserConflict \<Rightarrow> b | UserInactive \<Rightarrow> c | LinkDenied \<Rightarrow> d
     | RetryResolve \<Rightarrow> f | ResolveRand \<Rightarrow> g | ResolveDb y \<Rightarrow> h y) Q =
   (case x of NoAccount \<Rightarrow> wp a Q | UserConflict \<Rightarrow> wp b Q | UserInactive \<Rightarrow> wp c Q | LinkDenied \<Rightarrow> wp d Q
     | RetryResolve \<Rightarrow> wp f Q | ResolveRand \<Rightarrow> wp g Q | ResolveDb y \<Rightarrow> wp (h y) Q)"
  by (cases x) auto

lemma wp_case_complete_err [wp_simps]:
  "wp (case x of PolicyDenied y \<Rightarrow> h y | IssueFailed \<Rightarrow> b) Q =
   (case x of PolicyDenied y \<Rightarrow> wp (h y) Q | IssueFailed \<Rightarrow> wp b Q)"
  by (cases x) auto

lemma keeps_case_complete_err [keeps_intros]:
  "(\<And>y. keeps f (h y)) \<Longrightarrow> keeps f b \<Longrightarrow> keeps f (case x of PolicyDenied y \<Rightarrow> h y | IssueFailed \<Rightarrow> b)"
  by (cases x) auto

lemmas cookie_defs = set_refresh_cookie_def set_auth_cookies_def clear_cookie_def

lemma evolves_complete [evolve_intros]: "evolves db_step (complete_login e i r svc user m)"
  unfolding complete_login_def answer_login_def cookie_defs by (intro evolve_intros)+

lemma evolves_finish_with_policy [evolve_intros]:
  "evolves db_step (finish_with_policy e i r p svc ext pol rej_ctx)"
  unfolding finish_with_policy_def audit_rejected_def reject_def by (intro evolve_intros)+

lemma evolves_finish [evolve_intros]: "evolves db_step (finish e i r p svc ext)"
  unfolding finish_def audit_rejected_def by (intro evolve_intros)+

lemma evolves_do_login [evolve_intros]: "evolves db_step (do_login e i cache enabled r)"
  unfolding do_login_def by (intro evolve_intros)+

section \<open>What finishing a login does\<close>

text \<open>An access token for this user at this service.\<close>

definition access_claims :: "issuer \<Rightarrow> user_row \<Rightarrow> service_row \<Rightarrow> claims \<Rightarrow> bool" where
  "access_claims i user svc c \<longleftrightarrow>
     c_use c = ''access'' \<and> c_aud c = [sv_id svc] \<and> c_iss c = is_name i \<and> c_email c = u_email user \<and>
     subject_of user (Some svc) = Some (c_sub c)"

lemma issue_access_wp:
  "wp (issue_access e i user svc) (\<lambda>r w'. w_db w' = w_db w \<and> response w' = response w \<and> w_audit w' = w_audit w \<and>
      (\<forall>at. r = Inr at \<longrightarrow> (\<exists>c. sign e i c = Some at \<and> access_claims i user svc c))) w"
  by (auto simp: issue_access_def issue_access_detailed_def sign_claims_def build_claims_def new_jti_def
      wp_simps access_claims_def split: option.split sum.splits)

text \<open>The new head of a session: unused, unrevoked, for this user and service.\<close>

definition fresh_session :: "env \<Rightarrow> user_row \<Rightarrow> service_row \<Rightarrow> string \<Rightarrow> db \<Rightarrow> db \<Rightarrow> bool" where
  "fresh_session e user svc rt d d' \<longleftrightarrow>
     (\<exists>r. t_refresh d' = t_refresh d @ [r] \<and> rt_hash r = hash_opaque e rt \<and> rt_user r = Some (u_id user) \<and>
        rt_service r = Some (sv_id svc) \<and> rt_used r = 0 \<and> rt_revoked r = 0 \<and> rt_parent r = None)"

lemma insert_root_fresh:
  assumes "fst (insert_refresh p d) = Inr x" and "rp_hash p = hash_opaque e rt" and "rp_user p = Some (u_id user)"
    and "rp_service p = Some (sv_id svc)" and "rp_parent p = None"
  shows "fresh_session e user svc rt d (snd (insert_refresh p d))"
  using insert_refresh_Inr(1) [OF assms(1)] assms(2-5) by (simp add: fresh_session_def)

lemma new_root_token_wp:
  "wp (new_root_token e user svc family now) (\<lambda>r w'. w_db w' = w_db w \<and> response w' = response w \<and>
      (\<forall>rt p. r = Inr (rt, p) \<longrightarrow> rp_hash p = hash_opaque e rt \<and> rp_user p = Some (u_id user) \<and>
         rp_service p = Some (sv_id svc) \<and> rp_parent p = None \<and> u_id user \<noteq> 0)) w"
  by (auto simp: new_root_token_def generate_plain_token_def wp_simps split: option.split sum.splits)

lemma insert_refresh_same: "fst (insert_refresh p d) = Inl x \<Longrightarrow> snd (insert_refresh p d) = d"
  by (auto simp: insert_refresh_def split: if_splits)

lemma issue_wp:
  "wp (issue e ctx user svc ip ua) (\<lambda>r w'. response w' = response w \<and>
      (case r of Inl _ \<Rightarrow> w_db w' = w_db w | Inr rt \<Rightarrow> fresh_session e user svc rt (w_db w) (w_db w'))) w"
  unfolding issue_def generate_family_id_def wp_simps
  by (simp split: option.split, intro allI impI, rule wp_mono [OF new_root_token_wp])
    (auto simp: wp_simps split: sum.split option.split intro: insert_root_fresh dest: insert_refresh_same)

lemma answer_login_wp:
  "wp (answer_login e r svc user m at rt) (\<lambda>reply w'.
     reply = Redirect 302 (dispatch_url at rt (sv_id svc)) \<and> t_refresh (w_db w') = t_refresh (w_db w) \<and>
     auth_cookie e ''refresh_token'' rt SameSiteNone month_seconds \<in> set (w_cookies w') \<and>
     (''Cache-Control'', ''no-store'') \<in> set (w_headers w')) w"
  by (simp add: answer_login_def cookie_defs wp_simps update_last_login_def split: option.split)

definition completed ::
  "env \<Rightarrow> issuer \<Rightarrow> service_row \<Rightarrow> user_row \<Rightarrow> db \<Rightarrow> complete_err + reply \<Rightarrow> world \<Rightarrow> bool" where
  "completed e i svc user d res w' \<longleftrightarrow>
     (case res of
        Inl err \<Rightarrow> w_db w' = d \<and> (case err of PolicyDenied x \<Rightarrow> check_policy user svc = Some x
                                           | IssueFailed \<Rightarrow> check_policy user svc = None)
      | Inr reply \<Rightarrow> check_policy user svc = None \<and>
          (\<exists>at rt c d1. reply = Redirect 302 (dispatch_url at rt (sv_id svc)) \<and> sign e i c = Some at \<and>
             access_claims i user svc c \<and> fresh_session e user svc rt d d1 \<and> t_refresh (w_db w') = t_refresh d1 \<and>
             auth_cookie e ''refresh_token'' rt SameSiteNone month_seconds \<in> set (w_cookies w') \<and>
             (''Cache-Control'', ''no-store'') \<in> set (w_headers w')))"

lemma completed_intro:
  assumes "check_policy user svc = None" and "sign e i c = Some at" and "access_claims i user svc c"
    and "fresh_session e user svc rt d (w_db w1)"
  shows "wp (answer_login e r svc user m at rt) (\<lambda>reply. completed e i svc user d (Inr reply)) w1"
  by (rule wp_mono [OF answer_login_wp]) (use assms in \<open>auto simp: completed_def\<close>)

lemma complete_login_wp:
  "wp (complete_login e i r svc user m) (\<lambda>res w'. completed e i svc user (w_db w) res w' \<and>
     (isl res \<longrightarrow> response w' = response w)) w"
proof (cases "check_policy user svc")
  case (Some d)
  then show ?thesis by (simp add: complete_login_def wp_simps completed_def)
next
  case None
  have second: "wp (issue e ReqCtx user svc (rq_client_ip r) (user_agent r))
      (case_sum (\<lambda>x w'. w_db w' = w_db w \<and> response w' = response w)
        (\<lambda>rt. wp (answer_login e r svc user m at rt) (\<lambda>reply. completed e i svc user (w_db w) (Inr reply)))) w1"
    if "w_db w1 = w_db w" "response w1 = response w" "sign e i c = Some at" "access_claims i user svc c" for w1 c at
    by (rule wp_mono [OF issue_wp])
      (use completed_intro [OF None that(3,4)] that(1,2) in \<open>auto split: sum.splits\<close>)
  have failed: "completed e i svc user (w_db w) (Inl IssueFailed) w' \<longleftrightarrow> w_db w' = w_db w" for w'
    by (simp add: completed_def None)
  show ?thesis
    unfolding complete_login_def None option.case wp_bind
    by (rule wp_mono [OF issue_access_wp]) (auto simp: wp_simps failed intro!: second split: sum.split)
qed

section \<open>What finishing a login leaves alone\<close>

text \<open>The accounts: the users without the time of their last login.\<close>

definition no_login :: "user_row \<Rightarrow> user_row" where
  "no_login u = u\<lparr>u_last_login := None\<rparr>"

definition accounts :: "db \<Rightarrow> user_row list" where
  "accounts d = map no_login (t_users d)"

lemma accounts_stmts [simp]:
  "accounts (snd (insert_refresh p d)) = accounts d" "accounts (snd (update_last_login now k d)) = accounts d"
  by (simp_all add: accounts_def insert_refresh_def update_last_login_def upd_where_def no_login_def)

lemma keys_stmts [simp]:
  "identity_keys (snd (insert_refresh p d)) = identity_keys d" "identity_keys (snd (update_last_login now k d)) = identity_keys d"
  by (simp_all add: identity_keys_def insert_refresh_def update_last_login_def)

lemma keeps_complete:
  assumes "\<And>p d. g (snd (insert_refresh p d)) = g d" and "\<And>now k d. g (snd (update_last_login now k d)) = g d"
  shows "keeps (\<lambda>w. g (w_db w)) (complete_login e i r svc u m)"
  unfolding complete_login_def answer_login_def cookie_defs issue_access_def issue_access_detailed_def sign_claims_def
    new_jti_def build_claims_def issue_def generate_family_id_def new_root_token_def generate_plain_token_def Let_def
  by (intro keeps_intros keeps_db_write assms keeps_case_complete_err)+

text \<open>
  A session for this user at this service, and nothing else: the answer carries an access token with the claims of the user
  and the secret of the one refresh token that was added.
\<close>

definition session_opened ::
  "env \<Rightarrow> issuer \<Rightarrow> service_row \<Rightarrow> user_row \<Rightarrow> db \<Rightarrow> reply \<Rightarrow> db \<Rightarrow> bool" where
  "session_opened e i svc u d reply d' \<longleftrightarrow>
     (\<exists>at rt c. reply = Redirect 302 (dispatch_url at rt (sv_id svc)) \<and> sign e i c = Some at \<and> access_claims i u svc c \<and>
        fresh_session e u svc rt d d')"

lemma session_opened_cong:
  "t_refresh d1 = t_refresh d \<Longrightarrow> session_opened e i svc u d1 = session_opened e i svc u d"
  by (simp add: session_opened_def fresh_session_def fun_eq_iff)

lemma complete_login_session:
  "wp (complete_login e i r svc u m) (\<lambda>res w'. accounts (w_db w') = accounts (w_db w) \<and>
     identity_keys (w_db w') = identity_keys (w_db w) \<and>
     (case res of
        Inl _ \<Rightarrow> response w' = response w \<and> t_refresh (w_db w') = t_refresh (w_db w)
      | Inr reply \<Rightarrow> check_policy u svc = None \<and> session_opened e i svc u (w_db w) reply (w_db w'))) w"
proof (rule wpI)
  fix res w'
  assume run: "run_state (complete_login e i r svc u m) w = (res, w')"
  have "accounts (w_db w') = accounts (w_db w)" "identity_keys (w_db w') = identity_keys (w_db w)"
    by (rule keepsD [OF keeps_complete run], simp, simp)+
  moreover from wpD [OF complete_login_wp run]
  have "case res of
      Inl _ \<Rightarrow> response w' = response w \<and> t_refresh (w_db w') = t_refresh (w_db w)
    | Inr reply \<Rightarrow> check_policy u svc = None \<and> session_opened e i svc u (w_db w) reply (w_db w')"
    unfolding completed_def session_opened_def fresh_session_def
    by (cases res) (simp_all, metis+)
  ultimately show "accounts (w_db w') = accounts (w_db w) \<and> identity_keys (w_db w') = identity_keys (w_db w) \<and>
     (case res of
        Inl _ \<Rightarrow> response w' = response w \<and> t_refresh (w_db w') = t_refresh (w_db w)
      | Inr reply \<Rightarrow> check_policy u svc = None \<and> session_opened e i svc u (w_db w) reply (w_db w'))" by blast
qed

section \<open>What the end of an external login can be\<close>

text \<open>A refusal: a redirect with one of the fixed codes, nothing set, no session.\<close>

definition refused :: "service_row \<Rightarrow> world \<Rightarrow> reply \<Rightarrow> world \<Rightarrow> bool" where
  "refused svc w reply w' \<longleftrightarrow>
     (\<exists>code. reply = redirect_login_error (sv_id svc) code) \<and> response w' = response w \<and>
     t_refresh (w_db w') = t_refresh (w_db w)"

text \<open>
  Whose account an external login uses: one that was there and had the identity, or whose confirmed address it is; or a
  new one under the confirmed address.  No other account changes.
\<close>

definition account_used :: "env \<Rightarrow> ext_identity \<Rightarrow> link_policy \<Rightarrow> user_row \<Rightarrow> db \<Rightarrow> db \<Rightarrow> bool" where
  "account_used e ext pol u d d' \<longleftrightarrow>
     accounts d' = accounts d \<and> u \<in> set (t_users d) \<and>
       (owner_of d (xi_issuer ext) (xi_subject ext) (u_id u) \<or>
        u_email u = normalize_email e (xi_email ext) \<and> \<not> lp_untrusted pol) \<or>
     accounts d' = accounts d @ [no_login u] \<and> u_email u = normalize_email e (xi_email ext) \<and>
       \<not> lp_untrusted pol \<and> lp_auto_register pol"

text \<open>A success: tokens for an active user of the table who owns the identity and satisfies the policy of the service.\<close>

definition admitted ::
  "env \<Rightarrow> issuer \<Rightarrow> service_row \<Rightarrow> ext_identity \<Rightarrow> link_policy \<Rightarrow> world \<Rightarrow> reply \<Rightarrow> world \<Rightarrow> bool" where
  "admitted e i svc ext pol w reply w' \<longleftrightarrow>
     (\<exists>u. account_used e ext pol u (w_db w) (w_db w') \<and> u_deactivated u = None \<and> check_policy u svc = None \<and>
        owner_of (w_db w') (xi_issuer ext) (xi_subject ext) (u_id u) \<and>
        session_opened e i svc u (w_db w) reply (w_db w'))"

definition federated_reply :: "service_row \<Rightarrow> complete_err + reply \<Rightarrow> reply" where
  "federated_reply svc done =
     (case done of
        Inr reply \<Rightarrow> reply
      | Inl (PolicyDenied _) \<Rightarrow> redirect_login_error (sv_id svc) AccessDenied
      | Inl IssueFailed \<Rightarrow> redirect_login_error (sv_id svc) LoginFailed)"

lemma refusedI:
  "response w' = response w \<Longrightarrow> t_refresh (w_db w') = t_refresh (w_db w) \<Longrightarrow>
   refused svc w (redirect_login_error (sv_id svc) code) w'"
  by (auto simp: refused_def)

text \<open>What the resolver hands on: an account, active, whose identity it is.\<close>

definition resolved_to :: "env \<Rightarrow> ext_identity \<Rightarrow> link_policy \<Rightarrow> world \<Rightarrow> user_row \<Rightarrow> world \<Rightarrow> bool" where
  "resolved_to e ext pol w u w1 \<longleftrightarrow>
     account_used e ext pol u (w_db w) (w_db w1) \<and> u_deactivated u = None \<and>
     owner_of (w_db w1) (xi_issuer ext) (xi_subject ext) (u_id u)"

lemma resolve_user_wp:
  "wp (resolve_user e ext pol meta) (\<lambda>res w1. response w1 = response w \<and> t_refresh (w_db w1) = t_refresh (w_db w) \<and>
     (\<forall>u out. res = Inr (u, out) \<longrightarrow> resolved_to e ext pol w u w1)) w"
proof (rule wpI)
  fix res w1
  assume run: "run_state (resolve_user e ext pol meta) w = (res, w1)"
  have "resolved_to e ext pol w u w1" if "res = Inr (u, out)" for u out
  proof -
    from resolve_user_result [of e ext pol meta w u out w1] run that obtain i where
      ok: "resolved_ok (ext\<lparr>xi_email := normalize_email e (xi_email ext)\<rparr>) pol (w_db w) (Inr (u, i, out)) (w_db w1)" by blast
    then have "owner_of (w_db w) (xi_issuer ext) (xi_subject ext) (u_id u)" if "out = Matched"
      using that owner_of_keys [of "w_db w1" "w_db w"] by (simp add: resolved_ok_def)
    with ok show ?thesis
      by (cases out) (auto simp: resolved_ok_def resolved_to_def account_used_def accounts_def)
  qed
  with keepsD [OF keeps_resolver(1) run] keepsD [OF keeps_resolver(2) run]
  show "response w1 = response w \<and> t_refresh (w_db w1) = t_refresh (w_db w) \<and>
     (\<forall>u out. res = Inr (u, out) \<longrightarrow> resolved_to e ext pol w u w1)" by blast
qed

lemma resolved_reply:
  assumes "resolved_to e ext pol w u w1" and "response w1 = response w" and "t_refresh (w_db w1) = t_refresh (w_db w)"
  shows "wp (complete_login e i r svc u m) (\<lambda>res w'. refused svc w (federated_reply svc res) w' \<or>
    admitted e i svc ext pol w (federated_reply svc res) w') w1"
proof (rule wp_mono [OF complete_login_session])
  fix res :: "complete_err + reply" and w'
  assume a: "accounts (w_db w') = accounts (w_db w1) \<and> identity_keys (w_db w') = identity_keys (w_db w1) \<and>
     (case res of
        Inl _ \<Rightarrow> response w' = response w1 \<and> t_refresh (w_db w') = t_refresh (w_db w1)
      | Inr reply \<Rightarrow> check_policy u svc = None \<and> session_opened e i svc u (w_db w1) reply (w_db w'))"
  show "refused svc w (federated_reply svc res) w' \<or> admitted e i svc ext pol w (federated_reply svc res) w'"
  proof (cases res)
    case (Inl err)
    with a assms(2,3) show ?thesis by (cases err) (auto simp: federated_reply_def refusedI)
  next
    case (Inr reply)
    with a have "session_opened e i svc u (w_db w) reply (w_db w')" "check_policy u svc = None"
      using session_opened_cong [OF assms(3)] by auto
    moreover have "account_used e ext pol u (w_db w) (w_db w')"
      using assms(1) a by (simp add: resolved_to_def account_used_def)
    moreover have "owner_of (w_db w') (xi_issuer ext) (xi_subject ext) (u_id u)"
      using assms(1) a owner_of_keys [of "w_db w'" "w_db w1"] by (simp add: resolved_to_def)
    ultimately have "admitted e i svc ext pol w reply w'"
      using assms(1) unfolding admitted_def resolved_to_def by blast
    with Inr show ?thesis by (simp add: federated_reply_def)
  qed
qed

lemma finish_with_policy_wp:
  "wp (finish_with_policy e i r p svc ext pol rej_ctx) (\<lambda>reply w'. refused svc w reply w' \<or> admitted e i svc ext pol w reply w') w"
  unfolding finish_with_policy_def wp_bind
proof (rule wp_mono [OF resolve_user_wp], goal_cases)
  case (1 res w1)
  show ?case
  proof (cases res)
    case (Inl err)
    with 1 show ?thesis
      by (cases err) (auto simp: wp_simps audit_rejected_def reject_def refusedI)
  next
    case (Inr uo)
    obtain u out where "uo = (u, out)" by (cases uo)
    with Inr 1 have "resolved_to e ext pol w u w1" "response w1 = response w" "t_refresh (w_db w1) = t_refresh (w_db w)"
      by simp_all
    from resolved_reply [OF this] Inr \<open>uo = (u, out)\<close> show ?thesis by (simp add: wp_simps federated_reply_def)
  qed
qed

section \<open>Redirects read back\<close>

lemma query_pair_escaped:
  assumes "set k \<inter> {CHR ''='', CHR ''%'', CHR ''+'', CHR '';''} = {}"
  shows "query_pair (k @ CHR ''='' # query_escape v) = Inr (Some (k, v))"
proof -
  have "query_unescape k = Some k" using assms by (induction k) auto
  moreover have "CHR '';'' \<notin> set k" "CHR ''='' \<notin> set k" using assms by auto
  ultimately show ?thesis by (simp add: query_pair_def cut_at_sep)
qed

lemma dispatch_url_query:
  "\<exists>q. dispatch_url at rt sid = ''/dispatch?'' @ q \<and> url_query q = [(''token'', at), (''rt'', rt), (''service'', sid)]"
proof (intro exI conjI)
  let ?q = "''token'' @ CHR ''='' # query_escape at @ CHR ''&'' #
    ''rt'' @ CHR ''='' # query_escape rt @ CHR ''&'' # ''service'' @ CHR ''='' # query_escape sid"
  show "dispatch_url at rt sid = ''/dispatch?'' @ ?q" by (simp add: dispatch_url_def)
  have "split_on (CHR ''&'') ?q = [''token'' @ CHR ''='' # query_escape at, ''rt'' @ CHR ''='' # query_escape rt,
      ''service'' @ CHR ''='' # query_escape sid]"
    using split_on_append_sep [of "CHR ''&''" "''token'' @ CHR ''='' # query_escape at"]
      split_on_append_sep [of "CHR ''&''" "''rt'' @ CHR ''='' # query_escape rt"]
      split_on_no_sep [of "CHR ''&''" "''service'' @ CHR ''='' # query_escape sid"]
    by (simp del: split_on.simps)
  moreover have "query_pair (''token'' @ CHR ''='' # query_escape at) = Inr (Some (''token'', at))"
    "query_pair (''rt'' @ CHR ''='' # query_escape rt) = Inr (Some (''rt'', rt))"
    "query_pair (''service'' @ CHR ''='' # query_escape sid) = Inr (Some (''service'', sid))"
    by (rule query_pair_escaped, simp)+
  ultimately show "url_query ?q = [(''token'', at), (''rt'', rt), (''service'', sid)]"
    by (simp add: url_query_def del: split_on.simps append.simps append_Cons)
qed

lemma login_error_query:
  "\<exists>q. redirect_login_error sid code = Redirect 303 (''/login?'' @ q) \<and>
     values_get (url_query q) ''error'' = error_code code \<and> values_get (url_query q) ''service'' = sid"
  by (auto simp: redirect_login_error_def Let_def url_query_encode)

lemma error_code_known: "known_login_error (error_code code)"
  by (cases code) (simp_all add: known_login_error_def)

section \<open>Password login\<close>

lemma do_login_refused:
  assumes "enabled" and "resolve_requested_service e cache r (form_value r ''service_id'') = Some svc"
    and "sv_auth_password svc = 1"
    and "case get_active_user_by_email (normalize_email e (form_value r ''email'')) (w_db w) of
           Inl _ \<Rightarrow> True | Inr u \<Rightarrow> \<not> password_ok e u (form_value r ''password'')"
  shows "run_state (do_login e i cache enabled r) w =
    (HttpError 401 ''ugyldig e-post eller passord'',
     w\<lparr>w_step := Suc (w_step w), w_audit := w_audit w @ [method_event r ''login_failed'' ''password''
        (normalize_email e (form_value r ''email'')) (sv_id svc) False []]\<rparr>)"
  using assms by (auto simp: do_login_def Let_def io_simps split: option.split sum.splits)

lemma do_login_admitted_wp:
  "wp (do_login e i cache enabled r) (\<lambda>reply w'. t_refresh (w_db w') \<noteq> t_refresh (w_db w) \<longrightarrow>
     enabled \<and> (\<exists>svc u. resolve_requested_service e cache r (form_value r ''service_id'') = Some svc \<and>
       sv_auth_password svc = 1 \<and> u \<in> set (t_users (w_db w)) \<and> u_deactivated u = None \<and>
       u_email u = normalize_email e (form_value r ''email'') \<and> password_ok e u (form_value r ''password'') \<and>
       check_policy u svc = None)) w"
proof -
  have fin: "wp (complete_login e i r svc u login_password) (\<lambda>res w'. t_refresh (w_db w') \<noteq> t_refresh (w_db w) \<longrightarrow>
      check_policy u svc = None) w1" if "w_db w1 = w_db w" for svc u w1
    by (rule wp_mono [OF complete_login_wp]) (auto simp: completed_def that split: sum.splits)
  show ?thesis
    by (auto simp: do_login_def Let_def wp_simps split: option.split sum.splits complete_err.splits
        intro!: wp_mono [OF fin] dest!: get_active_by_email_Inr split: if_splits)
qed

section \<open>Properties\<close>

text \<open>C24. Every external login ends in one of two ways, whatever fails on the way: a redirect to the login page
  with one of the fixed error codes, no cookie, no header and no session; or a session of an active user of the table who
  owns the external identity and satisfies the role and organisation policy of the service.  That user had the
  identity before, or the confirmed address of the login, or was registered under that address where the policy
  allows it; no other account changed.  The session is a signed access token with the claims of this user for
  this service and one new refresh token of this user.\<close>

theorem federated_login_gate:
  "case run_state (finish_with_policy e i r p svc ext pol rej_ctx) w of (reply, w') \<Rightarrow>
     refused svc w reply w' \<or> admitted e i svc ext pol w reply w'"
  using finish_with_policy_wp by (simp only: wp_def)

text \<open>C33. A password login opens a session only for the active user of the normalised address whose bcrypt hash
  accepts the password, at a service that offers passwords, while the global switch is on and the
  service's policy is satisfied; in every other case no refresh token is created.\<close>

theorem password_login_gate:
  "case run_state (do_login e i cache enabled r) w of (reply, w') \<Rightarrow>
     t_refresh (w_db w') = t_refresh (w_db w) \<or>
     enabled \<and> (\<exists>svc u. resolve_requested_service e cache r (form_value r ''service_id'') = Some svc \<and>
       sv_auth_password svc = 1 \<and> u \<in> set (t_users (w_db w)) \<and> u_deactivated u = None \<and>
       u_email u = normalize_email e (form_value r ''email'') \<and> password_ok e u (form_value r ''password'') \<and>
       check_policy u svc = None)"
  using do_login_admitted_wp [of e i cache enabled r w] by (auto simp: wp_def)

text \<open>Password failures look alike: an unknown address, a deactivated user, a user without a password, a wrong
  password and an unreachable user table give the same status, the same text and the same audit event,
  and change nothing else.\<close>

theorem password_failures_look_alike:
  assumes "enabled" and "resolve_requested_service e cache r (form_value r ''service_id'') = Some svc"
    and "sv_auth_password svc = 1"
    and "case get_active_user_by_email (normalize_email e (form_value r ''email'')) (w_db w) of
           Inl _ \<Rightarrow> True | Inr u \<Rightarrow> \<not> password_ok e u (form_value r ''password'')"
  shows "run_state (do_login e i cache enabled r) w =
    (HttpError 401 ''ugyldig e-post eller passord'',
     w\<lparr>w_step := Suc (w_step w), w_audit := w_audit w @ [method_event r ''login_failed'' ''password''
        (normalize_email e (form_value r ''email'')) (sv_id svc) False []]\<rparr>)"
  using assms by (rule do_login_refused)

theorem password_failures_look_alike_witness:
  "fst (run_state (do_login demo_env demo_issuer [demo_service] True
      (demo_request\<lparr>rq_form := [(''email'', ''ada@x.no''), (''password'', ''x''), (''service_id'', ''app'')]\<rparr>)) demo_world) =
   HttpError 401 ''ugyldig e-post eller passord''"
proof -
  let ?r = "demo_request\<lparr>rq_form := [(''email'', ''ada@x.no''), (''password'', ''x''), (''service_id'', ''app'')]\<rparr>"
  have f: "form_value ?r ''service_id'' = ''app''" "form_value ?r ''email'' = ''ada@x.no''" "form_value ?r ''password'' = ''x''"
    by (simp_all add: form_value_def get_first_def)
  have s: "resolve_requested_service demo_env [demo_service] ?r (form_value ?r ''service_id'') = Some demo_service"
    unfolding f by (simp add: resolve_requested_service_def resolve_def by_domain_def redirect_host_def by_auth_host_def
        by_id_def demo_service_def host_may_start_def demo_request_def fold_eq_def equal_fold_def ascii_def less_char_def)
  have "sv_auth_password demo_service = 1" by (simp add: demo_service_def)
  moreover have "case get_active_user_by_email (normalize_email demo_env (form_value ?r ''email'')) (w_db demo_world) of
      Inl _ \<Rightarrow> True | Inr u \<Rightarrow> \<not> password_ok demo_env u (form_value ?r ''password'')"
    unfolding f demo_mail
    by (simp add: demo_world_def demo_db_def get_active_user_by_email_def select_one_def user_active_def password_ok_def demo_user_def)
  ultimately show ?thesis
    using password_failures_look_alike [OF TrueI s, of demo_world demo_issuer] by simp
qed

end
