(* ===== verification/Web.thy ===== *)
theory Web
  imports Login
begin

text \<open>
  What stands in front of the handlers: Fetch Metadata (\<open>internal/fetchmeta\<close>), CORS and the security headers
  (\<open>auth/middleware.go\<close>, \<open>auth/secheaders.go\<close>), the path that reaches the request log
  (\<open>auth/requestlog.go\<close>), and \<open>GET /api/me\<close> (\<open>auth/api.go\<close>).  A handler is a function from the
  request to its effects; a middleware takes a handler to a handler.
\<close>

type_synonym handler = "request \<Rightarrow> reply io"

section \<open>Fetch Metadata\<close>

definition same_origin :: "env \<Rightarrow> request \<Rightarrow> bool" where
  "same_origin e r =
     (let site = header_get r ''Sec-Fetch-Site''; origin = header_get r ''Origin'' in
      if site \<noteq> [] then site = ''same-origin''
      else if origin \<noteq> []
      then origin = ''https://'' @ rq_host r \<or> e_insecure_cookies e \<and> origin = ''http://'' @ rq_host r
      else False)"

definition fetch_middleware :: "env \<Rightarrow> handler \<Rightarrow> handler" where
  "fetch_middleware e next_h r =
     (if rq_method r \<in> {''GET'', ''HEAD'', ''OPTIONS''} then next_h r
      else if \<not> same_origin e r then return_io (HttpError 403 ''Forbidden'')
      else next_h r)"

definition logout_allowed :: "request \<Rightarrow> bool" where
  "logout_allowed r =
     (let site = header_get r ''Sec-Fetch-Site''; dest = header_get r ''Sec-Fetch-Dest'' in
      if site \<in> {[], ''same-origin'', ''same-site'', ''none''} then True
      else if site = ''cross-site''
      then header_get r ''Sec-Fetch-Mode'' = ''navigate'' \<and> (dest = [] \<or> dest = ''document'')
      else False)"

section \<open>CORS and security headers\<close>

definition origin_allowed :: "string list \<Rightarrow> string \<Rightarrow> bool" where
  "origin_allowed origins origin \<longleftrightarrow>
     origin \<noteq> [] \<and> origin \<noteq> ''null'' \<and> list_ex (\<lambda>o'. trim_space o' = origin) origins"

fun set_headers :: "(string \<times> string) list \<Rightarrow> unit io" where
  "set_headers [] = return_io ()"
| "set_headers ((k, v) # hs) = do { set_header k v; set_headers hs }"

definition cors_middleware :: "string list \<Rightarrow> handler \<Rightarrow> handler" where
  "cors_middleware origins next_h r = do {
     (let origin = header_get r ''Origin'' in
        if origin_allowed origins origin then set_headers
          [(''Access-Control-Allow-Origin'', origin), (''Access-Control-Allow-Credentials'', ''true''),
           (''Vary'', ''Origin''), (''Access-Control-Allow-Methods'', ''GET, POST, OPTIONS''),
           (''Access-Control-Allow-Headers'', ''Content-Type, Authorization'')]
        else return_io ());
     (if rq_method r = ''OPTIONS'' then return_io (Plain 204 []) else next_h r)
   }"

definition security_headers :: "handler \<Rightarrow> handler" where
  "security_headers next_h r = do {
     set_headers
       [(''X-Content-Type-Options'', ''nosniff''), (''Referrer-Policy'', ''no-referrer''),
        (''X-Frame-Options'', ''DENY''), (''Content-Security-Policy'', ''frame-ancestors '' @ [CHR 0x27] @ ''none'' @ [CHR 0x27]),
        (''Strict-Transport-Security'', ''max-age=31536000'')];
     next_h r
   }"

section \<open>The path in the request log\<close>

text \<open>\<open>path.Clean\<close> of a path that begins with a slash.\<close>

fun clean_segs :: "string list \<Rightarrow> string list \<Rightarrow> string list" where
  "clean_segs acc [] = rev acc"
| "clean_segs acc (s # ss) =
     (if s = [] \<or> s = ''.'' then clean_segs acc ss
      else if s = ''..'' then clean_segs (tl acc) ss
      else clean_segs (s # acc) ss)"

definition path_segments :: "string \<Rightarrow> string list" where
  "path_segments p = clean_segs [] (split_on (CHR ''/'') (''/'' @ p))"

definition path_clean :: "string \<Rightarrow> string" where
  "path_clean p = ''/'' @ join_with ''/'' (path_segments p)"

definition secret_segment :: "env \<Rightarrow> string \<Rightarrow> bool" where
  "secret_segment e seg \<longleftrightarrow> fold_eq e seg ''magic-login'' \<or> fold_eq e seg ''link''"

fun mask_segs :: "env \<Rightarrow> string list \<Rightarrow> string list" where
  "mask_segs e [] = []"
| "mask_segs e (seg # rest) =
     (if secret_segment e seg \<and> rest \<noteq> [] then [seg, ''***''] else seg # mask_segs e rest)"

definition truncate_str :: "string \<Rightarrow> nat \<Rightarrow> string" where
  "truncate_str s n = take n s"

definition mask_path :: "env \<Rightarrow> string \<Rightarrow> string" where
  "mask_path e p = truncate_str (join_with ''/'' (mask_segs e (split_on (CHR ''/'') (path_clean p)))) 256"

text \<open>
  The log line of a request (\<open>RequestLogger\<close>).  \<open>ro_status\<close> and \<open>ro_bytes\<close> are what the handler wrote, 0 when it wrote no
  status; \<open>ro_pattern\<close> is the pattern of the route, when the router matched one.
\<close>

record request_outcome =
  ro_status :: int
  ro_bytes :: int
  ro_took :: duration
  ro_panic :: bool
  ro_pattern :: "string option"

record log_line =
  ll_error :: bool
  ll_method :: string
  ll_path :: string
  ll_status :: int
  ll_bytes :: int
  ll_took :: duration
  ll_ip :: string

definition logged_status :: "request_outcome \<Rightarrow> int" where
  "logged_status ro = (if ro_status ro \<noteq> 0 then ro_status ro else if ro_panic ro then 500 else 200)"

definition logged_path :: "env \<Rightarrow> string option \<Rightarrow> string \<Rightarrow> string" where
  "logged_path e pat p =
     (case pat of
        None \<Rightarrow> mask_path e p
      | Some t \<Rightarrow> if t \<noteq> [] \<and> CHR ''*'' \<notin> set t then t else mask_path e p)"

definition request_line :: "env \<Rightarrow> request_outcome \<Rightarrow> request \<Rightarrow> log_line" where
  "request_line e ro r =
     \<lparr>ll_error = ro_panic ro, ll_method = rq_method r, ll_path = logged_path e (ro_pattern ro) (rq_path r),
      ll_status = logged_status ro, ll_bytes = ro_bytes ro, ll_took = ro_took ro, ll_ip = truncate_str (rq_client_ip r) 64\<rparr>"

section \<open>The signed-in user\<close>

definition serve_me :: "env \<Rightarrow> issuer \<Rightarrow> string \<Rightarrow> handler" where
  "serve_me e i cookie_name r =
     (case (case cookie_get r cookie_name of None \<Rightarrow> None | Some v \<Rightarrow> if v = [] then None else Some v) of
        None \<Rightarrow> do {
          set_header ''Content-Type'' ''application/json'';
          return_io (HttpError 401 (CHR ''{'' # CHR 0x22 # ''error'' @ CHR 0x22 # CHR '':'' # CHR 0x22 # ''unauthenticated'' @ [CHR 0x22, CHR ''}'']))
        }
      | Some tok \<Rightarrow> do {
          rc \<leftarrow> verify e i tok expect_access;
          set_header ''Content-Type'' ''application/json'';
          return_io (case rc of
            Inl _ \<Rightarrow> HttpError 401 (CHR ''{'' # CHR 0x22 # ''error'' @ CHR 0x22 # CHR '':'' # CHR 0x22 # ''invalid_token'' @ [CHR 0x22, CHR ''}''])
          | Inr c \<Rightarrow> JsonMe (c_email c) (c_org c) (c_groups c) (c_name c))
        })"

section \<open>Paths\<close>

lemma clean_segs_ok: "\<forall>s \<in> set acc. s \<noteq> [] \<and> CHR ''/'' \<notin> set s \<Longrightarrow> \<forall>s \<in> set ss. CHR ''/'' \<notin> set s \<Longrightarrow>
    \<forall>s \<in> set (clean_segs acc ss). s \<noteq> [] \<and> CHR ''/'' \<notin> set s"
proof (induction ss arbitrary: acc)
  case (Cons s ss)
  have ss: "\<forall>s \<in> set ss. CHR ''/'' \<notin> set s" and s: "CHR ''/'' \<notin> set s" using Cons.prems(2) by simp_all
  have tl: "\<forall>s \<in> set (tl acc). s \<noteq> [] \<and> CHR ''/'' \<notin> set s" using Cons.prems(1) by (cases acc) simp_all
  have push: "s \<noteq> [] \<Longrightarrow> \<forall>s \<in> set (s # acc). s \<noteq> [] \<and> CHR ''/'' \<notin> set s" using Cons.prems(1) s by simp
  consider "s = [] \<or> s = ''.''" | "\<not> (s = [] \<or> s = ''.'')" "s = ''..''" | "\<not> (s = [] \<or> s = ''.'')" "s \<noteq> ''..''"
    by blast
  then show ?case
  proof cases
    case 1
    then show ?thesis unfolding clean_segs.simps(2) if_P [OF 1] by (intro Cons.IH Cons.prems(1) ss)
  next
    case 2
    show ?thesis unfolding clean_segs.simps(2) if_not_P [OF 2(1)] if_P [OF 2(2)] by (intro Cons.IH tl ss)
  next
    case 3
    then have "s \<noteq> []" by blast
    show ?thesis unfolding clean_segs.simps(2) if_not_P [OF 3(1)] if_not_P [OF 3(2)] by (intro Cons.IH push ss \<open>s \<noteq> []\<close>)
  qed
qed simp

lemma path_segments_ok: "s \<in> set (path_segments p) \<Longrightarrow> s \<noteq> [] \<and> CHR ''/'' \<notin> set s"
  using clean_segs_ok [of "[]" "split_on (CHR ''/'') (''/'' @ p)"] by (auto simp: path_segments_def dest: split_on_parts)

lemma split_path_clean: "path_segments p \<noteq> [] \<Longrightarrow> split_on (CHR ''/'') (path_clean p) = [] # path_segments p"
  using split_join [of "path_segments p" "CHR ''/''"] path_segments_ok [of _ p] by (simp add: path_clean_def)

lemma mask_segs_hides: "secret_segment e m \<Longrightarrow> rest \<noteq> [] \<Longrightarrow> rest' \<noteq> [] \<Longrightarrow>
    mask_segs e (pre @ m # rest) = mask_segs e (pre @ m # rest')"
  by (induction pre) auto

text \<open>The request log never sees what follows a secret segment.\<close>

lemma mask_path_hides:
  assumes "path_segments p = pre @ m # rest" and "path_segments q = pre @ m # rest'"
    and "secret_segment e m" and "rest \<noteq> []" and "rest' \<noteq> []"
  shows "mask_path e p = mask_path e q"
proof -
  have "split_on (CHR ''/'') (path_clean p) = ([] # pre) @ m # rest"
    "split_on (CHR ''/'') (path_clean q) = ([] # pre) @ m # rest'"
    using split_path_clean [of p] split_path_clean [of q] assms(1,2) by simp_all
  then show ?thesis
    using mask_segs_hides [OF assms(3-5), of "[] # pre"] by (simp add: mask_path_def)
qed

lemma mask_path_length: "length (mask_path e p) \<le> 256"
  by (simp add: mask_path_def truncate_str_def)

text \<open>The line does not depend on the query, the form, the cookies or the headers, nor on what follows a secret segment.\<close>

lemma request_line_hides:
  assumes "path_segments p = pre @ m # rest" "path_segments q = pre @ m # rest'" "secret_segment e m" "rest \<noteq> []" "rest' \<noteq> []"
  shows "request_line e ro (r\<lparr>rq_path := p, rq_query := qs, rq_form := f, rq_cookies := cs, rq_headers := hs\<rparr>) =
    request_line e ro (r\<lparr>rq_path := q\<rparr>)"
  using mask_path_hides [OF assms] by (simp add: request_line_def logged_path_def split: option.split)

section \<open>Middleware\<close>

lemma evolves_set_headers [evolve_intros]: "evolves R (set_headers hs)"
  by (induction hs rule: set_headers.induct) (auto intro: evolve_intros)

lemma wp_set_headers [wp_simps]:
  "wp (set_headers []) Q = Q ()"
  "wp (set_headers ((k, v) # hs)) Q = wp (set_header k v) (\<lambda>_. wp (set_headers hs) Q)"
  by (simp_all add: wp_simps)

lemma keeps_cookies_header: "keeps w_cookies (set_header k v)"
  by (simp add: keeps_def io_simps)

lemma keeps_db_set_headers [keeps_intros]: "keeps (\<lambda>w. g (w_db w)) (set_headers hs)"
  by (induction hs rule: set_headers.induct) (auto intro: keeps_intros)

lemma keeps_cookies_set_headers [keeps_intros]: "keeps w_cookies (set_headers hs)"
  by (induction hs rule: set_headers.induct) (auto intro!: keeps_intros keeps_cookies_header)

text \<open>A state-changing request from elsewhere does not reach the handler.\<close>

lemma fetch_middleware_stops:
  "\<not> same_origin e r \<Longrightarrow> rq_method r = ''POST'' \<Longrightarrow> fetch_middleware e h r = return_io (HttpError 403 ''Forbidden'')"
  by (simp add: fetch_middleware_def)

lemma same_origin_site: "same_origin e r \<Longrightarrow> header_get r ''Sec-Fetch-Site'' \<in> {[], ''same-origin''}"
  by (auto simp: same_origin_def Let_def split: if_splits)

lemma origin_allowed_exact: "origin_allowed origins origin \<Longrightarrow> \<exists>o' \<in> set origins. trim_space o' = origin"
  by (auto simp: origin_allowed_def list_ex_iff)

lemma serve_me_keeps_db: "keeps (\<lambda>w. g (w_db w)) (serve_me e i n r)"
  unfolding serve_me_def verify_def parse_token_def jwt_try_def by (intro keeps_intros)+

end
