(* ===== verification/I18n.thy ===== *)
theory I18n
  imports Web
begin

text \<open>
  The language of a page: \<open>internal/i18n/i18n.go\<close> and \<open>taglines.go\<close>, and the links of the language picker
  (\<open>langLinkURL\<close> of \<open>auth/login.go\<close>).  The translated texts are data: \<open>catalog\<close> is the table behind
  \<open>i18n.Get\<close>, from a locale and the name of a text to the text.
\<close>

type_synonym catalog = "string \<Rightarrow> string \<Rightarrow> string"

section \<open>Locales\<close>

definition supported :: "string list" where
  "supported = [''nb'', ''en'', ''de'']"

definition fallback :: string where "fallback = ''en''"

definition normalize_locale :: "env \<Rightarrow> string \<Rightarrow> string option" where
  "normalize_locale e tag =
     (let t = takeWhile (\<lambda>c. c \<noteq> CHR ''-'' \<and> c \<noteq> CHR ''_'') (lower e (trim_space tag)) in
      if t \<in> {''nb'', ''nn'', ''no''} then Some ''nb''
      else if t = ''en'' then Some ''en''
      else if t = ''de'' then Some ''de''
      else None)"

text \<open>The weight of an alternative: 1, unless a \<open>q\<close> parameter says otherwise; a bad number disqualifies it.\<close>

definition full_weight :: "env \<Rightarrow> int" where
  "full_weight e = (case e_parse_float e ''1'' of Some w \<Rightarrow> w | None \<Rightarrow> 1)"

fun weight_of :: "env \<Rightarrow> int \<Rightarrow> string list \<Rightarrow> int" where
  "weight_of e w [] = w"
| "weight_of e w (f # fs) =
     (case cut_prefix (trim_space f) ''q='' of
        None \<Rightarrow> weight_of e w fs
      | Some q \<Rightarrow> (case e_parse_float e q of None \<Rightarrow> 0 | Some w' \<Rightarrow> weight_of e w' fs))"

definition candidate :: "env \<Rightarrow> string \<Rightarrow> (string \<times> int) option" where
  "candidate e part =
     (case split_on (CHR '';'') part of
        [] \<Rightarrow> None
      | f # fs \<Rightarrow>
          (case normalize_locale e f of
             None \<Rightarrow> None
           | Some loc \<Rightarrow> (let w = weight_of e (full_weight e) fs in if 0 < w then Some (loc, w) else None)))"

definition candidates :: "env \<Rightarrow> string \<Rightarrow> (string \<times> int) list" where
  "candidates e header = List.map_filter (candidate e) (split_on (CHR '','') header)"

definition from_accept_language :: "env \<Rightarrow> string \<Rightarrow> string option" where
  "from_accept_language e header =
     (case sort_key (\<lambda>c. - snd c) (candidates e header) of [] \<Rightarrow> None | c # _ \<Rightarrow> Some (fst c))"

definition resolve_locale :: "env \<Rightarrow> string \<Rightarrow> string \<Rightarrow> string" where
  "resolve_locale e lang accept =
     (case normalize_locale e lang of
        Some loc \<Rightarrow> loc
      | None \<Rightarrow> (case from_accept_language e accept of Some loc \<Rightarrow> loc | None \<Rightarrow> fallback))"

definition locale_of :: "env \<Rightarrow> request \<Rightarrow> string" where
  "locale_of e r = resolve_locale e (query_get r ''lang'') (header_get r ''Accept-Language'')"

definition get_text :: "catalog \<Rightarrow> string \<Rightarrow> string \<Rightarrow> string" where
  "get_text cat loc key = (if loc \<in> set supported then cat loc key else cat fallback key)"

text \<open>A table of taglines has one row per translated service.\<close>

definition tagline :: "(string \<rightharpoonup> (string \<rightharpoonup> string)) \<Rightarrow> string \<Rightarrow> string \<Rightarrow> string" where
  "tagline table sid loc =
     (case table sid of
        None \<Rightarrow> []
      | Some row \<Rightarrow>
          (let s = (case row loc of None \<Rightarrow> [] | Some s \<Rightarrow> s) in
           if s \<noteq> [] then s else (case row fallback of None \<Rightarrow> [] | Some s \<Rightarrow> s)))"

section \<open>The language picker\<close>

record lang_link =
  lk_code :: string
  lk_href :: string
  lk_active :: bool

text \<open>The address is the path and the raw query.\<close>

definition lang_links :: "string \<Rightarrow> string \<times> string \<Rightarrow> lang_link list" where
  "lang_links active u =
     map (\<lambda>code. \<lparr>lk_code = code,
        lk_href = fst u @ ''?'' @ values_encode (values_set ''lang'' code (url_query (snd u))),
        lk_active = (code = active)\<rparr>) supported"

text \<open>Only a known error code may be carried into the links.\<close>

definition lang_link_url :: "(string \<Rightarrow> bool) \<Rightarrow> request \<Rightarrow> string \<times> string" where
  "lang_link_url known r =
     (let q = rq_query r; err = values_get q ''error''; q1 = values_del ''error'' q;
          q2 = if known err then values_set ''error'' err q1 else q1
      in (rq_path r, values_encode q2))"

section \<open>What is chosen\<close>

lemma normalize_supported: "normalize_locale e tag = Some loc \<Longrightarrow> loc \<in> set supported"
  by (auto simp: normalize_locale_def supported_def Let_def split: if_splits)

lemma candidate_Some: "candidate e part = Some (loc, w) \<Longrightarrow> loc \<in> set supported \<and> 0 < w"
  by (auto simp: candidate_def Let_def split: list.splits option.splits if_splits dest: normalize_supported)

lemma candidates_supported: "(loc, w) \<in> set (candidates e header) \<Longrightarrow> loc \<in> set supported \<and> 0 < w"
  by (auto simp: candidates_def set_map_filter dest: candidate_Some)

lemma sort_key_hd:
  fixes f :: "'a \<Rightarrow> 'b::linorder"
  assumes "sort_key f xs = x # ys"
  shows "x \<in> set xs" and "z \<in> set xs \<Longrightarrow> f x \<le> f z"
proof -
  have s: "set (x # ys) = set xs" using assms by (metis set_sort)
  then show "x \<in> set xs" by auto
  have "sorted (map f (x # ys))" using sorted_sort_key [of f xs] by (simp add: assms)
  then show "z \<in> set xs \<Longrightarrow> f x \<le> f z" using s by auto
qed

lemma from_accept_best:
  assumes "from_accept_language e header = Some loc"
  shows "\<exists>w. (loc, w) \<in> set (candidates e header) \<and> (\<forall>c \<in> set (candidates e header). snd c \<le> w)"
proof -
  obtain c cs where s: "sort_key (\<lambda>c. - snd c) (candidates e header) = c # cs" and loc: "loc = fst c"
    using assms by (auto simp: from_accept_language_def split: list.splits)
  show ?thesis
    using sort_key_hd(1) [OF s] sort_key_hd(2) [OF s] loc by (metis neg_le_iff_le prod.collapse)
qed

lemma from_accept_None: "from_accept_language e header = None \<longleftrightarrow> candidates e header = []"
  by (metis (no_types, lifting) from_accept_language_def length_0_conv length_sort list.exhaust list.simps(4,5) option.distinct(1))

lemma resolve_locale_supported: "resolve_locale e lang accept \<in> set supported"
proof -
  have "from_accept_language e accept = Some loc \<Longrightarrow> loc \<in> set supported" for loc
    using from_accept_best candidates_supported by blast
  then show ?thesis
    by (auto simp: resolve_locale_def fallback_def supported_def dest!: normalize_supported split: option.split)
qed

lemma locale_of_supported: "locale_of e r \<in> set supported"
  by (simp add: locale_of_def resolve_locale_supported)

text \<open>The links keep every parameter but the language, and no unknown error text gets into them.\<close>

lemma values_get_del [simp]: "values_get (values_del k vs) l = (if l = k then [] else values_get vs l)"
proof -
  have "map_of (values_del k vs) k = None" by (auto simp: values_del_def map_of_eq_None_iff)
  moreover have "l \<noteq> k \<Longrightarrow> map_of (values_del k vs) l = map_of vs l" by (induction vs) (auto simp: values_del_def)
  ultimately show ?thesis by (auto simp: values_get_def)
qed

lemma lang_link_error:
  "values_get (url_query (snd (lang_link_url known r))) ''error'' \<noteq> [] \<Longrightarrow>
   known (values_get (url_query (snd (lang_link_url known r))) ''error'')"
  by (auto simp: lang_link_url_def Let_def url_query_encode split: if_splits)

lemma lang_link_keeps:
  assumes "k \<noteq> ''error''"
  shows "values_get (url_query (snd (lang_link_url known r))) k = query_get r k"
  using assms by (auto simp: lang_link_url_def Let_def url_query_encode query_get_def get_first_def values_get_def [symmetric])

end
