(* ===== verification/Utf8.thy ===== *)
theory Utf8
  imports Encoding
begin

text \<open>
  UTF-8 as Go's \<open>range\<close> over a string reads it: a valid sequence is one rune, any other byte is the
  replacement rune with width one.  Used by \<open>sanitizeLogValue\<close> (\<open>internal/auth/token_endpoint.go\<close>), which
  keeps client-controlled text from forging lines and fields of the log.
\<close>

definition cont_byte :: "nat \<Rightarrow> bool" where
  "cont_byte b \<longleftrightarrow> 128 \<le> b \<and> b < 192"

text \<open>The rune at the head of a text and its width; \<open>None\<close> for a byte that starts no valid sequence.\<close>

fun head_rune :: "nat list \<Rightarrow> nat option \<times> nat" where
  "head_rune (a # s) =
     (if a < 128 then (Some a, 1)
      else if 194 \<le> a \<and> a < 224 then
        (case s of b # _ \<Rightarrow> if cont_byte b then (Some ((a - 192) * 64 + (b - 128)), 2) else (None, 1)
         | _ \<Rightarrow> (None, 1))
      else if 224 \<le> a \<and> a < 240 then
        (case s of b # c # _ \<Rightarrow>
           if cont_byte b \<and> cont_byte c \<and> (a = 224 \<longrightarrow> 160 \<le> b) \<and> (a = 237 \<longrightarrow> b < 160)
           then (Some ((a - 224) * 4096 + (b - 128) * 64 + (c - 128)), 3) else (None, 1)
         | _ \<Rightarrow> (None, 1))
      else if 240 \<le> a \<and> a < 245 then
        (case s of b # c # d # _ \<Rightarrow>
           if cont_byte b \<and> cont_byte c \<and> cont_byte d \<and> (a = 240 \<longrightarrow> 144 \<le> b) \<and> (a = 244 \<longrightarrow> b < 144)
           then (Some ((a - 240) * 262144 + (b - 128) * 4096 + (c - 128) * 64 + (d - 128)), 4) else (None, 1)
         | _ \<Rightarrow> (None, 1))
      else (None, 1))"
| "head_rune [] = (None, 1)"

function runes :: "string \<Rightarrow> (nat option \<times> string) list" where
  "runes [] = []"
| "runes (c # s) =
     (case head_rune (map byte (c # s)) of (r, n) \<Rightarrow> (r, take n (c # s)) # runes (drop (n - 1) s))"
  by pat_completeness auto
termination by (relation "measure length") auto

declare runes.simps [simp del]

definition is_control :: "nat \<Rightarrow> bool" where
  "is_control r \<longleftrightarrow> r < 32 \<or> 127 \<le> r \<and> r < 160"

definition replacement :: string where
  "replacement = [CHR 0xEF, CHR 0xBF, CHR 0xBD]"

definition drop_control :: "string \<Rightarrow> string" where
  "drop_control s = concat (map (\<lambda>(r, b). case r of None \<Rightarrow> replacement | Some c \<Rightarrow> if is_control c then [] else b) (runes s))"

definition to_valid_utf8 :: "string \<Rightarrow> string" where
  "to_valid_utf8 s = concat (map (\<lambda>(r, b). case r of None \<Rightarrow> [] | Some _ \<Rightarrow> b) (runes s))"

definition sanitize_log_value :: "string \<Rightarrow> string" where
  "sanitize_log_value s = to_valid_utf8 (take 200 (drop_control s))"

section \<open>What is left after cleaning\<close>

lemma head_rune_width: "0 < snd (head_rune bs)"
  by (cases bs) (auto split: list.splits)

text \<open>A valid segment is one printable byte or has only bytes above 127.\<close>

lemma head_rune_bytes:
  assumes "head_rune (map byte s) = (Some r, n)" and "c \<in> set (take n s)"
  shows "byte c = r \<or> 128 \<le> byte c"
  using assms
  by (cases s) (auto simp: cont_byte_def take_Cons' split: if_splits list.splits)

lemma runes_bytes: "(Some r, b) \<in> set (runes s) \<Longrightarrow> c \<in> set b \<Longrightarrow> byte c = r \<or> 128 \<le> byte c"
proof (induction s rule: runes.induct)
  case (2 a s)
  obtain q n where h: "head_rune (map byte (a # s)) = (q, n)" by fastforce
  from 2(2) have "(Some r, b) = (q, take n (a # s)) \<or> (Some r, b) \<in> set (runes (drop (n - 1) s))"
    using h by (simp add: runes.simps)
  then show ?case
  proof
    assume "(Some r, b) = (q, take n (a # s))"
    with h 2(3) head_rune_bytes [of "a # s" r n c] show ?thesis by simp
  next
    assume "(Some r, b) \<in> set (runes (drop (n - 1) s))"
    with 2(1) [OF h [symmetric]] 2(3) show ?thesis by simp
  qed
qed (simp add: runes.simps)

lemma runes_concat: "concat (map snd (runes s)) = s"
proof (induction s rule: runes.induct)
  case (2 a s)
  obtain q n where h: "head_rune (map byte (a # s)) = (q, n)" by fastforce
  with head_rune_width [of "map byte (a # s)"] obtain k where "n = Suc k" by (cases n) auto
  with 2 [OF h [symmetric]] h show ?case by (simp add: runes.simps)
qed (simp add: runes.simps)

definition printable_byte :: "char \<Rightarrow> bool" where
  "printable_byte c \<longleftrightarrow> 32 \<le> byte c \<and> byte c \<noteq> 127"

lemma drop_control_printable: "c \<in> set (drop_control s) \<Longrightarrow> printable_byte c"
  using runes_bytes [of _ _ s c]
  by (fastforce simp: drop_control_def replacement_def printable_byte_def is_control_def byte_def split: option.splits if_splits)

lemma to_valid_subset: "set (to_valid_utf8 s) \<subseteq> set s"
proof -
  have "set (concat (map (\<lambda>(r, b). case r of None \<Rightarrow> [] | Some _ \<Rightarrow> b) rs)) \<subseteq> set (concat (map snd rs))"
    for rs :: "(nat option \<times> string) list"
    by (induction rs) (auto split: option.splits)
  from this [of "runes s"] show ?thesis by (simp add: to_valid_utf8_def runes_concat)
qed

lemma to_valid_length: "length (to_valid_utf8 s) \<le> length s"
proof -
  have "length (concat (map (\<lambda>(r, b). case r of None \<Rightarrow> [] | Some _ \<Rightarrow> b) rs)) \<le> length (concat (map snd rs))"
    for rs :: "(nat option \<times> string) list"
    by (induction rs) (auto split: option.split)
  from this [of "runes s"] show ?thesis by (simp add: to_valid_utf8_def runes_concat)
qed

lemma sanitize_printable: "c \<in> set (sanitize_log_value s) \<Longrightarrow> printable_byte c"
  using to_valid_subset [of "take 200 (drop_control s)"] set_take_subset [of 200 "drop_control s"]
    drop_control_printable [of c s]
  by (auto simp: sanitize_log_value_def)

lemma sanitize_length: "length (sanitize_log_value s) \<le> 200"
  using to_valid_length [of "take 200 (drop_control s)"] by (simp add: sanitize_log_value_def)

end
