(* ===== verification/Idp.thy ===== *)
theory Idp
  imports Utf8 I18n
begin

text \<open>
  Configurable OIDC providers: \<open>internal/idp\<close> (\<open>config.go\<close>, \<open>pkce.go\<close>, \<open>registry.go\<close>).  Rows of the
  database are validated when the process starts; only what the operator's allowlist names is ever
  loaded.  The registry is a value: the loaded providers, which never change, and the assignments to
  services, which a reload replaces.  The discovery cache of one provider is a state machine.
\<close>

section \<open>Validation\<close>

record provider =
  pr_id :: int
  pr_slug :: string
  pr_name :: string
  pr_issuer :: string
  pr_client :: string
  pr_secret :: string
  pr_scopes :: "string list"
  pr_trust :: bool
  pr_domains :: "string list"

record idp_options =
  io_allowlist :: "string list"
  io_insecure :: bool

definition lower_digit :: "char \<Rightarrow> bool" where
  "lower_digit c \<longleftrightarrow> CHR ''a'' \<le> c \<and> c \<le> CHR ''z'' \<or> is_digit c"

definition slug_re :: "string \<Rightarrow> bool" where
  "slug_re s \<longleftrightarrow> s \<noteq> [] \<and> length s \<le> 32 \<and> list_all (\<lambda>c. lower_digit c \<or> c = CHR ''-'') s"

definition idp_secret_env_re :: "string \<Rightarrow> bool" where
  "idp_secret_env_re s =
     (case cut_prefix s ''KAUTH_IDP_'' of Some (c # cs) \<Rightarrow> list_all env_name_char (c # cs) | _ \<Rightarrow> False)"

definition reserved_hosts :: "string list" where
  "reserved_hosts = [''accounts.google.com'', ''login.microsoftonline.com'', ''sts.windows.net'', ''login.live.com'',
     ''login.windows.net'', ''login.microsoft.com'']"

definition trim_prefix :: "string \<Rightarrow> string \<Rightarrow> string" where
  "trim_prefix s p = (case cut_prefix s p of Some t \<Rightarrow> t | None \<Rightarrow> s)"

definition trim_right_char :: "char \<Rightarrow> string \<Rightarrow> string" where
  "trim_right_char c s = rev (dropWhile (\<lambda>d. d = c) (rev s))"

definition is_reserved :: "env \<Rightarrow> string \<Rightarrow> bool" where
  "is_reserved e issuer =
     (let n = trim_right_char (CHR ''/'')
            (trim_prefix (trim_prefix (lower e (trim_space issuer)) ''https://'') ''http://'');
          host = (case e_url_parse e (''https://'' @ n) of
            Some u \<Rightarrow> ul_hostname u
          | None \<Rightarrow> takeWhile (\<lambda>c. c \<notin> {CHR ''/'', CHR ''?'', CHR ''#''}) n)
      in trim_right_char (CHR ''.'') host \<in> set reserved_hosts)"

definition in_allowlist :: "string list \<Rightarrow> string \<Rightarrow> bool" where
  "in_allowlist xs issuer \<longleftrightarrow> list_ex (\<lambda>a. a = issuer) xs"

definition valid_issuer_url :: "env \<Rightarrow> string \<Rightarrow> bool \<Rightarrow> bool" where
  "valid_issuer_url e issuer insecure =
     (case e_url_parse e issuer of
        None \<Rightarrow> False
      | Some u \<Rightarrow>
          ul_opaque u = [] \<and> ul_hostname u \<noteq> [] \<and> \<not> ul_has_user u \<and> ul_raw_query u = [] \<and>
          \<not> ul_force_query u \<and> ul_fragment u = [] \<and> CHR ''#'' \<notin> set issuer \<and>
          (ul_scheme u = ''https'' \<or> ul_scheme u = ''http'' \<and> insecure))"

definition split_list :: "env \<Rightarrow> string \<Rightarrow> char \<Rightarrow> string list" where
  "split_list e s sep = filter (\<lambda>f. f \<noteq> []) (map (\<lambda>f. lower e (trim_space f)) (split_on sep s))"

text \<open>A host name of at least two labels, the last of letters only.\<close>

definition label_ok :: "string \<Rightarrow> bool" where
  "label_ok l \<longleftrightarrow> l \<noteq> [] \<and> length l \<le> 63 \<and> lower_digit (hd l) \<and> lower_digit (last l) \<and>
     list_all (\<lambda>c. lower_digit c \<or> c = CHR ''-'') l"

definition valid_domain :: "string \<Rightarrow> bool" where
  "valid_domain d =
     (let ls = split_on (CHR ''.'') d; tld = last ls
      in 2 \<le> length ls \<and> list_all label_ok (butlast ls) \<and>
         2 \<le> length tld \<and> length tld \<le> 63 \<and> list_all (\<lambda>c. CHR ''a'' \<le> c \<and> c \<le> CHR ''z'') tld)"

text \<open>The checks in their order, each with its own reason.\<close>

definition provider_secret :: "env \<Rightarrow> provider_row \<Rightarrow> string + string" where
  "provider_secret e row =
     (case ip_client_secret_env row of
        None \<Rightarrow> Inr []
      | Some name \<Rightarrow>
          if \<not> idp_secret_env_re name then Inl ''secret_env_name''
          else if trim_space (e_getenv e name) = [] then Inl ''secret_env_empty''
          else Inr (e_getenv e name))"

definition provider_claims ::
  "env \<Rightarrow> provider_row \<Rightarrow> string \<Rightarrow> string + provider" where
  "provider_claims e row secret =
     (let scopes = GoStrings.fields (ip_scopes row); domains = split_list e (ip_email_domains row) (CHR '','') in
      if ''openid'' \<notin> set scopes then Inl ''scope_openid_missing''
      else if \<not> list_all valid_domain domains then Inl ''bad_email_domain''
      else if ip_trust_email row = 1 \<and> domains = [] then Inl ''trust_email_without_domains''
      else Inr \<lparr>pr_id = ip_id row, pr_slug = ip_slug row, pr_name = ip_display_name row, pr_issuer = ip_issuer row,
        pr_client = ip_client_id row, pr_secret = secret, pr_scopes = scopes,
        pr_trust = (ip_trust_email row = 1), pr_domains = domains\<rparr>)"

definition validate_provider :: "env \<Rightarrow> idp_options \<Rightarrow> provider_row \<Rightarrow> string + provider" where
  "validate_provider e opts row =
     (let name = trim_space (ip_display_name row) in
      if ip_active row \<noteq> 1 then Inl ''inactive''
      else if \<not> slug_re (ip_slug row) then Inl ''bad_slug''
      else if name = [] then Inl ''display_name_empty''
      else if 64 < length (runes name) then Inl ''display_name_too_long''
      else if \<not> in_allowlist (io_allowlist opts) (ip_issuer row) then Inl ''issuer_not_allowlisted''
      else if is_reserved e (ip_issuer row) then Inl ''issuer_reserved''
      else if \<not> valid_issuer_url e (ip_issuer row) (io_insecure opts) then Inl ''issuer_invalid''
      else case provider_secret e row of
        Inl reason \<Rightarrow> Inl reason
      | Inr secret \<Rightarrow> provider_claims e row secret)"

record idp_status =
  is_id :: int
  is_slug :: string
  is_name :: string
  is_issuer :: string
  is_active :: bool
  is_loaded :: bool
  is_reason :: string
  is_allowlisted :: bool
  is_secret_env :: string
  is_secret_set :: bool
  is_trust :: bool
  is_domains :: "string list"

definition build_status :: "env \<Rightarrow> idp_options \<Rightarrow> provider_row \<Rightarrow> bool \<Rightarrow> string \<Rightarrow> idp_status" where
  "build_status e opts row loaded reason =
     \<lparr>is_id = ip_id row, is_slug = ip_slug row, is_name = ip_display_name row, is_issuer = ip_issuer row, is_active = (ip_active row = 1),
      is_loaded = loaded, is_reason = reason, is_allowlisted = in_allowlist (io_allowlist opts) (ip_issuer row),
      is_secret_env = opt_str (ip_client_secret_env row),
      is_secret_set = (case ip_client_secret_env row of
          None \<Rightarrow> False
        | Some name \<Rightarrow> idp_secret_env_re name \<and> trim_space (e_getenv e name) \<noteq> []),
      is_trust = (ip_trust_email row = 1), is_domains = split_list e (ip_email_domains row) (CHR '','')\<rparr>"

section \<open>Loading and the registry\<close>

record idp_registry =
  ir_providers :: "(string \<times> provider) list"
  ir_by_service :: "string \<Rightarrow> string list"
  ir_statuses :: "idp_status list"

text \<open>The providers by slug (a map as its entries) and the slugs by id; a rejected row is skipped.\<close>

definition put :: "string \<Rightarrow> provider \<Rightarrow> (string \<times> provider) list \<Rightarrow> (string \<times> provider) list" where
  "put slug p ps = (slug, p) # filter (\<lambda>kv. fst kv \<noteq> slug) ps"

fun load_rows ::
  "env \<Rightarrow> idp_options \<Rightarrow> provider_row list \<Rightarrow> (string \<times> provider) list \<times> (int \<rightharpoonup> string) \<times> idp_status list \<Rightarrow>
   (string \<times> provider) list \<times> (int \<rightharpoonup> string) \<times> idp_status list" where
  "load_rows e opts [] acc = acc"
| "load_rows e opts (row # rows) (ps, slugs, sts) =
     (case validate_provider e opts row of
        Inl reason \<Rightarrow> load_rows e opts rows (ps, slugs, sts @ [build_status e opts row False reason])
      | Inr p \<Rightarrow> load_rows e opts rows
          (put (pr_slug p) p ps, slugs(pr_id p \<mapsto> pr_slug p), sts @ [build_status e opts row True []]))"

fun build_assignments :: "(int \<rightharpoonup> string) \<Rightarrow> assign_row list \<Rightarrow> (string \<Rightarrow> string list) \<Rightarrow> string \<Rightarrow> string list" where
  "build_assignments slugs [] acc = acc"
| "build_assignments slugs (a # as) acc =
     (case slugs (as_provider a) of
        None \<Rightarrow> build_assignments slugs as acc
      | Some slug \<Rightarrow> build_assignments slugs as (acc(as_service a := acc (as_service a) @ [slug])))"

definition load_idps :: "env \<Rightarrow> idp_options \<Rightarrow> call_ctx \<Rightarrow> (db_err + idp_registry) io" where
  "load_idps e opts ctx = do {
     rr \<leftarrow> db_read e ctx list_all_identity_providers;
     case rr of
       Inl x \<Rightarrow> return_io (Inl x)
     | Inr rows \<Rightarrow> do {
         ra \<leftarrow> db_read e ctx list_service_identity_providers;
         return_io (case ra of
           Inl x \<Rightarrow> Inl x
         | Inr assigns \<Rightarrow>
             (case load_rows e opts rows ([], Map.empty, []) of (ps, slugs, sts) \<Rightarrow>
                Inr \<lparr>ir_providers = ps, ir_by_service = build_assignments slugs assigns (\<lambda>_. []), ir_statuses = sts\<rparr>))
       }
   }"

definition slugs_of :: "(string \<times> provider) list \<Rightarrow> int \<rightharpoonup> string" where
  "slugs_of ps = map_of (map (\<lambda>(slug, p). (pr_id p, slug)) ps)"

definition reload_assignments ::
  "env \<Rightarrow> idp_registry \<Rightarrow> call_ctx \<Rightarrow> (db_err option \<times> idp_registry) io" where
  "reload_assignments e ir ctx = do {
     ra \<leftarrow> db_read e ctx list_service_identity_providers;
     return_io (case ra of
       Inl x \<Rightarrow> (Some x, ir)
     | Inr assigns \<Rightarrow> (None, ir\<lparr>ir_by_service := build_assignments (slugs_of (ir_providers ir)) assigns (\<lambda>_. [])\<rparr>))
   }"

definition for_service :: "idp_registry \<Rightarrow> string \<Rightarrow> provider list" where
  "for_service ir sid = List.map_filter (map_of (ir_providers ir)) (ir_by_service ir sid)"

definition provider_for :: "idp_registry \<Rightarrow> string \<Rightarrow> string \<Rightarrow> provider option" where
  "provider_for ir sid slug = List.find (\<lambda>p. pr_slug p = slug) (for_service ir sid)"

definition pkce_verifier :: "env \<Rightarrow> string \<Rightarrow> string \<Rightarrow> string" where
  "pkce_verifier e secret state = b64_encode (e_hmac e secret (''kauth-pkce'' @ CHR 0x00 # state))"

section \<open>What is ever loaded\<close>

text \<open>The secret is that of the variable the row names, which is one of those set aside for providers.\<close>

definition secret_from_env :: "env \<Rightarrow> string option \<Rightarrow> string \<Rightarrow> bool" where
  "secret_from_env e ref secret \<longleftrightarrow>
     (case ref of
        None \<Rightarrow> secret = []
      | Some name \<Rightarrow> take 10 name = ''KAUTH_IDP_'' \<and> drop 10 name \<noteq> [] \<and> list_all env_name_char (drop 10 name) \<and>
          secret = e_getenv e name \<and> trim_space secret \<noteq> [])"

text \<open>The provider may be used: the operator named its issuer, and its row passed every check.\<close>

definition provider_ok :: "env \<Rightarrow> idp_options \<Rightarrow> provider \<Rightarrow> bool" where
  "provider_ok e opts p \<longleftrightarrow>
     slug_re (pr_slug p) \<and> trim_space (pr_name p) \<noteq> [] \<and> length (runes (trim_space (pr_name p))) \<le> 64 \<and>
     pr_issuer p \<in> set (io_allowlist opts) \<and> \<not> is_reserved e (pr_issuer p) \<and>
     valid_issuer_url e (pr_issuer p) (io_insecure opts) \<and> ''openid'' \<in> set (pr_scopes p) \<and>
     list_all valid_domain (pr_domains p) \<and> \<not> (pr_trust p \<and> pr_domains p = [])"

definition provider_of_row :: "env \<Rightarrow> provider_row \<Rightarrow> provider \<Rightarrow> bool" where
  "provider_of_row e row p \<longleftrightarrow>
     ip_active row = 1 \<and> pr_id p = ip_id row \<and> pr_slug p = ip_slug row \<and> pr_name p = ip_display_name row \<and>
     pr_issuer p = ip_issuer row \<and> pr_client p = ip_client_id row \<and>
     secret_from_env e (ip_client_secret_env row) (pr_secret p) \<and> pr_trust p = (ip_trust_email row = 1)"

lemma secret_env_re: "idp_secret_env_re name \<Longrightarrow>
    take 10 name = ''KAUTH_IDP_'' \<and> drop 10 name \<noteq> [] \<and> list_all env_name_char (drop 10 name)"
  by (auto simp: idp_secret_env_re_def cut_prefix_def has_prefix_def eval_nat_numeral split: if_splits list.splits)

lemma provider_secret_Inr: "provider_secret e row = Inr secret \<Longrightarrow> secret_from_env e (ip_client_secret_env row) secret"
  using secret_env_re by (auto simp: provider_secret_def secret_from_env_def split: option.splits if_splits)

lemma validate_Inr:
  assumes "validate_provider e opts row = Inr p"
  shows "provider_ok e opts p \<and> provider_of_row e row p"
  using assms
  by (auto simp: validate_provider_def provider_claims_def provider_ok_def provider_of_row_def in_allowlist_def list_ex_iff Let_def
      split: if_splits sum.splits dest!: provider_secret_Inr)

lemma load_rows_sound:
  assumes "load_rows e opts rows (ps, slugs, sts) = (ps', slugs', sts')" and "(s, p) \<in> set ps'"
  shows "(s, p) \<in> set ps \<or> (s = pr_slug p \<and> (\<exists>row \<in> set rows. validate_provider e opts row = Inr p))"
  using assms
proof (induction rows arbitrary: ps slugs sts)
  case (Cons row rows)
  show ?case
  proof (cases "validate_provider e opts row")
    case (Inl reason)
    with Cons.IH [of ps slugs] Cons.prems show ?thesis by fastforce
  next
    case (Inr q)
    have "load_rows e opts rows (put (pr_slug q) q ps, slugs(pr_id q \<mapsto> pr_slug q), sts @ [build_status e opts row True []]) =
        (ps', slugs', sts')"
      using Cons.prems(1) Inr by simp
    from Cons.IH [OF this Cons.prems(2)] consider "(s, p) \<in> set (put (pr_slug q) q ps)"
      | "s = pr_slug p" "\<exists>row \<in> set rows. validate_provider e opts row = Inr p" by blast
    then show ?thesis
    proof cases
      case 1
      then have "(s, p) \<in> set ps \<or> s = pr_slug p \<and> p = q" by (auto simp: put_def)
      with Inr show ?thesis by auto
    qed auto
  qed
qed simp

lemma load_idps_Inr:
  assumes "run_state (load_idps e opts ctx) w = (Inr ir, w')" and "map_of (ir_providers ir) slug = Some p"
  shows "slug = pr_slug p \<and> provider_ok e opts p \<and>
    (\<exists>row \<in> set (t_providers (w_db w)). provider_of_row e row p)"
proof -
  have "wp (load_idps e opts ctx) (\<lambda>r w'. \<forall>ir. r = Inr ir \<longrightarrow>
      (\<exists>slugs sts. load_rows e opts (sort_key ip_slug (t_providers (w_db w))) ([], Map.empty, []) = (ir_providers ir, slugs, sts))) w"
    by (auto simp: load_idps_def wp_simps list_all_identity_providers_def split: option.split sum.split prod.split)
  from wpD [OF this assms(1)] obtain slugs sts where
    "load_rows e opts (sort_key ip_slug (t_providers (w_db w))) ([], Map.empty, []) = (ir_providers ir, slugs, sts)" by blast
  from load_rows_sound [OF this map_of_SomeD [OF assms(2)]] show ?thesis
    using validate_Inr by fastforce
qed

lemma for_service_loaded: "p \<in> set (for_service ir sid) \<Longrightarrow> \<exists>slug. map_of (ir_providers ir) slug = Some p"
  by (auto simp: for_service_def set_map_filter)

lemma build_assignments_set:
  "slug \<in> set (build_assignments slugs as acc sid) \<longleftrightarrow>
     slug \<in> set (acc sid) \<or> (\<exists>a \<in> set as. as_service a = sid \<and> slugs (as_provider a) = Some slug)"
  by (induction as arbitrary: acc) (auto split: option.split)

text \<open>A reload changes the assignments only, and assigns only what is loaded and active in the database.\<close>

lemma reload_result:
  assumes "run_state (reload_assignments e ir ctx) w = ((err, ir'), w')"
  shows "ir_providers ir' = ir_providers ir \<and> ir_statuses ir' = ir_statuses ir \<and> w_db w' = w_db w \<and>
    (if err = None then \<forall>sid slug. slug \<in> set (ir_by_service ir' sid) \<longrightarrow>
        (\<exists>a \<in> set (t_assign (w_db w)). as_service a = sid \<and> slugs_of (ir_providers ir) (as_provider a) = Some slug \<and>
          (\<exists>p. provider_of (w_db w) (as_provider a) = Some p \<and> ip_active p = 1) \<and>
          (\<exists>s \<in> set (t_services (w_db w)). sv_id s = sid \<and> sv_active s = 1))
     else ir' = ir)"
proof -
  have "wp (reload_assignments e ir ctx) (\<lambda>r w'. w_db w' = w_db w \<and>
      (\<forall>err ir'. r = (err, ir') \<longrightarrow> (err \<noteq> None \<and> ir' = ir) \<or>
        (err = None \<and> (\<exists>rows. list_service_identity_providers (w_db w) = Inr rows \<and>
           ir' = ir\<lparr>ir_by_service := build_assignments (slugs_of (ir_providers ir)) rows (\<lambda>_. [])\<rparr>)))) w"
    by (auto simp: reload_assignments_def wp_simps list_service_identity_providers_def split: option.split sum.split)
  from wpD [OF this assms] show ?thesis
  proof (elim conjE allE impE disjE exE)
    fix rows assume rows: "list_service_identity_providers (w_db w) = Inr rows"
      "ir' = ir\<lparr>ir_by_service := build_assignments (slugs_of (ir_providers ir)) rows (\<lambda>_. [])\<rparr>" "err = None" "w_db w' = w_db w"
    then show ?thesis using active_assignments [OF rows(1)] by (auto simp: build_assignments_set)
  qed auto
qed

lemma evolves_idp [evolve_intros]: "evolves R (load_idps e opts ctx)" "evolves R (reload_assignments e ir ctx)"
  unfolding load_idps_def reload_assignments_def by (intro evolve_intros)+

section \<open>Properties\<close>

text \<open>C36. Whatever the database holds, a service is offered only providers that were an active row when they were loaded,
  whose issuer the operator allowed and which passed every check: a slug of 1 to 32 small letters, digits and dashes, a
  name of 1 to 64 characters, no reserved host, a valid https issuer
  (http only in insecure mode), a secret that was read from a nonempty variable with
  the prefix \<open>KAUTH_IDP_\<close> and from no other, the scope \<open>openid\<close>, valid domains, and no trust in addresses without a
  list of domains.\<close>

theorem loaded_providers_are_checked:
  assumes "run_state (load_idps e opts ctx) w = (Inr ir, w')" and "p \<in> set (for_service ir sid)"
  shows "slug_re (pr_slug p) \<and> trim_space (pr_name p) \<noteq> [] \<and> length (runes (trim_space (pr_name p))) \<le> 64 \<and>
    pr_issuer p \<in> set (io_allowlist opts) \<and> \<not> is_reserved e (pr_issuer p) \<and>
    valid_issuer_url e (pr_issuer p) (io_insecure opts) \<and> ''openid'' \<in> set (pr_scopes p) \<and>
    list_all valid_domain (pr_domains p) \<and> \<not> (pr_trust p \<and> pr_domains p = []) \<and>
    (\<exists>row \<in> set (t_providers (w_db w)). ip_active row = 1 \<and> ip_id row = pr_id p \<and> ip_slug row = pr_slug p \<and>
       ip_issuer row = pr_issuer p \<and> ip_client_id row = pr_client p \<and>
       (case ip_client_secret_env row of
          None \<Rightarrow> pr_secret p = []
        | Some name \<Rightarrow> take 10 name = ''KAUTH_IDP_'' \<and> drop 10 name \<noteq> [] \<and> list_all env_name_char (drop 10 name) \<and>
            pr_secret p = e_getenv e name \<and> trim_space (pr_secret p) \<noteq> []))"
proof -
  from for_service_loaded [OF assms(2)] obtain slug where "map_of (ir_providers ir) slug = Some p" ..
  from load_idps_Inr [OF assms(1) this] obtain row where "provider_ok e opts p" "row \<in> set (t_providers (w_db w))"
    "provider_of_row e row p" by blast
  then show ?thesis
    by (intro conjI bexI [of _ row]) (simp_all add: provider_ok_def provider_of_row_def secret_from_env_def)
qed

definition assigned_world :: world where
  "assigned_world = demo_world\<lparr>w_db := demo_db\<lparr>t_assign := [\<lparr>as_service = ''app'', as_provider = 3, as_position = 0\<rparr>]\<rparr>\<rparr>"

definition demo_idp_options :: idp_options where
  "demo_idp_options = \<lparr>io_allowlist = [''https://idp.x.no''], io_insecure = False\<rparr>"

definition demo_idp :: provider where
  "demo_idp = \<lparr>pr_id = 3, pr_slug = ''idp'', pr_name = ''IdP'', pr_issuer = ''https://idp.x.no'', pr_client = ''c'',
     pr_secret = [], pr_scopes = [''openid''], pr_trust = False, pr_domains = []\<rparr>"

lemma demo_provider_valid: "validate_provider demo_env demo_idp_options demo_provider = Inr demo_idp"
  by code_simp

theorem loaded_providers_are_checked_witness:
  "\<exists>ir w'. run_state (load_idps demo_env demo_idp_options Detached) assigned_world = (Inr ir, w') \<and>
     ''openid'' \<in> set (pr_scopes (hd (for_service ir ''app'')))"
proof -
  let ?row = "\<lparr>as_service = ''app'', as_provider = 3, as_position = 0\<rparr>"
  have rows: "list_all_identity_providers (w_db assigned_world) = Inr [demo_provider]"
    "list_service_identity_providers (w_db assigned_world) = Inr [?row]"
    by (simp_all add: list_all_identity_providers_def list_service_identity_providers_def joined_assignments_def
        by_position_def assigned_world_def demo_db_def demo_provider_def demo_service_def provider_of_def List.map_filter_simps)
  obtain sts where l: "load_rows demo_env demo_idp_options [demo_provider] ([], Map.empty, []) =
      ([(''idp'', demo_idp)], [3 \<mapsto> ''idp''], sts)"
    by (simp add: demo_provider_valid put_def demo_idp_def)
  let ?ir = "\<lparr>ir_providers = [(''idp'', demo_idp)], ir_by_service = build_assignments [3 \<mapsto> ''idp''] [?row] (\<lambda>_. []), ir_statuses = sts\<rparr>"
  have db: "db_failure demo_env Detached i = None" for i by (simp add: db_failure_def demo_env_def)
  have "\<exists>w'. run_state (load_idps demo_env demo_idp_options Detached) assigned_world = (Inr ?ir, w')"
    by (simp add: load_idps_def io_simps rows db l del: load_rows.simps build_assignments.simps)
  then obtain w' where run: "run_state (load_idps demo_env demo_idp_options Detached) assigned_world = (Inr ?ir, w')" ..
  have "for_service ?ir ''app'' = [demo_idp]" by (simp add: for_service_def List.map_filter_simps)
  with loaded_providers_are_checked [OF run, of demo_idp "''app''"] run show ?thesis by fastforce
qed

end
