(* ===== verification/OidcRequest.thy ===== *)
theory OidcRequest
  imports Login
begin

text \<open>
  Standard OIDC authorization requests and PKCE: \<open>internal/auth/oidc_request.go\<close>.  The request is
  carried through the login in an unsigned cookie; \<open>/dispatch\<close> and \<open>/token\<close> check everything in
  it again.
\<close>

record authz_request =
  az_client :: string
  az_redirect :: string
  az_state :: string
  az_nonce :: string
  az_scope :: string
  az_challenge :: string
  az_method :: string

definition authz_cookie_name :: string where "authz_cookie_name = ''oidc_authz''"

definition is_authz_request :: "url_values \<Rightarrow> bool" where
  "is_authz_request q \<longleftrightarrow> values_get q ''response_type'' = ''code'' \<and> values_get q ''client_id'' \<noteq> []"

definition parse_authz_request :: "url_values \<Rightarrow> authz_request" where
  "parse_authz_request q =
     \<lparr>az_client = values_get q ''client_id'', az_redirect = values_get q ''redirect_uri'',
      az_state = values_get q ''state'', az_nonce = values_get q ''nonce'', az_scope = values_get q ''scope'',
      az_challenge = values_get q ''code_challenge'', az_method = values_get q ''code_challenge_method''\<rparr>"

definition authz_values :: "authz_request \<Rightarrow> url_values" where
  "authz_values z =
     values_set ''code_challenge_method'' (az_method z) (values_set ''code_challenge'' (az_challenge z)
       (values_set ''scope'' (az_scope z) (values_set ''nonce'' (az_nonce z) (values_set ''state'' (az_state z)
         (values_set ''redirect_uri'' (az_redirect z) (values_set ''client_id'' (az_client z) []))))))"

definition authz_cookie :: "env \<Rightarrow> authz_request \<Rightarrow> cookie" where
  "authz_cookie e z = auth_cookie e authz_cookie_name (query_escape (values_encode (authz_values z))) SameSiteLax 600"

definition set_authz_cookie :: "env \<Rightarrow> authz_request \<Rightarrow> unit io" where
  "set_authz_cookie e z = set_cookie (authz_cookie e z)"

definition read_authz_cookie :: "request \<Rightarrow> authz_request option" where
  "read_authz_cookie r = do {
     v \<leftarrow> cookie_get r authz_cookie_name;
     raw \<leftarrow> query_unescape v;
     q \<leftarrow> parse_query raw;
     (let z = parse_authz_request q in if az_client z = [] \<or> az_redirect z = [] then None else Some z)
   }"

definition clear_authz_cookie :: "env \<Rightarrow> unit io" where
  "clear_authz_cookie e = set_cookie (auth_cookie e authz_cookie_name [] SameSiteLax (-1))"

definition s256_challenge :: "env \<Rightarrow> string \<Rightarrow> string" where
  "s256_challenge e verifier = b64_encode (e_sha256 e verifier)"

definition verify_pkce :: "env \<Rightarrow> string \<Rightarrow> string \<Rightarrow> string \<Rightarrow> bool" where
  "verify_pkce e verifier challenge meth \<longleftrightarrow>
     verifier \<noteq> [] \<and> challenge \<noteq> [] \<and> meth = ''S256'' \<and> s256_challenge e verifier = challenge"

definition redirect_with_oidc_error :: "env \<Rightarrow> string \<Rightarrow> string \<Rightarrow> string \<Rightarrow> reply" where
  "redirect_with_oidc_error e uri code state =
     (case e_url_parse e uri of
        None \<Rightarrow> HttpError 500 ''intern feil''
      | Some u \<Rightarrow>
          (let q = values_set ''error'' code (url_query (ul_raw_query u));
               q' = if state \<noteq> [] then values_set ''state'' state q else q
           in Redirect 303 (e_url_with_query e uri (values_encode q'))))"

definition build_redirect_with_code :: "env \<Rightarrow> string \<Rightarrow> string \<Rightarrow> string \<Rightarrow> string option" where
  "build_redirect_with_code e uri code state =
     (case e_url_parse e uri of
        None \<Rightarrow> None
      | Some u \<Rightarrow>
          (let q = values_set ''code'' code (url_query (ul_raw_query u));
               q' = if state \<noteq> [] then values_set ''state'' state q else q
           in Some (e_url_with_query e uri (values_encode q'))))"

definition generate_authorization_code :: "env \<Rightarrow> string option io" where
  "generate_authorization_code e = do { b \<leftarrow> rand_read e 32; return_io (map_option b64_encode b) }"

section \<open>The cookie carries the request unchanged\<close>

lemma parse_authz_values: "parse_authz_request (sort_key fst (authz_values z)) = z"
  by (simp add: parse_authz_request_def authz_values_def)

lemma read_authz_cookie_set:
  assumes "cookie_get r authz_cookie_name = Some (ck_value (authz_cookie e z))"
    and "az_client z \<noteq> []" and "az_redirect z \<noteq> []"
  shows "read_authz_cookie r = Some z"
  using assms
  by (simp add: read_authz_cookie_def authz_cookie_def auth_cookie_def parse_encode parse_authz_values Let_def)

lemma verify_pkce_challenge: "verify_pkce e verifier challenge meth \<Longrightarrow> challenge = s256_challenge e verifier"
  by (simp add: verify_pkce_def)

text \<open>The code reaches the client under its own key, whatever query the registered address had.\<close>

lemma code_redirect_query:
  assumes "e_url_parse e uri = Some u"
  shows "\<exists>q. build_redirect_with_code e uri code state = Some (e_url_with_query e uri q) \<and>
    values_get (url_query q) ''code'' = code \<and> (state \<noteq> [] \<longrightarrow> values_get (url_query q) ''state'' = state)"
  using assms by (auto simp: build_redirect_with_code_def Let_def url_query_encode)

section \<open>Properties\<close>

text \<open>An authorization request survives the login unchanged: what \<open>/dispatch\<close> reads from the cookie is the
  request that \<open>/login\<close> stored in it, whatever characters its parameters have.\<close>

theorem authz_cookie_roundtrip:
  assumes "cookie_get r authz_cookie_name = Some (ck_value (authz_cookie e z))"
    and "az_client z \<noteq> []" and "az_redirect z \<noteq> []"
  shows "read_authz_cookie r = Some z"
  using assms by (rule read_authz_cookie_set)

definition demo_authz :: authz_request where
  "demo_authz = \<lparr>az_client = ''app'', az_redirect = ''https://app.x.no/cb?a=1&b=2'', az_state = ''s;t=%41'', az_nonce = [],
     az_scope = ''openid email'', az_challenge = ''c'', az_method = ''S256''\<rparr>"

theorem authz_cookie_roundtrip_witness:
  "read_authz_cookie (demo_request\<lparr>rq_cookies := [(''oidc_authz'', ck_value (authz_cookie demo_env demo_authz))]\<rparr>) = Some demo_authz"
  by (rule authz_cookie_roundtrip [of _ demo_env]) (simp_all add: cookie_get_def authz_cookie_name_def demo_authz_def)

end
