(* ===== verification/LoginPage.thy ===== *)
theory LoginPage
  imports I18n Idp OidcRequest
begin

text \<open>
  The login page, which is also the authorization endpoint of standard OIDC clients: \<open>internal/auth/login.go\<close>.
  A rendered page is the name of its template with the fields that the program decides; the template files are
  not modelled.
\<close>

section \<open>Background and common fields\<close>

definition bg_image_css :: "string \<Rightarrow> string \<Rightarrow> string" where
  "bg_image_css path suffix = ''url('' @ CHR 0x27 # ''/static'' @ path @ CHR 0x27 # '') center/cover no-repeat'' @ suffix"

definition build_bg_css :: "string \<Rightarrow> string option \<Rightarrow> string option \<Rightarrow> string \<times> string" where
  "build_bg_css theme img css =
     (if theme = ''dark''
      then (if nonempty css then opt_str css else ''#09090B'',
            if nonempty img then bg_image_css (opt_str img) [] else [])
      else (if nonempty img then bg_image_css (opt_str img) '' fixed''
            else if nonempty css then opt_str css
            else bg_image_css ''/fjord-dawn.jpg'' '' fixed'', []))"

definition logo_html :: "service_row \<Rightarrow> string" where
  "logo_html svc = opt_str (sv_logo_html svc)"

definition page_fields ::
  "env \<Rightarrow> request \<Rightarrow> service_row \<Rightarrow> (string \<Rightarrow> bool) \<Rightarrow> (string \<times> string) list" where
  "page_fields e r svc known =
     (let (body, before) = build_bg_css (sv_theme svc) (sv_bg_image svc) (sv_bg_css svc); loc = locale_of e r in
      [(''service'', sv_id svc), (''logo'', logo_html svc), (''body_css'', body), (''before_css'', before),
       (''locale'', loc)] @
      map (\<lambda>l. (''lang'', lk_href l)) (lang_links loc (lang_link_url known r)))"

definition html_headers :: "unit io" where
  "html_headers = set_headers [(''Content-Type'', ''text/html; charset=utf-8''), (''Vary'', ''Accept-Language'')]"

section \<open>GET /login\<close>

record login_handler =
  lh_cache :: "service_row list"
  lh_password :: bool
  lh_idps :: "idp_registry option"
  lh_taglines :: "string \<rightharpoonup> (string \<rightharpoonup> string)"

definition login_providers :: "login_handler \<Rightarrow> string \<Rightarrow> (string \<times> string) list" where
  "login_providers h sid =
     (case lh_idps h of None \<Rightarrow> [] | Some ir \<Rightarrow> map (\<lambda>p. (pr_slug p, pr_name p)) (for_service ir sid))"

definition page_tagline :: "login_handler \<Rightarrow> service_row \<Rightarrow> string \<Rightarrow> string" where
  "page_tagline h svc loc =
     (let t = tagline (lh_taglines h) (sv_id svc) loc in if t = [] then opt_str (sv_tagline svc) else t)"

definition flag_text :: "bool \<Rightarrow> string" where
  "flag_text b = (if b then ''1'' else ''0'')"

definition render_login :: "env \<Rightarrow> login_handler \<Rightarrow> request \<Rightarrow> service_row \<Rightarrow> string \<Rightarrow> reply io" where
  "render_login e h r svc redirect_uri = do {
     html_headers;
     return_io (Page 200 ''login.html''
       (page_fields e r svc known_login_error @
        [(''redirect_uri'', redirect_uri), (''error'', query_get r ''error''),
         (''tagline'', page_tagline h svc (locale_of e r)), (''password'', flag_text (lh_password h)),
         (''github'', flag_text (sv_auth_github svc = 1))] @
        map (\<lambda>(slug, name). (''provider:'' @ slug, name)) (login_providers h (sv_id svc))))
   }"

text \<open>
  An authorization request names its service by \<open>client_id\<close>.  An unknown client or an unregistered address gets
  an error page, never a redirect; a request without PKCE gets a redirect to the registered address.
\<close>

definition authorize :: "env \<Rightarrow> login_handler \<Rightarrow> request \<Rightarrow> reply io" where
  "authorize e h r =
     (let z = parse_authz_request (rq_query r) in
      case resolve e (lh_cache h) [] (az_client z) [] of
        None \<Rightarrow> return_io (HttpError 400 ''ukjent client_id'')
      | Some svc \<Rightarrow>
          if \<not> is_allowed_callback (Some svc) (az_redirect z)
          then return_io (HttpError 400 ''redirect_uri er ikke registrert for denne klienten'')
          else if \<not> (az_method z = ''S256'' \<and> az_challenge z \<noteq> [])
          then return_io (redirect_with_oidc_error e (az_redirect z) ''invalid_request'' (az_state z))
          else do { set_authz_cookie e z; render_login e h r svc [] })"

definition serve_login :: "env \<Rightarrow> login_handler \<Rightarrow> handler" where
  "serve_login e h r =
     (if is_authz_request (rq_query r) then authorize e h r
      else do {
        clear_authz_cookie e;
        (case resolve_or_default e (lh_cache h) (rq_host r) (query_get r ''service'') (query_get r ''redirect_uri'') of
           None \<Rightarrow> return_io (HttpError 400 ''ukjent tjeneste'')
         | Some svc \<Rightarrow> render_login e h r svc (query_get r ''redirect_uri''))
      })"

text \<open>\<open>raw_query\<close> is \<open>r.URL.RawQuery\<close>.\<close>

definition serve_legacy_login :: "string \<Rightarrow> reply" where
  "serve_legacy_login raw_query = Redirect 301 (''/login'' @ (if raw_query \<noteq> [] then CHR ''?'' # raw_query else []))"

section \<open>Lemmas\<close>

lemma evolves_login_page [evolve_intros]: "evolves R (render_login e h r svc uri)" "evolves R (serve_login e h r)"
  unfolding render_login_def html_headers_def serve_login_def authorize_def Let_def set_authz_cookie_def clear_authz_cookie_def
  by (intro evolve_intros)+

lemma render_login_wp:
  "wp (render_login e h r svc uri) (\<lambda>reply w'. w_cookies w' = w_cookies w \<and> w_db w' = w_db w \<and>
     (\<exists>fs. reply = Page 200 ''login.html'' fs \<and> map_of fs ''service'' = Some (sv_id svc))) w"
  by (simp add: render_login_def html_headers_def wp_simps page_fields_def Let_def split: prod.split)

text \<open>What an authorization request can lead to.\<close>

lemma authorize_wp:
  "wp (authorize e h r) (\<lambda>reply w'. let z = parse_authz_request (rq_query r) in
     (\<exists>code. reply = HttpError 400 code \<and> w_cookies w' = w_cookies w) \<or>
     (\<exists>svc. resolve e (lh_cache h) [] (az_client z) [] = Some svc \<and> az_redirect z \<in> set (callback_urls (sv_callback svc)) \<and>
        ((reply = redirect_with_oidc_error e (az_redirect z) ''invalid_request'' (az_state z) \<and> w_cookies w' = w_cookies w) \<or>
         (az_method z = ''S256'' \<and> az_challenge z \<noteq> [] \<and> w_cookies w' = w_cookies w @ [authz_cookie e z] \<and>
          (\<exists>fs. reply = Page 200 ''login.html'' fs \<and> map_of fs ''service'' = Some (sv_id svc)))))) w"
proof -
  let ?z = "parse_authz_request (rq_query r)"
  show ?thesis
  proof (cases "resolve e (lh_cache h) [] (az_client ?z) []")
    case None
    then show ?thesis by (simp add: authorize_def Let_def wp_simps)
  next
    case (Some svc)
    have page: "wp (render_login e h r svc []) (\<lambda>reply w'. w_cookies w' = w_cookies w1 \<and>
        (\<exists>fs. reply = Page 200 ''login.html'' fs \<and> map_of fs ''service'' = Some (sv_id svc))) w1" for w1
      by (rule wp_mono [OF render_login_wp]) auto
    have allowed: "is_allowed_callback (Some svc) (az_redirect ?z) \<Longrightarrow> az_redirect ?z \<in> set (callback_urls (sv_callback svc))"
      by (auto simp: is_allowed_callback_def split: if_splits)
    show ?thesis
      using Some allowed
      by (auto simp: authorize_def Let_def wp_simps set_authz_cookie_def intro!: wp_mono [OF page])
  qed
qed

section \<open>Properties\<close>

text \<open>C6. The authorization endpoint sends the browser nowhere but to an address that the named client has
  registered, and only with an error code; the request is remembered only if it also carries an S256 challenge, and
  then as the client's own page.  An unknown client or an unregistered address ends on an error page of kauth.\<close>

theorem authorization_request_gate:
  assumes "is_authz_request (rq_query r)"
  shows "case run_state (serve_login e h r) w of (reply, w') \<Rightarrow>
    let z = parse_authz_request (rq_query r) in
     (\<exists>code. reply = HttpError 400 code \<and> w_cookies w' = w_cookies w) \<or>
     (\<exists>svc. resolve e (lh_cache h) [] (az_client z) [] = Some svc \<and> az_redirect z \<in> set (callback_urls (sv_callback svc)) \<and>
        ((reply = redirect_with_oidc_error e (az_redirect z) ''invalid_request'' (az_state z) \<and> w_cookies w' = w_cookies w) \<or>
         (az_method z = ''S256'' \<and> az_challenge z \<noteq> [] \<and> w_cookies w' = w_cookies w @ [authz_cookie e z] \<and>
          (\<exists>fs. reply = Page 200 ''login.html'' fs \<and> map_of fs ''service'' = Some (sv_id svc)))))"
  using authorize_wp [of e h r w] assms by (simp add: wp_def serve_login_def)

definition demo_login_handler :: login_handler where
  "demo_login_handler = \<lparr>lh_cache = [demo_service], lh_password = True, lh_idps = None, lh_taglines = Map.empty\<rparr>"

theorem authorization_request_gate_witness:
  "\<exists>reply w'. run_state (serve_login demo_env demo_login_handler
      (demo_request\<lparr>rq_query := [(''response_type'', ''code''), (''client_id'', ''other'')]\<rparr>)) demo_world = (reply, w') \<and>
    w_cookies w' = []"
proof -
  let ?r = "demo_request\<lparr>rq_query := [(''response_type'', ''code''), (''client_id'', ''other'')]\<rparr>"
  have az: "is_authz_request (rq_query ?r)" by (simp add: is_authz_request_def values_get_def)
  have "resolve demo_env [demo_service] [] ''other'' [] = None"
    by (simp add: resolve_def by_domain_def redirect_host_def by_auth_host_def by_id_def demo_service_def by_suffix_def)
  with authorization_request_gate [OF az, where e = demo_env and h = demo_login_handler and w = demo_world]
  show ?thesis
    by (auto simp: Let_def parse_authz_request_def values_get_def demo_login_handler_def demo_world_def split: prod.splits)
qed

end
