(* ===== verification/Magic.thy ===== *)
theory Magic
  imports LoginPage
begin

text \<open>
  Login by a link in a mail: \<open>internal/auth/magic.go\<close>.  A request stores the hash of a random token and hands
  the mailer a link with the token; the link shows a page, and only the page's POST redeems the token.
  \<open>base_url\<close> is \<open>cfg.BaseURL\<close> and \<open>tok\<close> the token of the path.  The padding of the response time is not modelled.
\<close>

section \<open>Requesting a link\<close>

definition known_magic_error :: "string \<Rightarrow> bool" where
  "known_magic_error s \<longleftrightarrow>
     s \<in> {''expired'', ''rate'', ''invalid_redirect'', ''no_account'', ''access_denied'', ''login_failed''}"

definition no_login_error :: "string \<Rightarrow> bool" where
  "no_login_error s \<longleftrightarrow> False"

definition show_magic_form :: "env \<Rightarrow> service_row list \<Rightarrow> handler" where
  "show_magic_form e cache r =
     (case resolve_requested_service e cache r (query_get r ''service'') of
        None \<Rightarrow> return_io panic_reply
      | Some svc \<Rightarrow> do {
          html_headers;
          return_io (Page 200 ''magic-login.html''
            (page_fields e r svc known_magic_error @ [(''error'', query_get r ''error'')]))
        })"

definition magic_base_url :: "string \<Rightarrow> service_row \<Rightarrow> string" where
  "magic_base_url base_url svc = link_base_url base_url (Some svc)"

definition magic_link_params :: "env \<Rightarrow> service_row \<Rightarrow> string \<Rightarrow> string \<Rightarrow> instant \<Rightarrow> magic_params" where
  "magic_link_params e svc email plain now =
     \<lparr>mp_token = hash_opaque e plain, mp_email = email, mp_service = Some (sv_id svc), mp_redirect = None,
      mp_purpose = ''service'', mp_created = format_utc now, mp_expires = format_utc (now + 15 * minute),
      mp_window_start = format_utc (now - 15 * minute)\<rparr>"

definition store_magic_token ::
  "env \<Rightarrow> call_ctx \<Rightarrow> service_row option \<Rightarrow> string \<Rightarrow> string \<Rightarrow> bool io" where
  "store_magic_token e ctx svc email plain =
     (case svc of
        None \<Rightarrow> return_io False
      | Some s \<Rightarrow>
          if sv_auth_magic s \<noteq> 1 \<or> \<not> valid_email email then return_io False
          else if \<not> check_magic_purpose ''service'' (Some (sv_id s)) then return_io False
          else do {
            now \<leftarrow> time_now e;
            rn \<leftarrow> db_write e ctx (insert_magic_limited (magic_link_params e s email plain now));
            return_io (case rn of Inl _ \<Rightarrow> False | Inr n \<Rightarrow> n = 1)
          })"

definition magic_mail :: "env \<Rightarrow> string \<Rightarrow> service_row \<Rightarrow> string \<Rightarrow> string \<Rightarrow> string \<Rightarrow> mail" where
  "magic_mail e base_url svc email plain loc =
     SendMagicLink email (sv_email_from_name svc)
       (magic_base_url base_url svc @ ''/magic-login/'' @ plain @ ''?'' @
        values_encode (values_set ''lang'' loc (values_set ''service'' (sv_id svc) [])))
       loc (opt_str (sv_email_from_address svc))"

definition requested_service :: "request \<Rightarrow> string" where
  "requested_service r =
     (let sid = form_value r ''service'' in if sid = [] then form_value r ''service_id'' else sid)"

definition mail_link :: "env \<Rightarrow> string \<Rightarrow> service_row option \<Rightarrow> string \<Rightarrow> string \<Rightarrow> string \<Rightarrow> bool \<Rightarrow> unit io" where
  "mail_link e base_url svc email plain loc ok =
     (case svc of
        Some s \<Rightarrow> if ok then send_mail (magic_mail e base_url s email plain loc) else return_io ()
      | None \<Rightarrow> return_io ())"

definition request_link :: "env \<Rightarrow> service_row list \<Rightarrow> string \<Rightarrow> handler" where
  "request_link e cache base_url r =
     (let email = normalize_email e (form_value r ''email'');
          svc = resolve_requested_service e cache r (requested_service r)
      in do {
        b \<leftarrow> rand_read e 32;
        case b of
          None \<Rightarrow> return_io (HttpError 500 ''intern feil'')
        | Some bytes \<Rightarrow> do {
            ok \<leftarrow> store_magic_token e ReqCtx svc email (hex_encode bytes);
            mail_link e base_url svc email (hex_encode bytes) (locale_of e r) ok;
            return_io (Plain 200 ''sjekk e-post'')
          }
      })"

section \<open>The confirmation page\<close>

definition magic_error :: "string \<Rightarrow> string \<Rightarrow> string \<Rightarrow> reply" where
  "magic_error sid code loc =
     Redirect 302 (''/magic-login?'' @
       values_encode (values_set ''lang'' loc (values_set ''error'' code (values_set ''service'' sid []))))"

text \<open>An error redirect to the service of the request; there may be none to name.\<close>

definition hint_error :: "service_row option \<Rightarrow> string \<Rightarrow> string \<Rightarrow> reply" where
  "hint_error hint code loc = (case hint of None \<Rightarrow> panic_reply | Some s \<Rightarrow> magic_error (sv_id s) code loc)"

definition render_confirm :: "env \<Rightarrow> request \<Rightarrow> service_row \<Rightarrow> nat \<Rightarrow> bool \<Rightarrow> reply io" where
  "render_confirm e r svc status blocked = do {
     set_headers [(''Content-Type'', ''text/html; charset=utf-8''), (''Cache-Control'', ''no-store''),
       (''Vary'', ''Accept-Language'')];
     return_io (Page status ''magic-confirm.html''
       (page_fields e r svc no_login_error @
        [(''action'', rq_path r @ ''?'' @ values_encode (values_set ''lang'' (locale_of e r) (values_set ''service'' (sv_id svc) []))),
         (''blocked'', flag_text blocked)]))
   }"

definition stored_service :: "env \<Rightarrow> service_row list \<Rightarrow> magic_row \<Rightarrow> service_row option" where
  "stored_service e cache row =
     (case mt_service row of
        None \<Rightarrow> None
      | Some sid \<Rightarrow>
          (case resolve e cache [] sid [] of
             None \<Rightarrow> None
           | Some s \<Rightarrow> if sv_auth_magic s \<noteq> 1 then None else Some s))"

definition magic_hint :: "env \<Rightarrow> service_row list \<Rightarrow> request \<Rightarrow> service_row option" where
  "magic_hint e cache r = resolve_requested_service e cache r (query_get r ''service'')"

definition show_confirm :: "env \<Rightarrow> service_row list \<Rightarrow> string \<Rightarrow> handler" where
  "show_confirm e cache tok r = do {
     now \<leftarrow> time_now e;
     rr \<leftarrow> db_read e ReqCtx (get_valid_magic (hash_opaque e tok) ''service'' (format_utc now));
     case (case rr of Inl _ \<Rightarrow> None | Inr row \<Rightarrow> stored_service e cache row) of
       None \<Rightarrow> return_io (hint_error (magic_hint e cache r) ''expired'' (locale_of e r))
     | Some svc \<Rightarrow> render_confirm e r svc 200 False
   }"

section \<open>Redeeming a link\<close>

text \<open>A POST from another page changes nothing: it shows the page again, in the colours of the token's service.\<close>

definition blocked_redeem :: "env \<Rightarrow> service_row list \<Rightarrow> string \<Rightarrow> string \<Rightarrow> handler" where
  "blocked_redeem e cache h now r = do {
     rr \<leftarrow> db_read e ReqCtx (get_valid_magic h ''service'' now);
     case (case rr of Inl _ \<Rightarrow> magic_hint e cache r
             | Inr row \<Rightarrow> (case stored_service e cache row of Some s \<Rightarrow> Some s | None \<Rightarrow> magic_hint e cache r)) of
       None \<Rightarrow> return_io panic_reply
     | Some svc \<Rightarrow> render_confirm e r svc 403 True
   }"

definition magic_event :: "request \<Rightarrow> string \<Rightarrow> string \<Rightarrow> string \<Rightarrow> event" where
  "magic_event r email sid details = method_event r ''login_failed'' ''magic_link'' email sid False details"

definition magic_user_params :: "env \<Rightarrow> service_row \<Rightarrow> string \<Rightarrow> string \<Rightarrow> instant \<Rightarrow> user_params" where
  "magic_user_params e svc public_id email now =
     \<lparr>up_public_id = public_id, up_email = email, up_password_hash = None, up_name = None,
      up_roles = (if nonempty (sv_default_role svc) then opt_str (sv_default_role svc) else ''user''),
      up_orgs = opt_str (sv_default_org svc), up_created = format_utc now\<rparr>"

text \<open>The user of the address: an active one, or a new one where the service registers users itself.\<close>

definition register_magic :: "env \<Rightarrow> catalog \<Rightarrow> request \<Rightarrow> service_row \<Rightarrow> magic_row \<Rightarrow> (reply + user_row) io" where
  "register_magic e cat r svc magic =
     (if sv_auto_register svc \<noteq> 1 then return_io (Inl (magic_error (sv_id svc) ''no_account'' (locale_of e r)))
      else do {
        p \<leftarrow> new_public_id e;
        case p of
          None \<Rightarrow> return_io (Inl (HttpError 500 (get_text cat (locale_of e r) ''ErrInternal'')))
        | Some public_id \<Rightarrow> do {
            now \<leftarrow> time_now e;
            ru \<leftarrow> db_write e ReqCtx (create_user
              (magic_user_params e svc public_id (normalize_email e (mt_email magic)) now));
            case ru of
              Inr user \<Rightarrow> return_io (Inr user)
            | Inl x \<Rightarrow>
                if x \<noteq> UniqueViolation then return_io (Inl (HttpError 500 (get_text cat (locale_of e r) ''ErrInternal'')))
                else do {
                  audit_log (magic_event r (mt_email magic) (sv_id svc)
                    ''reason=user_conflict (konto deaktivert eller kunne ikke opprettes)'');
                  return_io (Inl (magic_error (sv_id svc) ''access_denied'' (locale_of e r)))
                }
          }
      })"

definition magic_user :: "env \<Rightarrow> catalog \<Rightarrow> request \<Rightarrow> service_row \<Rightarrow> magic_row \<Rightarrow> (reply + user_row) io" where
  "magic_user e cat r svc magic = do {
     ru \<leftarrow> db_read e ReqCtx (get_active_user_by_email (normalize_email e (mt_email magic)));
     case ru of Inr user \<Rightarrow> return_io (Inr user) | Inl _ \<Rightarrow> register_magic e cat r svc magic
   }"

definition login_magic_user :: "env \<Rightarrow> issuer \<Rightarrow> catalog \<Rightarrow> request \<Rightarrow> service_row \<Rightarrow> magic_row \<Rightarrow> reply io" where
  "login_magic_user e i cat r svc magic = do {
     ru \<leftarrow> magic_user e cat r svc magic;
     case ru of
       Inl reply \<Rightarrow> return_io reply
     | Inr user \<Rightarrow> do {
         done \<leftarrow> complete_login e i r svc user login_magic;
         case done of
           Inr reply \<Rightarrow> return_io reply
         | Inl IssueFailed \<Rightarrow> return_io (HttpError 500 (get_text cat (locale_of e r) ''ErrInternal''))
         | Inl (PolicyDenied d) \<Rightarrow> do {
             audit_log (magic_event r (u_email user) (sv_id svc) (denial_text d));
             return_io (magic_error (sv_id svc) ''access_denied'' (locale_of e r))
           }
       }
   }"

definition redeem_consumed :: "env \<Rightarrow> issuer \<Rightarrow> service_row list \<Rightarrow> catalog \<Rightarrow> request \<Rightarrow> magic_row \<Rightarrow> reply io" where
  "redeem_consumed e i cache cat r magic =
     (case mt_service magic of
        None \<Rightarrow>
          (case magic_hint e cache r of
             None \<Rightarrow> return_io panic_reply
           | Some hint \<Rightarrow> do {
               audit_log (magic_event r (mt_email magic) []
                 (''admin-token brukt mot tjenesteinnlogging, hint='' @ sv_id hint));
               return_io (magic_error (sv_id hint) ''expired'' (locale_of e r))
             })
      | Some sid \<Rightarrow>
          (case stored_service e cache magic of
             None \<Rightarrow> do {
               audit_log (magic_event r (mt_email magic) sid ''tjeneste inaktiv eller magic link av'');
               return_io (magic_error sid ''expired'' (locale_of e r))
             }
           | Some svc \<Rightarrow> login_magic_user e i cat r svc magic))"

definition redeem_magic :: "env \<Rightarrow> issuer \<Rightarrow> service_row list \<Rightarrow> catalog \<Rightarrow> string \<Rightarrow> handler" where
  "redeem_magic e i cache cat tok r = do {
     now \<leftarrow> time_now e;
     (if \<not> same_origin e r then blocked_redeem e cache (hash_opaque e tok) (format_utc now) r
      else do {
        rm \<leftarrow> db_write e ReqCtx (consume_magic (hash_opaque e tok) ''service'' (format_utc now));
        case rm of
          Inl _ \<Rightarrow> return_io (hint_error (magic_hint e cache r) ''expired'' (locale_of e r))
        | Inr magic \<Rightarrow> redeem_consumed e i cache cat r magic
      })
   }"

section \<open>Handlers stay within the statements\<close>

lemma evolves_magic [evolve_intros]:
  "evolves db_step (show_magic_form e cache r)" "evolves db_step (request_link e cache base_url r)"
  "evolves db_step (show_confirm e cache tok r)" "evolves db_step (redeem_magic e i cache cat tok r)"
  unfolding show_magic_form_def request_link_def store_magic_token_def mail_link_def show_confirm_def redeem_magic_def
    blocked_redeem_def render_confirm_def redeem_consumed_def login_magic_user_def magic_user_def register_magic_def
    new_public_id_def html_headers_def
  by (intro evolve_intros)+

section \<open>A request tells nothing\<close>

lemma insert_magic_one:
  assumes "fst (insert_magic_limited p d) = Inr (Suc 0)"
  shows "\<exists>row \<in> set (t_magic (snd (insert_magic_limited p d))). mt_token row = mp_token p \<and> mt_email row = mp_email p \<and>
    mt_service row = mp_service p \<and> mt_purpose row = mp_purpose p \<and> mt_used row = 0 \<and> mt_expires row = mp_expires p"
  using assms by (auto simp: insert_magic_limited_def split: if_splits)

lemma store_magic_token_wp:
  "wp (store_magic_token e ctx svc email plain) (\<lambda>ok w'. response w' = response w \<and> w_audit w' = w_audit w \<and>
     (ok \<longrightarrow> (\<exists>s row. svc = Some s \<and> sv_auth_magic s = 1 \<and> valid_email email \<and> row \<in> set (t_magic (w_db w')) \<and>
        mt_token row = hash_opaque e plain \<and> mt_email row = email \<and> mt_service row = Some (sv_id s) \<and>
        mt_purpose row = ''service'' \<and> mt_used row = 0))) w"
  using insert_magic_one
  by (fastforce simp: store_magic_token_def wp_simps magic_link_params_def split: option.split sum.split)

lemma request_link_wp:
  "wp (request_link e cache base_url r) (\<lambda>reply w'.
     reply = (case e_rand e (w_step w) 32 of None \<Rightarrow> HttpError 500 ''intern feil'' | Some _ \<Rightarrow> Plain 200 ''sjekk e-post'') \<and>
     w_cookies w' = w_cookies w \<and> w_headers w' = w_headers w \<and> w_audit w' = w_audit w \<and>
     (w_mails w' = w_mails w \<or>
      (\<exists>svc bytes row. e_rand e (w_step w) 32 = Some bytes \<and>
         resolve_requested_service e cache r (requested_service r) = Some svc \<and> sv_auth_magic svc = 1 \<and>
         w_mails w' = w_mails w @ [magic_mail e base_url svc (normalize_email e (form_value r ''email'')) (hex_encode bytes) (locale_of e r)] \<and>
         row \<in> set (t_magic (w_db w')) \<and> mt_token row = hash_opaque e (hex_encode bytes) \<and>
         mt_email row = normalize_email e (form_value r ''email'') \<and> mt_service row = Some (sv_id svc) \<and> mt_used row = 0))) w"
proof (cases "e_rand e (w_step w) 32")
  case None
  then show ?thesis by (simp add: request_link_def Let_def wp_simps)
next
  case (Some bytes)
  show ?thesis
    unfolding request_link_def Let_def wp_simps Some option.case
    by (rule wp_mono [OF store_magic_token_wp])
      (auto simp: mail_link_def wp_simps response_def split: option.split)
qed

section \<open>Redeeming\<close>

lemma keeps_magic_stmts [keeps_intros]:
  "keeps (\<lambda>w. t_magic (w_db w)) (db_write e ctx (create_user up))"
  "keeps (\<lambda>w. t_magic (w_db w)) (db_write e ctx (insert_refresh rp))"
  "keeps (\<lambda>w. t_magic (w_db w)) (db_write e ctx (update_last_login now k))"
  by (rule keeps_db_write, simp add: create_user_def insert_refresh_def update_last_login_def Let_def)+

lemma keeps_magic_login [keeps_intros]:
  "keeps (\<lambda>w. t_magic (w_db w)) (login_magic_user e i cat r svc magic)"
  unfolding login_magic_user_def magic_user_def register_magic_def new_public_id_def complete_login_def answer_login_def
    cookie_defs issue_access_def issue_access_detailed_def sign_claims_def new_jti_def build_claims_def issue_def
    generate_family_id_def new_root_token_def generate_plain_token_def Let_def
  by (intro keeps_intros)+

text \<open>The user of a mailed link: an active account with its address, or a new one where the service registers users itself.\<close>

definition magic_account :: "env \<Rightarrow> service_row \<Rightarrow> magic_row \<Rightarrow> user_row \<Rightarrow> db \<Rightarrow> db \<Rightarrow> bool" where
  "magic_account e svc magic u d d' \<longleftrightarrow>
     u_deactivated u = None \<and> u_email u = normalize_email e (mt_email magic) \<and>
     (accounts d' = accounts d \<and> u \<in> set (t_users d) \<or> accounts d' = accounts d @ [no_login u] \<and> sv_auto_register svc = 1)"

lemma magic_user_wp:
  "wp (magic_user e cat r svc magic) (\<lambda>res w'. t_refresh (w_db w') = t_refresh (w_db w) \<and>
     (\<forall>u. res = Inr u \<longrightarrow> magic_account e svc magic u (w_db w) (w_db w'))) w"
proof -
  have new: "wp (register_magic e cat r svc magic) (\<lambda>res w'. t_refresh (w_db w') = t_refresh (w_db w1) \<and>
      (\<forall>u. res = Inr u \<longrightarrow> magic_account e svc magic u (w_db w1) (w_db w'))) w1" for w1
    using create_user_Inr
    by (fastforce simp: register_magic_def new_public_id_def wp_simps magic_user_params_def create_user_def Let_def
        magic_account_def accounts_def split: option.split sum.split)
  have same: "magic_account e svc magic u (w_db w) (w_db w)" if "get_active_user_by_email (normalize_email e (mt_email magic)) (w_db w) = Inr u" for u
    using get_active_by_email_Inr [OF that] by (simp add: magic_account_def)
  show ?thesis
    by (auto simp: magic_user_def wp_simps split: option.split sum.split intro!: wp_mono [OF new] same)
qed

definition magic_session :: "env \<Rightarrow> issuer \<Rightarrow> service_row \<Rightarrow> magic_row \<Rightarrow> db \<Rightarrow> reply \<Rightarrow> db \<Rightarrow> bool" where
  "magic_session e i svc magic d reply d' \<longleftrightarrow>
     (\<exists>u. magic_account e svc magic u d d' \<and> check_policy u svc = None \<and> session_opened e i svc u d reply d')"

lemma login_magic_user_wp:
  "wp (login_magic_user e i cat r svc magic) (\<lambda>reply w'. t_refresh (w_db w') = t_refresh (w_db w) \<or>
     magic_session e i svc magic (w_db w) reply (w_db w')) w"
proof -
  have fin: "wp (complete_login e i r svc u login_magic) (\<lambda>res w'. case res of
        Inl _ \<Rightarrow> t_refresh (w_db w') = t_refresh (w_db w)
      | Inr reply \<Rightarrow> magic_session e i svc magic (w_db w) reply (w_db w')) w1"
    if "t_refresh (w_db w1) = t_refresh (w_db w)" "magic_account e svc magic u (w_db w) (w_db w1)" for u w1
  proof (rule wp_mono [OF complete_login_session], goal_cases)
    case (1 res w')
    with that have "magic_account e svc magic u (w_db w) (w_db w')" by (simp add: magic_account_def)
    with 1 that(1) session_opened_cong [OF that(1)] show ?case
      by (auto simp: magic_session_def split: sum.splits)
  qed
  show ?thesis
    unfolding login_magic_user_def wp_bind
  proof (rule wp_mono [OF magic_user_wp], goal_cases)
    case (1 res w1)
    show ?case
    proof (cases res)
      case (Inr u)
      with 1 have "wp (complete_login e i r svc u login_magic) (\<lambda>res w'. case res of
            Inl _ \<Rightarrow> t_refresh (w_db w') = t_refresh (w_db w)
          | Inr reply \<Rightarrow> magic_session e i svc magic (w_db w) reply (w_db w')) w1" by (intro fin) auto
      then show ?thesis unfolding Inr sum.case wp_bind
        by (rule wp_mono) (auto simp: wp_simps split: sum.splits complete_err.split)
    qed (use 1 in \<open>simp add: wp_simps\<close>)
  qed
qed

definition magic_spent :: "env \<Rightarrow> string \<Rightarrow> instant \<Rightarrow> db \<Rightarrow> bool" where
  "magic_spent e tok now d \<longleftrightarrow> \<not> list_ex (magic_live_at (hash_opaque e tok) ''service'' (format_utc now)) (t_magic d)"

lemma consumed_dead: "\<not> list_ex (magic_live_at h purpose now) (t_magic (snd (consume_magic h purpose now d)))"
proof -
  have "\<not> magic_live_at h purpose now (r\<lparr>mt_used := 1\<rparr>)" for r by (simp add: magic_live_at_def)
  then show ?thesis by (auto simp: snd_consume_magic list_ex_iff set_upd_where)
qed

lemma consumed_spent: "magic_spent e tok now (snd (consume_magic (hash_opaque e tok) ''service'' (format_utc now) d))"
  by (simp add: magic_spent_def consumed_dead)

lemma consume_magic_Inr:
  assumes "fst (consume_magic h purpose now d) = Inr m"
  shows "\<exists>row \<in> set (t_magic d). magic_live_at h purpose now row \<and> m = row\<lparr>mt_used := 1\<rparr>"
  using assms by (auto simp: fst_consume_magic fst_update_returning_Inr dest!: find_SomeD)

lemma redeem_consumed_wp:
  "wp (redeem_consumed e i cache cat r magic) (\<lambda>reply w'. t_magic (w_db w') = t_magic (w_db w) \<and>
     (t_refresh (w_db w') = t_refresh (w_db w) \<or>
      (\<exists>svc. stored_service e cache magic = Some svc \<and> magic_session e i svc magic (w_db w) reply (w_db w')))) w"
proof -
  have "wp (login_magic_user e i cat r svc magic) (\<lambda>reply w'. t_magic (w_db w') = t_magic (w_db w) \<and>
      (t_refresh (w_db w') = t_refresh (w_db w) \<or> magic_session e i svc magic (w_db w) reply (w_db w'))) w" for svc
    by (rule wp_mono [OF wp_keeps [OF keeps_magic_login login_magic_user_wp]]) auto
  then show ?thesis
    by (auto simp: redeem_consumed_def wp_simps split: option.split)
qed

text \<open>Consuming the token touches neither the accounts nor the sessions.\<close>

lemma consumed_session:
  "magic_session e i svc (row\<lparr>mt_used := n\<rparr>) (snd (consume_magic h purpose now d)) reply d' = magic_session e i svc row d reply d'"
  by (simp add: magic_session_def magic_account_def session_opened_def fresh_session_def accounts_def snd_consume_magic)

lemma redeem_magic_wp:
  "wp (redeem_magic e i cache cat tok r) (\<lambda>reply w'. t_refresh (w_db w') = t_refresh (w_db w) \<or>
     (\<exists>row svc. same_origin e r \<and> row \<in> set (t_magic (w_db w)) \<and>
        magic_live_at (hash_opaque e tok) ''service'' (format_utc (e_clock e (w_step w))) row \<and>
        stored_service e cache row = Some svc \<and> magic_session e i svc row (w_db w) reply (w_db w') \<and>
        magic_spent e tok (e_clock e (w_step w)) (w_db w'))) w"
proof (cases "same_origin e r")
  case False
  then show ?thesis
    by (auto simp: redeem_magic_def blocked_redeem_def render_confirm_def wp_simps split: option.split sum.split)
next
  case True
  have used: "stored_service e cache (row\<lparr>mt_used := 1\<rparr>) = stored_service e cache row" for row
    by (simp add: stored_service_def)
  let ?c = "consume_magic (hash_opaque e tok) ''service'' (format_utc (e_clock e (w_step w))) (w_db w)"
  have con: "wp (redeem_consumed e i cache cat r m) (\<lambda>reply w'. t_refresh (w_db w') = t_refresh (w_db w) \<or>
     (\<exists>row svc. row \<in> set (t_magic (w_db w)) \<and>
        magic_live_at (hash_opaque e tok) ''service'' (format_utc (e_clock e (w_step w))) row \<and>
        stored_service e cache row = Some svc \<and> magic_session e i svc row (w_db w) reply (w_db w') \<and>
        magic_spent e tok (e_clock e (w_step w)) (w_db w'))) w1"
    if "fst ?c = Inr m" "w_db w1 = snd ?c" for m w1
  proof (rule wp_mono [OF redeem_consumed_wp], goal_cases)
    case (1 reply w')
    from consume_magic_Inr [OF that(1)] obtain row where row: "row \<in> set (t_magic (w_db w))"
      "magic_live_at (hash_opaque e tok) ''service'' (format_utc (e_clock e (w_step w))) row" "m = row\<lparr>mt_used := 1\<rparr>" by blast
    have "magic_spent e tok (e_clock e (w_step w)) (w_db w')"
      using consumed_spent [of e tok "e_clock e (w_step w)" "w_db w"] 1 that(2) by (simp add: magic_spent_def)
    moreover have "t_refresh (w_db w1) = t_refresh (w_db w)" using that(2) by (simp add: snd_consume_magic)
    ultimately show ?case using 1 row unfolding that(2) by (auto simp: used consumed_session)
  qed
  show ?thesis
    using True con by (auto simp: redeem_magic_def wp_simps snd_consume_magic split: option.split sum.split intro!: con [THEN wp_mono])
qed

section \<open>Properties\<close>

text \<open>Asking for a link tells nothing: the answer, the cookies, the headers and the audit log are the same
  whether or not the address has an account, is over its limit, is malformed, or the database fails.  At most one
  mail is handed over, to the normalised address, and only when the hash of its token was stored for a service that
  offers links.\<close>

theorem link_request_tells_nothing:
  "case run_state (request_link e cache base_url r) w of (reply, w') \<Rightarrow>
     reply = (case e_rand e (w_step w) 32 of None \<Rightarrow> HttpError 500 ''intern feil'' | Some _ \<Rightarrow> Plain 200 ''sjekk e-post'') \<and>
     w_cookies w' = w_cookies w \<and> w_headers w' = w_headers w \<and> w_audit w' = w_audit w \<and>
     (w_mails w' = w_mails w \<or>
      (\<exists>svc bytes row. e_rand e (w_step w) 32 = Some bytes \<and>
         resolve_requested_service e cache r (requested_service r) = Some svc \<and> sv_auth_magic svc = 1 \<and>
         w_mails w' = w_mails w @ [magic_mail e base_url svc (normalize_email e (form_value r ''email'')) (hex_encode bytes) (locale_of e r)] \<and>
         row \<in> set (t_magic (w_db w')) \<and> mt_token row = hash_opaque e (hex_encode bytes) \<and>
         mt_email row = normalize_email e (form_value r ''email'') \<and> mt_service row = Some (sv_id svc) \<and> mt_used row = 0))"
  using request_link_wp [of e cache base_url r w] by (simp add: wp_def)

text \<open>C7. A mailed link opens a session only from the page's own POST, with an unused and unexpired token of the
  service purpose, at the service stored with the token and not the one named in the request.  The session is that of an
  active user of the table with the token's address, or of one registered under it where the service allows that, who
  satisfies the policy of the service: an access token with the claims of this user and one new refresh token of this user;
  no other account changes and the token is then spent.  In every other case no refresh token is created.\<close>

theorem magic_login_gate:
  "case run_state (redeem_magic e i cache cat tok r) w of (reply, w') \<Rightarrow>
     t_refresh (w_db w') = t_refresh (w_db w) \<or>
     (\<exists>row svc. same_origin e r \<and> row \<in> set (t_magic (w_db w)) \<and>
        magic_live_at (hash_opaque e tok) ''service'' (format_utc (e_clock e (w_step w))) row \<and>
        stored_service e cache row = Some svc \<and> magic_session e i svc row (w_db w) reply (w_db w') \<and>
        magic_spent e tok (e_clock e (w_step w)) (w_db w'))"
  using redeem_magic_wp [of e i cache cat tok r w] by (simp add: wp_def)

end
