(* ===== verification/Runs.thy ===== *)
theory Runs
  imports Main "HOL-Library.Sublist"
begin

text \<open>Runs of a step relation whose steps are labelled with events, and what every run keeps.\<close>

inductive run :: "('e \<Rightarrow> 's \<Rightarrow> 's \<Rightarrow> bool) \<Rightarrow> 's \<Rightarrow> 'e list \<Rightarrow> 's \<Rightarrow> bool" for step s0 where
  run_Nil: "run step s0 [] s0"
| run_snoc: "run step s0 evs s \<Longrightarrow> step ev s s' \<Longrightarrow> run step s0 (evs @ [ev]) s'"

lemma run_step: "step ev s0 s \<Longrightarrow> run step s0 [ev] s"
  using run_snoc [OF run_Nil, of step ev s0 s] by simp

text \<open>What a machine promises about its state and the events so far, when each step keeps it.\<close>

locale kept =
  fixes step :: "'e \<Rightarrow> 's \<Rightarrow> 's \<Rightarrow> bool" and s0 :: 's and I :: "'e list \<Rightarrow> 's \<Rightarrow> bool"
  assumes kept_start: "I [] s0"
    and kept_step: "I evs s \<Longrightarrow> step ev s s' \<Longrightarrow> I (evs @ [ev]) s'"
begin

lemma kept_run: "run step s0 evs s \<Longrightarrow> I evs s"
  by (induction rule: run.induct) (blast intro: kept_start kept_step)+

end

text \<open>A machine with an invariant that does only what a specification allows.\<close>

locale simulation =
  fixes step :: "'e \<Rightarrow> 's \<Rightarrow> 's \<Rightarrow> bool" and s0 :: 's and spec :: "'e \<Rightarrow> 'a \<Rightarrow> 'a \<Rightarrow> bool" and abs :: "'s \<Rightarrow> 'a"
    and ok :: "'s \<Rightarrow> bool"
  assumes ok_start: "ok s0"
    and ok_step: "ok s \<Longrightarrow> step ev s s' \<Longrightarrow> ok s'"
    and simulated: "ok s \<Longrightarrow> step ev s s' \<Longrightarrow> spec ev (abs s) (abs s')"

sublocale simulation \<subseteq> reach: kept step s0 "\<lambda>_. ok"
  by unfold_locales (blast intro: ok_start ok_step)+

context simulation begin

lemma refines: "run step s0 evs s \<Longrightarrow> run spec (abs s0) evs (abs s)"
  by (induction rule: run.induct) (blast intro: run_Nil run_snoc simulated reach.kept_run)+

text \<open>A promise of the specification is one of the machine.\<close>

lemma transfer:
  assumes "run step s0 evs s" and "kept spec (abs s0) I"
  shows "I evs (abs s)"
  using kept.kept_run [OF assms(2) refines [OF assms(1)]] .

end

end
