(* ===== verification/AuditLog.thy ===== *)
theory AuditLog
  imports Login Runs "HOL-Library.Word"
begin

text \<open>
  The audit log: \<open>internal/audit/service.go\<close>.  \<open>Log\<close> puts an event into a bounded queue and never waits; one
  writer takes the events out and inserts them; \<open>Close\<close> stops accepting, waits for the writer and gives up
  when its context ends.  The service is a state machine whose steps are what its mutex and its channel make atomic.
  \<open>LogSync\<close> inserts at once.  Handlers elsewhere use \<open>audit_log\<close>, the events handed over in their order.
\<close>

section \<open>Rows and the synchronous log\<close>

definition null_str :: "string \<Rightarrow> string option" where
  "null_str s = (if s = [] then None else Some s)"

definition event_params :: "instant \<Rightarrow> event \<Rightarrow> audit_params" where
  "event_params now ev =
     \<lparr>ap_type = ev_type ev, ap_method = null_str (ev_method ev), ap_email = null_str (ev_email ev),
      ap_service = null_str (ev_service ev), ap_ip = null_str (ev_ip ev), ap_ua = null_str (ev_ua ev),
      ap_success = (if ev_success ev then 1 else 0), ap_details = null_str (ev_details ev), ap_created = format_utc now\<rparr>"

definition log_sync :: "env \<Rightarrow> call_ctx \<Rightarrow> event \<Rightarrow> db_err option io" where
  "log_sync e ctx ev = do {
     now \<leftarrow> time_now e;
     r \<leftarrow> db_write e ctx (insert_audit (event_params now ev));
     return_io (case r of Inl x \<Rightarrow> Some x | Inr _ \<Rightarrow> None)
   }"

lemma evolves_log_sync [evolve_intros]: "evolves db_step (log_sync e ctx ev)"
  unfolding log_sync_def by (intro evolve_intros)+

lemma keeps_log_sync [keeps_intros]:
  "keeps response (log_sync e ctx ev)" "keeps w_cookies (log_sync e ctx ev)"
  by (simp_all add: keeps_def log_sync_def io_simps split: option.split prod.split)

lemma keeps_log_sync_db:
  assumes "\<And>d rows. g (d\<lparr>t_audit := rows\<rparr>) = g d"
  shows "keeps (\<lambda>w. g (w_db w)) (log_sync e ctx ev)"
  using assms by (simp add: keeps_def log_sync_def insert_audit_def io_simps split: option.split prod.split)

text \<open>
  The address of the client.  \<open>split_host\<close> is the host of \<open>net.SplitHostPort\<close>; \<open>parse_ip\<close> is \<open>net.ParseIP\<close> with
  the text of the address and whether it is the own machine.
\<close>

definition client_ip ::
  "(string \<Rightarrow> string option) \<Rightarrow> (string \<Rightarrow> (string \<times> bool) option) \<Rightarrow> string \<Rightarrow> request \<Rightarrow> string" where
  "client_ip split_host parse_ip remote r =
     (let host = (case split_host remote of None \<Rightarrow> remote | Some h \<Rightarrow> h) in
      case parse_ip host of
        Some (_, True) \<Rightarrow>
          (let cf = header_get r ''CF-Connecting-IP'' in
           if cf \<noteq> [] then (case parse_ip cf of Some (text, _) \<Rightarrow> text | None \<Rightarrow> host) else host)
      | _ \<Rightarrow> host)"

section \<open>The queue\<close>

definition queue_capacity :: nat where "queue_capacity = 1024"
definition warn_interval :: duration where "warn_interval = 10 * second"

text \<open>
  \<open>aq_sent\<close> is what the writer handed to the database and \<open>aq_thrown\<close> what it discarded; the code keeps only
  their numbers.
\<close>

record audit_queue =
  aq_queue :: "event list"
  aq_closed :: bool
  aq_stop :: bool
  aq_finished :: bool
  aq_dropped :: "64 word"
  aq_written :: "64 word"
  aq_base :: "64 word"
  aq_last_warn :: "instant option"
  aq_sent :: "event list"
  aq_thrown :: "event list"

definition new_queue :: audit_queue where
  "new_queue = \<lparr>aq_queue = [], aq_closed = False, aq_stop = False, aq_finished = False, aq_dropped = 0, aq_written = 0,
     aq_base = 0, aq_last_warn = None, aq_sent = [], aq_thrown = []\<rparr>"

definition drop_event :: "instant \<Rightarrow> audit_queue \<Rightarrow> bool \<times> audit_queue" where
  "drop_event now q =
     (let warn = (case aq_last_warn q of None \<Rightarrow> True | Some t \<Rightarrow> warn_interval \<le> now - t);
          q' = q\<lparr>aq_dropped := aq_dropped q + 1\<rparr>
      in (warn, if warn then q'\<lparr>aq_last_warn := Some now\<rparr> else q'))"

definition log_event :: "nat \<Rightarrow> instant \<Rightarrow> event \<Rightarrow> audit_queue \<Rightarrow> audit_queue" where
  "log_event cap now ev q =
     (if \<not> aq_closed q \<and> length (aq_queue q) < cap then q\<lparr>aq_queue := aq_queue q @ [ev]\<rparr>
      else snd (drop_event now q))"

text \<open>One round of the writer, for a nonempty queue.\<close>

definition writer_round :: "event \<Rightarrow> event list \<Rightarrow> audit_queue \<Rightarrow> audit_queue" where
  "writer_round ev rest q =
     (if aq_stop q then q\<lparr>aq_queue := rest, aq_thrown := aq_thrown q @ [ev]\<rparr>
      else q\<lparr>aq_queue := rest, aq_sent := aq_sent q @ [ev], aq_written := aq_written q + 1\<rparr>)"

definition close_queue :: "audit_queue \<Rightarrow> audit_queue" where
  "close_queue q = (if aq_closed q then q else q\<lparr>aq_closed := True, aq_base := aq_written q\<rparr>)"

definition give_up :: "audit_queue \<Rightarrow> audit_queue" where
  "give_up q = q\<lparr>aq_stop := True\<rparr>"

datatype audit_event = LogEv instant event | WriterEv | CloseEv | GiveUpEv | FinishEv

inductive audit_step :: "nat \<Rightarrow> audit_event \<Rightarrow> audit_queue \<Rightarrow> audit_queue \<Rightarrow> bool" for cap where
  log: "audit_step cap (LogEv now ev) q (log_event cap now ev q)"
| writer: "aq_queue q = ev # rest \<Longrightarrow> audit_step cap WriterEv q (writer_round ev rest q)"
| close: "audit_step cap CloseEv q (close_queue q)"
| give_up: "aq_closed q \<Longrightarrow> \<not> aq_finished q \<Longrightarrow> audit_step cap GiveUpEv q (give_up q)"
| finish_writer: "aq_closed q \<Longrightarrow> aq_queue q = [] \<Longrightarrow> audit_step cap FinishEv q (q\<lparr>aq_finished := True\<rparr>)"

inductive_cases audit_stepE: "audit_step cap ev q q'"

section \<open>What the queue keeps\<close>

fun logged_of :: "audit_event \<Rightarrow> event list" where
  "logged_of (LogEv _ ev) = [ev]"
| "logged_of _ = []"

definition accepted :: "audit_queue \<Rightarrow> event list" where
  "accepted q = aq_sent q @ aq_thrown q @ aq_queue q"

definition queue_inv :: "nat \<Rightarrow> audit_event list \<Rightarrow> audit_queue \<Rightarrow> bool" where
  "queue_inv cap evs q \<longleftrightarrow>
     length (aq_queue q) \<le> cap \<and> subseq (accepted q) (concat (map logged_of evs)) \<and>
     of_nat (length (concat (map logged_of evs))) = of_nat (length (accepted q)) + aq_dropped q \<and>
     aq_written q = of_nat (length (aq_sent q)) \<and>
     (aq_stop q \<or> aq_thrown q = []) \<and> (aq_finished q \<longrightarrow> aq_closed q \<and> aq_queue q = []) \<and> (aq_stop q \<longrightarrow> aq_closed q)"

lemma queue_inv_step:
  assumes "queue_inv cap evs q" and "audit_step cap ev q q'"
  shows "queue_inv cap (evs @ [ev]) q'"
  using assms(2)
proof cases
  case (log now x)
  let ?logs = "concat (map logged_of evs)"
  have sub: "subseq (accepted q) ?logs" using assms(1) by (simp add: queue_inv_def)
  then have "subseq (accepted q @ [x]) (?logs @ [x])" by simp
  moreover have "subseq (accepted q) (?logs @ [x])"
    using subseq_order.order_trans [OF sub] prefix_imp_subseq [of ?logs "?logs @ [x]"] by simp
  ultimately show ?thesis
    using assms(1) log
    by (auto simp: queue_inv_def log_event_def drop_event_def accepted_def Let_def algebra_simps)
next
  case (writer x rest)
  then show ?thesis using assms(1)
    by (auto simp: queue_inv_def writer_round_def accepted_def algebra_simps)
qed (use assms(1) in \<open>auto simp: queue_inv_def close_queue_def give_up_def accepted_def\<close>)

interpretation queue: kept "audit_step cap" new_queue "queue_inv cap" for cap
  by unfold_locales (simp add: queue_inv_def new_queue_def accepted_def, rule queue_inv_step)

section \<open>Properties\<close>

text \<open>C40. In every order of logging, writing and closing: the queue never exceeds its capacity; every event is
  either accepted or counted as dropped; what the writer hands to the database is an initial part of the accepted
  events in the order in which they were logged; and when the writer ends before \<open>Close\<close> gives up, nothing that was
  accepted is lost.\<close>

theorem audit_queue_loses_nothing_silently:
  assumes "run (audit_step cap) new_queue evs q"
  shows "length (aq_queue q) \<le> cap \<and>
    (\<exists>acc rest. subseq acc (concat (map logged_of evs)) \<and> acc = aq_sent q @ rest \<and>
       of_nat (length (concat (map logged_of evs))) = of_nat (length acc) + aq_dropped q \<and>
       (aq_finished q \<and> \<not> aq_stop q \<longrightarrow> rest = []))"
proof -
  note inv = queue.kept_run [OF assms, unfolded queue_inv_def]
  show ?thesis
    by (rule conjI [OF conjunct1 [OF inv]], rule exI [of _ "accepted q"], rule exI [of _ "aq_thrown q @ aq_queue q"])
      (use inv in \<open>auto simp: accepted_def\<close>)
qed

definition demo_event :: event where
  "demo_event = \<lparr>ev_type = ''login'', ev_method = [], ev_email = [], ev_service = [], ev_ip = [], ev_ua = [],
     ev_success = True, ev_details = []\<rparr>"

theorem audit_queue_loses_nothing_silently_witness:
  "length (aq_queue (log_event queue_capacity 0 demo_event new_queue)) \<le> queue_capacity"
  using audit_queue_loses_nothing_silently
    [OF run_step [of "audit_step queue_capacity" "LogEv 0 demo_event", OF audit_step.log]] by blast

end
