(* ===== verification/Discovery.thy ===== *)
theory Discovery
  imports Idp Runs
begin

text \<open>
  Discovery of the configured OIDC providers: \<open>internal/idp/registry.go\<close>.  The document of a provider is
  checked before it is used (\<open>discover\<close>); a cache per provider keeps the last good one.  A call that finds a
  document younger than a day answers at once; one younger than seven days is still served while a
  renewal runs in the background; otherwise the caller waits for the fetch in flight, of which there is at most
  one, and a failure is remembered for a minute.  Locking is modelled by the steps: a call and the end of a
  fetch are each one step.
\<close>

section \<open>Checking a document\<close>

definition allowed_algs :: "string list" where
  "allowed_algs = [''RS256'', ''RS384'', ''RS512'', ''PS256'', ''PS384'', ''PS512'', ''ES256'', ''ES384'', ''ES512'', ''EdDSA'']"

definition intersect_algs :: "string list option \<Rightarrow> string + string list" where
  "intersect_algs listed =
     (case listed of
        None \<Rightarrow> Inr [''RS256'']
      | Some as \<Rightarrow> (let out = filter (\<lambda>a. a \<in> set allowed_algs) as
                    in if out = [] then Inl ''no_algs'' else Inr out))"

datatype auth_style = InHeader | InParams

fun style_of_methods :: "bool \<Rightarrow> string list \<Rightarrow> string + auth_style" where
  "style_of_methods post [] = (if post then Inr InParams else Inl ''auth_method'')"
| "style_of_methods post (m # ms) =
     (if m = ''client_secret_basic'' then Inr InHeader
      else style_of_methods (post \<or> m = ''client_secret_post'') ms)"

definition auth_style_of :: "provider \<Rightarrow> string list option \<Rightarrow> string + auth_style" where
  "auth_style_of p methods =
     (if pr_secret p = [] then Inr InParams
      else case methods of None \<Rightarrow> Inr InHeader | Some ms \<Rightarrow> style_of_methods False ms)"

text \<open>
  An endpoint must be https; http only towards the own machine and only when the operator allows it.
  \<open>is_loopback\<close> stands for \<open>netip.ParseAddr(h)\<close> followed by \<open>Unmap().IsLoopback()\<close>.
\<close>

definition endpoint_ok :: "env \<Rightarrow> (string \<Rightarrow> bool) \<Rightarrow> bool \<Rightarrow> string \<Rightarrow> bool" where
  "endpoint_ok e is_loopback insecure raw =
     (case e_url_parse e raw of
        None \<Rightarrow> False
      | Some u \<Rightarrow>
          if ul_hostname u = [] \<or> ul_has_user u \<or> ul_fragment u \<noteq> [] then False
          else if ul_scheme u = ''https'' then True
          else if ul_scheme u \<noteq> ''http'' \<or> \<not> insecure then False
          else lower e (ul_hostname u) = ''localhost'' \<or> is_loopback (lower e (ul_hostname u)))"

record discovery_doc =
  dd_auth :: string
  dd_token :: string
  dd_jwks :: string
  dd_algs :: "string list option"
  dd_methods :: "string list option"

record discovered =
  dv_doc :: discovery_doc
  dv_algs :: "string list"
  dv_style :: auth_style

text \<open>What the code asks of an error: its classified reason, if any, whether it is a timeout, and its text.\<close>

record go_error =
  ge_reason :: "string option"
  ge_deadline :: bool
  ge_net_timeout :: bool
  ge_too_large :: bool
  ge_msg :: string

fun contains_text :: "string \<Rightarrow> string \<Rightarrow> bool" where
  "contains_text [] t \<longleftrightarrow> t = []"
| "contains_text (c # s) t \<longleftrightarrow> has_prefix (c # s) t \<or> contains_text s t"

definition http_status_re :: "string \<Rightarrow> bool" where
  "http_status_re s = (case s of a # b # c # d # _ \<Rightarrow> is_digit a \<and> is_digit b \<and> is_digit c \<and> d = CHR '' '' | _ \<Rightarrow> False)"

definition body_too_large :: string where "body_too_large = ''idp: svarkroppen er over 1 MiB''"

definition discovery_reason :: "go_error option \<Rightarrow> string" where
  "discovery_reason err =
     (case err of
        None \<Rightarrow> []
      | Some x \<Rightarrow>
          (case ge_reason x of
             Some reason \<Rightarrow> reason
           | None \<Rightarrow>
               let has = contains_text (ge_msg x) in
               if ge_deadline x \<or> ge_net_timeout x \<or> has ''context deadline exceeded'' \<or> has ''Client.Timeout''
               then ''timeout''
               else if ge_too_large x \<or> has body_too_large then ''too_large''
               else if has ''redirect avvist'' then ''redirect''
               else if has (''ikke tillatt som utg'' @ [CHR 0xC3, CHR 0xA5] @ ''ende m'' @ [CHR 0xC3, CHR 0xA5] @ ''l'') \<or> has ''dial uten IP-adresse'' then ''blocked_address''
               else if has ''bare https er tillatt'' then ''endpoint_scheme''
               else if has ''did not match the issuer URL'' then ''issuer_mismatch''
               else if http_status_re (ge_msg x) then ''http_status''
               else ''fetch''))"

text \<open>What \<open>oidc.NewProvider\<close> and \<open>prov.Claims\<close> can give for an issuer; a panic is caught.\<close>

datatype fetch_outcome = NewProviderFailed go_error | ClaimsFailed | Panicked | Document discovery_doc

definition discover_checked :: "env \<Rightarrow> (string \<Rightarrow> bool) \<Rightarrow> bool \<Rightarrow> provider \<Rightarrow> discovery_doc \<Rightarrow> string + discovered" where
  "discover_checked e is_loopback insecure p doc =
     (if \<not> list_all (endpoint_ok e is_loopback insecure) [dd_auth doc, dd_token doc, dd_jwks doc] then Inl ''endpoint_scheme''
      else case intersect_algs (dd_algs doc) of
        Inl x \<Rightarrow> Inl x
      | Inr algs \<Rightarrow>
          (case auth_style_of p (dd_methods doc) of
             Inl x \<Rightarrow> Inl x
           | Inr style \<Rightarrow> Inr \<lparr>dv_doc = doc, dv_algs = algs, dv_style = style\<rparr>))"

fun safe_discover :: "env \<Rightarrow> (string \<Rightarrow> bool) \<Rightarrow> bool \<Rightarrow> provider \<Rightarrow> fetch_outcome \<Rightarrow> string + discovered" where
  "safe_discover e is_loopback insecure p (NewProviderFailed x) = Inl (discovery_reason (Some x))"
| "safe_discover e is_loopback insecure p ClaimsFailed = Inl ''fetch''"
| "safe_discover e is_loopback insecure p Panicked = Inl ''fetch''"
| "safe_discover e is_loopback insecure p (Document doc) = discover_checked e is_loopback insecure p doc"

section \<open>The cache of one provider\<close>

definition discovery_ttl :: duration where "discovery_ttl = 24 * hour"
definition discovery_max_age :: duration where "discovery_max_age = 7 * 24 * hour"
definition discovery_neg_ttl :: duration where "discovery_neg_ttl = 60 * second"

text \<open>\<open>time.Time{}\<close>, the first instant of the year 1, and \<open>t.Sub(u)\<close>, which saturates.\<close>

definition zero_time :: instant where "zero_time = - 62135596800 * second"

definition time_sub :: "instant \<Rightarrow> instant \<Rightarrow> duration" where
  "time_sub t u = max (- (2 ^ 63)) (min (2 ^ 63 - 1) (t - u))"

record cache_entry =
  ce_doc :: "discovered option"
  ce_fetched :: instant
  ce_err :: "string option"
  ce_retry :: instant
  ce_inflight :: "nat option"
  ce_started :: nat

definition new_entry :: cache_entry where
  "new_entry = \<lparr>ce_doc = None, ce_fetched = zero_time, ce_err = None, ce_retry = zero_time, ce_inflight = None, ce_started = 0\<rparr>"

text \<open>A fetch in flight is known by its number; a caller answers, fails with the remembered error, or waits.\<close>

datatype lookup = Serve discovered | Refuse "string option" | Await nat

definition start_locked :: "cache_entry \<Rightarrow> cache_entry" where
  "start_locked ce = ce\<lparr>ce_inflight := Some (ce_started ce), ce_started := Suc (ce_started ce)\<rparr>"

definition discover_call :: "instant \<Rightarrow> cache_entry \<Rightarrow> lookup \<times> cache_entry" where
  "discover_call now ce =
     (let age = time_sub now (ce_fetched ce);
          wait = (case ce_inflight ce of
            Some n \<Rightarrow> (Await n, ce)
          | None \<Rightarrow> if now < ce_retry ce then (Refuse (ce_err ce), ce)
                    else (Await (ce_started ce), start_locked ce))
      in case ce_doc ce of
           None \<Rightarrow> wait
         | Some d \<Rightarrow>
             if age < discovery_ttl then (Serve d, ce)
             else if age < discovery_max_age
             then (Serve d, if ce_inflight ce = None \<and> \<not> now < ce_retry ce then start_locked ce else ce)
             else wait)"

definition fetch_finished :: "instant \<Rightarrow> string + discovered \<Rightarrow> cache_entry \<Rightarrow> cache_entry" where
  "fetch_finished now res ce =
     (case res of
        Inr d \<Rightarrow> ce\<lparr>ce_doc := Some d, ce_fetched := now, ce_err := None, ce_retry := zero_time, ce_inflight := None\<rparr>
      | Inl reason \<Rightarrow> ce\<lparr>ce_err := Some reason, ce_retry := now + discovery_neg_ttl, ce_inflight := None\<rparr>)"

text \<open>What happens to an entry: calls, at instants the clock can show, and the end of the fetch in flight.\<close>

datatype disc_event = Call instant lookup | Finished nat instant "string + discovered"

inductive disc_step :: "disc_event \<Rightarrow> cache_entry \<Rightarrow> cache_entry \<Rightarrow> bool" where
  call: "zero_time \<le> now \<Longrightarrow> discover_call now ce = (r, ce') \<Longrightarrow> disc_step (Call now r) ce ce'"
| finished: "ce_inflight ce = Some n \<Longrightarrow> disc_step (Finished n now res) ce (fetch_finished now res ce)"

inductive_cases disc_stepE: "disc_step ev ce ce'"

section \<open>What the cache promises\<close>

text \<open>
  The specification knows the last good document with the time of its fetch, the last failure since then, and
  the fetch in flight.  A document may be served while it is younger than seven days.  A fetch may start
  only when none is running and no failure is younger than a minute.
\<close>

record disc_spec =
  sp_ok :: "(instant \<times> discovered) option"
  sp_fail :: "(instant \<times> string) option"
  sp_busy :: "nat option"
  sp_started :: nat

definition usable :: "instant \<Rightarrow> disc_spec \<Rightarrow> discovered \<Rightarrow> bool" where
  "usable now sp d \<longleftrightarrow> (\<exists>t. sp_ok sp = Some (t, d) \<and> now - t < discovery_max_age)"

definition may_start :: "instant \<Rightarrow> disc_spec \<Rightarrow> bool" where
  "may_start now sp \<longleftrightarrow> sp_busy sp = None \<and> (case sp_fail sp of None \<Rightarrow> True | Some (t, _) \<Rightarrow> discovery_neg_ttl \<le> now - t)"

definition started :: "disc_spec \<Rightarrow> disc_spec" where
  "started sp = sp\<lparr>sp_busy := Some (sp_started sp), sp_started := Suc (sp_started sp)\<rparr>"

inductive spec_step :: "disc_event \<Rightarrow> disc_spec \<Rightarrow> disc_spec \<Rightarrow> bool" where
  serve: "usable now sp d \<Longrightarrow> spec_step (Call now (Serve d)) sp sp"
| serve_renew: "usable now sp d \<Longrightarrow> may_start now sp \<Longrightarrow> spec_step (Call now (Serve d)) sp (started sp)"
| join: "\<nexists>d. usable now sp d \<Longrightarrow> sp_busy sp = Some n \<Longrightarrow> spec_step (Call now (Await n)) sp sp"
| begin_fetch: "\<nexists>d. usable now sp d \<Longrightarrow> may_start now sp \<Longrightarrow> spec_step (Call now (Await (sp_started sp))) sp (started sp)"
| refuse: "\<nexists>d. usable now sp d \<Longrightarrow> sp_busy sp = None \<Longrightarrow> sp_fail sp = Some (t, x) \<Longrightarrow> now - t < discovery_neg_ttl \<Longrightarrow>
    spec_step (Call now (Refuse (Some x))) sp sp"
| succeed: "sp_busy sp = Some n \<Longrightarrow>
    spec_step (Finished n now (Inr d)) sp (sp\<lparr>sp_ok := Some (now, d), sp_fail := None, sp_busy := None\<rparr>)"
| failed: "sp_busy sp = Some n \<Longrightarrow>
    spec_step (Finished n now (Inl x)) sp (sp\<lparr>sp_fail := Some (now, x), sp_busy := None\<rparr>)"

text \<open>The abstraction of an entry, and what the fields of an entry have to do with each other.\<close>

definition abs_entry :: "cache_entry \<Rightarrow> disc_spec" where
  "abs_entry ce =
     \<lparr>sp_ok = map_option (Pair (ce_fetched ce)) (ce_doc ce),
      sp_fail = map_option (Pair (ce_retry ce - discovery_neg_ttl)) (ce_err ce),
      sp_busy = ce_inflight ce, sp_started = ce_started ce\<rparr>"

definition entry_ok :: "cache_entry \<Rightarrow> bool" where
  "entry_ok ce \<longleftrightarrow> (ce_err ce = None \<longrightarrow> ce_retry ce = zero_time)"

lemma saturated_less: "time_sub t u < discovery_ttl \<longleftrightarrow> t - u < discovery_ttl"
  "time_sub t u < discovery_max_age \<longleftrightarrow> t - u < discovery_max_age"
  by (auto simp: time_sub_def discovery_ttl_def discovery_max_age_def duration_defs)

lemma ttl_le: "t < discovery_ttl \<Longrightarrow> t < discovery_max_age"
  by (simp add: discovery_ttl_def discovery_max_age_def duration_defs)

lemma abs_start: "abs_entry (start_locked ce) = started (abs_entry ce)"
  by (simp add: abs_entry_def start_locked_def started_def)

lemma usable_abs: "usable now (abs_entry ce) d \<longleftrightarrow> ce_doc ce = Some d \<and> now - ce_fetched ce < discovery_max_age"
  by (auto simp: usable_def abs_entry_def)

lemma may_start_abs:
  assumes "entry_ok ce" and "zero_time \<le> now"
  shows "may_start now (abs_entry ce) \<longleftrightarrow> ce_inflight ce = None \<and> \<not> now < ce_retry ce"
  using assms by (auto simp: may_start_def abs_entry_def entry_ok_def split: option.split)

lemma wait_refines:
  assumes "entry_ok ce" and "zero_time \<le> now" and "\<nexists>d. usable now (abs_entry ce) d"
    and "(case ce_inflight ce of Some n \<Rightarrow> (Await n, ce)
          | None \<Rightarrow> if now < ce_retry ce then (Refuse (ce_err ce), ce) else (Await (ce_started ce), start_locked ce)) = (r, ce')"
  shows "spec_step (Call now r) (abs_entry ce) (abs_entry ce')"
proof (cases "ce_inflight ce")
  case (Some n)
  with assms(4) spec_step.join [OF assms(3), of n] show ?thesis by (simp add: abs_entry_def)
next
  case None
  show ?thesis
  proof (cases "now < ce_retry ce")
    case True
    then obtain x where "ce_err ce = Some x" using assms(1,2) by (cases "ce_err ce") (auto simp: entry_ok_def)
    with spec_step.refuse [OF assms(3), of "ce_retry ce - discovery_neg_ttl" x] True None assms(4)
    show ?thesis by (simp add: abs_entry_def)
  next
    case False
    have "spec_step (Call now (Await (sp_started (abs_entry ce)))) (abs_entry ce) (started (abs_entry ce))"
      using spec_step.begin_fetch [OF assms(3)] may_start_abs [OF assms(1,2)] None False by simp
    with assms(4) None False show ?thesis by (auto simp: abs_start) (simp add: abs_entry_def)
  qed
qed

lemma call_refines:
  assumes "entry_ok ce" and "zero_time \<le> now" and "discover_call now ce = (r, ce')"
  shows "spec_step (Call now r) (abs_entry ce) (abs_entry ce')"
proof (cases "\<exists>d. usable now (abs_entry ce) d")
  case True
  then obtain d where d: "ce_doc ce = Some d" "now - ce_fetched ce < discovery_max_age" by (auto simp: usable_abs)
  then have u: "usable now (abs_entry ce) d" by (simp add: usable_abs)
  show ?thesis
  proof (cases "\<not> now - ce_fetched ce < discovery_ttl \<and> ce_inflight ce = None \<and> \<not> now < ce_retry ce")
    case True
    with spec_step.serve_renew [OF u] may_start_abs [OF assms(1,2)] d assms(3) show ?thesis
      by (auto simp: discover_call_def saturated_less abs_start Let_def)
  next
    case False
    with spec_step.serve [OF u] d assms(3) show ?thesis
      by (auto simp: discover_call_def saturated_less Let_def split: if_splits)
  qed
next
  case False
  then have old: "\<not> time_sub now (ce_fetched ce) < discovery_max_age" "\<not> time_sub now (ce_fetched ce) < discovery_ttl"
    if "ce_doc ce = Some d" for d using that ttl_le by (auto simp: usable_abs saturated_less)
  from assms(3) have "(case ce_inflight ce of Some n \<Rightarrow> (Await n, ce)
      | None \<Rightarrow> if now < ce_retry ce then (Refuse (ce_err ce), ce) else (Await (ce_started ce), start_locked ce)) = (r, ce')"
    using old by (cases "ce_doc ce") (simp_all add: discover_call_def Let_def)
  from wait_refines [OF assms(1,2) False this] show ?thesis .
qed

lemma entry_ok_step: "disc_step ev ce ce' \<Longrightarrow> entry_ok ce \<Longrightarrow> entry_ok ce'"
  by (erule disc_stepE)
    (auto simp: entry_ok_def discover_call_def fetch_finished_def start_locked_def Let_def
      split: option.splits if_splits sum.splits)

lemma step_refines: "disc_step ev ce ce' \<Longrightarrow> entry_ok ce \<Longrightarrow> spec_step ev (abs_entry ce) (abs_entry ce')"
proof (erule disc_stepE, goal_cases)
  case (1 now r)
  then show ?case using call_refines by blast
next
  case (2 n now res)
  then have busy: "sp_busy (abs_entry ce) = Some n" by (simp add: abs_entry_def)
  from 2 spec_step.succeed [OF busy] spec_step.failed [OF busy] show ?case
    by (cases res) (auto simp: fetch_finished_def abs_entry_def)
qed

interpretation cache: simulation disc_step new_entry spec_step abs_entry entry_ok
proof
  show "entry_ok new_entry" by (simp add: entry_ok_def new_entry_def)
qed (blast intro: entry_ok_step step_refines)+

section \<open>Consequences of the specification\<close>

text \<open>Every good document came from a fetch; flights are numbered in order and one at a time.\<close>

interpretation fetched: kept spec_step "abs_entry new_entry"
  "\<lambda>evs sp. \<forall>t d. sp_ok sp = Some (t, d) \<longrightarrow> (\<exists>n. Finished n t (Inr d) \<in> set evs)"
proof
  fix evs sp ev sp'
  assume "\<forall>t d. sp_ok sp = Some (t, d) \<longrightarrow> (\<exists>n. Finished n t (Inr d) \<in> set evs)" "spec_step ev sp sp'"
  then show "\<forall>t d. sp_ok sp' = Some (t, d) \<longrightarrow> (\<exists>n. Finished n t (Inr d) \<in> set (evs @ [ev]))"
    by (cases rule: spec_step.cases [OF \<open>spec_step ev sp sp'\<close>]) (auto simp: started_def)
qed (simp add: abs_entry_def new_entry_def)

text \<open>The flights that ended, in order.\<close>

fun flight_of :: "disc_event \<Rightarrow> nat list" where
  "flight_of (Finished n _ _) = [n]"
| "flight_of (Call _ _) = []"

definition flights_ok :: "disc_event list \<Rightarrow> disc_spec \<Rightarrow> bool" where
  "flights_ok evs sp \<longleftrightarrow> (\<forall>n. sp_busy sp = Some n \<longrightarrow> sp_started sp = Suc n) \<and>
     concat (map flight_of evs) = [0..<(case sp_busy sp of None \<Rightarrow> sp_started sp | Some n \<Rightarrow> n)]"

interpretation flights: kept spec_step "abs_entry new_entry" flights_ok
proof
  fix evs sp ev sp'
  assume "flights_ok evs sp" "spec_step ev sp sp'"
  from this(2,1) show "flights_ok (evs @ [ev]) sp'"
    by (cases rule: spec_step.cases) (auto simp: flights_ok_def started_def may_start_def)
qed (simp add: flights_ok_def abs_entry_def new_entry_def)

section \<open>Properties\<close>

text \<open>C35. The discovery cache does only what its specification allows, in every order of calls and fetches: a
  document younger than seven days is served, at most one fetch is in flight, none starts within a minute of a
  failure, and a caller is refused only with the error of such a failure.\<close>

theorem cache_refines_spec:
  "run disc_step new_entry evs ce \<Longrightarrow> run spec_step (abs_entry new_entry) evs (abs_entry ce)"
  by (rule cache.refines)

definition sample_doc :: discovered where
  "sample_doc = \<lparr>dv_doc = \<lparr>dd_auth = ''https://op/a'', dd_token = ''https://op/t'', dd_jwks = ''https://op/k'',
     dd_algs = None, dd_methods = None\<rparr>, dv_algs = [''RS256''], dv_style = InHeader\<rparr>"

definition sample_run :: "disc_event list" where
  "sample_run = [Call 0 (Await 0), Finished 0 second (Inr sample_doc), Call hour (Serve sample_doc)]"

definition sample_entry :: cache_entry where
  "sample_entry = \<lparr>ce_doc = Some sample_doc, ce_fetched = second, ce_err = None, ce_retry = zero_time,
     ce_inflight = None, ce_started = 1\<rparr>"

lemma sample_calls:
  "discover_call 0 new_entry = (Await 0, start_locked new_entry)"
  "discover_call hour sample_entry = (Serve sample_doc, sample_entry)"
  "discover_call (2 * hour) sample_entry = (Serve sample_doc, sample_entry)"
  "fetch_finished second (Inr sample_doc) (start_locked new_entry) = sample_entry"
  by (simp_all add: discover_call_def new_entry_def sample_entry_def zero_time_def time_sub_def discovery_ttl_def
      fetch_finished_def start_locked_def duration_defs)

lemma sample_run_ok: "run disc_step new_entry sample_run sample_entry"
proof -
  have 1: "disc_step (Call 0 (Await 0)) new_entry (start_locked new_entry)"
    by (rule disc_step.call [OF _ sample_calls(1)]) (simp add: zero_time_def second_def)
  have 2: "disc_step (Finished 0 second (Inr sample_doc)) (start_locked new_entry) sample_entry"
    unfolding sample_calls(4) [symmetric] by (rule disc_step.finished) (simp add: start_locked_def new_entry_def)
  have 3: "disc_step (Call hour (Serve sample_doc)) sample_entry sample_entry"
    by (rule disc_step.call [OF _ sample_calls(2)]) (simp add: zero_time_def duration_defs)
  note snoc = run_snoc [where step = disc_step and ?s0.0 = new_entry, rotated]
  have r1: "run disc_step new_entry ([] @ [Call 0 (Await 0)]) (start_locked new_entry)"
    by (rule snoc [OF 1 run_Nil])
  show ?thesis using snoc [OF 3 snoc [OF 2 r1]] by (simp add: sample_run_def)
qed

theorem cache_refines_spec_witness: "run spec_step (abs_entry new_entry) sample_run (abs_entry sample_entry)"
  by (rule cache_refines_spec [OF sample_run_ok])

text \<open>What a call answers from the cache is the document of a fetch that succeeded less than seven days
  ago, and fetches end one after the other in the order in which they started.\<close>

theorem served_document_is_recent:
  assumes "run disc_step new_entry evs ce" and "disc_step (Call now (Serve d)) ce ce'"
  shows "(\<exists>n t. Finished n t (Inr d) \<in> set evs \<and> now - t < 7 * 24 * hour) \<and>
    (\<exists>k. concat (map flight_of evs) = [0..<k])"
proof -
  from step_refines [OF assms(2) cache.reach.kept_run [OF assms(1)]] have "usable now (abs_entry ce) d"
    by (cases rule: spec_step.cases) auto
  then obtain t where "sp_ok (abs_entry ce) = Some (t, d)" "now - t < discovery_max_age" by (auto simp: usable_def)
  moreover note cache.transfer [OF assms(1) fetched.kept_axioms] cache.transfer [OF assms(1) flights.kept_axioms]
  ultimately show ?thesis by (auto simp: flights_ok_def discovery_max_age_def)
qed

theorem served_document_is_recent_witness:
  "(\<exists>n t. Finished n t (Inr sample_doc) \<in> set sample_run \<and> 2 * hour - t < 7 * 24 * hour) \<and>
   (\<exists>k. concat (map flight_of sample_run) = [0..<k])"
proof (rule served_document_is_recent [OF sample_run_ok])
  show "disc_step (Call (2 * hour) (Serve sample_doc)) sample_entry sample_entry"
    by (rule disc_step.call [OF _ sample_calls(3)]) (simp add: zero_time_def duration_defs)
qed

text \<open>A document that is put to use names only https endpoints, or http ones of the own machine in
  insecure mode, and only signature algorithms of the fixed list, of which neither \<open>none\<close> nor an HMAC is one.\<close>

theorem discovered_document_checked:
  assumes "safe_discover e is_loopback insecure p outcome = Inr d"
  shows "outcome = Document (dv_doc d) \<and>
    list_all (endpoint_ok e is_loopback insecure) [dd_auth (dv_doc d), dd_token (dv_doc d), dd_jwks (dv_doc d)] \<and>
    dv_algs d \<noteq> [] \<and> ''none'' \<notin> set (dv_algs d) \<and> ''HS256'' \<notin> set (dv_algs d) \<and> set (dv_algs d) \<subseteq> set allowed_algs \<and>
    (dv_style d = InHeader \<longrightarrow> pr_secret p \<noteq> [])"
proof (cases outcome)
  case (Document doc)
  with assms have d: "discover_checked e is_loopback insecure p doc = Inr d" by simp
  then obtain algs style where "intersect_algs (dd_algs doc) = Inr algs" "auth_style_of p (dd_methods doc) = Inr style"
    "d = \<lparr>dv_doc = doc, dv_algs = algs, dv_style = style\<rparr>"
    "list_all (endpoint_ok e is_loopback insecure) [dd_auth doc, dd_token doc, dd_jwks doc]"
    by (auto simp: discover_checked_def split: if_splits sum.splits)
  with Document show ?thesis
    by (auto simp: intersect_algs_def auth_style_of_def Let_def allowed_algs_def split: option.splits if_splits)
qed (use assms in auto)

definition sample_provider :: provider where
  "sample_provider = \<lparr>pr_id = 3, pr_slug = ''op'', pr_name = ''OP'', pr_issuer = ''https://op'', pr_client = ''c'',
     pr_secret = ''s'', pr_scopes = [''openid''], pr_trust = False, pr_domains = []\<rparr>"

theorem discovered_document_checked_witness:
  "dv_algs sample_doc \<noteq> [] \<and> ''HS256'' \<notin> set (dv_algs sample_doc)"
proof -
  have "safe_discover demo_env (\<lambda>_. False) False sample_provider (Document (dv_doc sample_doc)) = Inr sample_doc"
    by (simp add: discover_checked_def sample_doc_def endpoint_ok_def demo_env_def demo_url_def cut_prefix_def
        has_prefix_def intersect_algs_def auth_style_of_def sample_provider_def Let_def)
  from discovered_document_checked [OF this] show ?thesis by blast
qed

end
