(* ===== verification/OidcClient.thy ===== *)
theory OidcClient
  imports Magic AuditLog Discovery
begin

text \<open>
  What the handlers of the external providers share: the authorization request they send the browser to, the
  provider as they see it, and the checks of \<open>internal/auth/oidc_generic.go\<close> and \<open>google.go\<close> on the claims of an id token.

  The OAuth client and the verification of id tokens are libraries (\<open>golang.org/x/oauth2\<close>, \<open>go-oidc\<close>): their
  results are the fields of \<open>op_client\<close>, functions of what the code hands them.
\<close>

record auth_request =
  ar_client :: string
  ar_endpoint :: string
  ar_redirect :: string
  ar_scopes :: "string list"
  ar_state :: string
  ar_challenge :: "string option"
  ar_nonce :: string
  ar_prompt :: string

text \<open>A claim as \<open>encoding/json\<close> reads it.\<close>

datatype json_claim = JsonBool bool | JsonString string | JsonOther

record id_token =
  it_aud :: "string list"
  it_nonce :: string
  it_subject :: string
  it_azp :: string
  it_email :: string
  it_verified :: json_claim
  it_name :: string

text \<open>
  A provider: the document of \<open>Discover\<close> or the reason it failed, whether the document demands the parameter
  \<open>iss\<close>, the raw id token got for a code and a PKCE verifier, its verified content, and the address of the
  authorization endpoint for a request.
\<close>

record op_client =
  oc_discover :: "string \<Rightarrow> string + discovered"
  oc_iss_required :: "discovered \<Rightarrow> bool option"
  oc_exchange :: "provider \<Rightarrow> discovered \<Rightarrow> string \<Rightarrow> string \<Rightarrow> string \<Rightarrow> string option"
  oc_verify :: "discovered \<Rightarrow> string \<Rightarrow> string \<Rightarrow> id_token option"
  oc_auth_url :: "auth_request \<Rightarrow> string"

definition max_subject_len :: nat where "max_subject_len = 255"

definition state_cookie :: "env \<Rightarrow> string \<Rightarrow> string \<Rightarrow> unit io" where
  "state_cookie e name state = set_cookie (auth_cookie e name state SameSiteLax 600)"

definition redirect_cookie :: "env \<Rightarrow> request \<Rightarrow> unit io" where
  "redirect_cookie e r =
     (let ru = query_get r ''redirect_uri'' in
      if ru \<noteq> [] then set_cookie (auth_cookie e ''redirect_uri'' (query_escape ru) SameSiteLax 600) else return_io ())"

definition idp_redirect_url :: "env \<Rightarrow> request \<Rightarrow> string \<Rightarrow> string" where
  "idp_redirect_url e r slug =
     (if e_insecure_cookies e then ''http'' else ''https'') @ ''://'' @ rq_host r @ ''/idp/'' @ slug @ ''/callback''"

definition idp_context :: "string \<Rightarrow> string" where
  "idp_context slug = ''provider='' @ slug"

definition claim_true :: "json_claim \<Rightarrow> bool" where
  "claim_true c = (case c of JsonBool b \<Rightarrow> b | JsonString s \<Rightarrow> s = ''true'' | JsonOther \<Rightarrow> False)"

definition email_domain_allowed :: "env \<Rightarrow> string \<Rightarrow> string list \<Rightarrow> bool" where
  "email_domain_allowed e email domains =
     (case cut_last (CHR ''@'') email of
        None \<Rightarrow> False
      | Some (_, domain) \<Rightarrow>
          if domain = [] then False else list_ex (\<lambda>d. lower e domain = lower e d) domains)"

definition azp_ok :: "string list \<Rightarrow> string \<Rightarrow> string \<Rightarrow> bool" where
  "azp_ok aud azp client \<longleftrightarrow> \<not> ((1 < length aud \<or> azp \<noteq> []) \<and> azp \<noteq> client)"

definition raw_email_safe :: "string \<Rightarrow> bool" where
  "raw_email_safe raw \<longleftrightarrow> list_all (\<lambda>c. \<not> (byte c \<le> 0x20 \<or> 0x7f \<le> byte c)) raw \<and> valid_email raw"

definition check_id_token_nonce :: "string \<Rightarrow> string \<Rightarrow> bool" where
  "check_id_token_nonce token_nonce state_nonce \<longleftrightarrow>
     token_nonce \<noteq> [] \<and> state_nonce \<noteq> [] \<and> token_nonce = state_nonce"

section \<open>Addresses that are safe to trust\<close>

text \<open>Normalising an address that passed the check does nothing but fold ASCII letters.\<close>

lemma graphic_byte: "graphic c \<longleftrightarrow> \<not> (byte c \<le> 0x20 \<or> 0x7f \<le> byte c)"
  by (auto simp: graphic_def byte_def less_eq_char_def)

lemma raw_email_safe_normalize:
  assumes "raw_email_safe raw"
  shows "normalize_email e raw = map ascii_lower_char raw"
proof -
  have g: "\<forall>c \<in> set raw. graphic c" using assms by (auto simp: raw_email_safe_def list_all_iff graphic_byte)
  moreover have "raw \<noteq> []" using assms by (auto simp: raw_email_safe_def valid_email_def)
  ultimately have "trim_space raw = raw" by (simp add: trim_space_graphic)
  moreover have "ascii raw" using g by (auto simp: ascii_def graphic_def less_char_def less_eq_char_def)
  ultimately show ?thesis by (simp add: normalize_email_def to_lower_def)
qed

section \<open>An untrusted address links nothing\<close>

lemma keeps_keys_complete: "keeps (\<lambda>w. identity_keys (w_db w)) (complete_login e i r svc user m)"
  by (rule keeps_complete) simp_all

lemma resolve_user_keys:
  assumes "lp_untrusted pol"
  shows "keeps (\<lambda>w. identity_keys (w_db w)) (resolve_user e ext pol meta)"
  unfolding keeps_def
proof
  fix w
  obtain r w1 where run: "run_state (resolve_identity e ext pol meta) w = (r, w1)" by fastforce
  from resolve_identity_result(2) [OF this] assms
  show "identity_keys (w_db (snd (run_state (resolve_user e ext pol meta) w))) = identity_keys (w_db w)"
    by (simp add: resolve_user_def run resolved_ok_def)
qed

lemma keeps_case_resolve_err [keeps_intros]:
  "keeps f a \<Longrightarrow> keeps f b \<Longrightarrow> keeps f c \<Longrightarrow> keeps f d \<Longrightarrow> keeps f g \<Longrightarrow> keeps f k \<Longrightarrow> (\<And>y. keeps f (h y)) \<Longrightarrow>
   keeps f (case x of NoAccount \<Rightarrow> a | UserConflict \<Rightarrow> b | UserInactive \<Rightarrow> c | LinkDenied \<Rightarrow> d
     | RetryResolve \<Rightarrow> g | ResolveRand \<Rightarrow> k | ResolveDb y \<Rightarrow> h y)"
  by (cases x) auto

lemma finish_with_policy_keys:
  "lp_untrusted pol \<Longrightarrow> keeps (\<lambda>w. identity_keys (w_db w)) (finish_with_policy e i r p svc ext pol ctx)"
  unfolding finish_with_policy_def audit_rejected_def reject_def
  by (intro keeps_intros resolve_user_keys keeps_keys_complete)

section \<open>What a callback may leave behind\<close>

text \<open>
  A callback changes nothing in the database, or it got as far as a verified identity (\<open>P\<close> says for which service and
  identity, and whether its address may be trusted); then it opened a session only as \<open>admitted\<close> describes, and with
  an untrusted address it linked no identity to any user.
\<close>

definition login_outcome ::
  "(service_row \<Rightarrow> ext_identity \<Rightarrow> bool \<Rightarrow> bool) \<Rightarrow> env \<Rightarrow> issuer \<Rightarrow> world \<Rightarrow> reply \<Rightarrow> world \<Rightarrow> bool" where
  "login_outcome P e i w reply w' \<longleftrightarrow>
     w_db w' = w_db w \<or>
     (\<exists>svc ext pol. P svc ext (\<not> lp_untrusted pol) \<and>
        (\<not> lp_untrusted pol \<or> identity_keys (w_db w') = identity_keys (w_db w)) \<and>
        (t_refresh (w_db w') = t_refresh (w_db w) \<or> admitted e i svc ext pol w reply w'))"

lemma admitted_cong: "w_db w1 = w_db w \<Longrightarrow> admitted e i svc ext pol w1 = admitted e i svc ext pol w"
  by (simp add: admitted_def fun_eq_iff)

lemma outcome_finish_with_policy:
  assumes "P svc ext (\<not> lp_untrusted pol)" and "w_db w1 = w_db w"
  shows "wp (finish_with_policy e i r p svc ext pol ctx) (login_outcome P e i w) w1"
proof (rule wpI)
  fix reply w'
  assume run: "run_state (finish_with_policy e i r p svc ext pol ctx) w1 = (reply, w')"
  have "lp_untrusted pol \<Longrightarrow> identity_keys (w_db w') = identity_keys (w_db w1)"
    by (rule keepsD [OF finish_with_policy_keys run])
  with wpD [OF finish_with_policy_wp run] assms admitted_cong [of w1 w]
  show "login_outcome P e i w reply w'"
    unfolding login_outcome_def refused_def by (intro disjI2 exI [of _ svc] exI [of _ ext] exI [of _ pol]) auto
qed

lemma outcome_keeps:
  assumes "keeps (\<lambda>w. w_db w) m" and "w_db w1 = w_db w"
  shows "wp m (login_outcome P e i w) w1"
  using assms by (simp add: wp_def keeps_def login_outcome_def split: prod.split) (metis snd_conv)

lemma keeps_db_rejections:
  "keeps (\<lambda>w. w_db w) (reject r p svc rej)" "keeps (\<lambda>w. w_db w) (audit_rejected r p sid rej)"
  unfolding reject_def audit_rejected_def by (intro keeps_intros keeps_db_ticks(4) [where g = "\<lambda>d. d"])+

lemma outcome_finish:
  assumes "P svc ext True" and "w_db w1 = w_db w"
  shows "wp (finish e i r p svc ext) (login_outcome P e i w) w1"
proof (cases "lm_method (fp_login p) = lm_method login_oidc \<or> lm_method (fp_login p) = lm_method login_github")
  case True
  then show ?thesis
    unfolding finish_def if_P [OF True] by (intro outcome_keeps keeps_bind keeps_return keeps_db_rejections assms)
next
  case False
  then show ?thesis
    unfolding finish_def if_not_P [OF False]
    by (intro outcome_finish_with_policy assms) (simp add: policy_for_def assms)
qed

lemma outcome_reject: "w_db w1 = w_db w \<Longrightarrow> wp (reject r p svc rej) (login_outcome P e i w) w1"
  by (rule outcome_keeps [OF keeps_db_rejections(1)])

lemma outcome_audit:
  "w_db w1 = w_db w \<Longrightarrow> wp (audit_rejected r p sid rej) (\<lambda>_ w'. login_outcome P e i w reply w') w1"
  by (simp add: audit_rejected_def login_outcome_def wp_simps)

lemma outcome_return: "w_db w1 = w_db w \<Longrightarrow> login_outcome P e i w reply w1"
  by (simp add: login_outcome_def)

text \<open>The state of a callback was in the cookie and in the request, and it was signed here.\<close>

definition state_shown :: "env \<Rightarrow> request \<Rightarrow> string \<Rightarrow> string \<Rightarrow> state_claims \<Rightarrow> bool" where
  "state_shown e r cookie secret c \<longleftrightarrow>
     cookie_get r cookie = Some (query_get r ''state'') \<and> (\<exists>now. parse_state e now secret (query_get r ''state'') = Some c)"

lemma read_state_wp:
  "wp (read_state e r cookie secret) (\<lambda>rc w'. response w' = response w \<and> w_db w' = w_db w \<and>
     (\<forall>c. rc = Inr c \<longrightarrow> state_shown e r cookie secret c)) w"
  by (auto simp: read_state_def state_shown_def wp_simps split: option.split)

end
