(* ===== verification/LinkInvite.thy ===== *)
theory LinkInvite
  imports OidcClient
begin

text \<open>
  Invitations to link an external account: \<open>internal/auth/link_invite.go\<close>.  The link of the mail shows a page and
  changes nothing; its POST sends the browser to the provider with a state that names the invitation; the callback
  spends the invitation and stores the identity in one transaction (\<open>finish_link\<close>).  All refusals of the link look alike.
\<close>

section \<open>The invitation behind a link\<close>

record link_handlers =
  il_cache :: "service_row list"
  il_idps :: idp_registry
  il_texts :: catalog
  il_secret :: string

record link_target =
  lt_invite :: invite_row
  lt_user :: user_row
  lt_provider :: provider
  lt_svc :: service_row

definition link_token_len :: nat where "link_token_len = 43"

definition ascii_letter :: "char \<Rightarrow> bool" where
  "ascii_letter c \<longleftrightarrow> list_ex (\<lambda>lo. lo \<le> byte c \<and> byte c < lo + 26) [65, 97]"

definition token_char :: "char \<Rightarrow> bool" where
  "token_char c \<longleftrightarrow> ascii_letter c \<or> is_digit c \<or> c \<in> {CHR ''-'', CHR ''_''}"

definition valid_link_token_format :: "string \<Rightarrow> bool" where
  "valid_link_token_format t \<longleftrightarrow> length t = link_token_len \<and> list_all token_char t"

definition invite_user_ok :: "env \<Rightarrow> invite_row \<Rightarrow> user_row \<Rightarrow> bool" where
  "invite_user_ok e iv user \<longleftrightarrow> u_deactivated user = None \<and> normalize_email e (u_email user) = li_email iv"

definition link_target_of :: "env \<Rightarrow> link_handlers \<Rightarrow> invite_row \<Rightarrow> user_row \<Rightarrow> link_target option" where
  "link_target_of e h iv user =
     (case resolve e (il_cache h) [] (li_service iv) [] of
        None \<Rightarrow> None
      | Some svc \<Rightarrow>
          if sv_active svc \<noteq> 1 then None
          else map_option (\<lambda>p. \<lparr>lt_invite = iv, lt_user = user, lt_provider = p, lt_svc = svc\<rparr>)
            (List.find (\<lambda>p. pr_id p = li_provider iv) (for_service (il_idps h) (sv_id svc))))"

definition lookup_link :: "env \<Rightarrow> link_handlers \<Rightarrow> string \<Rightarrow> link_target option io" where
  "lookup_link e h raw =
     (if \<not> valid_link_token_format raw then return_io None
      else do {
        now \<leftarrow> time_now e;
        ri \<leftarrow> db_read e ReqCtx (get_valid_invite (hash_opaque e raw) (format_link_invite_time now));
        case ri of
          Inl _ \<Rightarrow> return_io None
        | Inr iv \<Rightarrow> do {
            ru \<leftarrow> db_read e ReqCtx (get_user_by_id (li_user iv));
            return_io (case ru of
              Inl _ \<Rightarrow> None
            | Inr user \<Rightarrow> if invite_user_ok e iv user then link_target_of e h iv user else None)
          }
      })"

section \<open>Texts\<close>

definition first_rune :: "string \<Rightarrow> string" where
  "first_rune s = (case runes s of [] \<Rightarrow> [] | (None, _) # _ \<Rightarrow> replacement | (Some _, b) # _ \<Rightarrow> b)"

definition mask_email :: "string \<Rightarrow> string" where
  "mask_email email =
     (case cut_last (CHR ''@'') email of
        Some (c # local, domain) \<Rightarrow> first_rune (c # local) @ ''***'' @ CHR ''@'' # domain
      | _ \<Rightarrow> ''***'')"

text \<open>\<open>strings.Index\<close>.\<close>

fun index_text :: "string \<Rightarrow> string \<Rightarrow> nat option" where
  "index_text [] t = (if t = [] then Some 0 else None)"
| "index_text (c # s) t = (if has_prefix (c # s) t then Some 0 else map_option Suc (index_text s t))"

text \<open>The first of the two placeholders, with the text that replaces it.\<close>

definition first_tag :: "string \<Rightarrow> string \<Rightarrow> string \<Rightarrow> (nat \<times> string) option" where
  "first_tag s provider email =
     (case (index_text s ''{provider}'', index_text s ''{email}'') of
        (None, None) \<Rightarrow> None
      | (Some i, None) \<Rightarrow> Some (i, provider)
      | (None, Some j) \<Rightarrow> Some (j, email)
      | (Some i, Some j) \<Rightarrow> if j < i then Some (j, email) else Some (i, provider))"

function split_link_text :: "string \<Rightarrow> string \<Rightarrow> string \<Rightarrow> (string \<times> bool) list" where
  "split_link_text s provider email =
     (if s = [] then []
      else case first_tag s provider email of
        None \<Rightarrow> [(s, False)]
      | Some (i, val) \<Rightarrow>
          (if 0 < i then [(take i s, False)] else []) @ (val, True) #
          split_link_text (drop (i + length (takeWhile (\<lambda>c. c \<noteq> CHR ''}'') (drop i s)) + 1) s) provider email)"
  by pat_completeness auto
termination by (relation "measure (\<lambda>(s, _, _). length s)") auto

declare split_link_text.simps [simp del]

text \<open>\<open>strings.NewReplacer\<close> with the two placeholders: from left to right, what was put in is not read again.\<close>

function fill_link_text :: "string \<Rightarrow> string \<Rightarrow> string \<Rightarrow> string" where
  "fill_link_text [] provider email = []"
| "fill_link_text (c # s) provider email =
     (if has_prefix (c # s) ''{provider}'' then provider @ fill_link_text (drop 9 s) provider email
      else if has_prefix (c # s) ''{email}'' then email @ fill_link_text (drop 6 s) provider email
      else c # fill_link_text s provider email)"
  by pat_completeness auto
termination by (relation "measure (\<lambda>(s, _, _). length s)") auto

section \<open>Pages\<close>

definition blank_service :: service_row where
  "blank_service = \<lparr>sv_id = [], sv_display_name = ''kauth'', sv_tagline = None, sv_domain = [], sv_auth_host = None,
     sv_callback = [], sv_logo_html = None, sv_bg_image = None, sv_bg_css = None, sv_theme = ''light'', sv_accent = [],
     sv_email_from_name = [], sv_auto_register = 0, sv_default_role = None, sv_default_org = None, sv_require_role = None,
     sv_enforce_org = 0, sv_is_default = 0, sv_auth_google = 0, sv_auth_microsoft = 0, sv_auth_magic = 0,
     sv_auth_password = 0, sv_google_client_id = None, sv_google_client_secret = None, sv_microsoft_client_id = None,
     sv_microsoft_client_secret = None, sv_cookie_name = [], sv_access_ttl = [], sv_refresh_max_age = None, sv_active = 0,
     sv_updated = [], sv_email_from_address = None, sv_sub_format = [], sv_auto_link = 0, sv_google_secret_env = None,
     sv_microsoft_secret_env = None, sv_auth_github = 0, sv_github_client_id = None, sv_github_secret_env = None\<rparr>"

definition render_link ::
  "env \<Rightarrow> request \<Rightarrow> service_row option \<Rightarrow> nat \<Rightarrow> string \<Rightarrow> (string \<times> string) list \<Rightarrow> reply io" where
  "render_link e r svc status name fs =
     (let s = (case svc of None \<Rightarrow> blank_service | Some s \<Rightarrow> s);
          (body, before) = build_bg_css (sv_theme s) (sv_bg_image s) (sv_bg_css s)
      in do {
        set_headers [(''Content-Type'', ''text/html; charset=utf-8''), (''Cache-Control'', ''no-store''),
          (''Referrer-Policy'', ''no-referrer''), (''Vary'', ''Accept-Language'')];
        return_io (Page status name
          ([(''service'', sv_id s), (''display_name'', sv_display_name s), (''logo'', logo_html s), (''body_css'', body),
            (''before_css'', before), (''locale'', locale_of e r)] @ fs))
      })"

lemma evolves_render_link [evolve_intros]: "evolves R (render_link e r svc status name fs)"
  unfolding render_link_def Let_def by (intro evolve_intros)+

lemma keeps_render_link [keeps_intros]:
  "keeps w_cookies (render_link e r svc status name fs)"
  "keeps (\<lambda>w. g (w_db w)) (render_link e r svc status name fs)"
  unfolding render_link_def Let_def by (intro keeps_intros)+

definition link_text :: "env \<Rightarrow> link_handlers \<Rightarrow> request \<Rightarrow> string \<Rightarrow> string" where
  "link_text e h r key = get_text (il_texts h) (locale_of e r) key"

definition render_invalid :: "env \<Rightarrow> link_handlers \<Rightarrow> request \<Rightarrow> reply io" where
  "render_invalid e h r =
     render_link e r (resolve_or_default e (il_cache h) (rq_host r) [] []) 200 ''link-result.html''
       [(''title'', link_text e h r ''LinkInvalidTitle''), (''hint'', link_text e h r ''LinkInvalidHint''), (''error'', ''1'')]"

definition render_result ::
  "env \<Rightarrow> link_handlers \<Rightarrow> request \<Rightarrow> service_row \<Rightarrow> nat \<Rightarrow> string \<Rightarrow> string \<Rightarrow> reply io" where
  "render_result e h r svc status kind provider =
     render_link e r (Some svc) status ''link-result.html''
       (if kind = ''done''
        then [(''title'', link_text e h r ''LinkDoneTitle''), (''hint'', fill_link_text (link_text e h r ''LinkDoneHint'') provider [])]
        else if kind = ''already''
        then [(''title'', link_text e h r ''LinkAlreadyTitle''), (''hint'', fill_link_text (link_text e h r ''LinkAlreadyHint'') provider [])]
        else [(''title'', link_text e h r ''LinkRejectedTitle''), (''hint'', link_text e h r ''LinkRejectedHint''), (''error'', ''1'')])"

text \<open>\<open>url.PathEscape\<close>.\<close>

fun path_escape :: "string \<Rightarrow> string" where
  "path_escape [] = []"
| "path_escape (c # s) =
     (if unreserved c \<or> c \<in> {CHR ''$'', CHR ''&'', CHR ''+'', CHR ''='', CHR '':'', CHR ''@''} then c # path_escape s
      else CHR ''%'' # upper_hex (byte c div 16) # upper_hex (byte c mod 16) # path_escape s)"

definition show_link_confirm :: "env \<Rightarrow> link_handlers \<Rightarrow> string \<Rightarrow> handler" where
  "show_link_confirm e h raw r = do {
     target \<leftarrow> lookup_link e h raw;
     case target of
       None \<Rightarrow> render_invalid e h r
     | Some tg \<Rightarrow>
         (let name = pr_name (lt_provider tg); loc = locale_of e r in
          render_link e r (Some (lt_svc tg)) 200 ''link-confirm.html''
            ([(''title'', fill_link_text (link_text e h r ''LinkConfirmTitle'') name [])] @
             map (\<lambda>(text, strong). (if strong then ''strong'' else ''text'', text))
               (split_link_text (link_text e h r ''LinkConfirmHint'') name (mask_email (li_email (lt_invite tg)))) @
             [(''button'', fill_link_text (link_text e h r ''LinkConfirmButton'') name []),
              (''action'', ''/link/'' @ path_escape raw @ ''?'' @ values_encode (values_set ''lang'' loc []))] @
             map (\<lambda>l. (''lang'', lk_href l)) (lang_links loc (lang_link_url no_login_error r))))
   }"

section \<open>Starting\<close>

definition link_event :: "request \<Rightarrow> string \<Rightarrow> string \<Rightarrow> string \<Rightarrow> bool \<Rightarrow> string \<Rightarrow> event" where
  "link_event r typ sid email ok details = method_event r typ (lm_method login_oidc) email sid ok details"

definition link_rejected :: "env \<Rightarrow> request \<Rightarrow> string \<Rightarrow> int \<Rightarrow> string \<Rightarrow> string \<Rightarrow> string \<Rightarrow> unit io" where
  "link_rejected e r sid invite slug reason email = do {
     _ \<leftarrow> log_sync e ReqCtx (link_event r ''identity_link_rejected'' sid email False
       (''invite='' @ format_int invite @ '' provider='' @ slug @ '' reason='' @ reason));
     return_io ()
   }"

definition send_to_provider ::
  "env \<Rightarrow> link_handlers \<Rightarrow> op_client \<Rightarrow> request \<Rightarrow> link_target \<Rightarrow> discovered \<Rightarrow> string \<Rightarrow> reply io" where
  "send_to_provider e h op r tg d nonce =
     (let p = lt_provider tg in do {
        now \<leftarrow> time_now e;
        let state = sign_link_state e now (il_secret h) (sv_id (lt_svc tg)) nonce (pr_slug p) (li_id (lt_invite tg));
        state_cookie e ''idp_state'' state;
        set_headers [(''Cache-Control'', ''no-store''), (''Referrer-Policy'', ''no-referrer'')];
        return_io (Redirect 302 (oc_auth_url op
          \<lparr>ar_client = pr_client p, ar_endpoint = dd_auth (dv_doc d), ar_redirect = idp_redirect_url e r (pr_slug p),
           ar_scopes = pr_scopes p, ar_state = state,
           ar_challenge = Some (s256_challenge e (pkce_verifier e (il_secret h) state)), ar_nonce = nonce, ar_prompt = ''login''\<rparr>))
      })"

definition start_link :: "env \<Rightarrow> link_handlers \<Rightarrow> op_client \<Rightarrow> string \<Rightarrow> handler" where
  "start_link e h op raw r =
     (if \<not> same_origin e r then return_io (HttpError 403 ''Forbidden'')
      else do {
        target \<leftarrow> lookup_link e h raw;
        case target of
          None \<Rightarrow> render_invalid e h r
        | Some tg \<Rightarrow>
            (case oc_discover op (pr_slug (lt_provider tg)) of
               Inl _ \<Rightarrow> do {
                 link_rejected e r (sv_id (lt_svc tg)) (li_id (lt_invite tg)) (pr_slug (lt_provider tg)) ''discovery''
                   (u_email (lt_user tg));
                 render_result e h r (lt_svc tg) 502 ''rejected'' []
               }
             | Inr d \<Rightarrow> do {
                 rn \<leftarrow> generate_nonce e;
                 case rn of
                   None \<Rightarrow> render_result e h r (lt_svc tg) 500 ''rejected'' []
                 | Some nonce \<Rightarrow> send_to_provider e h op r tg d nonce
               })
      })"

end
