(* ===== verification/LinkFinish.thy ===== *)
theory LinkFinish
  imports LinkInvite
begin

text \<open>
  The end of a linking flow: \<open>finishLink\<close> of \<open>internal/auth/link_invite.go\<close>.  Spending the invitation and storing
  the identity are one transaction, which also ends when the client goes away; a refusal rolls it back, so the
  invitation stays usable.  No token, cookie or session is ever made here.
\<close>

section \<open>A transaction whose result survives a failed commit\<close>

text \<open>As \<open>in_tx\<close>, where the closure has set variables of its surroundings before the commit fails.\<close>

definition in_tx_keep ::
  "env \<Rightarrow> call_ctx \<Rightarrow> 'e \<Rightarrow> ('a \<Rightarrow> 'e) \<Rightarrow> ('e + 'a) io \<Rightarrow> ('e + 'a) io" where
  "in_tx_keep e ctx begun failed body = State (\<lambda>w.
     (case db_failure e ctx (w_step w) of
        Some x \<Rightarrow> (Inl begun, w\<lparr>w_step := Suc (w_step w)\<rparr>)
      | None \<Rightarrow>
          (case run_state body (w\<lparr>w_step := Suc (w_step w)\<rparr>) of
             (Inl x, w') \<Rightarrow> (Inl x, w'\<lparr>w_db := w_db w\<rparr>)
           | (Inr a, w') \<Rightarrow>
               (case db_failure e ctx (w_step w') of
                  Some x \<Rightarrow> (Inl (failed a), w'\<lparr>w_db := w_db w, w_step := Suc (w_step w')\<rparr>)
                | None \<Rightarrow> (Inr a, w'\<lparr>w_step := Suc (w_step w')\<rparr>)))))"

lemma wp_in_tx_keep:
  assumes "\<And>x n. Q (Inl x) (w\<lparr>w_step := n\<rparr>)"
    and "wp body (\<lambda>r w'. case r of Inl x \<Rightarrow> Q (Inl x) (w'\<lparr>w_db := w_db w\<rparr>)
           | Inr a \<Rightarrow> (\<forall>n. Q (Inl (failed a)) (w'\<lparr>w_db := w_db w, w_step := n\<rparr>) \<and> Q (Inr a) (w'\<lparr>w_step := n\<rparr>)))
         (w\<lparr>w_step := Suc (w_step w)\<rparr>)"
  shows "wp (in_tx_keep e ctx begun failed body) Q w"
  using assms by (auto simp: wp_def in_tx_keep_def split: option.split prod.splits sum.splits)

lemma evolves_in_tx_keep [evolve_intros]:
  assumes "evolves R body"
  shows "evolves R (in_tx_keep e ctx begun failed body)"
  unfolding evolves_def
proof
  fix w
  obtain r w' where b: "run_state body (w\<lparr>w_step := Suc (w_step w)\<rparr>) = (r, w')" by fastforce
  have "R\<^sup>*\<^sup>* (w_db w) (w_db w')" using evolvesD [OF assms b] by simp
  then show "R\<^sup>*\<^sup>* (w_db w) (w_db (snd (run_state (in_tx_keep e ctx begun failed body) w)))"
    by (simp add: in_tx_keep_def b split: option.split sum.split)
qed

lemma keeps_in_tx_keep [keeps_intros]:
  "keeps response body \<Longrightarrow> keeps response (in_tx_keep e ctx begun failed body)"
  "keeps (\<lambda>w. g (w_db w)) body \<Longrightarrow> keeps (\<lambda>w. g (w_db w)) (in_tx_keep e ctx begun failed body)"
proof -
  show "keeps response body \<Longrightarrow> keeps response (in_tx_keep e ctx begun failed body)"
    unfolding keeps_def in_tx_keep_def
    by (auto split: option.split prod.split sum.split) (metis response_upd snd_conv)+
  show "keeps (\<lambda>w. g (w_db w)) body \<Longrightarrow> keeps (\<lambda>w. g (w_db w)) (in_tx_keep e ctx begun failed body)"
    unfolding keeps_def in_tx_keep_def
    by (auto split: option.split prod.split sum.split) (metis snd_conv world.select_convs(1) world.surjective world.update_convs)+
qed

section \<open>The transaction\<close>

text \<open>A refusal or a failure, with the address of the user as far as it was read.\<close>

datatype link_err = LinkRejected string string | LinkFailed string

datatype link_outcome = LinkCreated | LinkAlready

type_synonym link_done = "user_row \<times> link_outcome \<times> int"

definition decide_link :: "user_row \<Rightarrow> identity_row \<Rightarrow> link_err + link_done" where
  "decide_link user idn =
     (if ui_user idn \<noteq> u_id user then Inl (LinkRejected ''identity_taken'' (u_email user))
      else Inr (user, LinkAlready, ui_id idn))"

definition invite_identity :: "user_row \<Rightarrow> provider \<Rightarrow> string \<Rightarrow> string option \<Rightarrow> instant \<Rightarrow> identity_params" where
  "invite_identity user p sub claimed now =
     \<lparr>dp_user = u_id user, dp_provider = ''oidc'', dp_issuer = pr_issuer p, dp_subject = sub, dp_email = claimed,
      dp_created = format_utc now, dp_last_used = Some (format_utc now)\<rparr>"

definition store_link :: "env \<Rightarrow> user_row \<Rightarrow> provider \<Rightarrow> string \<Rightarrow> string option \<Rightarrow> instant \<Rightarrow> (link_err + link_done) io" where
  "store_link e user p sub claimed now = do {
     rn \<leftarrow> db_write e Detached (insert_identity (invite_identity user p sub claimed now));
     case rn of
       Inl _ \<Rightarrow> return_io (Inl (LinkFailed (u_email user)))
     | Inr n \<Rightarrow> do {
         ri \<leftarrow> db_read e Detached (get_identity (pr_issuer p) sub);
         return_io (case ri of
           Inl _ \<Rightarrow> Inl (LinkFailed (u_email user))
         | Inr idn \<Rightarrow> if n = 0 then decide_link user idn else Inr (user, LinkCreated, ui_id idn))
       }
   }"

definition link_user :: "env \<Rightarrow> invite_row \<Rightarrow> user_row \<Rightarrow> provider \<Rightarrow> string \<Rightarrow> string option \<Rightarrow> instant \<Rightarrow> (link_err + link_done) io" where
  "link_user e iv user p sub claimed now =
     (if u_deactivated user \<noteq> None then return_io (Inl (LinkRejected ''user_inactive'' (u_email user)))
      else if normalize_email e (u_email user) \<noteq> li_email iv
      then return_io (Inl (LinkRejected ''email_changed'' (u_email user)))
      else do {
        ri \<leftarrow> db_read e Detached (get_identity (pr_issuer p) sub);
        case ri of
          Inr idn \<Rightarrow> return_io (decide_link user idn)
        | Inl x \<Rightarrow> if x \<noteq> NoRows then return_io (Inl (LinkFailed (u_email user))) else store_link e user p sub claimed now
      })"

definition finish_body ::
  "env \<Rightarrow> int \<Rightarrow> provider \<Rightarrow> service_row \<Rightarrow> string \<Rightarrow> string option \<Rightarrow> instant \<Rightarrow> (link_err + link_done) io" where
  "finish_body e invite p svc sub claimed now = do {
     rv \<leftarrow> db_write e Detached (consume_invite (format_link_invite_time now) invite (pr_id p) (sv_id svc));
     case rv of
       Inl x \<Rightarrow> return_io (Inl (if x = NoRows then LinkRejected ''invite_invalid'' [] else LinkFailed []))
     | Inr iv \<Rightarrow> do {
         ru \<leftarrow> db_read e Detached (get_user_by_id (li_user iv));
         case ru of
           Inl x \<Rightarrow> return_io (Inl (if x = NoRows then LinkRejected ''invite_invalid'' [] else LinkFailed []))
         | Inr user \<Rightarrow> link_user e iv user p sub claimed now
       }
   }"

section \<open>The handler\<close>

definition send_receipt :: "env \<Rightarrow> request \<Rightarrow> service_row \<Rightarrow> string \<Rightarrow> string \<Rightarrow> unit io" where
  "send_receipt e r svc to provider =
     send_mail (SendLinkConfirmation to (sv_email_from_name svc) provider (locale_of e r) (opt_str (sv_email_from_address svc)))"

definition linked_details :: "int \<Rightarrow> provider \<Rightarrow> int \<Rightarrow> link_outcome \<Rightarrow> string" where
  "linked_details invite p iid out =
     ''via=invite invite='' @ format_int invite @ '' provider='' @ pr_slug p @ '' issuer='' @ pr_issuer p @
     '' identity_id='' @ format_int iid @ (if out = LinkAlready then '' already=1'' else [])"

definition answer_link ::
  "env \<Rightarrow> link_handlers \<Rightarrow> request \<Rightarrow> service_row \<Rightarrow> provider \<Rightarrow> int \<Rightarrow> link_done \<Rightarrow> reply io" where
  "answer_link e h r svc p invite = (\<lambda>(user, out, iid). do {
     _ \<leftarrow> log_sync e Detached (link_event r ''identity_linked'' (sv_id svc) (u_email user) True (linked_details invite p iid out));
     (if out = LinkCreated
      then do { send_receipt e r svc (u_email user) (pr_name p); render_result e h r svc 200 ''done'' (pr_name p) }
      else render_result e h r svc 200 ''already'' (pr_name p))
   })"

definition refuse_link :: "env \<Rightarrow> link_handlers \<Rightarrow> request \<Rightarrow> service_row \<Rightarrow> provider \<Rightarrow> int \<Rightarrow> link_err \<Rightarrow> reply io" where
  "refuse_link e h r svc p invite err =
     (case err of
        LinkRejected reason email \<Rightarrow> do {
          link_rejected e r (sv_id svc) invite (pr_slug p) reason email;
          render_result e h r svc 400 ''rejected'' (pr_name p)
        }
      | LinkFailed email \<Rightarrow> do {
          link_rejected e r (sv_id svc) invite (pr_slug p) ''internal'' email;
          render_result e h r svc 500 ''rejected'' (pr_name p)
        })"

definition finish_link ::
  "env \<Rightarrow> link_handlers \<Rightarrow> request \<Rightarrow> service_row \<Rightarrow> provider \<Rightarrow> int \<Rightarrow> string \<Rightarrow> string \<Rightarrow> reply io" where
  "finish_link e h r svc p invite sub raw_email = do {
     now \<leftarrow> time_now e;
     res \<leftarrow> in_tx_keep e Detached (LinkFailed []) (\<lambda>(user, _). LinkFailed (u_email user))
       (finish_body e invite p svc sub (if raw_email_safe raw_email then Some (normalize_email e raw_email) else None) now);
     case res of
       Inl err \<Rightarrow> refuse_link e h r svc p invite err
     | Inr link_done \<Rightarrow> answer_link e h r svc p invite link_done
   }"

section \<open>What a link is\<close>

text \<open>
  A link was made: the invitation was live, for this provider and service, it is spent now, its user is active and still
  has the address it was sent to, and the identity belongs to this user.
\<close>

definition link_made :: "env \<Rightarrow> instant \<Rightarrow> int \<Rightarrow> provider \<Rightarrow> service_row \<Rightarrow> string \<Rightarrow> db \<Rightarrow> db \<Rightarrow> user_row \<Rightarrow> bool" where
  "link_made e now invite p svc sub d d' user \<longleftrightarrow>
     (\<exists>iv \<in> set (t_invites d). invite_claimable (format_link_invite_time now) invite (pr_id p) (sv_id svc) iv \<and>
        user \<in> set (t_users d) \<and> u_id user = li_user iv \<and> u_deactivated user = None \<and>
        normalize_email e (u_email user) = li_email iv \<and> owner_of d' (pr_issuer p) sub (u_id user) \<and>
        t_invites d' = upd_where (invite_claimable (format_link_invite_time now) invite (pr_id p) (sv_id svc))
          (\<lambda>r. r\<lparr>li_used_at := Some (format_link_invite_time now)\<rparr>) (t_invites d) \<and>
        (t_identities d' = t_identities d \<or> (\<exists>i. t_identities d' = t_identities d @ [i] \<and> ui_user i = u_id user \<and>
           ui_issuer i = pr_issuer p \<and> ui_subject i = sub \<and> ui_admin_ok i = 0)))"

text \<open>The part of the database that the identity of a user is stored in, relative to the start of the handler.\<close>

definition stored_link :: "provider \<Rightarrow> string \<Rightarrow> user_row \<Rightarrow> db \<Rightarrow> db \<Rightarrow> bool" where
  "stored_link p sub user d d' \<longleftrightarrow>
     owner_of d' (pr_issuer p) sub (u_id user) \<and> t_invites d' = t_invites d \<and>
     (t_identities d' = t_identities d \<or> (\<exists>i. t_identities d' = t_identities d @ [i] \<and> ui_user i = u_id user \<and>
        ui_issuer i = pr_issuer p \<and> ui_subject i = sub \<and> ui_admin_ok i = 0))"

lemma decide_link_Inr:
  assumes "decide_link user idn = Inr (u, out, iid)" and "get_identity (pr_issuer p) sub d = Inr idn"
  shows "u = user \<and> stored_link p sub user d d"
  using assms get_identity_Inr [OF assms(2)] owner_of_row [of idn d]
  by (auto simp: decide_link_def stored_link_def split: if_splits)

lemma insert_identity_stored:
  assumes "fst (insert_identity (invite_identity user p sub claimed now) d) = Inr n" and "n \<noteq> 0"
  shows "stored_link p sub user d (snd (insert_identity (invite_identity user p sub claimed now) d))"
  using assms insert_identity_won(3) [OF assms]
  by (auto simp: stored_link_def insert_identity_def invite_identity_def split: if_splits)

lemma store_link_wp:
  "wp (store_link e user p sub claimed now) (\<lambda>res w'. \<forall>u out iid. res = Inr (u, out, iid) \<longrightarrow>
     u = user \<and> stored_link p sub user (w_db w) (w_db w')) w"
  using insert_identity_lost [of "invite_identity user p sub claimed now" "w_db w"]
  by (auto simp: store_link_def wp_simps db_failure_def split: option.splits sum.splits if_splits
      dest: decide_link_Inr intro: insert_identity_stored)

lemma link_user_wp:
  "wp (link_user e iv user p sub claimed now) (\<lambda>res w'. \<forall>u out iid. res = Inr (u, out, iid) \<longrightarrow>
     u = user \<and> u_deactivated user = None \<and> normalize_email e (u_email user) = li_email iv \<and>
     stored_link p sub user (w_db w) (w_db w')) w"
proof -
  have store: "wp (store_link e user p sub claimed now) (\<lambda>res w'. \<forall>u out iid. res = Inr (u, out, iid) \<longrightarrow>
      u = user \<and> stored_link p sub user (w_db w) (w_db w')) (w\<lparr>w_step := n\<rparr>)" for n
    by (rule wp_mono [OF store_link_wp]) auto
  show ?thesis
    by (auto simp: link_user_def wp_simps split: option.split sum.splits dest: decide_link_Inr intro: wp_mono [OF store])
qed

lemma consume_invite_Inr:
  assumes "fst (consume_invite now i pid sid d) = Inr iv"
  shows "\<exists>row \<in> set (t_invites d). invite_claimable now i pid sid row \<and> iv = row\<lparr>li_used_at := Some now\<rparr>"
  using assms by (auto simp: fst_consume_invite fst_update_returning_Inr dest!: find_SomeD)

lemma finish_body_wp:
  "wp (finish_body e invite p svc sub claimed now) (\<lambda>res w'. \<forall>u out iid. res = Inr (u, out, iid) \<longrightarrow>
     link_made e now invite p svc sub (w_db w) (w_db w') u) w"
proof -
  let ?ts = "format_link_invite_time now"
  let ?c = "consume_invite ?ts invite (pr_id p) (sv_id svc) (w_db w)"
  have user: "wp (link_user e iv user p sub claimed now) (\<lambda>res w'. \<forall>u out iid. res = Inr (u, out, iid) \<longrightarrow>
      link_made e now invite p svc sub (w_db w) (w_db w') u) w1"
    if iv: "fst ?c = Inr iv" and d: "w_db w1 = snd ?c" and u: "get_user_by_id (li_user iv) (w_db w1) = Inr user" for iv user w1
  proof (rule wp_mono [OF link_user_wp], goal_cases)
    case (1 res w')
    from consume_invite_Inr [OF iv] obtain row where row: "row \<in> set (t_invites (w_db w))"
      "invite_claimable ?ts invite (pr_id p) (sv_id svc) row" "iv = row\<lparr>li_used_at := Some ?ts\<rparr>" by blast
    from get_user_by_id_Inr [OF u] d row(3) have "user \<in> set (t_users (w_db w))" "u_id user = li_user row"
      by (simp_all add: snd_consume_invite)
    with 1 row d show ?case
      unfolding link_made_def stored_link_def by (auto simp: snd_consume_invite)
  qed
  show ?thesis
    unfolding finish_body_def wp_simps
    by (auto split: option.split sum.split; rule wp_mono [OF user]; simp)
qed

lemma keeps_finish_body:
  "keeps response (finish_body e invite p svc sub claimed now)"
  "keeps (\<lambda>w. t_refresh (w_db w)) (finish_body e invite p svc sub claimed now)"
  unfolding finish_body_def link_user_def store_link_def
  by (intro keeps_intros keeps_db_write; simp add: snd_consume_invite insert_identity_def)+

lemma evolves_case_link_err [evolve_intros]:
  "(\<And>x y. evolves R (m x y)) \<Longrightarrow> (\<And>y. evolves R (n y)) \<Longrightarrow>
   evolves R (case err of LinkRejected x y \<Rightarrow> m x y | LinkFailed y \<Rightarrow> n y)"
  by (simp split: link_err.split)

lemma keeps_case_link_err [keeps_intros]:
  "(\<And>x y. keeps f (m x y)) \<Longrightarrow> (\<And>y. keeps f (n y)) \<Longrightarrow>
   keeps f (case err of LinkRejected x y \<Rightarrow> m x y | LinkFailed y \<Rightarrow> n y)"
  by (simp split: link_err.split)

lemma evolves_finish_link [evolve_intros]: "evolves db_step (finish_link e h r svc p invite sub raw_email)"
  unfolding finish_link_def refuse_link_def answer_link_def finish_body_def link_user_def store_link_def link_rejected_def
    render_result_def send_receipt_def
  by (intro evolve_intros)+

text \<open>What follows the transaction sets no cookie and touches only the audit log.\<close>

lemma keeps_cookies_mail: "keeps w_cookies (send_mail m)"
  by (simp add: keeps_def io_simps)

lemma keeps_answer:
  assumes "\<And>d rows. g (d\<lparr>t_audit := rows\<rparr>) = g d"
  shows "keeps (\<lambda>w. g (w_db w)) (answer_link e h r svc p invite x)"
    "keeps (\<lambda>w. g (w_db w)) (refuse_link e h r svc p invite err)"
  unfolding answer_link_def refuse_link_def link_rejected_def render_result_def send_receipt_def
  by (intro keeps_intros keeps_log_sync_db assms)+

lemma keeps_answer_cookies:
  "keeps w_cookies (answer_link e h r svc p invite x)" "keeps w_cookies (refuse_link e h r svc p invite err)"
  unfolding answer_link_def refuse_link_def link_rejected_def render_result_def send_receipt_def
  by (intro keeps_intros keeps_cookies_mail)+

lemma link_made_cong:
  "t_identities d'' = t_identities d' \<Longrightarrow> t_invites d'' = t_invites d' \<Longrightarrow>
   link_made e now invite p svc sub d d'' user = link_made e now invite p svc sub d d' user"
  by (simp add: link_made_def owner_of_def identity_keys_def)

text \<open>The transaction keeps the database or makes the link.\<close>

lemma link_tx_wp:
  "wp (in_tx_keep e Detached (LinkFailed []) (\<lambda>(user, _). LinkFailed (u_email user)) (finish_body e invite p svc sub claimed now))
     (\<lambda>res w'. response w' = response w \<and> t_refresh (w_db w') = t_refresh (w_db w) \<and>
        (case res of Inl _ \<Rightarrow> w_db w' = w_db w
         | Inr (user, _) \<Rightarrow> link_made e now invite p svc sub (w_db w) (w_db w') user)) w"
proof (rule wp_in_tx_keep, goal_cases)
  case 2
  note body = wp_keeps [OF keeps_finish_body(1) wp_keeps [OF keeps_finish_body(2) finish_body_wp]]
  show ?case
    by (rule wp_mono [OF body]) (auto split: sum.split)
qed simp

lemma wp_keeps_any: "keeps f m \<Longrightarrow> wp m (\<lambda>a w'. f w' = f w) w"
  by (simp add: wp_def keeps_def split: prod.splits) (metis snd_conv)

text \<open>What follows the transaction, in one observation.\<close>

lemma wp_after_link:
  assumes "keeps w_cookies m"
    and "keeps (\<lambda>w. t_refresh (w_db w)) m" "keeps (\<lambda>w. t_identities (w_db w)) m" "keeps (\<lambda>w. t_invites (w_db w)) m"
  shows "wp m (\<lambda>a w'. w_cookies w' = w_cookies w \<and> t_refresh (w_db w') = t_refresh (w_db w) \<and>
           t_identities (w_db w') = t_identities (w_db w) \<and> t_invites (w_db w') = t_invites (w_db w)) w"
  using assms [THEN wp_keeps_any, of w] by (simp add: wp_conj)

lemma finish_link_wp:
  "wp (finish_link e h r svc p invite sub raw_email) (\<lambda>reply w'.
     w_cookies w' = w_cookies w \<and> t_refresh (w_db w') = t_refresh (w_db w) \<and>
     (t_identities (w_db w') = t_identities (w_db w) \<and> t_invites (w_db w') = t_invites (w_db w) \<or>
      (\<exists>user. link_made e (e_clock e (w_step w)) invite p svc sub (w_db w) (w_db w') user))) w"
proof -
  let ?now = "e_clock e (w_step w)"
  let ?Q = "\<lambda>(reply :: reply) w'. w_cookies w' = w_cookies w \<and> t_refresh (w_db w') = t_refresh (w_db w) \<and>
     (t_identities (w_db w') = t_identities (w_db w) \<and> t_invites (w_db w') = t_invites (w_db w) \<or>
      (\<exists>user. link_made e ?now invite p svc sub (w_db w) (w_db w') user))"
  have after: "wp (refuse_link e h r svc p invite err) ?Q w1" if "w_cookies w1 = w_cookies w" "w_db w1 = w_db w" for err w1
    by (rule wp_mono [OF wp_after_link [OF keeps_answer_cookies(2) keeps_answer(2) keeps_answer(2) keeps_answer(2)]])
      (simp_all add: that)
  have made: "wp (answer_link e h r svc p invite x) ?Q w1"
    if "w_cookies w1 = w_cookies w" "t_refresh (w_db w1) = t_refresh (w_db w)"
      "link_made e ?now invite p svc sub (w_db w) (w_db w1) user" for x w1 user
  proof (rule wp_mono [OF wp_after_link [OF keeps_answer_cookies(1) keeps_answer(1) keeps_answer(1) keeps_answer(1)]], goal_cases)
    case (4 a w')
    then show ?case using that link_made_cong [of "w_db w'" "w_db w1"] by auto
  qed simp_all
  show ?thesis
    unfolding finish_link_def wp_bind wp_effects
    by (rule wp_mono [OF link_tx_wp]) (auto simp: wp_simps response_def split: sum.splits prod.splits intro!: after made)
qed

section \<open>Property\<close>

text \<open>C16. Finishing a linking flow sets no cookie and makes no refresh token, whatever the database does.  Either no
  identity and no invitation changed, or a link was made: the invitation named by the state was live for this provider
  and this service and is spent now, its user is active and still has the address it was sent to, and the identity
  (issuer, subject) belongs to that user, without approval for the administration.
\<close>

theorem link_needs_a_live_invitation:
  "case run_state (finish_link e h r svc p invite sub raw_email) w of (reply, w') \<Rightarrow>
     w_cookies w' = w_cookies w \<and> t_refresh (w_db w') = t_refresh (w_db w) \<and>
     (t_identities (w_db w') = t_identities (w_db w) \<and> t_invites (w_db w') = t_invites (w_db w) \<or>
      (\<exists>user. link_made e (e_clock e (w_step w)) invite p svc sub (w_db w) (w_db w') user))"
  using finish_link_wp [of e h r svc p invite sub raw_email w] by (simp add: wp_def)

end
