(* ===== verification/GenericOidc.thy ===== *)
theory GenericOidc
  imports LinkFinish
begin

text \<open>
  Login with a configured OIDC provider, and the last leg of a linking flow: \<open>internal/auth/oidc_generic.go\<close>.
  The service, the provider and the purpose come from the signed state, never from the host or the path.
\<close>

section \<open>Starting\<close>

record generic_handlers =
  go_cache :: "service_row list"
  go_idps :: idp_registry
  go_secret :: string
  go_links :: "link_handlers option"

definition generic_request ::
  "env \<Rightarrow> request \<Rightarrow> provider \<Rightarrow> discovered \<Rightarrow> string \<Rightarrow> string \<Rightarrow> string \<Rightarrow> auth_request" where
  "generic_request e r p d secret state nonce =
     \<lparr>ar_client = pr_client p, ar_endpoint = dd_auth (dv_doc d), ar_redirect = idp_redirect_url e r (pr_slug p),
      ar_scopes = pr_scopes p, ar_state = state, ar_challenge = Some (s256_challenge e (pkce_verifier e secret state)),
      ar_nonce = nonce, ar_prompt = []\<rparr>"

definition generic_start ::
  "env \<Rightarrow> generic_handlers \<Rightarrow> op_client \<Rightarrow> request \<Rightarrow> service_row \<Rightarrow> provider \<Rightarrow> discovered \<Rightarrow> reply io" where
  "generic_start e h op r svc p d = do {
     rn \<leftarrow> generate_nonce e;
     case rn of
       None \<Rightarrow> return_io (HttpError 500 ''intern feil'')
     | Some nonce \<Rightarrow> do {
         now \<leftarrow> time_now e;
         let state = sign_idp_state e now (go_secret h) (sv_id svc) nonce (pr_slug p);
         redirect_cookie e r;
         state_cookie e ''idp_state'' state;
         return_io (Redirect 302 (oc_auth_url op (generic_request e r p d (go_secret h) state nonce)))
       }
   }"

definition generic_login :: "env \<Rightarrow> generic_handlers \<Rightarrow> op_client \<Rightarrow> string \<Rightarrow> handler" where
  "generic_login e h op slug r =
     (case resolve_social_service e (go_cache h) r of
        None \<Rightarrow> return_io (redirect_login_error [] LoginFailed)
      | Some svc \<Rightarrow>
          (case provider_for (go_idps h) (sv_id svc) slug of
             None \<Rightarrow> return_io (redirect_login_error (sv_id svc) LoginFailed)
           | Some p \<Rightarrow>
               (case oc_discover op slug of
                  Inl _ \<Rightarrow> reject r provider_oidc svc
                    \<lparr>rj_email = [], rj_context = idp_context slug, rj_reason = ''discovery''\<rparr>
                | Inr d \<Rightarrow> generic_start e h op r svc p d)))"

section \<open>The callback\<close>

definition query_all :: "request \<Rightarrow> string \<Rightarrow> string list" where
  "query_all r k = map snd (filter (\<lambda>kv. fst kv = k) (rq_query r))"

text \<open>The provider of the state, if the answer may be its answer; otherwise the reason of the refusal.\<close>

definition callback_provider ::
  "generic_handlers \<Rightarrow> op_client \<Rightarrow> request \<Rightarrow> string \<Rightarrow> string \<Rightarrow> string \<Rightarrow> string + provider \<times> discovered" where
  "callback_provider h op r sid path_slug slug =
     (case provider_for (go_idps h) sid slug of
        None \<Rightarrow> Inl ''unknown_provider''
      | Some p \<Rightarrow>
          if path_slug \<noteq> slug then Inl ''unknown_provider''
          else if query_get r ''error'' \<noteq> [] then Inl ''provider_error''
          else if list_ex (\<lambda>iss. iss \<noteq> pr_issuer p) (query_all r ''iss'') then Inl ''issuer_param''
          else (case oc_discover op slug of
                  Inl _ \<Rightarrow> Inl ''discovery''
                | Inr d \<Rightarrow>
                    (case oc_iss_required op d of
                       None \<Rightarrow> Inl ''issuer_param''
                     | Some req \<Rightarrow>
                         if req \<and> query_all r ''iss'' = [] then Inl ''issuer_param'' else Inr (p, d))))"

text \<open>The verified id token for the code of the request, bound to the login by the nonce of the state.\<close>

definition callback_token ::
  "env \<Rightarrow> generic_handlers \<Rightarrow> op_client \<Rightarrow> request \<Rightarrow> state_claims \<Rightarrow> provider \<Rightarrow> discovered \<Rightarrow> string + id_token" where
  "callback_token e h op r c p d =
     (case oc_exchange op p d (idp_redirect_url e r (st_idp c)) (query_get r ''code'')
             (pkce_verifier e (go_secret h) (query_get r ''state'')) of
        None \<Rightarrow> Inl ''code_exchange''
      | Some raw \<Rightarrow>
          if raw = [] then Inl ''id_token_missing''
          else (case oc_verify op d (pr_client p) raw of
                  None \<Rightarrow> Inl ''id_token''
                | Some t \<Rightarrow>
                    if \<not> azp_ok (it_aud t) (it_azp t) (pr_client p) then Inl ''id_token''
                    else if \<not> check_id_token_nonce (it_nonce t) (st_nonce c) then Inl ''nonce''
                    else if trim_space (it_subject t) = [] \<or> max_subject_len < length (it_subject t)
                    then Inl ''missing_sub''
                    else Inr t))"

definition reject_context :: "state_claims \<Rightarrow> string" where
  "reject_context c =
     idp_context (st_idp c) @ (if st_link c \<noteq> 0 then '' invite='' @ format_int (st_link c) else [])"

definition email_trusted :: "env \<Rightarrow> provider \<Rightarrow> id_token \<Rightarrow> bool" where
  "email_trusted e p t \<longleftrightarrow>
     pr_trust p \<and> claim_true (it_verified t) \<and> raw_email_safe (it_email t) \<and>
     email_domain_allowed e (normalize_email e (it_email t)) (pr_domains p)"

definition generic_identity :: "env \<Rightarrow> provider \<Rightarrow> id_token \<Rightarrow> ext_identity" where
  "generic_identity e p t =
     \<lparr>xi_provider = ''oidc'', xi_issuer = pr_issuer p, xi_subject = it_subject t,
      xi_email = normalize_email e (it_email t), xi_name = it_name t\<rparr>"

definition finish_generic ::
  "env \<Rightarrow> issuer \<Rightarrow> request \<Rightarrow> service_row \<Rightarrow> provider \<Rightarrow> string \<Rightarrow> id_token \<Rightarrow> reply io" where
  "finish_generic e i r svc p slug t =
     (if pr_trust p \<and> normalize_email e (it_email t) = []
      then reject r provider_oidc svc \<lparr>rj_email = [], rj_context = idp_context slug, rj_reason = ''email_missing''\<rparr>
      else finish_with_policy e i r provider_oidc svc (generic_identity e p t)
             ((policy_for svc)\<lparr>lp_untrusted := \<not> email_trusted e p t\<rparr>) (idp_context slug))"

definition generic_verified ::
  "env \<Rightarrow> issuer \<Rightarrow> generic_handlers \<Rightarrow> request \<Rightarrow> state_claims \<Rightarrow> service_row \<Rightarrow> provider \<Rightarrow> id_token \<Rightarrow> reply io" where
  "generic_verified e i h r c svc p t =
     (if st_link c \<noteq> 0
      then (case go_links h of
              None \<Rightarrow> reject r provider_oidc svc
                \<lparr>rj_email = [], rj_context = reject_context c, rj_reason = ''link_unavailable''\<rparr>
            | Some l \<Rightarrow> finish_link e l r svc p (st_link c) (it_subject t) (it_email t))
      else finish_generic e i r svc p (st_idp c) t)"

definition generic_answer ::
  "env \<Rightarrow> issuer \<Rightarrow> generic_handlers \<Rightarrow> op_client \<Rightarrow> request \<Rightarrow> string \<Rightarrow> state_claims \<Rightarrow> service_row \<Rightarrow> reply io" where
  "generic_answer e i h op r path_slug c svc =
     (let refuse = (\<lambda>reason. reject r provider_oidc svc
            \<lparr>rj_email = [], rj_context = reject_context c, rj_reason = reason\<rparr>) in
      case callback_provider h op r (sv_id svc) path_slug (st_idp c) of
        Inl reason \<Rightarrow> refuse reason
      | Inr (p, d) \<Rightarrow>
          (case callback_token e h op r c p d of
             Inl reason \<Rightarrow> refuse reason
           | Inr t \<Rightarrow> generic_verified e i h r c svc p t))"

definition generic_callback ::
  "env \<Rightarrow> issuer \<Rightarrow> generic_handlers \<Rightarrow> op_client \<Rightarrow> string \<Rightarrow> handler" where
  "generic_callback e i h op path_slug r = do {
     rc \<leftarrow> read_state e r ''idp_state'' (go_secret h);
     case rc of
       Inl reply \<Rightarrow> return_io reply
     | Inr c \<Rightarrow> do {
         clear_cookie e ''idp_state'';
         (if st_idp c = [] \<or> st_admin c \<or> st_github c then return_io (redirect_login_error [] LoginFailed)
          else case resolve e (go_cache h) [] (st_service c) [] of
            None \<Rightarrow> do {
              audit_rejected r provider_oidc (st_service c)
                \<lparr>rj_email = [], rj_context = reject_context c, rj_reason = ''unknown_service''\<rparr>;
              return_io (redirect_login_error [] LoginFailed)
            }
          | Some svc \<Rightarrow> generic_answer e i h op r path_slug c svc)
       }
   }"

section \<open>What a verified answer is\<close>

text \<open>
  The answer of the provider, as far as the code believes it: the signed state names the provider of the path and is
  for this flow, the provider is one of the service's, the answer is no error and names no other issuer, and the
  id token got for its code with the verifier of this state is verified and carries the nonce of the state.
\<close>

definition answer_verified ::
  "env \<Rightarrow> generic_handlers \<Rightarrow> op_client \<Rightarrow> request \<Rightarrow> string \<Rightarrow> state_claims \<Rightarrow> service_row \<Rightarrow> provider \<Rightarrow> id_token \<Rightarrow> bool" where
  "answer_verified e h op r slug c svc p t \<longleftrightarrow>
     slug \<noteq> [] \<and> st_idp c = slug \<and> \<not> st_admin c \<and> \<not> st_github c \<and>
     resolve e (go_cache h) [] (st_service c) [] = Some svc \<and> provider_for (go_idps h) (sv_id svc) slug = Some p \<and>
     query_get r ''error'' = [] \<and> set (query_all r ''iss'') \<subseteq> {pr_issuer p} \<and>
     (\<exists>d raw. oc_discover op slug = Inr d \<and>
        oc_exchange op p d (idp_redirect_url e r slug) (query_get r ''code'')
          (pkce_verifier e (go_secret h) (query_get r ''state'')) = Some raw \<and> oc_verify op d (pr_client p) raw = Some t) \<and>
     azp_ok (it_aud t) (it_azp t) (pr_client p) \<and> it_nonce t = st_nonce c \<and> it_nonce t \<noteq> [] \<and>
     trim_space (it_subject t) \<noteq> [] \<and> length (it_subject t) \<le> 255"

lemma callback_provider_Inr:
  assumes "callback_provider h op r sid path_slug slug = Inr (p, d)"
  shows "provider_for (go_idps h) sid slug = Some p \<and> path_slug = slug \<and> query_get r ''error'' = [] \<and>
    set (query_all r ''iss'') \<subseteq> {pr_issuer p} \<and> oc_discover op slug = Inr d"
  using assms
  by (auto simp: callback_provider_def list_ex_iff split: option.splits if_splits sum.splits)

lemma callback_token_Inr:
  assumes "callback_token e h op r c p d = Inr t"
  shows "(\<exists>raw. oc_exchange op p d (idp_redirect_url e r (st_idp c)) (query_get r ''code'')
        (pkce_verifier e (go_secret h) (query_get r ''state'')) = Some raw \<and> oc_verify op d (pr_client p) raw = Some t) \<and>
    azp_ok (it_aud t) (it_azp t) (pr_client p) \<and> it_nonce t = st_nonce c \<and> it_nonce t \<noteq> [] \<and>
    trim_space (it_subject t) \<noteq> [] \<and> length (it_subject t) \<le> 255"
  using assms
  by (auto simp: callback_token_def check_id_token_nonce_def max_subject_len_def split: option.splits if_splits)

text \<open>The verified identity of a login, and whether its address counts.\<close>

definition generic_session ::
  "env \<Rightarrow> generic_handlers \<Rightarrow> op_client \<Rightarrow> request \<Rightarrow> string \<Rightarrow> service_row \<Rightarrow> ext_identity \<Rightarrow> bool \<Rightarrow> bool" where
  "generic_session e h op r slug svc ext trusted \<longleftrightarrow>
     (\<exists>c p t. state_shown e r ''idp_state'' (go_secret h) c \<and> answer_verified e h op r slug c svc p t \<and> st_link c = 0 \<and>
        ext = generic_identity e p t \<and> trusted = email_trusted e p t)"

text \<open>The end of a linking flow: no session, no cookie, and no identity without a live invitation.\<close>

definition generic_link ::
  "env \<Rightarrow> generic_handlers \<Rightarrow> op_client \<Rightarrow> request \<Rightarrow> string \<Rightarrow> world \<Rightarrow> world \<Rightarrow> bool" where
  "generic_link e h op r slug w w' \<longleftrightarrow>
     (\<exists>c svc p t. state_shown e r ''idp_state'' (go_secret h) c \<and> answer_verified e h op r slug c svc p t \<and> st_link c \<noteq> 0 \<and>
        t_refresh (w_db w') = t_refresh (w_db w) \<and>
        (t_identities (w_db w') = t_identities (w_db w) \<and> t_invites (w_db w') = t_invites (w_db w) \<or>
         (\<exists>now user. link_made e now (st_link c) p svc (it_subject t) (w_db w) (w_db w') user)))"

lemma generic_verified_wp:
  assumes "state_shown e r ''idp_state'' (go_secret h) c" and "answer_verified e h op r slug c svc p t"
    and "w_db w1 = w_db w"
  shows "wp (generic_verified e i h r c svc p t) (\<lambda>reply w'.
    login_outcome (generic_session e h op r slug) e i w reply w' \<or> generic_link e h op r slug w w') w1"
proof (cases "st_link c = 0")
  case True
  with assms have "generic_session e h op r slug svc (generic_identity e p t) (email_trusted e p t)"
    unfolding generic_session_def by blast
  then have "wp (finish_generic e i r svc p (st_idp c) t) (login_outcome (generic_session e h op r slug) e i w) w1"
    unfolding finish_generic_def wp_if by (auto intro!: outcome_reject outcome_finish_with_policy assms)
  with True show ?thesis by (auto simp: generic_verified_def intro: wp_mono)
next
  case False
  have link: "wp (finish_link e l r svc p (st_link c) (it_subject t) (it_email t)) (\<lambda>reply w'. generic_link e h op r slug w w') w1" for l
  proof (rule wp_mono [OF finish_link_wp], goal_cases)
    case (1 reply w')
    then show ?case unfolding generic_link_def assms(3) using assms(1,2) False by blast
  qed
  have no: "wp (reject r provider_oidc svc rej) (login_outcome (generic_session e h op r slug) e i w) w1" for rej
    by (rule outcome_reject [OF assms(3)])
  from False show ?thesis
    by (cases "go_links h") (auto simp: generic_verified_def intro: wp_mono [OF no] wp_mono [OF link])
qed

lemma generic_answer_wp:
  assumes "state_shown e r ''idp_state'' (go_secret h) c" and "w_db w1 = w_db w"
    and "st_idp c \<noteq> []" "\<not> st_admin c" "\<not> st_github c" "resolve e (go_cache h) [] (st_service c) [] = Some svc"
  shows "wp (generic_answer e i h op r slug c svc) (\<lambda>reply w'.
    login_outcome (generic_session e h op r slug) e i w reply w' \<or> generic_link e h op r slug w w') w1"
proof -
  have no: "wp (reject r provider_oidc svc rej) (\<lambda>reply w'.
      login_outcome (generic_session e h op r slug) e i w reply w' \<or> generic_link e h op r slug w w') w1" for rej
    by (rule wp_mono [OF outcome_reject [OF assms(2), where P = "generic_session e h op r slug" and e = e and i = i]]) simp
  have verified: "answer_verified e h op r slug c svc p t"
    if "callback_provider h op r (sv_id svc) slug (st_idp c) = Inr (p, d)" "callback_token e h op r c p d = Inr t" for p d t
  proof -
    from callback_provider_Inr [OF that(1)] have slug: "slug = st_idp c" by blast
    from callback_provider_Inr [OF that(1)] callback_token_Inr [OF that(2)] assms(3-6)
    show ?thesis unfolding answer_verified_def slug by auto
  qed
  show ?thesis
    unfolding generic_answer_def Let_def
    by (auto simp: wp_simps split: sum.split intro!: no generic_verified_wp assms verified)
qed

lemma generic_callback_wp:
  "wp (generic_callback e i h op slug r) (\<lambda>reply w'.
    login_outcome (generic_session e h op r slug) e i w reply w' \<or> generic_link e h op r slug w w') w"
proof -
  have unknown: "wp (audit_rejected r provider_oidc sid rej)
      (\<lambda>_ w'. login_outcome (generic_session e h op r slug) e i w reply w' \<or> generic_link e h op r slug w w') w1"
    if "w_db w1 = w_db w" for sid rej reply w1
    by (rule wp_mono [OF outcome_audit [OF that, where P = "generic_session e h op r slug" and e = e and i = i and reply = reply]]) simp
  show ?thesis
    unfolding generic_callback_def wp_bind
    by (rule wp_mono [OF read_state_wp])
      (auto simp: wp_simps cookie_defs outcome_return split: sum.split option.split intro!: generic_answer_wp unknown)
qed

section \<open>Property\<close>

text \<open>C28. The callback of a configured provider changes the database only after a verified answer: the state was signed
  here, is in the cookie and names this provider, and the id token was obtained with that state's PKCE verifier and
  carries its nonce.  A session is then opened only for the active owner of the verified identity, an untrusted address
  links nothing, and a linking state never opens a session and links only with a live invitation.\<close>

theorem generic_callback_gate:
  "case run_state (generic_callback e i h op slug r) w of (reply, w') \<Rightarrow>
     login_outcome (generic_session e h op r slug) e i w reply w' \<or> generic_link e h op r slug w w'"
  using generic_callback_wp [of e i h op slug r w] by (simp add: wp_def)

end
