(* ===== verification/TokenEndpoint.thy ===== *)
theory TokenEndpoint
  imports OidcRequest Utf8 Web
begin

text \<open>
  \<open>POST /token\<close>: \<open>internal/auth/token_endpoint.go\<close>.  An
  authorization code is classified before it is consumed, so that a wrong client, redirect address or
  verifier cannot burn it; a refresh that is refused after the rotation revokes the family.
\<close>

section \<open>Replies and checks\<close>

definition write_token_error :: "nat \<Rightarrow> string \<Rightarrow> reply io" where
  "write_token_error status code = do {
     set_header ''Content-Type'' ''application/json'';
     return_io (JsonError status code)
   }"

definition scope_contains :: "string \<Rightarrow> string \<Rightarrow> bool" where
  "scope_contains scope want \<longleftrightarrow> want \<in> set (GoStrings.fields scope)"

definition active_session_user :: "env \<Rightarrow> int option \<Rightarrow> (db_err + user_row) io" where
  "active_session_user e uid =
     (case uid of None \<Rightarrow> return_io (Inl NoRows) | Some u \<Rightarrow> db_read e ReqCtx (get_active_user_by_id u))"

definition client_event :: "request \<Rightarrow> string \<Rightarrow> string \<Rightarrow> string \<Rightarrow> bool \<Rightarrow> string \<Rightarrow> event" where
  "client_event r typ email sid ok details = log_event typ email sid (rq_client_ip r) (user_agent r) ok details"

section \<open>The authorization code grant\<close>

record code_request =
  cq_client :: string
  cq_redirect :: string
  cq_verifier :: string

definition proves_code :: "env \<Rightarrow> code_request \<Rightarrow> code_row \<Rightarrow> bool" where
  "proves_code e q row \<longleftrightarrow>
     ac_service row = cq_client q \<and> ac_redirect row = cq_redirect q \<and>
     verify_pkce e (cq_verifier q) (ac_challenge row) (ac_method row)"

text \<open>A code that was already redeemed: the family goes when the caller knows the whole code.\<close>

definition reject_used :: "env \<Rightarrow> request \<Rightarrow> code_row \<Rightarrow> code_request \<Rightarrow> unit io" where
  "reject_used e r row q =
     (if \<not> proves_code e q row
      then audit_log (client_event r ''authorization_code_reuse'' (ac_email row) (ac_service row) False ''reason=unverified'')
      else (case ac_family row of
              None \<Rightarrow> audit_log (client_event r ''authorization_code_reuse'' (ac_email row) (ac_service row) False [])
            | Some fam \<Rightarrow> do {
                res \<leftarrow> revoke_family_of e Detached fam ''authorization_code_reuse'';
                audit_log (client_event r ''authorization_code_reuse'' (ac_email row) (ac_service row) False
                  (''family='' @ fam @ (if isl res then '' revoke_failed'' else [])))
              }))"

text \<open>Whether the code must be refused, with the audit event and the reply.\<close>

definition reject_code :: "env \<Rightarrow> request \<Rightarrow> code_row \<Rightarrow> code_request \<Rightarrow> reply option io" where
  "reject_code e r row q = do {
     now \<leftarrow> time_now e;
     (let event = (\<lambda>typ details. audit_log (client_event r typ (ac_email row) (ac_service row) False details));
          refuse = (\<lambda>m. do { m; reply \<leftarrow> write_token_error 400 ''invalid_grant''; return_io (Some reply) })
      in if ac_used row = 1 then refuse (reject_used e r row q)
         else if ac_expires row \<le> format_utc now then refuse (event ''authorization_code_invalid'' [])
         else if ac_service row \<noteq> cq_client q then refuse (event ''authorization_code_mismatch'' ''reason=client'')
         else if ac_redirect row \<noteq> cq_redirect q then refuse (event ''authorization_code_mismatch'' ''reason=redirect_uri'')
         else if \<not> verify_pkce e (cq_verifier q) (ac_challenge row) (ac_method row)
         then refuse (event ''authorization_code_mismatch'' ''reason=pkce'')
         else return_io None)
   }"

text \<open>The identity token, only when the scope asks for one: token and \<open>jti\<close>.\<close>

definition code_id_token ::
  "env \<Rightarrow> issuer \<Rightarrow> user_row \<Rightarrow> service_row \<Rightarrow> code_row \<Rightarrow> (unit + string option \<times> string) io" where
  "code_id_token e i user svc row =
     (if scope_contains (opt_str (ac_scope row)) ''openid'' then do {
        r \<leftarrow> issue_id_token_detailed e i user svc (opt_str (ac_nonce row));
        return_io (case r of Inl _ \<Rightarrow> Inl () | Inr t \<Rightarrow> Inr (if ji_token t = [] then None else Some (ji_token t), ji_jti t))
      }
      else return_io (Inr (None, ''-'')))"

text \<open>A redemption that lost the race reads the row again, so that the loser counts as reuse.\<close>

definition lost_redemption :: "env \<Rightarrow> request \<Rightarrow> string \<Rightarrow> code_row \<Rightarrow> code_request \<Rightarrow> reply io" where
  "lost_redemption e r h row q = do {
     fresh \<leftarrow> db_read e ReqCtx (get_code_by_hash h);
     case fresh of
       Inl x \<Rightarrow>
         if x = NoRows then do {
           audit_log (client_event r ''authorization_code_invalid'' [] (ac_service row) False []);
           write_token_error 400 ''invalid_grant''
         }
         else write_token_error 500 ''server_error''
     | Inr row2 \<Rightarrow> do {
         rej \<leftarrow> reject_code e r row2 q;
         case rej of
           Some reply \<Rightarrow> return_io reply
         | None \<Rightarrow> do {
             audit_log (client_event r ''authorization_code_invalid'' [] (ac_service row) False []);
             write_token_error 400 ''invalid_grant''
           }
       }
   }"

text \<open>The redemption itself, with the signed tokens at hand, and the answer.\<close>

definition exchange_code ::
  "env \<Rightarrow> request \<Rightarrow> string \<Rightarrow> code_row \<Rightarrow> code_request \<Rightarrow> user_row \<Rightarrow> service_row \<Rightarrow> issued \<Rightarrow> string option \<times> string \<Rightarrow> reply io" where
  "exchange_code e r h row q user svc at idt = do {
     rr \<leftarrow> redeem_authorization_code e ReqCtx
       \<lparr>cr_hash = h, cr_service = cq_client q, cr_redirect = cq_redirect q,
        cr_challenge = s256_challenge e (cq_verifier q)\<rparr> user svc (rq_client_ip r) (user_agent r);
     case rr of
       Inl x \<Rightarrow>
         if x = ErrDb NoRows then lost_redemption e r h row q
         else write_token_error 500 ''server_error''
     | Inr rf \<Rightarrow> do {
         audit_log (method_event r ''authorization_code_exchanged'' ''authorization_code'' (u_email user) (sv_id svc)
           True (''jti_access='' @ ji_jti at @ '' jti_id='' @ snd idt @ '' family='' @ snd rf));
         set_header ''Content-Type'' ''application/json'';
         return_io (JsonTokens \<lparr>tr_access = ji_token at, tr_refresh = fst rf,
           tr_expires_in = access_seconds e svc (15 * minute), tr_id_token = fst idt\<rparr>)
       }
   }"

text \<open>Both tokens are signed before the code is consumed.\<close>

definition redeem_code ::
  "env \<Rightarrow> issuer \<Rightarrow> request \<Rightarrow> string \<Rightarrow> code_row \<Rightarrow> code_request \<Rightarrow> user_row \<Rightarrow> service_row \<Rightarrow> reply io" where
  "redeem_code e i r h row q user svc = do {
     ra \<leftarrow> issue_access_detailed e i user svc;
     case ra of
       Inl _ \<Rightarrow> write_token_error 500 ''server_error''
     | Inr at \<Rightarrow> do {
         rid \<leftarrow> code_id_token e i user svc row;
         case rid of
           Inl _ \<Rightarrow> write_token_error 500 ''server_error''
         | Inr idt \<Rightarrow> exchange_code e r h row q user svc at idt
       }
   }"

text \<open>The owner of the code and the policy of its service.\<close>

definition code_owner ::
  "env \<Rightarrow> issuer \<Rightarrow> service_row list \<Rightarrow> request \<Rightarrow> string \<Rightarrow> code_row \<Rightarrow> code_request \<Rightarrow> reply io" where
  "code_owner e i cache r h row q =
     (case resolve e cache [] (ac_service row) [] of
        None \<Rightarrow> write_token_error 400 ''invalid_client''
      | Some svc \<Rightarrow> do {
          ru \<leftarrow> active_session_user e (ac_user row);
          case ru of
            Inl x \<Rightarrow> if x = NoRows then write_token_error 400 ''invalid_grant'' else write_token_error 500 ''server_error''
          | Inr user \<Rightarrow>
              if check_policy user svc \<noteq> None then do {
                audit_log (client_event r ''authorization_code_policy_denied'' (u_email user) (sv_id svc) False []);
                write_token_error 400 ''invalid_grant''
              }
              else redeem_code e i r h row q user svc
        })"

definition authorization_code_grant :: "env \<Rightarrow> issuer \<Rightarrow> service_row list \<Rightarrow> request \<Rightarrow> reply io" where
  "authorization_code_grant e i cache r =
     (let q = \<lparr>cq_client = form_value r ''client_id'', cq_redirect = form_value r ''redirect_uri'',
               cq_verifier = form_value r ''code_verifier''\<rparr>;
          code = form_value r ''code''; h = hash_opaque e code
      in if code = [] then write_token_error 400 ''invalid_request''
         else if length (cq_verifier q) < 43 \<or> 128 < length (cq_verifier q)
         then write_token_error 400 ''invalid_grant''
         else do {
           rc \<leftarrow> db_read e ReqCtx (get_code_by_hash h);
           case rc of
             Inl x \<Rightarrow>
               if x = NoRows then do {
                 audit_log (client_event r ''authorization_code_invalid'' [] (sanitize_log_value (cq_client q)) False []);
                 write_token_error 400 ''invalid_grant''
               }
               else write_token_error 500 ''server_error''
           | Inr row \<Rightarrow> do {
               rej \<leftarrow> reject_code e r row q;
               case rej of
                 Some reply \<Rightarrow> return_io reply
               | None \<Rightarrow> code_owner e i cache r h row q
             }
         })"

section \<open>The refresh grant\<close>

definition cors_headers :: "string list" where
  "cors_headers = [''Access-Control-Allow-Origin'', ''Access-Control-Allow-Credentials'',
     ''Access-Control-Allow-Methods'', ''Access-Control-Allow-Headers'']"

fun del_headers :: "string list \<Rightarrow> unit io" where
  "del_headers [] = return_io ()"
| "del_headers (k # ks) = do { del_header k; del_headers ks }"

text \<open>An \<open>Origin\<close> header that is present must be one value of the allowlist.\<close>

definition origin_ok :: "string list \<Rightarrow> request \<Rightarrow> bool" where
  "origin_ok cors r \<longleftrightarrow>
     (case header_values r ''Origin'' of
        None \<Rightarrow> True
      | Some vals \<Rightarrow> length vals \<le> 1 \<and> origin_allowed cors (case vals of [] \<Rightarrow> [] | v # _ \<Rightarrow> v))"

definition refuse_origin :: "env \<Rightarrow> request \<Rightarrow> reply io" where
  "refuse_origin e r = do {
     del_headers cors_headers;
     (if (case cookie_get r ''refresh_token'' of None \<Rightarrow> False | Some v \<Rightarrow> v \<noteq> []) \<or> post_form_value r ''refresh_token'' \<noteq> []
      then audit_log (client_event r ''refresh_invalid_origin'' [] [] False
        (''origin='' @ sanitize_log_value (join_with '','' (case header_values r ''Origin'' of None \<Rightarrow> [] | Some vs \<Rightarrow> vs))))
      else return_io ());
     write_token_error 403 ''invalid_origin''
   }"

text \<open>The cookie wins over the form; an empty cookie does not count.\<close>

definition presented_token :: "request \<Rightarrow> string" where
  "presented_token r =
     (case cookie_get r ''refresh_token'' of
        Some v \<Rightarrow> if v \<noteq> [] then v else form_value r ''refresh_token''
      | None \<Rightarrow> form_value r ''refresh_token'')"

definition deny_refresh ::
  "env \<Rightarrow> request \<Rightarrow> rotation_result \<Rightarrow> string \<Rightarrow> string \<Rightarrow> string \<Rightarrow> reply io" where
  "deny_refresh e r res typ reason details = do {
     _ \<leftarrow> revoke_family_of e Detached (rr_family res) reason;
     audit_log (client_event r typ (rr_email res) (rr_service res) False details);
     clear_cookie e ''refresh_token'';
     write_token_error 400 ''invalid_grant''
   }"

definition refresh_tokens_reply ::
  "env \<Rightarrow> issuer \<Rightarrow> request \<Rightarrow> rotation_result \<Rightarrow> user_row \<Rightarrow> service_row \<Rightarrow> reply io" where
  "refresh_tokens_reply e i r res user svc = do {
     ra \<leftarrow> issue_access e i user svc;
     case ra of
       Inl _ \<Rightarrow> do {
         _ \<leftarrow> revoke_family_of e Detached (rr_family res) ''issue_failed'';
         clear_cookie e ''refresh_token'';
         write_token_error 500 ''server_error''
       }
     | Inr at \<Rightarrow> do {
         set_auth_cookies e svc at (rr_token res);
         set_header ''Content-Type'' ''application/json'';
         return_io (JsonTokens \<lparr>tr_access = at, tr_refresh = rr_token res,
           tr_expires_in = access_seconds e svc (30 * 24 * hour), tr_id_token = None\<rparr>)
       }
   }"

text \<open>The stored service is authoritative; the client's \<open>service_id\<close> is only compared.\<close>

definition refresh_for_user ::
  "env \<Rightarrow> issuer \<Rightarrow> service_row list \<Rightarrow> request \<Rightarrow> rotation_result \<Rightarrow> user_row \<Rightarrow> reply io" where
  "refresh_for_user e i cache r res user =
     (case (if rr_service res \<noteq> [] then resolve e cache [] (rr_service res) [] else None) of
        None \<Rightarrow> deny_refresh e r res ''refresh_service_invalid'' ''service_invalid''
          (''stored_service='' @ sanitize_log_value (rr_service res))
      | Some svc \<Rightarrow> do {
          (let given = form_value r ''service_id'' in
             if given \<noteq> [] \<and> given \<noteq> rr_service res
             then audit_log (client_event r ''refresh_service_mismatch'' (rr_email res) (rr_service res) True
               (''stored='' @ rr_service res @ '' given='' @ sanitize_log_value given))
             else return_io ());
          case check_policy user svc of
            Some d \<Rightarrow> deny_refresh e r res ''refresh_policy_denied'' ''policy_denied'' (denial_text d)
          | None \<Rightarrow> refresh_tokens_reply e i r res user svc
        })"

definition after_rotation ::
  "env \<Rightarrow> issuer \<Rightarrow> service_row list \<Rightarrow> request \<Rightarrow> rotation_result \<Rightarrow> reply io" where
  "after_rotation e i cache r res = do {
     ru \<leftarrow> active_session_user e (rr_user res);
     case ru of
       Inl x \<Rightarrow> do {
         (if x = NoRows then do {
            _ \<leftarrow> revoke_family_of e Detached (rr_family res) ''user_inactive'';
            audit_log (client_event r ''refresh_user_inactive'' (rr_email res) (rr_service res) False []);
            clear_cookie e ''refresh_token''
          }
          else return_io ());
         write_token_error 401 ''invalid_or_expired_token''
       }
     | Inr user \<Rightarrow> refresh_for_user e i cache r res user
   }"

definition refresh_token_grant ::
  "env \<Rightarrow> issuer \<Rightarrow> service_row list \<Rightarrow> string list \<Rightarrow> request \<Rightarrow> reply io" where
  "refresh_token_grant e i cache cors r =
     (if \<not> origin_ok cors r then refuse_origin e r
      else if presented_token r = [] then write_token_error 400 ''invalid_request''
      else do {
        res \<leftarrow> rotate_refresh e ReqCtx (presented_token r) (rq_client_ip r) (user_agent r);
        case res of
          Inr rotated \<Rightarrow> after_rotation e i cache r rotated
        | Inl x \<Rightarrow>
            if x = ErrTokenReuse \<or> x = ErrTokenRevoked then do {
              clear_cookie e ''refresh_token'';
              write_token_error 401 (if x = ErrTokenReuse then ''refresh_token_reused'' else ''invalid_or_expired_token'')
            }
            else write_token_error 500 ''server_error''
      })"

definition token_endpoint ::
  "env \<Rightarrow> issuer \<Rightarrow> service_row list \<Rightarrow> string list \<Rightarrow> request \<Rightarrow> reply io" where
  "token_endpoint e i cache cors r =
     (if form_value r ''grant_type'' = ''authorization_code'' then authorization_code_grant e i cache r
      else refresh_token_grant e i cache cors r)"

section \<open>Handlers stay within the statements\<close>

lemma evolves_del_headers [evolve_intros]: "evolves R (del_headers ks)"
  by (induction ks) (auto intro: evolve_intros)

lemmas grant_defs = write_token_error_def active_session_user_def reject_code_def reject_used_def

lemma evolves_reject_code [evolve_intros]: "evolves db_step (reject_code e r row q)"
  unfolding grant_defs Let_def by (intro evolve_intros)+

lemma evolves_write_token_error [evolve_intros]: "evolves R (write_token_error status code)"
  unfolding grant_defs by (intro evolve_intros)+

lemma evolves_code_grant [evolve_intros]: "evolves db_step (authorization_code_grant e i cache r)"
  unfolding authorization_code_grant_def code_owner_def redeem_code_def exchange_code_def lost_redemption_def code_id_token_def
    active_session_user_def Let_def
  by (intro evolve_intros)+

lemma evolves_token_endpoint [evolve_intros]: "evolves db_step (token_endpoint e i cache cors r)"
  unfolding token_endpoint_def refresh_token_grant_def after_rotation_def refresh_for_user_def refresh_tokens_reply_def
    deny_refresh_def refuse_origin_def active_session_user_def cookie_defs Let_def
  by (intro evolve_intros)+

section \<open>Where tokens can come from\<close>

definition gives_tokens :: "reply \<Rightarrow> bool" where
  "gives_tokens reply \<longleftrightarrow> (case reply of JsonTokens _ \<Rightarrow> True | _ \<Rightarrow> False)"

lemma gives_tokens_simps [simp]:
  "gives_tokens (JsonTokens t)" "\<not> gives_tokens (JsonError n s)"
  by (simp_all add: gives_tokens_def)

lemma sign_claims_wp:
  "wp (sign_claims e i user (Some svc) ttl use aud nonce) (\<lambda>r w'. w_db w' = w_db w \<and>
      (\<forall>t. r = Inr t \<longrightarrow> (\<exists>c. sign e i c = Some (ji_token t) \<and> c_use c = use \<and> c_aud c = [aud] \<and> c_nonce c = nonce \<and>
         c_iss c = is_name i \<and> c_email c = u_email user \<and> subject_of user (Some svc) = Some (c_sub c)))) w"
  by (auto simp: sign_claims_def build_claims_def new_jti_def wp_simps split: option.split sum.splits)

lemma access_detailed_wp:
  "wp (issue_access_detailed e i user svc) (\<lambda>r w'. w_db w' = w_db w \<and>
      (\<forall>t. r = Inr t \<longrightarrow> (\<exists>c. sign e i c = Some (ji_token t) \<and> access_claims i user svc c))) w"
  unfolding issue_access_detailed_def
  by (rule wp_mono [OF sign_claims_wp]) (auto simp: access_claims_def)

lemma code_id_token_wp: "wp (code_id_token e i user svc row) (\<lambda>r w'. w_db w' = w_db w) w"
  unfolding code_id_token_def issue_id_token_detailed_def wp_simps
  by (auto simp: wp_simps intro: wp_mono [OF sign_claims_wp])

lemma reject_code_wp:
  "wp (reject_code e r row q) (\<lambda>res w'. (\<forall>reply. res = Some reply \<longrightarrow> reply = JsonError 400 ''invalid_grant'') \<and>
     (ac_used row \<noteq> 1 \<longrightarrow> w_db w' = w_db w) \<and> (res = None \<longrightarrow> ac_used row \<noteq> 1 \<and> proves_code e q row)) w"
  by (auto simp: reject_code_def reject_used_def proves_code_def write_token_error_def revoke_family_of_def Let_def wp_simps
      split: option.split)

lemma wp_write_token_error [wp_simps]:
  "wp (write_token_error n s) Q = (\<lambda>w. Q (JsonError n s) (w\<lparr>w_headers :=
     (''Content-Type'', ''application/json'') # filter (\<lambda>kv. fst kv \<noteq> ''Content-Type'') (w_headers w)\<rparr>))"
  by (simp add: write_token_error_def wp_simps)

lemma token_error_gives_none: "wp (write_token_error n s) (\<lambda>reply w'. \<not> gives_tokens reply) w"
  by (simp add: wp_simps)

lemma lost_redemption_wp: "wp (lost_redemption e r h row q) (\<lambda>reply w'. \<not> gives_tokens reply) w"
proof -
  have "wp (reject_code e r row2 q) (\<lambda>rej. wp (case rej of Some reply \<Rightarrow> return_io reply
         | None \<Rightarrow> do { audit_log ev; write_token_error 400 ''invalid_grant'' }) (\<lambda>reply w'. \<not> gives_tokens reply)) w1" for row2 w1 ev
  proof (rule wp_mono [OF reject_code_wp], goal_cases)
    case (1 rej w2)
    then show ?case
      by (cases rej) (simp_all add: wp_return wp_bind wp_effects token_error_gives_none)
  qed
  then show ?thesis
    by (simp add: lost_redemption_def wp_bind wp_if wp_case_sum wp_db_read wp_effects token_error_gives_none
        split: option.split sum.split)
qed

text \<open>What stands behind an exchanged code.\<close>

definition code_exchanged ::
  "env \<Rightarrow> issuer \<Rightarrow> string \<Rightarrow> code_request \<Rightarrow> user_row \<Rightarrow> service_row \<Rightarrow> db \<Rightarrow> token_response \<Rightarrow> db \<Rightarrow> bool" where
  "code_exchanged e i h q user svc d t d' \<longleftrightarrow>
     (\<exists>row \<in> set (t_codes d). ac_code row = h \<and> ac_used row = 0 \<and> ac_service row = cq_client q \<and>
        ac_redirect row = cq_redirect q \<and> ac_challenge row = s256_challenge e (cq_verifier q) \<and>
        (\<exists>n. format_utc (e_clock e n) < ac_expires row) \<and>
        (\<exists>fam. row\<lparr>ac_used := 1, ac_family := Some fam\<rparr> \<in> set (t_codes d'))) \<and>
     (\<exists>c. sign e i c = Some (tr_access t) \<and> access_claims i user svc c) \<and>
     fresh_session e user svc (tr_refresh t) d d'"

lemma redeem_run:
  assumes "run_state (redeem_authorization_code e ctx p user svc ip ua) w = (Inr (rt, family), w')"
  shows "(\<exists>row \<in> set (t_codes (w_db w)). ac_code row = cr_hash p \<and> ac_used row = 0 \<and> ac_service row = cr_service p \<and>
        ac_redirect row = cr_redirect p \<and> ac_challenge row = cr_challenge p \<and>
        (\<exists>n. format_utc (e_clock e n) < ac_expires row) \<and>
        (\<exists>fam. row\<lparr>ac_used := 1, ac_family := Some fam\<rparr> \<in> set (t_codes (w_db w')))) \<and>
    fresh_session e user svc rt (w_db w) (w_db w')"
proof -
  let ?c = "redemption_claim p (e_clock e (Suc (w_step w)))"
  obtain params x y where p: "rp_hash params = hash_opaque e rt"
      "rp_user params = Some (u_id user)" "rp_service params = Some (sv_id svc)" "rp_parent params = None"
    and c: "fst (consume_code family ?c (w_db w)) = Inr x"
    and i: "fst (insert_refresh params (snd (consume_code family ?c (w_db w)))) = Inr y"
    and d: "w_db w' = snd (insert_refresh params (snd (consume_code family ?c (w_db w))))"
    using redeem_Inr [OF assms refl] by blast
  obtain row where row: "row \<in> set (t_codes (w_db w))" "code_claimable ?c row"
    using c by (auto simp: fst_consume_code fst_update_returning_Inr dest: find_SomeD)
  have codes: "t_codes (w_db w') = upd_where (code_claimable ?c) (\<lambda>r. r\<lparr>ac_used := 1, ac_family := Some family\<rparr>) (t_codes (w_db w))"
    unfolding d insert_refresh_Inr(1) [OF i] by (simp add: snd_consume_code)
  have "row\<lparr>ac_used := 1, ac_family := Some family\<rparr> \<in> set (t_codes (w_db w'))"
    unfolding codes set_upd_where using row by blast
  moreover have "fresh_session e user svc rt (w_db w) (w_db w')"
    using insert_root_fresh [OF i p] by (simp add: d fresh_session_def snd_consume_code)
  ultimately show ?thesis
    using row by (auto simp: code_claimable_def redemption_claim_def)
qed

lemma exchange_code_wp:
  assumes "w_db w1 = d" and "sign e i c = Some (ji_token at)" and "access_claims i user svc c"
  shows "wp (exchange_code e r h row q user svc at idt) (\<lambda>reply w'. \<forall>t. reply = JsonTokens t \<longrightarrow>
     code_exchanged e i h q user svc d t (w_db w')) w1"
  unfolding exchange_code_def wp_bind
proof (rule wpI, goal_cases)
  case (1 res w2)
  let ?Q = "\<lambda>reply w'. \<forall>t. reply = JsonTokens t \<longrightarrow> code_exchanged e i h q user svc d t (w_db w')"
  have "wp (write_token_error n s) ?Q w2" "wp (lost_redemption e r h row q) ?Q w2" for n s
    by (rule wp_mono [OF token_error_gives_none] wp_mono [OF lost_redemption_wp], auto)+
  note bad = this
  show ?case
  proof (cases res)
    case (Inl x)
    then show ?thesis by (simp add: wp_if bad)
  next
    case (Inr rf)
    with 1 have "run_state (redeem_authorization_code e ReqCtx \<lparr>cr_hash = h, cr_service = cq_client q,
        cr_redirect = cq_redirect q, cr_challenge = s256_challenge e (cq_verifier q)\<rparr> user svc (rq_client_ip r) (user_agent r))
        w1 = (Inr (fst rf, snd rf), w2)" by simp
    from redeem_run [OF this] Inr assms show ?thesis
      by (simp add: wp_bind wp_effects wp_return code_exchanged_def) blast
  qed
qed

lemma redeem_code_wp:
  "wp (redeem_code e i r h row q user svc) (\<lambda>reply w'. \<forall>t. reply = JsonTokens t \<longrightarrow>
     code_exchanged e i h q user svc (w_db w) t (w_db w')) w"
proof -
  let ?Q = "\<lambda>reply w'. \<forall>t. reply = JsonTokens t \<longrightarrow> code_exchanged e i h q user svc (w_db w) t (w_db w')"
  have err: "wp (write_token_error n s) ?Q w1" for n s w1
    by (rule wp_mono [OF token_error_gives_none]) auto
  have idt: "wp (code_id_token e i user svc row) (case_sum (\<lambda>_. wp (write_token_error 500 ''server_error'') ?Q)
      (\<lambda>idt. wp (exchange_code e r h row q user svc at idt) ?Q)) w1"
    if "w_db w1 = w_db w" "sign e i c = Some (ji_token at)" "access_claims i user svc c" for at w1 c
    by (rule wp_mono [OF code_id_token_wp]) (use that in \<open>auto simp: err intro: exchange_code_wp split: sum.split\<close>)
  show ?thesis
    unfolding redeem_code_def wp_bind
  proof (rule wp_mono [OF access_detailed_wp], goal_cases)
    case (1 res w1)
    then show ?case by (cases res) (auto simp: wp_bind wp_case_sum err intro: idt)
  qed
qed

text \<open>The whole grant: the row that was looked up, its owner and its service.\<close>

definition code_granted ::
  "env \<Rightarrow> issuer \<Rightarrow> service_row list \<Rightarrow> string \<Rightarrow> code_request \<Rightarrow> db \<Rightarrow> token_response \<Rightarrow> db \<Rightarrow> bool" where
  "code_granted e i cache h q d t d' \<longleftrightarrow>
     (\<exists>row user svc. row \<in> set (t_codes d) \<and> ac_code row = h \<and> proves_code e q row \<and>
        ac_user row = Some (u_id user) \<and> user \<in> set (t_users d) \<and> u_deactivated user = None \<and>
        svc \<in> set cache \<and> sv_id svc = ac_service row \<and> check_policy user svc = None \<and>
        code_exchanged e i h q user svc d t d')"

lemma get_active_by_id_Inr: "get_active_user_by_id k d = Inr u \<Longrightarrow>
    u \<in> set (t_users d) \<and> u_id u = k \<and> u_deactivated u = None"
  by (auto simp: get_active_user_by_id_def user_active_def dest: select_one_Inr)

lemma get_code_Inr: "get_code_by_hash h d = Inr row \<Longrightarrow> row \<in> set (t_codes d) \<and> ac_code row = h"
  by (auto simp: get_code_by_hash_def dest: select_one_Inr)

lemma active_session_user_wp:
  "wp (active_session_user e uid) (\<lambda>r w'. w_db w' = w_db w \<and> response w' = response w \<and>
     (\<forall>u. r = Inr u \<longrightarrow> uid = Some (u_id u) \<and> u \<in> set (t_users (w_db w)) \<and> u_deactivated u = None)) w"
  by (auto simp: active_session_user_def wp_simps split: option.split dest!: get_active_by_id_Inr)

lemma code_owner_wp:
  assumes "row \<in> set (t_codes (w_db w))" and "ac_code row = h" and "proves_code e q row"
  shows "wp (code_owner e i cache r h row q) (\<lambda>reply w'. \<forall>t. reply = JsonTokens t \<longrightarrow>
     code_granted e i cache h q (w_db w) t (w_db w')) w"
proof (cases "resolve e cache [] (ac_service row) []")
  case None
  then show ?thesis by (simp add: code_owner_def write_token_error_def wp_simps)
next
  case (Some svc)
  let ?Q = "\<lambda>reply w'. \<forall>t. reply = JsonTokens t \<longrightarrow> code_granted e i cache h q (w_db w) t (w_db w')"
  have err: "wp (write_token_error n s) ?Q w1" for n s w1
    by (rule wp_mono [OF token_error_gives_none]) auto
  have red: "wp (redeem_code e i r h row q user svc) ?Q w1"
    if "w_db w1 = w_db w" "ac_user row = Some (u_id user)" "user \<in> set (t_users (w_db w))" "u_deactivated user = None"
      "check_policy user svc = None" for w1 user
  proof (rule wp_mono [OF redeem_code_wp], intro allI impI)
    fix reply t and w' :: world
    assume "\<forall>t. reply = JsonTokens t \<longrightarrow> code_exchanged e i h q user svc (w_db w1) t (w_db w')" "reply = JsonTokens t"
    then have "code_exchanged e i h q user svc (w_db w) t (w_db w')" by (simp add: that(1))
    with that assms resolve_by_id [OF Some] show "code_granted e i cache h q (w_db w) t (w_db w')"
      unfolding code_granted_def by blast
  qed
  show ?thesis
    unfolding code_owner_def Some option.case wp_bind
  proof (rule wp_mono [OF active_session_user_wp], goal_cases)
    case (1 res w1)
    then show ?case by (cases res) (auto simp: wp_if wp_bind wp_effects err intro: red)
  qed
qed

lemma code_grant_wp:
  "wp (authorization_code_grant e i cache r) (\<lambda>reply w'. \<forall>t. reply = JsonTokens t \<longrightarrow>
     43 \<le> length (form_value r ''code_verifier'') \<and> length (form_value r ''code_verifier'') \<le> 128 \<and>
     code_granted e i cache (hash_opaque e (form_value r ''code''))
       \<lparr>cq_client = form_value r ''client_id'', cq_redirect = form_value r ''redirect_uri'',
        cq_verifier = form_value r ''code_verifier''\<rparr> (w_db w) t (w_db w')) w"
proof -
  let ?q = "\<lparr>cq_client = form_value r ''client_id'', cq_redirect = form_value r ''redirect_uri'',
        cq_verifier = form_value r ''code_verifier''\<rparr>"
  let ?h = "hash_opaque e (form_value r ''code'')"
  let ?len = "43 \<le> length (form_value r ''code_verifier'') \<and> length (form_value r ''code_verifier'') \<le> 128"
  let ?Q = "\<lambda>reply w'. \<forall>t. reply = JsonTokens t \<longrightarrow> ?len \<and> code_granted e i cache ?h ?q (w_db w) t (w_db w')"
  have rej: "wp (reject_code e r row ?q) (\<lambda>rej. wp (case rej of Some reply \<Rightarrow> return_io reply
      | None \<Rightarrow> code_owner e i cache r ?h row ?q) ?Q) (w\<lparr>w_step := k\<rparr>)"
    if "get_code_by_hash ?h (w_db w) = Inr row" "?len" for row k
  proof (rule wp_mono [OF reject_code_wp], goal_cases)
    case (1 rej w1)
    show ?case
    proof (cases rej)
      case (Some reply)
      with 1 show ?thesis by (simp add: wp_return)
    next
      case None
      with 1 have "w_db w1 = w_db w" "proves_code e ?q row" by auto
      with code_owner_wp [of row w1 ?h e ?q i cache r] get_code_Inr [OF that(1)] that(2) None show ?thesis by simp
    qed
  qed
  show ?thesis
  proof (cases "form_value r ''code'' \<noteq> [] \<and> ?len \<and> db_failure e ReqCtx (w_step w) = None \<and>
      \<not> isl (get_code_by_hash ?h (w_db w))")
    case True
    then obtain row where "get_code_by_hash ?h (w_db w) = Inr row" by (cases "get_code_by_hash ?h (w_db w)") auto
    with True rej [OF this] show ?thesis
      by (simp add: authorization_code_grant_def Let_def wp_bind wp_db_read)
  next
    case False
    then show ?thesis
      by (auto simp: authorization_code_grant_def Let_def wp_simps split: option.split sum.split)
  qed
qed

lemma code_refused_wp:
  assumes "get_code_by_hash (hash_opaque e (form_value r ''code'')) (w_db w) = Inr row" and "ac_used row \<noteq> 1"
    and "\<not> proves_code e \<lparr>cq_client = form_value r ''client_id'', cq_redirect = form_value r ''redirect_uri'',
        cq_verifier = form_value r ''code_verifier''\<rparr> row"
  shows "wp (authorization_code_grant e i cache r) (\<lambda>reply w'. \<not> gives_tokens reply \<and> w_db w' = w_db w) w"
proof -
  let ?q = "\<lparr>cq_client = form_value r ''client_id'', cq_redirect = form_value r ''redirect_uri'',
        cq_verifier = form_value r ''code_verifier''\<rparr>"
  have rej: "wp (reject_code e r row ?q) (\<lambda>rej. wp (case rej of Some reply \<Rightarrow> return_io reply
      | None \<Rightarrow> code_owner e i cache r h row ?q) (\<lambda>reply w'. \<not> gives_tokens reply \<and> w_db w' = w_db w)) (w\<lparr>w_step := k\<rparr>)" for k h
  proof (rule wp_mono [OF reject_code_wp], goal_cases)
    case (1 rej w1)
    with assms(2,3) show ?case by (cases rej) (simp_all add: wp_return)
  qed
  show ?thesis
  proof (cases "form_value r ''code'' \<noteq> [] \<and> db_failure e ReqCtx (w_step w) = None \<and>
      43 \<le> length (form_value r ''code_verifier'') \<and> length (form_value r ''code_verifier'') \<le> 128")
    case True
    with assms(1) rej show ?thesis
      by (simp add: authorization_code_grant_def Let_def wp_bind wp_db_read)
  next
    case False
    then show ?thesis
      by (auto simp: authorization_code_grant_def Let_def wp_simps assms(1) split: option.split)
  qed
qed

lemma replay_run:
  assumes "get_code_by_hash (hash_opaque e (form_value r ''code'')) (w_db w) = Inr row" and "ac_used row = 1"
    and "ac_family row = Some fam" and "form_value r ''code'' \<noteq> []"
    and "43 \<le> length (form_value r ''code_verifier'')" and "length (form_value r ''code_verifier'') \<le> 128"
    and "proves_code e \<lparr>cq_client = form_value r ''client_id'', cq_redirect = form_value r ''redirect_uri'',
        cq_verifier = form_value r ''code_verifier''\<rparr> row"
    and "\<forall>k. \<not> e_fault e k" and "\<not> e_cancel e (w_step w)"
  shows "wp (authorization_code_grant e i cache r) (\<lambda>reply w'. reply = JsonError 400 ''invalid_grant'' \<and>
     w_db w' = snd (revoke_family ''authorization_code_reuse'' fam (w_db w)) \<and>
     w_audit w' = w_audit w @ [client_event r ''authorization_code_reuse'' (ac_email row) (ac_service row) False
       (''family='' @ fam)]) w"
  using assms
  by (simp add: authorization_code_grant_def Let_def wp_simps reject_code_def reject_used_def revoke_family_of_def
      db_failure_def revoke_family_def)

section \<open>A refused refresh leaves nothing alive\<close>

text \<open>Every token that is not revoked was there before, as it is.\<close>

definition survivors_only :: "db \<Rightarrow> db \<Rightarrow> bool" where
  "survivors_only d d' \<longleftrightarrow> (\<forall>r \<in> set (t_refresh d'). rt_revoked r = 0 \<longrightarrow> r \<in> set (t_refresh d))"

lemma survivors_refl: "t_refresh d' = t_refresh d \<Longrightarrow> survivors_only d d'"
  by (simp add: survivors_only_def)

lemma revoked_row:
  assumes "r \<in> set (t_refresh (snd (revoke_family reason fam d)))" and "rt_revoked r = 0"
  shows "r \<in> set (t_refresh d) \<and> rt_family r \<noteq> fam"
proof -
  obtain q where q: "q \<in> set (t_refresh d)" "r = (if rt_family q = fam \<and> rt_revoked q = 0
      then q\<lparr>rt_revoked := 1, rt_reason := Some reason\<rparr> else q)"
    using assms(1) unfolding revoke_family_rows in_upd_where by blast
  then have "r = q" using assms(2) by (cases "rt_family q = fam \<and> rt_revoked q = 0") simp_all
  moreover have "rt_family r \<noteq> fam" using revoke_family_revokes [OF assms(1)] assms(2) by blast
  ultimately show ?thesis using q(1) by simp
qed

lemma survivors_revoke: "survivors_only d (snd (revoke_family reason fam d))"
  by (auto simp: survivors_only_def dest: revoked_row)

lemma rotate_Inl_survivors:
  assumes "run_state (rotate_refresh e ctx tok ip ua) w = (Inl x, w')"
  shows "survivors_only (w_db w) (w_db w')"
proof -
  obtain res w1 where tx: "run_state (in_tx e ctx ErrDb (rotate_body e ctx (hash_opaque e tok) (e_clock e (w_step w))))
      (w\<lparr>w_step := Suc (w_step w)\<rparr>) = (res, w1)" by fastforce
  have classify: "wp (classify_rejected e h ip ua) (\<lambda>_ w2. survivors_only (w_db w1) (w_db w2)) w1" for h
    by (auto simp: classify_rejected_def handle_reuse_def reuse_gap_def wp_simps survivors_revoke survivors_refl
        split: option.split sum.split)
  show ?thesis
  proof (cases res)
    case (Inl y)
    from in_tx_Inl [OF tx [unfolded this]] have "w_db w1 = w_db w" by simp
    with assms tx Inl classify wpD [OF classify] show ?thesis
      by (auto simp: rotate_refresh_def run_time_now survivors_refl split: if_splits prod.splits)
  next
    case (Inr cp)
    with assms tx show ?thesis
      by (cases cp) (auto simp: rotate_refresh_def run_time_now run_audit_log)
  qed
qed

text \<open>Revoking the family of a rotation takes the parent and the child.\<close>

lemma rotate_revoke_survivors:
  assumes "db_ok (w_db w)" and "run_state (rotate_refresh e ctx tok ip ua) w = (Inr res, w')"
  shows "survivors_only (w_db w) (snd (revoke_family reason (rr_family res) (w_db w')))"
  unfolding survivors_only_def
proof (intro ballI impI)
  let ?live = "refresh_live_at (hash_opaque e tok) (format_utc (e_clock e (w_step w)))"
  obtain parent child where parent: "parent \<in> set (t_refresh (w_db w))" "?live parent"
    and db: "w_db w' = (w_db w)\<lparr>t_refresh := upd_where ?live (\<lambda>r. r\<lparr>rt_used := 1\<rparr>) (t_refresh (w_db w)) @ [child]\<rparr>"
    and fam: "rt_family child = rt_family parent" "rr_family res = rt_family parent"
    using rotate_effect [OF assms(2) refl refl] by blast
  fix r
  assume "r \<in> set (t_refresh (snd (revoke_family reason (rr_family res) (w_db w'))))" "rt_revoked r = 0"
  from revoked_row [OF this] have r: "r \<in> set (t_refresh (w_db w'))" "rt_family r \<noteq> rt_family parent" by (simp_all add: fam)
  then have "r \<in> set (upd_where ?live (\<lambda>r. r\<lparr>rt_used := 1\<rparr>) (t_refresh (w_db w)))"
    using fam by (auto simp: db)
  then obtain q where q: "q \<in> set (t_refresh (w_db w))" "r = (if ?live q then q\<lparr>rt_used := 1\<rparr> else q)"
    unfolding in_upd_where by blast
  show "r \<in> set (t_refresh (w_db w))"
  proof (cases "?live q")
    case True
    with parent unique_row [OF assms(1) q(1) parent(1)] have "q = parent" by (simp add: refresh_live_at_def)
    with q r True show ?thesis by simp
  next
    case False
    with q show ?thesis by simp
  qed
qed

definition revoked_in :: "db \<Rightarrow> string \<Rightarrow> db \<Rightarrow> bool" where
  "revoked_in d fam d' \<longleftrightarrow> (\<exists>reason. d' = snd (revoke_family reason fam d))"

lemma active_session_user_quiet:
  "quiet e \<Longrightarrow> wp (active_session_user e uid) (\<lambda>r w'. w_db w' = w_db w \<and> (\<forall>x. r = Inl x \<longrightarrow> x = NoRows)) w"
  by (simp add: active_session_user_def wp_simps get_active_user_by_id_def select_one_Inl split: option.split)

lemma after_rotation_wp:
  assumes "quiet e"
  shows "wp (after_rotation e i cache r res) (\<lambda>reply w'. gives_tokens reply \<or> revoked_in (w_db w) (rr_family res) (w_db w')) w"
proof -
  let ?Q = "\<lambda>reply w'. gives_tokens reply \<or> revoked_in (w_db w) (rr_family res) (w_db w')"
  have rev: "revoked_in d fam (snd (revoke_family reason fam d))" for d fam reason
    by (auto simp: revoked_in_def)
  have deny: "wp (deny_refresh e r res ty reason dt) ?Q w1" if "w_db w1 = w_db w" for w1 ty reason dt
    using assms that by (simp add: deny_refresh_def revoke_family_of_def cookie_defs wp_simps rev)
  have tokens: "wp (refresh_tokens_reply e i r res user svc) ?Q w1" if "w_db w1 = w_db w" for w1 user svc
    unfolding refresh_tokens_reply_def wp_bind
  proof (rule wp_mono [OF issue_access_wp], goal_cases)
    case (1 at w2)
    with assms that show ?case
      by (cases at) (simp_all add: revoke_family_of_def cookie_defs wp_simps rev)
  qed
  have user: "wp (refresh_for_user e i cache r res user) ?Q w1" if "w_db w1 = w_db w" for w1 user
    using that deny tokens by (simp add: refresh_for_user_def Let_def wp_simps split: option.split)
  show ?thesis
    unfolding after_rotation_def wp_bind
  proof (rule wp_mono [OF active_session_user_quiet [OF assms]], goal_cases)
    case (1 ru w1)
    with assms user show ?case
      by (cases ru) (simp_all add: revoke_family_of_def cookie_defs wp_simps rev)
  qed
qed

lemma refresh_grant_survivors:
  assumes "quiet e" and "db_ok (w_db w)"
  shows "wp (refresh_token_grant e i cache cors r) (\<lambda>reply w'. gives_tokens reply \<or> survivors_only (w_db w) (w_db w')) w"
proof -
  let ?Q = "\<lambda>reply w'. gives_tokens reply \<or> survivors_only (w_db w) (w_db w')"
  have dels: "wp (del_headers ks) (\<lambda>_ w'. w_db w' = w_db w1) w1" for ks w1
  proof (induction ks arbitrary: w1)
    case (Cons k ks)
    from Cons [of "w1\<lparr>w_headers := filter (\<lambda>kv. fst kv \<noteq> k) (w_headers w1)\<rparr>"] show ?case by (simp add: wp_simps)
  qed (simp add: wp_simps)
  have origin: "wp (refuse_origin e r) ?Q w"
    unfolding refuse_origin_def wp_bind
    by (rule wp_mono [OF dels]) (simp add: wp_simps survivors_refl)
  have rot: "wp (rotate_refresh e ReqCtx tok ip ua) (case_sum
      (\<lambda>x w'. survivors_only (w_db w) (w_db w')) (\<lambda>res. wp (after_rotation e i cache r res) ?Q)) w" for tok ip ua
  proof (rule wpI, goal_cases)
    case (1 res w1)
    show ?case
    proof (cases res)
      case (Inl x)
      with rotate_Inl_survivors [of e ReqCtx tok ip ua w x w1] 1 show ?thesis by simp
    next
      case (Inr rr)
      with 1 rotate_revoke_survivors [OF assms(2), of e ReqCtx tok ip ua rr w1]
      have "wp (after_rotation e i cache r rr) ?Q w1"
        by (intro wp_mono [OF after_rotation_wp [OF assms(1)]]) (auto simp: revoked_in_def)
      with Inr show ?thesis by simp
    qed
  qed
  have rest: "wp (rotate_refresh e ReqCtx tok ip ua) (\<lambda>res. wp (case res of
          Inr rotated \<Rightarrow> after_rotation e i cache r rotated
        | Inl x \<Rightarrow>
            if x = ErrTokenReuse \<or> x = ErrTokenRevoked then do {
              clear_cookie e ''refresh_token'';
              write_token_error 401 (if x = ErrTokenReuse then ''refresh_token_reused'' else ''invalid_or_expired_token'')
            }
            else write_token_error 500 ''server_error'') ?Q) w" for tok ip ua
    by (rule wp_mono [OF rot]) (simp add: wp_simps cookie_defs split: sum.splits)
  show ?thesis
    using origin rest
    by (simp add: refresh_token_grant_def wp_if wp_bind wp_write_token_error survivors_refl)
qed

section \<open>Properties\<close>

text \<open>C23. \<open>/token\<close> hands out tokens for an authorization code only to the client it was issued to, with the
  redirect address it was issued for and a PKCE verifier (43 to 128 characters) whose S256 hash is the
  stored challenge; the code was unused and not expired and is spent afterwards, its owner is an active
  user who satisfies the policy of the service, and both tokens are this user's at this service.\<close>

theorem code_grant_binding:
  "case run_state (authorization_code_grant e i cache r) w of (reply, w') \<Rightarrow>
     (case reply of
        JsonTokens t \<Rightarrow>
          43 \<le> length (form_value r ''code_verifier'') \<and> length (form_value r ''code_verifier'') \<le> 128 \<and>
          code_granted e i cache (hash_opaque e (form_value r ''code''))
            \<lparr>cq_client = form_value r ''client_id'', cq_redirect = form_value r ''redirect_uri'',
             cq_verifier = form_value r ''code_verifier''\<rparr> (w_db w) t (w_db w')
      | _ \<Rightarrow> True)"
  using code_grant_wp [of e i cache r w]
  by (auto simp: wp_def gives_tokens_def split: prod.splits reply.splits)

text \<open>A caller who does not prove the whole code (client, redirect address, verifier) cannot burn it: the
  grant gives no tokens and leaves the database as it was, so the right client can still redeem it.\<close>

theorem wrong_caller_cannot_burn_code:
  assumes "get_code_by_hash (hash_opaque e (form_value r ''code'')) (w_db w) = Inr row" and "ac_used row \<noteq> 1"
    and "\<not> proves_code e \<lparr>cq_client = form_value r ''client_id'', cq_redirect = form_value r ''redirect_uri'',
        cq_verifier = form_value r ''code_verifier''\<rparr> row"
  shows "case run_state (authorization_code_grant e i cache r) w of (reply, w') \<Rightarrow>
    \<not> gives_tokens reply \<and> w_db w' = w_db w"
  using code_refused_wp [OF assms] by (simp add: wp_def)

definition demo_verifier :: string where "demo_verifier = replicate 43 (CHR ''v'')"

definition demo_stored_code :: code_row where
  "demo_stored_code = demo_code_row\<lparr>ac_code := hash_opaque demo_env ''code'', ac_challenge := s256_challenge demo_env demo_verifier\<rparr>"

definition demo_code_form :: "string \<Rightarrow> request" where
  "demo_code_form client = demo_request\<lparr>rq_form := [(''grant_type'', ''authorization_code''), (''code'', ''code''),
     (''client_id'', client), (''redirect_uri'', ''https://app.x.no/cb''), (''code_verifier'', demo_verifier)]\<rparr>"

lemma demo_form_values:
  "form_value (demo_code_form c) ''code'' = ''code''" "form_value (demo_code_form c) ''client_id'' = c"
  "form_value (demo_code_form c) ''redirect_uri'' = ''https://app.x.no/cb''"
  "form_value (demo_code_form c) ''code_verifier'' = demo_verifier"
  by (simp_all add: demo_code_form_def form_value_def get_first_def)

lemma demo_proves: "proves_code demo_env \<lparr>cq_client = c, cq_redirect = ''https://app.x.no/cb'', cq_verifier = demo_verifier\<rparr>
    (demo_stored_code\<lparr>ac_used := u, ac_family := f\<rparr>) \<longleftrightarrow> c = ''app''"
proof -
  have "demo_verifier \<noteq> []" using replicate_Suc [of 42 "CHR ''v''"] by (simp add: demo_verifier_def del: replicate_Suc)
  moreover have "s256_challenge demo_env demo_verifier \<noteq> []"
  proof
    assume "s256_challenge demo_env demo_verifier = []"
    then have "b64_decode (b64_encode (e_sha256 demo_env demo_verifier)) = b64_decode []" by (simp add: s256_challenge_def)
    moreover have "b64_decode [] = Some []" by code_simp
    ultimately have "e_sha256 demo_env demo_verifier = []" by (simp add: b64_decode_encode)
    then show False using \<open>demo_verifier \<noteq> []\<close> by (simp add: demo_env_def)
  qed
  ultimately show ?thesis by (auto simp: proves_code_def verify_pkce_def demo_stored_code_def demo_code_row_def)
qed

theorem wrong_caller_cannot_burn_code_witness:
  "case run_state (authorization_code_grant demo_env demo_issuer [demo_service] (demo_code_form ''other''))
      (demo_world\<lparr>w_db := demo_db\<lparr>t_codes := [demo_stored_code]\<rparr>\<rparr>) of (reply, w') \<Rightarrow>
    \<not> gives_tokens reply \<and> w_db w' = demo_db\<lparr>t_codes := [demo_stored_code]\<rparr>"
proof -
  let ?w = "demo_world\<lparr>w_db := demo_db\<lparr>t_codes := [demo_stored_code]\<rparr>\<rparr>"
  have "get_code_by_hash (hash_opaque demo_env (form_value (demo_code_form ''other'') ''code'')) (w_db ?w) = Inr demo_stored_code"
    by (simp add: demo_form_values get_code_by_hash_def select_one_def) (simp add: demo_stored_code_def)
  moreover have "ac_used demo_stored_code \<noteq> 1" by (simp add: demo_stored_code_def demo_code_row_def)
  moreover have "\<not> proves_code demo_env \<lparr>cq_client = ''other'', cq_redirect = ''https://app.x.no/cb'', cq_verifier = demo_verifier\<rparr> demo_stored_code"
    using demo_proves [where c = "''other''" and u = "ac_used demo_stored_code" and f = "ac_family demo_stored_code"] by simp
  ultimately show ?thesis
    using wrong_caller_cannot_burn_code [of demo_env "demo_code_form ''other''" ?w demo_stored_code] by (simp add: demo_form_values)
qed

text \<open>C32. A code presented a second time by a caller who proves it takes down the family of the first redemption:
  afterwards every refresh token of that family is revoked, even when the client hangs up after the
  lookup, the event is audited, and the answer is \<open>invalid_grant\<close>.\<close>

theorem replayed_code_revokes_family:
  assumes "get_code_by_hash (hash_opaque e (form_value r ''code'')) (w_db w) = Inr row" and "ac_used row = 1"
    and "ac_family row = Some fam" and "form_value r ''code'' \<noteq> []"
    and "43 \<le> length (form_value r ''code_verifier'')" and "length (form_value r ''code_verifier'') \<le> 128"
    and "proves_code e \<lparr>cq_client = form_value r ''client_id'', cq_redirect = form_value r ''redirect_uri'',
        cq_verifier = form_value r ''code_verifier''\<rparr> row"
    and "\<forall>k. \<not> e_fault e k" and "\<not> e_cancel e (w_step w)"
  shows "case run_state (authorization_code_grant e i cache r) w of (reply, w') \<Rightarrow>
    reply = JsonError 400 ''invalid_grant'' \<and>
    (\<forall>t \<in> set (t_refresh (w_db w')). rt_family t = fam \<longrightarrow> rt_revoked t \<noteq> 0) \<and>
    w_audit w' = w_audit w @ [client_event r ''authorization_code_reuse'' (ac_email row) (ac_service row) False
       (''family='' @ fam)]"
  using replay_run [OF assms, of i cache] revoke_family_revokes
  by (auto simp: wp_def split: prod.splits)

theorem replayed_code_revokes_family_witness:
  "\<exists>w'. run_state (authorization_code_grant demo_env demo_issuer [demo_service] (demo_code_form ''app''))
      (demo_world\<lparr>w_db := demo_db\<lparr>t_codes := [demo_stored_code\<lparr>ac_used := 1, ac_family := Some ''fam''\<rparr>],
         t_refresh := [demo_refresh_row]\<rparr>\<rparr>) = (JsonError 400 ''invalid_grant'', w')"
proof -
  let ?row = "demo_stored_code\<lparr>ac_used := 1, ac_family := Some ''fam''\<rparr>"
  let ?w = "demo_world\<lparr>w_db := demo_db\<lparr>t_codes := [?row], t_refresh := [demo_refresh_row]\<rparr>\<rparr>"
  have "get_code_by_hash (hash_opaque demo_env (form_value (demo_code_form ''app'') ''code'')) (w_db ?w) = Inr ?row"
    by (simp add: demo_form_values get_code_by_hash_def select_one_def) (simp add: demo_stored_code_def)
  moreover have "ac_used ?row = 1" "ac_family ?row = Some ''fam''" by simp_all
  moreover have "proves_code demo_env \<lparr>cq_client = form_value (demo_code_form ''app'') ''client_id'',
      cq_redirect = form_value (demo_code_form ''app'') ''redirect_uri'',
      cq_verifier = form_value (demo_code_form ''app'') ''code_verifier''\<rparr> ?row"
    unfolding demo_form_values using demo_proves by blast
  moreover have "\<forall>k. \<not> e_fault demo_env k" "\<not> e_cancel demo_env (w_step ?w)" by (simp_all add: demo_env_def)
  moreover have "form_value (demo_code_form ''app'') ''code'' \<noteq> []" "43 \<le> length (form_value (demo_code_form ''app'') ''code_verifier'')"
    "length (form_value (demo_code_form ''app'') ''code_verifier'') \<le> 128"
    unfolding demo_form_values by (simp_all add: demo_verifier_def)
  ultimately show ?thesis
    using replayed_code_revokes_family [of demo_env "demo_code_form ''app''" ?w ?row "''fam''" demo_issuer "[demo_service]"]
    by (auto split: prod.splits)
qed

text \<open>A refresh that hands out no tokens leaves nothing alive behind: on a database that is up, every refresh
  token that is not revoked afterwards was there before, unchanged.  In particular the child of a
  rotation does not survive a deactivated user, an unknown service, a policy refusal or a failed signature.\<close>

theorem refused_refresh_leaves_nothing:
  assumes "quiet e" and "db_ok (w_db w)" and "run_state (refresh_token_grant e i cache cors r) w = (reply, w')"
    and "\<not> gives_tokens reply"
  shows "\<forall>t \<in> set (t_refresh (w_db w')). rt_revoked t = 0 \<longrightarrow> t \<in> set (t_refresh (w_db w))"
  using wpD [OF refresh_grant_survivors [OF assms(1,2)] assms(3)] assms(4) by (simp add: survivors_only_def)

lemma no_service_no_tokens: "wp (refresh_token_grant e i [] cors r) (\<lambda>reply w'. \<not> gives_tokens reply) w"
proof -
  have resolve_empty: "resolve e [] [] sid [] = None" for sid by (simp add: resolve_def by_id_def)
  have deny: "wp (deny_refresh e r res t reason details) (\<lambda>reply w'. \<not> gives_tokens reply) w1" for res t reason details w1
    by (simp add: deny_refresh_def revoke_family_of_def cookie_defs wp_simps split: option.split sum.split)
  have after: "wp (after_rotation e i [] r res) (\<lambda>reply w'. \<not> gives_tokens reply) w1" for res w1
    by (simp add: after_rotation_def refresh_for_user_def active_session_user_def revoke_family_of_def resolve_empty deny
        cookie_defs wp_simps split: option.split sum.split)
  have rot: "wp (rotate_refresh e ReqCtx tok ip ua) (\<lambda>_ _. True) w1" for tok ip ua w1 by (simp add: wp_def)
  have rest: "wp (rotate_refresh e ReqCtx tok ip ua) (\<lambda>res. wp (case res of
          Inr rotated \<Rightarrow> after_rotation e i [] r rotated
        | Inl x \<Rightarrow>
            if x = ErrTokenReuse \<or> x = ErrTokenRevoked then do {
              clear_cookie e ''refresh_token'';
              write_token_error 401 (if x = ErrTokenReuse then ''refresh_token_reused'' else ''invalid_or_expired_token'')
            }
            else write_token_error 500 ''server_error'') (\<lambda>reply w'. \<not> gives_tokens reply)) w" for tok ip ua
    by (rule wp_mono [OF rot]) (simp add: after wp_simps cookie_defs split: sum.split)
  have origin: "wp (refuse_origin e r) (\<lambda>reply w'. \<not> gives_tokens reply) w"
    by (simp add: refuse_origin_def cors_headers_def wp_simps)
  show ?thesis
    using origin rest by (simp add: refresh_token_grant_def wp_if wp_bind wp_write_token_error)
qed

theorem refused_refresh_leaves_nothing_witness:
  "filter (\<lambda>t. rt_revoked t = 0 \<and> t \<noteq> demo_refresh_row) (t_refresh (w_db (snd
     (run_state (refresh_token_grant demo_env demo_issuer [] [] (demo_request\<lparr>rq_cookies := [(''refresh_token'', ''tok'')]\<rparr>))
        demo_refresh_world)))) = []"
proof -
  let ?r = "demo_request\<lparr>rq_cookies := [(''refresh_token'', ''tok'')]\<rparr>"
  obtain reply w' where run: "run_state (refresh_token_grant demo_env demo_issuer [] [] ?r) demo_refresh_world = (reply, w')"
    by fastforce
  have "\<not> gives_tokens reply" using wpD [OF no_service_no_tokens run] .
  from refused_refresh_leaves_nothing [OF quiet_demo demo_refresh_ok run this]
  have "\<forall>t \<in> set (t_refresh (w_db w')). rt_revoked t = 0 \<longrightarrow> t = demo_refresh_row"
    by (simp add: demo_refresh_world_def)
  then show ?thesis unfolding run by (auto simp: filter_empty_conv)
qed

end
