(* ===== verification/Dispatch.thy ===== *)
theory Dispatch
  imports TokenEndpoint
begin

text \<open>
  \<open>GET /dispatch\<close> and \<open>GET /logout\<close>: \<open>internal/auth/dispatch.go\<close>.  After a login the browser is sent to
  \<open>/dispatch\<close>, which either exchanges the fresh access token for an authorization code (level 0, when an
  OIDC request is pending) or forwards the tokens to a registered callback (levels 1 to 5, most precise
  source first).  \<open>forward_target\<close> is the choice of the level, \<open>forward\<close> what is then logged and sent.
\<close>

section \<open>The pieces\<close>

text \<open>\<open>DispatchHandler\<close>: the default service, and whether auditing and revocation are wired up.\<close>

record dispatcher =
  dh_default :: string
  dh_audit :: bool
  dh_refresh :: bool

definition max_token_age :: duration where "max_token_age = 120 * second"
definition clock_skew :: duration where "clock_skew = 30 * second"

definition nullable :: "string \<Rightarrow> string option" where
  "nullable s = (if s = [] then None else Some s)"

definition strip_quotes :: "string \<Rightarrow> string" where
  "strip_quotes s = rev (dropWhile (\<lambda>c. c = CHR 0x22) (rev (dropWhile (\<lambda>c. c = CHR 0x22) s)))"

definition read_redirect_cookie :: "request \<Rightarrow> string" where
  "read_redirect_cookie r =
     (case cookie_get r ''redirect_uri'' of
        None \<Rightarrow> []
      | Some v \<Rightarrow> strip_quotes (case query_unescape v of None \<Rightarrow> [] | Some s \<Rightarrow> s))"

definition append_token :: "string \<Rightarrow> string \<Rightarrow> string \<Rightarrow> string" where
  "append_token target tok rt =
     (let sep = (if CHR ''?'' \<in> set target then ''&'' else ''?'');
          u = target @ sep @ ''token='' @ query_escape tok
      in if rt \<noteq> [] then u @ ''#rt='' @ query_escape rt else u)"

definition to_login :: reply where "to_login = Redirect 303 ''/login''"

text \<open>The age of a token and whether it is fresh enough for level 0; whole seconds round towards zero.\<close>

definition token_age :: "claims \<Rightarrow> instant \<Rightarrow> duration \<times> bool" where
  "token_age c now =
     (case c_iat c of
        None \<Rightarrow> (0, False)
      | Some iat \<Rightarrow> (let age = now - iat * second in (age, age \<le> max_token_age \<and> - clock_skew \<le> age)))"

definition whole_seconds :: "duration \<Rightarrow> int" where
  "whole_seconds d = (if d < 0 then - ((- d) div second) else d div second)"

definition age_detail :: "claims \<Rightarrow> duration \<Rightarrow> string" where
  "age_detail c age =
     (case c_iat c of None \<Rightarrow> ''iat=missing'' | Some _ \<Rightarrow> ''age_s='' @ format_int (whole_seconds age))"

definition aud_detail :: "claims \<Rightarrow> string" where
  "aud_detail c = (if c_aud c = [] then ''-'' else join_with '','' (c_aud c))"

section \<open>Auditing\<close>

definition log_dispatch ::
  "dispatcher \<Rightarrow> request \<Rightarrow> string \<Rightarrow> string \<Rightarrow> string \<Rightarrow> string \<Rightarrow> bool \<Rightarrow> unit io" where
  "log_dispatch h r typ email sid details ok =
     (if dh_audit h then audit_log (client_event r typ email sid ok details) else return_io ())"

definition audit_aud_mismatch ::
  "env \<Rightarrow> dispatcher \<Rightarrow> service_row list \<Rightarrow> request \<Rightarrow> claims \<Rightarrow> nat \<Rightarrow> service_row \<Rightarrow> string \<Rightarrow> unit io" where
  "audit_aud_mismatch e h cache r c level target callback =
     (if sv_id target \<in> set (c_aud c) then return_io ()
      else if list_ex (\<lambda>a. is_allowed_callback (resolve e cache [] a []) callback) (c_aud c) then return_io ()
      else log_dispatch h r ''dispatch_aud_mismatch'' (c_email c) (sv_id target)
        (''level='' @ dec_of_nat level @ '' token_aud='' @ aud_detail c @ '' target='' @ sv_id target) False)"

definition log_service_mismatch ::
  "env \<Rightarrow> dispatcher \<Rightarrow> service_row list \<Rightarrow> request \<Rightarrow> string \<Rightarrow> string \<Rightarrow> string \<Rightarrow> unit io" where
  "log_service_mismatch e h cache r email given target =
     (let login_svc = sanitize_log_value given;
          sid = (if login_svc \<noteq> [] \<and> resolve e cache [] login_svc [] \<noteq> None then login_svc else [])
      in if dh_audit h
         then audit_log (client_event r ''redirect_service_mismatch'' email sid True
           (''login_service='' @ e_quote e login_svc @ '' target_service='' @ e_quote e target))
         else return_io ())"

section \<open>Level 0: an authorization code\<close>

definition dispatch_code_params ::
  "env \<Rightarrow> authz_request \<Rightarrow> user_row \<Rightarrow> string \<Rightarrow> instant \<Rightarrow> instant \<Rightarrow> code_params" where
  "dispatch_code_params e z user code expires created =
     \<lparr>cp_code = hash_opaque e code, cp_service = az_client z, cp_email = u_email user,
      cp_user = Some (u_id user), cp_redirect = az_redirect z, cp_scope = nullable (az_scope z),
      cp_nonce = nullable (az_nonce z), cp_challenge = az_challenge z, cp_method = az_method z,
      cp_created = format_utc created, cp_expires = format_utc expires\<rparr>"

definition issue_code :: "env \<Rightarrow> authz_request \<Rightarrow> user_row \<Rightarrow> reply io" where
  "issue_code e z user = do {
     g \<leftarrow> generate_authorization_code e;
     case g of
       None \<Rightarrow> return_io (HttpError 500 ''intern feil'')
     | Some code \<Rightarrow> do {
         n1 \<leftarrow> time_now e;
         n2 \<leftarrow> time_now e;
         res \<leftarrow> db_write e ReqCtx (insert_code (dispatch_code_params e z user code (n1 + 60 * second) n2));
         return_io (case res of
           Inl _ \<Rightarrow> HttpError 500 ''intern feil''
         | Inr _ \<Rightarrow> (case build_redirect_with_code e (az_redirect z) code (az_state z) of
             None \<Rightarrow> HttpError 500 ''intern feil''
           | Some target \<Rightarrow> Redirect 303 target))
       }
   }"

text \<open>The user the token speaks for: by \<open>public_id\<close> or by address, as the service wants its subjects.\<close>

definition subject_matches :: "env \<Rightarrow> service_row \<Rightarrow> claims \<Rightarrow> user_row \<Rightarrow> bool" where
  "subject_matches e svc c user \<longleftrightarrow>
     (if sv_sub_format svc = ''id'' then normalize_email e (c_email c) = u_email user else c_sub c = u_email user)"

definition code_for_user ::
  "env \<Rightarrow> dispatcher \<Rightarrow> request \<Rightarrow> claims \<Rightarrow> authz_request \<Rightarrow> service_row \<Rightarrow> user_row \<Rightarrow> reply io" where
  "code_for_user e h r c z svc user =
     (if \<not> subject_matches e svc c user then do {
        log_dispatch h r ''dispatch_subject_mismatch'' (u_email user) (sv_id svc) (''level=0 sub_format='' @ sv_sub_format svc) False;
        return_io to_login
      }
      else if \<not> issued_after_email_epoch (Some c) user then do {
        log_dispatch h r ''dispatch_subject_mismatch'' (u_email user) (sv_id svc) ''level=0 reason=email_reassigned'' False;
        return_io to_login
      }
      else issue_code e z user)"

definition code_subject ::
  "env \<Rightarrow> dispatcher \<Rightarrow> request \<Rightarrow> claims \<Rightarrow> authz_request \<Rightarrow> service_row \<Rightarrow> reply io" where
  "code_subject e h r c z svc = do {
     ru \<leftarrow> db_read e ReqCtx
       (if sv_sub_format svc = ''id'' then get_active_user_by_public_id (c_sub c)
        else get_active_user_by_email (normalize_email e (c_email c)));
     case ru of
       Inl x \<Rightarrow>
         if x \<noteq> NoRows then return_io (HttpError 500 ''intern feil'')
         else do {
           log_dispatch h r ''dispatch_subject_mismatch'' (c_email c) (sv_id svc) ''level=0 reason=no_active_user'' False;
           return_io to_login
         }
     | Inr user \<Rightarrow> code_for_user e h r c z svc user
   }"

definition level0_fresh ::
  "env \<Rightarrow> dispatcher \<Rightarrow> request \<Rightarrow> claims \<Rightarrow> authz_request \<Rightarrow> service_row \<Rightarrow> reply io" where
  "level0_fresh e h r c z svc = do {
     now \<leftarrow> time_now e;
     (if \<not> snd (token_age c now) then do {
        log_dispatch h r ''dispatch_token_stale'' (c_email c) (sv_id svc) (age_detail c (fst (token_age c now))) False;
        return_io to_login
      }
      else code_subject e h r c z svc)
   }"

definition level0 ::
  "env \<Rightarrow> dispatcher \<Rightarrow> issuer \<Rightarrow> service_row list \<Rightarrow> request \<Rightarrow> string \<Rightarrow> claims \<Rightarrow> authz_request \<Rightarrow> reply io" where
  "level0 e h i cache r tok c z = do {
     clear_authz_cookie e;
     case resolve e cache [] (az_client z) [] of
       None \<Rightarrow> return_io to_login
     | Some svc \<Rightarrow>
         if query_get r ''service'' \<noteq> az_client z \<or> \<not> is_allowed_callback (Some svc) (az_redirect z)
         then return_io to_login
         else do {
           rv \<leftarrow> verify e i tok \<lparr>ex_use = ''access'', ex_aud = az_client z\<rparr>;
           case rv of
             Inl _ \<Rightarrow> do {
               log_dispatch h r ''dispatch_aud_mismatch'' (c_email c) (sv_id svc)
                 (''level=0 token_aud='' @ aud_detail c @ '' target='' @ sv_id svc) False;
               return_io to_login
             }
           | Inr _ \<Rightarrow> level0_fresh e h r c z svc
         }
   }"

section \<open>Levels 1 to 5: forwarding\<close>

definition forward_reject_reason :: "env \<Rightarrow> dispatcher \<Rightarrow> request \<Rightarrow> claims \<Rightarrow> string io" where
  "forward_reject_reason e h r c = do {
     ru \<leftarrow> db_read e ReqCtx (get_active_user_by_email (normalize_email e (c_email c)));
     case ru of
       Inl x \<Rightarrow>
         if x = NoRows then return_io ''no_active_user''
         else if x = Canceled then return_io []
         else do {
           log_dispatch h r ''dispatch_subject_check_skipped'' (c_email c) [] ''level=1-5 reason=db_error'' True;
           return_io []
         }
     | Inr user \<Rightarrow> return_io
         (if c_sub c \<noteq> u_email user \<and> c_sub c \<noteq> u_public_id user then ''sub_mismatch''
          else if c_iat c = None then ''iat_missing''
          else if \<not> issued_after_email_epoch (Some c) user then ''email_reassigned''
          else [])
   }"

text \<open>Level 1: the \<open>redirect_uri\<close> cookie, when it is a registered callback; the services that have it.\<close>

definition cookie_services :: "service_row list \<Rightarrow> request \<Rightarrow> service_row list" where
  "cookie_services cache r =
     (if read_redirect_cookie r = [] then []
      else filter (\<lambda>s. is_allowed_callback (Some s) (read_redirect_cookie r)) cache)"

definition has_callback :: "service_row \<Rightarrow> bool" where
  "has_callback s \<longleftrightarrow> primary_callback s \<noteq> []"

definition level2 :: "env \<Rightarrow> service_row list \<Rightarrow> request \<Rightarrow> service_row option" where
  "level2 e cache r =
     (let sid = query_get r ''service'' in
      if sid = [] then None
      else case resolve e cache [] sid [] of
        None \<Rightarrow> None
      | Some s \<Rightarrow> if has_callback s then Some s else None)"

definition level3 :: "env \<Rightarrow> service_row list \<Rightarrow> request \<Rightarrow> service_row option" where
  "level3 e cache r =
     (if rq_host r = [] then None
      else List.find (\<lambda>s. (case sv_auth_host s of None \<Rightarrow> False | Some a \<Rightarrow> lower e a = lower e (rq_host r)) \<and> has_callback s) cache)"

definition level4 :: "service_row list \<Rightarrow> claims \<Rightarrow> service_row option" where
  "level4 cache c =
     List.find (\<lambda>s. (case sv_default_org s of None \<Rightarrow> False | Some org \<Rightarrow> org \<in> set (c_org c)) \<and> has_callback s) cache"

definition level5 :: "env \<Rightarrow> dispatcher \<Rightarrow> service_row list \<Rightarrow> service_row option" where
  "level5 e h cache =
     (case resolve_or_default e cache [] (dh_default h) [] of
        None \<Rightarrow> None
      | Some s \<Rightarrow> if has_callback s then Some s else None)"

text \<open>The level, the service and the address: the most precise source that has one.\<close>

definition forward_target ::
  "env \<Rightarrow> dispatcher \<Rightarrow> service_row list \<Rightarrow> request \<Rightarrow> claims \<Rightarrow> (nat \<times> service_row \<times> string) option" where
  "forward_target e h cache r c =
     (case cookie_services cache r of
        s # _ \<Rightarrow> Some (1, s, read_redirect_cookie r)
      | [] \<Rightarrow> (case level2 e cache r of
          Some s \<Rightarrow> Some (2, s, primary_callback s)
        | None \<Rightarrow> (case level3 e cache r of
            Some s \<Rightarrow> Some (3, s, primary_callback s)
          | None \<Rightarrow> (case level4 cache c of
              Some s \<Rightarrow> Some (4, s, primary_callback s)
            | None \<Rightarrow> map_option (\<lambda>s. (5, s, primary_callback s)) (level5 e h cache)))))"

definition clear_redirect :: "env \<Rightarrow> unit io" where
  "clear_redirect e = set_cookie (auth_cookie e ''redirect_uri'' [] SameSiteLax (-1))"

text \<open>Level 1 logs a callback of another service than the login's, without saying the same thing twice.\<close>

definition log_level1 ::
  "env \<Rightarrow> dispatcher \<Rightarrow> service_row list \<Rightarrow> request \<Rightarrow> claims \<Rightarrow> service_row \<Rightarrow> string \<Rightarrow> unit io" where
  "log_level1 e h cache r c target uri =
     (let login_svc = query_get r ''service'';
          shared = list_ex (\<lambda>s. sv_id s = login_svc) (cookie_services cache r)
      in do {
        (if shared then return_io () else log_service_mismatch e h cache r (c_email c) login_svc (sv_id target));
        (if \<not> shared \<and> login_svc \<in> set (c_aud c) then return_io ()
         else audit_aud_mismatch e h cache r c 1 target uri)
      })"

definition forward ::
  "env \<Rightarrow> dispatcher \<Rightarrow> service_row list \<Rightarrow> request \<Rightarrow> claims \<Rightarrow> string \<Rightarrow> string \<Rightarrow> reply io" where
  "forward e h cache r c tok rt =
     (case forward_target e h cache r c of
        None \<Rightarrow> return_io to_login
      | Some (level, svc, uri) \<Rightarrow> do {
          (if level = 1 then log_level1 e h cache r c svc uri
           else do {
             (if cookie_get r ''redirect_uri'' = None then clear_redirect e else return_io ());
             audit_aud_mismatch e h cache r c level svc uri
           });
          return_io (Redirect 303 (append_token uri tok rt))
        })"

definition forward_accepted ::
  "env \<Rightarrow> dispatcher \<Rightarrow> service_row list \<Rightarrow> request \<Rightarrow> claims \<Rightarrow> string \<Rightarrow> string \<Rightarrow> reply io" where
  "forward_accepted e h cache r c tok rt = do {
     now \<leftarrow> time_now e;
     (if \<not> snd (token_age c now)
      then log_dispatch h r ''dispatch_token_stale'' (c_email c) []
        (''level=1-5 '' @ age_detail c (fst (token_age c now)) @ '' mode=audit'') True
      else return_io ());
     forward e h cache r c tok rt
   }"

definition forward_checked ::
  "env \<Rightarrow> dispatcher \<Rightarrow> service_row list \<Rightarrow> request \<Rightarrow> claims \<Rightarrow> string \<Rightarrow> string \<Rightarrow> reply io" where
  "forward_checked e h cache r c tok rt = do {
     reason \<leftarrow> forward_reject_reason e h r c;
     (if reason \<noteq> [] then do {
        log_dispatch h r ''dispatch_subject_mismatch'' (c_email c) [] (''level=1-5 reason='' @ reason) False;
        return_io to_login
      }
      else forward_accepted e h cache r c tok rt)
   }"

definition dispatch_verified ::
  "env \<Rightarrow> dispatcher \<Rightarrow> issuer \<Rightarrow> service_row list \<Rightarrow> request \<Rightarrow> claims \<Rightarrow> string \<Rightarrow> string \<Rightarrow> reply io" where
  "dispatch_verified e h i cache r c tok rt = do {
     (if cookie_get r ''redirect_uri'' \<noteq> None then clear_redirect e else return_io ());
     (case read_authz_cookie r of
        Some z \<Rightarrow> level0 e h i cache r tok c z
      | None \<Rightarrow> forward_checked e h cache r c tok rt)
   }"

definition serve_dispatch :: "env \<Rightarrow> dispatcher \<Rightarrow> issuer \<Rightarrow> service_row list \<Rightarrow> handler" where
  "serve_dispatch e h i cache r =
     (let tok = query_get r ''token''; rt = query_get r ''rt'' in
      if tok = [] then return_io to_login
      else do {
        rc \<leftarrow> verify e i tok expect_access;
        case rc of
          Inl _ \<Rightarrow> return_io to_login
        | Inr c \<Rightarrow> dispatch_verified e h i cache r c tok rt
      })"

section \<open>Logout\<close>

definition logout_target :: "service_row list \<Rightarrow> request \<Rightarrow> reply" where
  "logout_target cache r =
     (let uri = query_get r ''redirect_uri'' in
      if uri \<noteq> [] \<and> list_ex (\<lambda>s. is_allowed_callback (Some s) uri) cache then Redirect 303 uri else to_login)"

definition revoke_refresh_family :: "env \<Rightarrow> dispatcher \<Rightarrow> request \<Rightarrow> unit io" where
  "revoke_refresh_family e h r =
     (if \<not> dh_refresh h then return_io ()
      else case cookie_get r ''refresh_token'' of
        None \<Rightarrow> return_io ()
      | Some v \<Rightarrow>
          if v = [] then return_io ()
          else do {
            res \<leftarrow> revoke_family_of_token e v ''user_logout'';
            (case res of (email, sid, ok) \<Rightarrow>
               if \<not> ok \<or> \<not> dh_audit h then return_io ()
               else audit_log (client_event r ''user_logout'' email sid True []))
          })"

text \<open>A \<open>MaxAge\<close> of 0 writes no \<open>Max-Age\<close> attribute: the cookie is emptied, not deleted.\<close>

definition serve_logout :: "env \<Rightarrow> dispatcher \<Rightarrow> service_row list \<Rightarrow> handler" where
  "serve_logout e h cache r =
     (if \<not> logout_allowed r then return_io (logout_target cache r)
      else do {
        (let name = (case resolve_or_default e cache [] (dh_default h) [] of None \<Rightarrow> ''auth_token'' | Some s \<Rightarrow> sv_cookie_name s)
         in set_cookie (auth_cookie e name [] SameSiteLax 0));
        revoke_refresh_family e h r;
        set_cookie (auth_cookie e ''refresh_token'' [] SameSiteLax 0);
        return_io (logout_target cache r)
      })"

section \<open>Where the browser can be sent\<close>

lemma wp_any: "(\<And>a w'. Q a w') \<Longrightarrow> wp m Q w"
  by (simp add: wp_def split: prod.split)

lemma has_callback_allowed: "has_callback s \<Longrightarrow> is_allowed_callback (Some s) (primary_callback s)"
  by (cases "callback_urls (sv_callback s)")
    (auto simp: has_callback_def primary_callback_def is_allowed_callback_def)

definition registered :: "service_row list \<Rightarrow> string \<Rightarrow> bool" where
  "registered cache uri \<longleftrightarrow> (\<exists>s \<in> set cache. is_allowed_callback (Some s) uri)"

lemma level_targets:
  "level2 e cache r = Some s \<Longrightarrow> s \<in> set cache \<and> has_callback s"
  "level3 e cache r = Some s \<Longrightarrow> s \<in> set cache \<and> has_callback s"
  "level4 cache c = Some s \<Longrightarrow> s \<in> set cache \<and> has_callback s"
  "level5 e h cache = Some s \<Longrightarrow> s \<in> set cache \<and> has_callback s"
proof -
  have dflt: "resolve_or_default e cache a b u = Some s \<Longrightarrow> s \<in> set cache" for a b u
    by (auto simp: resolve_or_default_def default_service_def split: option.splits list.splits
        dest: resolve_cases(1) find_SomeD)
  show "level2 e cache r = Some s \<Longrightarrow> s \<in> set cache \<and> has_callback s"
    by (auto simp: level2_def Let_def split: option.splits if_splits dest: resolve_cases(1))
  show "level3 e cache r = Some s \<Longrightarrow> s \<in> set cache \<and> has_callback s"
    unfolding level3_def by (cases "rq_host r = []") (simp, simp only: if_False, drule find_SomeD, blast)
  show "level4 cache c = Some s \<Longrightarrow> s \<in> set cache \<and> has_callback s"
    unfolding level4_def by (drule find_SomeD) blast
  show "level5 e h cache = Some s \<Longrightarrow> s \<in> set cache \<and> has_callback s"
    using dflt by (auto simp: level5_def split: option.splits if_splits)
qed

lemma forward_target_registered:
  assumes "forward_target e h cache r c = Some (level, s, uri)"
  shows "s \<in> set cache \<and> is_allowed_callback (Some s) uri"
proof (cases "cookie_services cache r")
  case (Cons a as)
  then have "a \<in> set (cookie_services cache r)" by simp
  then have "a \<in> set cache \<and> is_allowed_callback (Some a) (read_redirect_cookie r)"
    unfolding cookie_services_def by (simp split: if_splits)
  with Cons assms show ?thesis by (simp add: forward_target_def)
next
  case Nil
  with assms have "(level2 e cache r = Some s \<or> level3 e cache r = Some s \<or> level4 cache c = Some s \<or> level5 e h cache = Some s) \<and>
      uri = primary_callback s"
    by (auto simp: forward_target_def split: option.splits)
  then show ?thesis using level_targets has_callback_allowed by metis
qed

text \<open>A reply of \<open>/dispatch\<close>: back to the login, an error, a code, or the tokens, the last two to a registered
  address only.\<close>

definition dispatch_reply :: "env \<Rightarrow> service_row list \<Rightarrow> request \<Rightarrow> reply \<Rightarrow> bool" where
  "dispatch_reply e cache r reply \<longleftrightarrow>
     reply = to_login \<or> reply = HttpError 500 ''intern feil'' \<or>
     (\<exists>uri. registered cache uri \<and>
        (reply = Redirect 303 (append_token uri (query_get r ''token'') (query_get r ''rt'')) \<or>
         (\<exists>code state target. build_redirect_with_code e uri code state = Some target \<and> reply = Redirect 303 target)))"

lemma dispatch_reply_simps [simp]:
  "dispatch_reply e cache r to_login" "dispatch_reply e cache r (HttpError 500 ''intern feil'')"
  by (simp_all add: dispatch_reply_def)

lemma issue_code_reply:
  assumes "registered cache (az_redirect z)"
  shows "wp (issue_code e z user) (\<lambda>reply w'. dispatch_reply e cache r reply) w"
  using assms
  by (auto simp: issue_code_def generate_authorization_code_def wp_simps dispatch_reply_def split: option.split sum.split)

lemma log_wp: "(\<And>w'. Q () w') \<Longrightarrow> wp (log_dispatch h r t email sid d ok) Q w"
  by (rule wp_any) simp

lemma code_subject_reply:
  assumes "registered cache (az_redirect z)"
  shows "wp (code_subject e h r c z svc) (\<lambda>reply w'. dispatch_reply e cache r reply) w"
  using issue_code_reply [OF assms]
  by (auto simp: code_subject_def code_for_user_def wp_simps intro!: log_wp split: sum.split option.split)

lemma level0_fresh_reply:
  assumes "registered cache (az_redirect z)"
  shows "wp (level0_fresh e h r c z svc) (\<lambda>reply w'. dispatch_reply e cache r reply) w"
  using code_subject_reply [OF assms] by (simp add: level0_fresh_def wp_simps log_wp)

lemma level0_reply: "wp (level0 e h i cache r tok c z) (\<lambda>reply w'. dispatch_reply e cache r reply) w"
proof -
  have "registered cache (az_redirect z)"
    if "resolve e cache [] (az_client z) [] = Some svc" "is_allowed_callback (Some svc) (az_redirect z)" for svc
    using that by (auto simp: registered_def dest: resolve_cases(1))
  then show ?thesis
    by (auto simp: level0_def clear_authz_cookie_def wp_simps level0_fresh_reply intro!: log_wp wp_any split: option.split sum.split)
qed

lemma forward_reply:
  "wp (forward e h cache r c (query_get r ''token'') (query_get r ''rt'')) (\<lambda>reply w'. dispatch_reply e cache r reply) w"
proof (cases "forward_target e h cache r c")
  case None
  then show ?thesis by (simp add: forward_def wp_return)
next
  case (Some t)
  obtain level svc uri where t: "t = (level, svc, uri)" by (cases t) auto
  have "dispatch_reply e cache r (Redirect 303 (append_token uri (query_get r ''token'') (query_get r ''rt'')))"
    using forward_target_registered [OF Some [unfolded t]] by (auto simp: dispatch_reply_def registered_def)
  then show ?thesis by (simp add: forward_def Some t wp_bind wp_any wp_return)
qed

lemma dispatch_verified_reply:
  "wp (dispatch_verified e h i cache r c (query_get r ''token'') (query_get r ''rt'')) (\<lambda>reply w'. dispatch_reply e cache r reply) w"
proof -
  have "wp (forward_accepted e h cache r c (query_get r ''token'') (query_get r ''rt'')) (\<lambda>reply w'. dispatch_reply e cache r reply) w1" for w1
    by (simp add: forward_accepted_def wp_bind wp_effects forward_reply wp_any)
  then have "wp (forward_checked e h cache r c (query_get r ''token'') (query_get r ''rt'')) (\<lambda>reply w'. dispatch_reply e cache r reply) w1" for w1
    by (simp add: forward_checked_def wp_simps wp_any log_wp)
  then show ?thesis
    by (simp add: dispatch_verified_def wp_bind wp_any level0_reply split: option.split)
qed

lemma serve_dispatch_reply: "wp (serve_dispatch e h i cache r) (\<lambda>reply w'. dispatch_reply e cache r reply) w"
  by (simp add: serve_dispatch_def Let_def wp_simps wp_any dispatch_verified_reply split: sum.split)

section \<open>Which codes come into being\<close>

text \<open>The token was signed by a key of the ring and was valid when it was checked; it says \<open>c\<close>.\<close>

definition signed_claims :: "env \<Rightarrow> issuer \<Rightarrow> string \<Rightarrow> claims \<Rightarrow> bool" where
  "signed_claims e i tok c \<longleftrightarrow>
     (\<exists>h k n. e_jwt_decode e tok = Some (h, c) \<and> jh_alg h = ''RS256'' \<and> accepting_key (is_ring i) h k \<and>
        e_jwt_sig_ok e tok k \<and> e_jwt_valid e (e_clock e n) (is_name i) c)"

lemma signed_claims_unique: "signed_claims e i tok c \<Longrightarrow> signed_claims e i tok c' \<Longrightarrow> c = c'"
  by (auto simp: signed_claims_def)

lemma verify_wp:
  "wp (verify e i tok ex) (\<lambda>rv w'. w_db w' = w_db w \<and> (\<forall>c. rv = Inr c \<longrightarrow>
      signed_claims e i tok c \<and> c_use c = ex_use ex \<and> (ex_aud ex = [] \<or> ex_aud ex \<in> set (c_aud c)))) w"
proof (rule wpI)
  fix rv w' assume run: "run_state (verify e i tok ex) w = (rv, w')"
  have "keeps (\<lambda>w. id (w_db w)) (verify e i tok ex)"
    unfolding verify_def parse_token_def jwt_try_def by (intro keeps_intros)+
  from keepsD [OF this run] have "w_db w' = w_db w" by simp
  moreover have "signed_claims e i tok c \<and> c_use c = ex_use ex \<and> (ex_aud ex = [] \<or> ex_aud ex \<in> set (c_aud c))"
    if "rv = Inr c" for c
    using verify_Inr [OF run [unfolded that]] unfolding signed_claims_def by blast
  ultimately show "w_db w' = w_db w \<and> (\<forall>c. rv = Inr c \<longrightarrow>
      signed_claims e i tok c \<and> c_use c = ex_use ex \<and> (ex_aud ex = [] \<or> ex_aud ex \<in> set (c_aud c)))" by blast
qed

text \<open>The user may have the code: active, meant by the token, and not a later owner of the address.\<close>

definition code_user_ok :: "env \<Rightarrow> service_row \<Rightarrow> claims \<Rightarrow> db \<Rightarrow> user_row \<Rightarrow> bool" where
  "code_user_ok e svc c d user \<longleftrightarrow>
     user \<in> set (t_users d) \<and> u_deactivated user = None \<and> normalize_email e (c_email c) = u_email user \<and>
     c_sub c = (if sv_sub_format svc = ''id'' then u_public_id user else u_email user) \<and>
     issued_after_email_epoch (Some c) user"

definition code_row_for :: "env \<Rightarrow> authz_request \<Rightarrow> user_row \<Rightarrow> code_row \<Rightarrow> bool" where
  "code_row_for e z user row \<longleftrightarrow>
     ac_service row = az_client z \<and> ac_redirect row = az_redirect z \<and> ac_challenge row = az_challenge z \<and>
     ac_method row = az_method z \<and> ac_user row = Some (u_id user) \<and> ac_email row = u_email user \<and>
     ac_used row = 0 \<and> ac_family row = None \<and> (\<exists>n. ac_expires row = format_utc (e_clock e n + 60 * second))"

definition code_stored :: "env \<Rightarrow> authz_request \<Rightarrow> (user_row \<Rightarrow> bool) \<Rightarrow> db \<Rightarrow> db \<Rightarrow> bool" where
  "code_stored e z P d d' \<longleftrightarrow>
     d' = d \<or> (\<exists>user row. P user \<and> code_row_for e z user row \<and> d' = d\<lparr>t_codes := t_codes d @ [row]\<rparr>)"

lemma code_stored_refl [simp]: "code_stored e z P d d"
  by (simp add: code_stored_def)

lemma insert_code_stored:
  assumes "P user"
  shows "code_stored e z P d (snd (insert_code (dispatch_code_params e z user code (e_clock e n + 60 * second) m) d))"
  using assms
  by (force simp: code_stored_def insert_code_def code_row_for_def dispatch_code_params_def)

lemma issue_code_stored:
  assumes "P user"
  shows "wp (issue_code e z user) (\<lambda>reply w'. code_stored e z P (w_db w) (w_db w')) w"
  using insert_code_stored [of P, OF assms]
  by (simp add: issue_code_def generate_authorization_code_def wp_simps split: option.split)

lemma log_keeps_db: "w_db w = d \<Longrightarrow> (\<And>w'. w_db w' = d \<Longrightarrow> Q () w') \<Longrightarrow> wp (log_dispatch h r t email sid det ok) Q w"
  by (simp add: log_dispatch_def wp_simps)

lemma get_active_by_public_Inr: "get_active_user_by_public_id p d = Inr u \<Longrightarrow>
    u \<in> set (t_users d) \<and> u_public_id u = p \<and> u_deactivated u = None"
  by (auto simp: get_active_user_by_public_id_def user_active_def dest: select_one_Inr)

lemma code_subject_stored:
  "wp (code_subject e h r c z svc) (\<lambda>reply w'. code_stored e z (code_user_ok e svc c (w_db w)) (w_db w) (w_db w')) w"
proof -
  let ?Q = "\<lambda>reply w'. code_stored e z (code_user_ok e svc c (w_db w)) (w_db w) (w_db w')"
  have user: "wp (code_for_user e h r c z svc user) ?Q w1"
    if "w_db w1 = w_db w" "(if sv_sub_format svc = ''id'' then get_active_user_by_public_id (c_sub c)
        else get_active_user_by_email (normalize_email e (c_email c))) (w_db w) = Inr user" for user w1
  proof (cases "subject_matches e svc c user \<and> issued_after_email_epoch (Some c) user")
    case True
    then have "code_user_ok e svc c (w_db w) user"
      using that(2) by (auto simp: code_user_ok_def subject_matches_def split: if_splits
          dest: get_active_by_public_Inr get_active_by_email_Inr)
    from issue_code_stored [where ?P = "code_user_ok e svc c (w_db w)" and ?w = w1, OF this] True that(1)
    show ?thesis by (simp add: code_for_user_def)
  next
    case False
    then show ?thesis using that(1)
      by (auto simp: code_for_user_def wp_simps intro!: log_keeps_db)
  qed
  then show ?thesis
    by (auto simp: code_subject_def wp_simps intro!: log_keeps_db split: option.split sum.split)
qed

text \<open>What stands behind a code: a pending request of a client, the login at this client, a fresh token for it.\<close>

definition code_pending :: "env \<Rightarrow> service_row list \<Rightarrow> request \<Rightarrow> authz_request \<Rightarrow> service_row \<Rightarrow> claims \<Rightarrow> bool" where
  "code_pending e cache r z svc c \<longleftrightarrow>
     read_authz_cookie r = Some z \<and> resolve e cache [] (az_client z) [] = Some svc \<and>
     is_allowed_callback (Some svc) (az_redirect z) \<and> query_get r ''service'' = az_client z \<and>
     c_use c = ''access'' \<and> az_client z \<in> set (c_aud c) \<and> (\<exists>n. snd (token_age c (e_clock e n)))"

definition code_justified :: "env \<Rightarrow> issuer \<Rightarrow> service_row list \<Rightarrow> request \<Rightarrow> db \<Rightarrow> db \<Rightarrow> bool" where
  "code_justified e i cache r d d' \<longleftrightarrow>
     (\<exists>z svc c user row. signed_claims e i (query_get r ''token'') c \<and> code_pending e cache r z svc c \<and>
        code_user_ok e svc c d user \<and> code_row_for e z user row \<and> d' = d\<lparr>t_codes := t_codes d @ [row]\<rparr>)"

definition dispatch_db :: "env \<Rightarrow> issuer \<Rightarrow> service_row list \<Rightarrow> request \<Rightarrow> db \<Rightarrow> db \<Rightarrow> bool" where
  "dispatch_db e i cache r d d' \<longleftrightarrow> d' = d \<or> code_justified e i cache r d d'"

lemma read_authz_client: "read_authz_cookie r = Some z \<Longrightarrow> az_client z \<noteq> []"
  by (auto simp: read_authz_cookie_def Let_def split: Option.bind_splits if_splits)

lemma code_stored_dispatch:
  assumes "code_stored e z (code_user_ok e svc c d) d d'" and "code_pending e cache r z svc c"
    and "signed_claims e i (query_get r ''token'') c"
  shows "dispatch_db e i cache r d d'"
  using assms unfolding code_stored_def dispatch_db_def code_justified_def by blast

lemma level0_fresh_stored:
  assumes "\<And>n. snd (token_age c (e_clock e n)) \<Longrightarrow> code_pending e cache r z svc c"
    and "signed_claims e i (query_get r ''token'') c"
  shows "wp (level0_fresh e h r c z svc) (\<lambda>reply w'. dispatch_db e i cache r (w_db w) (w_db w')) w"
proof (cases "snd (token_age c (e_clock e (w_step w)))")
  case True
  let ?w = "w\<lparr>w_step := Suc (w_step w)\<rparr>"
  have "wp (code_subject e h r c z svc) (\<lambda>reply w'. dispatch_db e i cache r (w_db ?w) (w_db w')) ?w"
    by (rule wp_mono [OF code_subject_stored]) (rule code_stored_dispatch [OF _ assms(1) [OF True] assms(2)])
  with True show ?thesis by (simp add: level0_fresh_def wp_bind wp_effects)
next
  case False
  then show ?thesis by (simp add: level0_fresh_def wp_simps dispatch_db_def log_dispatch_def)
qed

lemma level0_stored:
  assumes z: "read_authz_cookie r = Some z" and c: "signed_claims e i (query_get r ''token'') c"
  shows "wp (level0 e h i cache r (query_get r ''token'') c z) (\<lambda>reply w'. dispatch_db e i cache r (w_db w) (w_db w')) w"
proof -
  let ?Q = "\<lambda>reply w'. dispatch_db e i cache r (w_db w) (w_db w')"
  have checked: "wp (case rv of
             Inl _ \<Rightarrow> do { log_dispatch h r t em sid det False; return_io to_login }
           | Inr _ \<Rightarrow> level0_fresh e h r c z svc) ?Q w1"
    if svc: "resolve e cache [] (az_client z) [] = Some svc" "is_allowed_callback (Some svc) (az_redirect z)"
        "query_get r ''service'' = az_client z"
      and rv: "w_db w1 = w_db w" "\<forall>c'. rv = Inr c' \<longrightarrow> signed_claims e i (query_get r ''token'') c' \<and> c_use c' = ''access'' \<and>
        (az_client z = [] \<or> az_client z \<in> set (c_aud c'))" for rv svc t em sid det w1
  proof (cases rv)
    case (Inl x)
    with rv(1) show ?thesis by (simp add: wp_simps log_dispatch_def dispatch_db_def)
  next
    case (Inr c')
    with rv(2) have c': "signed_claims e i (query_get r ''token'') c'" "c_use c' = ''access''"
        "az_client z \<in> set (c_aud c')" using read_authz_client [OF z] by auto
    have "c' = c" using signed_claims_unique [OF c'(1) c] .
    with c' svc z have "snd (token_age c (e_clock e n)) \<Longrightarrow> code_pending e cache r z svc c" for n
      by (auto simp: code_pending_def)
    from level0_fresh_stored [OF this c, where h = h and w = w1] rv(1) show ?thesis by (simp add: Inr)
  qed
  show ?thesis
  proof (cases "resolve e cache [] (az_client z) []")
    case None
    then show ?thesis by (simp add: level0_def clear_authz_cookie_def wp_simps dispatch_db_def)
  next
    case (Some svc)
    let ?w = "w\<lparr>w_cookies := w_cookies w @ [auth_cookie e authz_cookie_name [] SameSiteLax (- 1)]\<rparr>"
    show ?thesis
    proof (cases "query_get r ''service'' \<noteq> az_client z \<or> \<not> is_allowed_callback (Some svc) (az_redirect z)")
      case True
      then show ?thesis by (simp add: level0_def clear_authz_cookie_def Some wp_simps dispatch_db_def)
    next
      case False
      then have ok: "query_get r ''service'' = az_client z" "is_allowed_callback (Some svc) (az_redirect z)" by simp_all
      have "wp (verify e i (query_get r ''token'') \<lparr>ex_use = ''access'', ex_aud = az_client z\<rparr>) (\<lambda>rv. wp (case rv of
             Inl _ \<Rightarrow> do { log_dispatch h r ''dispatch_aud_mismatch'' (c_email c) (sv_id svc)
                 (''level=0 token_aud='' @ aud_detail c @ '' target='' @ sv_id svc) False; return_io to_login }
           | Inr _ \<Rightarrow> level0_fresh e h r c z svc) ?Q) ?w"
        by (rule wp_mono [OF verify_wp], rule checked [OF Some ok(2,1)]) auto
      then show ?thesis
        unfolding level0_def clear_authz_cookie_def wp_bind wp_effects Some option.case if_not_P [OF False] .
    qed
  qed
qed

lemma forward_keeps: "keeps (\<lambda>w. g (w_db w)) (forward_checked e h cache r c tok rt)"
  unfolding forward_checked_def forward_reject_reason_def forward_accepted_def forward_def log_level1_def clear_redirect_def
    log_service_mismatch_def audit_aud_mismatch_def log_dispatch_def Let_def
  by (intro keeps_intros)+

lemma serve_dispatch_stored: "wp (serve_dispatch e h i cache r) (\<lambda>reply w'. dispatch_db e i cache r (w_db w) (w_db w')) w"
proof -
  let ?Q = "\<lambda>reply w'. dispatch_db e i cache r (w_db w) (w_db w')"
  have fwd: "wp (forward_checked e h cache r c tok rt) ?Q w1" if "w_db w1 = w_db w" for c tok rt w1
    using keepsD [OF forward_keeps [of id]] that by (intro wpI) (simp add: dispatch_db_def)
  have verified: "wp (dispatch_verified e h i cache r c (query_get r ''token'') rt) ?Q w1"
    if "signed_claims e i (query_get r ''token'') c" "w_db w1 = w_db w" for c rt w1
  proof -
    let ?next = "\<lambda>w2. wp (case read_authz_cookie r of
        Some z \<Rightarrow> level0 e h i cache r (query_get r ''token'') c z
      | None \<Rightarrow> forward_checked e h cache r c (query_get r ''token'') rt) ?Q w2"
    have "?next w2" if "w_db w2 = w_db w" for w2
      using level0_stored [OF _ \<open>signed_claims e i (query_get r ''token'') c\<close>, where h = h and cache = cache and w = w2] fwd [OF that] that
      by (simp split: option.split)
    with that(2) show ?thesis
      by (simp add: dispatch_verified_def wp_bind wp_if wp_return clear_redirect_def wp_effects)
  qed
  have "wp (verify e i (query_get r ''token'') expect_access) (\<lambda>rc. wp (case rc of
          Inl _ \<Rightarrow> return_io to_login
        | Inr c \<Rightarrow> dispatch_verified e h i cache r c (query_get r ''token'') (query_get r ''rt'')) ?Q) w"
  proof (rule wp_mono [OF verify_wp], goal_cases)
    case (1 rv w1)
    then show ?case
      by (cases rv) (simp_all add: wp_return dispatch_db_def verified [unfolded dispatch_db_def])
  qed
  then show ?thesis by (simp add: serve_dispatch_def Let_def wp_if wp_bind wp_return dispatch_db_def)
qed

section \<open>Logging out\<close>

lemma logout_revokes:
  assumes "logout_allowed r" and "dh_refresh h" and "cookie_get r ''refresh_token'' = Some tok" and "tok \<noteq> []"
    and "get_refresh_by_hash (hash_opaque e tok) (w_db w) = Inr row" and "\<forall>k. \<not> e_fault e k"
  shows "wp (serve_logout e h cache r) (\<lambda>reply w'. reply = logout_target cache r \<and>
      w_db w' = snd (revoke_family ''user_logout'' (rt_family row) (w_db w))) w"
  using assms
  by (simp add: serve_logout_def revoke_refresh_family_def revoke_family_of_token_def wp_simps db_failure_Detached Let_def
      split: option.split sum.split)

lemma logout_target_registered: "logout_target cache r = Redirect n uri \<Longrightarrow> uri = ''/login'' \<or> registered cache uri"
  by (auto simp: logout_target_def to_login_def registered_def list_ex_iff Let_def split: if_splits)

section \<open>Both stay within the statements\<close>

lemma evolves_verify [evolve_intros]: "evolves R (verify e i tok ex)"
  unfolding verify_def parse_token_def jwt_try_def by (intro evolve_intros)+

lemma evolves_dispatch [evolve_intros]: "evolves db_step (serve_dispatch e h i cache r)"
  unfolding serve_dispatch_def dispatch_verified_def forward_checked_def forward_reject_reason_def forward_accepted_def
    forward_def log_level1_def clear_redirect_def log_service_mismatch_def audit_aud_mismatch_def log_dispatch_def
    level0_def level0_fresh_def code_subject_def code_for_user_def issue_code_def generate_authorization_code_def
    clear_authz_cookie_def Let_def
  by (intro evolve_intros)+

lemma evolves_logout [evolve_intros]: "evolves db_step (serve_logout e h cache r)"
  unfolding serve_logout_def revoke_refresh_family_def revoke_family_of_token_def Let_def by (intro evolve_intros)+

section \<open>Properties\<close>

text \<open>C4. \<open>/dispatch\<close> is no open redirect: whatever the query, the cookies and the claims are, the browser is sent
  to \<open>/login\<close>, to a registered callback of an active service with the tokens appended, or to a registered
  callback with an authorization code; a code goes nowhere else and neither do the tokens.\<close>

theorem dispatch_no_open_redirect:
  "case fst (run_state (serve_dispatch e h i cache r) w) of
     Redirect status uri \<Rightarrow> status = 303 \<and>
       (uri = ''/login'' \<or>
        (\<exists>cb. registered cache cb \<and>
           (uri = append_token cb (query_get r ''token'') (query_get r ''rt'') \<or>
            (\<exists>code state. build_redirect_with_code e cb code state = Some uri))))
   | HttpError status text \<Rightarrow> status = 500 \<and> text = ''intern feil''
   | _ \<Rightarrow> False"
proof -
  obtain reply w' where run: "run_state (serve_dispatch e h i cache r) w = (reply, w')" by fastforce
  have "dispatch_reply e cache r reply" using wpD [OF serve_dispatch_reply run] .
  then show ?thesis unfolding run fst_conv by (auto simp: dispatch_reply_def to_login_def)
qed

text \<open>C5. \<open>/dispatch\<close> writes nothing but authorization codes, and a code only for a pending request of a client that
  the browser has just logged in at, with a registered redirect address, on an access token of this
  issuer for this client that is at most two minutes old, for the active user the token means
  (not a later owner of the address); it is bound to the client, the address, the challenge and the
  user, unused, and expires after a minute.\<close>

theorem dispatch_code_binding:
  "case run_state (serve_dispatch e h i cache r) w of (reply, w') \<Rightarrow>
     w_db w' = w_db w \<or> code_justified e i cache r (w_db w) (w_db w')"
  using serve_dispatch_stored [of e h i cache r w] unfolding wp_def dispatch_db_def .

text \<open>C17. Logging out ends the session on the server: a top-level or same-site request with a known refresh token
  leaves no live token of its family, even when the client hangs up, and answers with \<open>/login\<close> or a
  registered address.\<close>

theorem logout_ends_session:
  assumes "logout_allowed r" and "dh_refresh h" and "cookie_get r ''refresh_token'' = Some tok" and "tok \<noteq> []"
    and "get_refresh_by_hash (hash_opaque e tok) (w_db w) = Inr row" and "\<forall>k. \<not> e_fault e k"
  shows "case run_state (serve_logout e h cache r) w of (reply, w') \<Rightarrow>
    reply = logout_target cache r \<and> (\<forall>t \<in> set (t_refresh (w_db w')). rt_family t = rt_family row \<longrightarrow> rt_revoked t \<noteq> 0)"
  using logout_revokes [OF assms, of cache] revoke_family_revokes by (auto simp: wp_def)

definition demo_logout :: request where
  "demo_logout = demo_request\<lparr>rq_cookies := [(''refresh_token'', ''tok'')]\<rparr>"

theorem logout_ends_session_witness:
  "\<exists>w'. run_state (serve_logout demo_env \<lparr>dh_default = [], dh_audit = True, dh_refresh = True\<rparr> [] demo_logout) demo_refresh_world =
      (to_login, w') \<and> list_ex (\<lambda>t. rt_revoked t = 0) (t_refresh (w_db w')) = False"
proof -
  let ?h = "\<lparr>dh_default = [], dh_audit = True, dh_refresh = True\<rparr>"
  obtain reply w' where run: "run_state (serve_logout demo_env ?h [] demo_logout) demo_refresh_world = (reply, w')" by fastforce
  have live: "rt_hash demo_refresh_row = hash_opaque demo_env ''tok''" by (simp add: demo_refresh_row_def)
  have found: "get_refresh_by_hash (hash_opaque demo_env ''tok'') (w_db demo_refresh_world) = Inr demo_refresh_row"
    using get_hash_found [OF demo_refresh_ok demo_refresh_in] live by simp
  have allowed: "logout_allowed demo_logout" "cookie_get demo_logout ''refresh_token'' = Some ''tok''"
    "logout_target [] demo_logout = to_login"
    by (simp_all add: logout_allowed_def demo_logout_def demo_request_def header_get_def header_values_def cookie_get_def
        logout_target_def Let_def)
  have nf: "\<forall>k. \<not> e_fault demo_env k" by (simp add: demo_env_def)
  have ended: "reply = to_login \<and> (\<forall>t \<in> set (t_refresh (w_db w')). rt_family t = rt_family demo_refresh_row \<longrightarrow> rt_revoked t \<noteq> 0)"
    using logout_ends_session [OF allowed(1) _ allowed(2) _ found nf, of ?h "[]"] by (simp add: run allowed)
  have rows: "t_refresh (w_db w') = t_refresh (snd (revoke_family ''user_logout'' (rt_family demo_refresh_row) (w_db demo_refresh_world)))"
    using logout_revokes [OF allowed(1) _ allowed(2) _ found nf, of ?h "[]"] by (simp add: run wp_def)
  have "\<forall>t \<in> set (t_refresh (w_db w')). rt_family t = rt_family demo_refresh_row"
    unfolding rows by (auto simp: revoke_family_def demo_refresh_world_def upd_where_def split: if_splits)
  with ended run show ?thesis by (auto simp: list_ex_iff)
qed

end
