(* ===== verification/AdminAuth.thy ===== *)
theory AdminAuth
  imports LinkInvite Dispatch
begin

text \<open>
  The door of the admin panel: \<open>internal/admin/auth.go\<close> and \<open>middleware.go\<close>.  A login link of the admin purpose, or
  the end of a Google login with an admin state, sets the cookie \<open>admin_token\<close>; the middleware in front of
  every other admin page checks that token and looks the user up again.  Pages are replies with their template's fields.
\<close>

section \<open>Roles, cookie, events\<close>

definition has_role :: "string \<Rightarrow> string \<Rightarrow> bool" where
  "has_role roles target \<longleftrightarrow> list_ex (\<lambda>r. trim_space r = target) (split_on (CHR '','') roles)"

text \<open>\<open>int(ttl.Seconds())\<close> cuts the fraction off.\<close>

definition whole_seconds :: "duration \<Rightarrow> int" where
  "whole_seconds d = sgn d * (\<bar>d\<bar> div second)"

definition set_admin_cookie :: "env \<Rightarrow> string \<Rightarrow> duration \<Rightarrow> unit io" where
  "set_admin_cookie e tok ttl =
     set_cookie ((auth_cookie e ''admin_token'' tok SameSiteLax (whole_seconds ttl))\<lparr>ck_path := ''/admin''\<rparr>)"

definition admin_event :: "request \<Rightarrow> string \<Rightarrow> string \<Rightarrow> bool \<Rightarrow> string \<Rightarrow> event" where
  "admin_event r typ email ok details = method_event r typ [] email [] ok details"

definition start_admin_session ::
  "env \<Rightarrow> issuer \<Rightarrow> duration \<Rightarrow> request \<Rightarrow> user_row \<Rightarrow> string \<Rightarrow> bool io" where
  "start_admin_session e i ttl r user sid = do {
     rt \<leftarrow> issue_admin e i user ttl;
     case rt of
       Inl _ \<Rightarrow> return_io False
     | Inr tok \<Rightarrow> do {
         set_admin_cookie e tok ttl;
         audit_log (method_event r ''admin_google_login'' ''google'' (u_email user) sid True []);
         return_io True
       }
   }"

section \<open>Asking for a link\<close>

definition html_page :: "nat \<Rightarrow> string \<Rightarrow> (string \<times> string) list \<Rightarrow> reply io" where
  "html_page status name fs = do {
     set_header ''Content-Type'' ''text/html; charset=utf-8'';
     return_io (Page status name fs)
   }"

definition login_error_message :: "string \<Rightarrow> string" where
  "login_error_message code =
     (if code = ''ugyldig_token'' then ''Lenken er ugyldig eller utl'' @ [CHR 0xC3, CHR 0xB8] @ ''pt. Pr'' @ [CHR 0xC3, CHR 0xB8] @
          ''v '' @ [CHR 0xC3, CHR 0xA5] @ '' logge inn p'' @ [CHR 0xC3, CHR 0xA5] @ '' nytt.''
      else if code = ''ingen_tilgang'' then ''Kontoen din har ikke tilgang til admin-panelet.''
      else ''Innlogging feilet. Pr'' @ [CHR 0xC3, CHR 0xB8] @ ''v igjen.'')"

definition admin_login_page :: handler where
  "admin_login_page r =
     (let code = query_get r ''err'' in
      html_page 200 ''admin/login.html''
        (if code \<noteq> [] then [(''message'', login_error_message code), (''is_error'', ''1'')] else []))"

definition admin_magic_params :: "env \<Rightarrow> string \<Rightarrow> string \<Rightarrow> instant \<Rightarrow> magic_params" where
  "admin_magic_params e email raw now =
     \<lparr>mp_token = hash_opaque e raw, mp_email = email, mp_service = None, mp_redirect = None, mp_purpose = ''admin'',
      mp_created = format_utc now, mp_expires = format_utc (now + 15 * minute),
      mp_window_start = format_utc (now - 15 * minute)\<rparr>"

definition admin_mail :: "string \<Rightarrow> string \<Rightarrow> string \<Rightarrow> mail" where
  "admin_mail base_url email raw =
     SendMagicLink email ''kauth Admin'' (base_url @ ''/admin/verify?token='' @ raw) ''nb'' []"

definition link_requested :: "request \<Rightarrow> string \<Rightarrow> bool \<Rightarrow> string \<Rightarrow> unit io" where
  "link_requested r email ok details = audit_log (admin_event r ''admin_magic_link_requested'' email ok details)"

definition send_admin_link :: "env \<Rightarrow> string \<Rightarrow> request \<Rightarrow> string \<Rightarrow> unit io" where
  "send_admin_link e base_url r email = do {
     b \<leftarrow> rand_read e 32;
     case b of
       None \<Rightarrow> return_io ()
     | Some bytes \<Rightarrow> do {
         now \<leftarrow> time_now e;
         rn \<leftarrow> db_write e ReqCtx (insert_magic_limited (admin_magic_params e email (hex_encode bytes) now));
         case rn of
           Inl _ \<Rightarrow> return_io ()
         | Inr n \<Rightarrow>
             if n \<noteq> 1 then link_requested r email False ''kvote overskredet''
             else do {
               send_mail (admin_mail base_url email (hex_encode bytes));
               link_requested r email True ''lenke lagret''
             }
       }
   }"

definition try_issue_magic_link :: "env \<Rightarrow> string \<Rightarrow> request \<Rightarrow> unit io" where
  "try_issue_magic_link e base_url r =
     (let email = normalize_email e (post_form_value r ''email'') in
      if \<not> valid_email email then return_io ()
      else do {
        ru \<leftarrow> db_read e ReqCtx (get_active_user_by_email email);
        case ru of
          Inl _ \<Rightarrow> link_requested r email False ''bruker ikke funnet''
        | Inr user \<Rightarrow>
            if \<not> has_role (u_roles user) ''konge'' then link_requested r email False ''mangler konge-rolle''
            else if \<not> check_magic_purpose ''admin'' None then return_io ()
            else send_admin_link e base_url r email
      })"

definition sent_message :: string where
  "sent_message = ''Sjekk innboksen '' @ [CHR 0xE2, CHR 0x80, CHR 0x94] @ '' lenken er gyldig i 15 minutter.''"

definition admin_login_post :: "env \<Rightarrow> string \<Rightarrow> handler" where
  "admin_login_post e base_url r = do {
     try_issue_magic_link e base_url r;
     html_page 200 ''admin/login.html'' [(''message'', sent_message), (''sent'', ''1'')]
   }"

section \<open>Using a link\<close>

definition render_verify :: "nat \<Rightarrow> string \<Rightarrow> bool \<Rightarrow> reply io" where
  "render_verify status raw blocked = do {
     set_headers [(''Content-Type'', ''text/html; charset=utf-8''), (''Cache-Control'', ''no-store'')];
     return_io (Page status ''admin/verify.html'' [(''token'', raw), (''blocked'', flag_text blocked)])
   }"

definition admin_verify_page :: "env \<Rightarrow> handler" where
  "admin_verify_page e r =
     (let raw = trim_space (query_get r ''token'') in
      if raw = [] then return_io (Redirect 303 ''/admin/login'')
      else do {
        now \<leftarrow> time_now e;
        rm \<leftarrow> db_read e ReqCtx (get_valid_magic (hash_opaque e raw) ''admin'' (format_utc now));
        case rm of
          Inl _ \<Rightarrow> return_io (Redirect 303 ''/admin/login?err=ugyldig_token'')
        | Inr mt \<Rightarrow>
            if mt_service mt \<noteq> None then return_io (Redirect 303 ''/admin/login?err=ugyldig_token'')
            else render_verify 200 raw False
      })"

text \<open>The token is spent; it opens the panel for its user if that is an administrator.\<close>

definition admin_consumed :: "env \<Rightarrow> issuer \<Rightarrow> duration \<Rightarrow> request \<Rightarrow> magic_row \<Rightarrow> reply io" where
  "admin_consumed e i ttl r mt =
     (if mt_service mt \<noteq> None then do {
        audit_log (admin_event r ''admin_login'' (mt_email mt) False ''token utstedt for en tjeneste'');
        return_io (Redirect 303 ''/admin/login?err=ugyldig_token'')
      }
      else do {
        ru \<leftarrow> db_read e ReqCtx (get_active_user_by_email (normalize_email e (mt_email mt)));
        case (case ru of Inl _ \<Rightarrow> None | Inr user \<Rightarrow> if has_role (u_roles user) ''konge'' then Some user else None) of
          None \<Rightarrow> do {
            audit_log (admin_event r ''admin_login'' (mt_email mt) False ''bruker ikke funnet eller mangler konge-rolle'');
            return_io (Redirect 303 ''/admin/login?err=ingen_tilgang'')
          }
        | Some user \<Rightarrow> do {
            rt \<leftarrow> issue_admin e i user ttl;
            case rt of
              Inl _ \<Rightarrow> return_io (HttpError 500 ''intern feil'')
            | Inr tok \<Rightarrow> do {
                set_admin_cookie e tok ttl;
                audit_log (admin_event r ''admin_login'' (u_email user) True []);
                return_io (Redirect 303 ''/admin/users'')
              }
          }
      })"

definition admin_verify_post :: "env \<Rightarrow> issuer \<Rightarrow> duration \<Rightarrow> handler" where
  "admin_verify_post e i ttl r =
     (if \<not> same_origin e r then render_verify 403 [] True
      else (let raw = trim_space (post_form_value r ''token'') in
        if raw = [] then return_io (Redirect 303 ''/admin/login'')
        else do {
          now \<leftarrow> time_now e;
          rm \<leftarrow> db_write e ReqCtx (consume_magic (hash_opaque e raw) ''admin'' (format_utc now));
          case rm of
            Inl _ \<Rightarrow> do {
              audit_log (admin_event r ''admin_login'' [] False (''ugyldig eller utl'' @ [CHR 0xC3, CHR 0xB8] @ ''pt token''));
              return_io (Redirect 303 ''/admin/login?err=ugyldig_token'')
            }
          | Inr mt \<Rightarrow> admin_consumed e i ttl r mt
        }))"

definition admin_logout :: "env \<Rightarrow> issuer \<Rightarrow> handler" where
  "admin_logout e i r = do {
     (case cookie_get r ''admin_token'' of
        None \<Rightarrow> return_io ()
      | Some v \<Rightarrow> do {
          rc \<leftarrow> verify e i v expect_admin;
          case rc of Inl _ \<Rightarrow> return_io () | Inr c \<Rightarrow> audit_log (admin_event r ''admin_logout'' (c_email c) True [])
        });
     set_cookie ((auth_cookie e ''admin_token'' [] SameSiteLax (-1))\<lparr>ck_path := ''/admin''\<rparr>);
     return_io (Redirect 303 ''/admin/login'')
   }"

definition admin_google_callback :: reply where
  "admin_google_callback = Redirect 303 ''/admin/login''"

section \<open>The middleware\<close>

text \<open>\<open>json.Encoder\<close> on a map writes its keys in order; the reasons need no escaping.\<close>

definition unauthorized_json :: "string \<Rightarrow> string" where
  "unauthorized_json reason =
     (let quot = (\<lambda>s. CHR 0x22 # s @ [CHR 0x22]) in
      ''{'' @ quot ''error'' @ '':'' @ quot ''unauthorized'' @ '','' @ quot ''reason'' @ '':'' @ quot reason @ ''}'' @ [CHR 0x0A])"

definition respond_unauthorized :: "request \<Rightarrow> string \<Rightarrow> reply io" where
  "respond_unauthorized r reason =
     (if index_text (header_get r ''Accept'') ''application/json'' \<noteq> None then do {
        set_header ''Content-Type'' ''application/json'';
        return_io (Plain 401 (unauthorized_json reason))
      }
      else return_io (Redirect 303 ''/admin/login''))"

text \<open>The administrator of a verified token, as the database knows them now.\<close>

definition admin_of_claims :: "env \<Rightarrow> claims \<Rightarrow> (string + user_row) io" where
  "admin_of_claims e c =
     (if \<not> has_role (join_with '','' (c_groups c)) ''konge'' then return_io (Inl ''mangler konge-rolle'')
      else do {
        ru \<leftarrow> db_read e ReqCtx (get_active_user_by_email (c_email c));
        return_io (case ru of
          Inl _ \<Rightarrow> Inl ''unauthorized''
        | Inr user \<Rightarrow>
            if \<not> has_role (u_roles user) ''konge'' then Inl ''unauthorized''
            else if \<not> issued_after_email_epoch (Some c) user then Inl ''unauthorized''
            else Inr user)
      })"

text \<open>The handler behind the middleware gets the actor, the address in the user's row.\<close>

definition admin_middleware :: "env \<Rightarrow> issuer \<Rightarrow> (string \<Rightarrow> handler) \<Rightarrow> handler" where
  "admin_middleware e i inner r =
     (case cookie_get r ''admin_token'' of
        None \<Rightarrow> respond_unauthorized r ''ingen admin_token-cookie''
      | Some v \<Rightarrow> do {
          rc \<leftarrow> verify e i v expect_admin;
          case rc of
            Inl _ \<Rightarrow> respond_unauthorized r ''unauthorized''
          | Inr c \<Rightarrow> do {
              ru \<leftarrow> admin_of_claims e c;
              case ru of
                Inl reason \<Rightarrow> respond_unauthorized r reason
              | Inr user \<Rightarrow> inner (u_email user) r
            }
        })"

section \<open>Writing from the panel\<close>

definition log_admin_write :: "env \<Rightarrow> string \<Rightarrow> event \<Rightarrow> bool io" where
  "log_admin_write e actor ev = do {
     r \<leftarrow> log_sync e Detached
       (if actor \<noteq> [] then ev\<lparr>ev_details := trim_space (ev_details ev @ '' actor='' @ actor)\<rparr> else ev);
     return_io (r = None)
   }"

text \<open>\<open>url.Values{"warn": warns}.Encode()\<close>.\<close>

definition redirect_with_warns :: "string \<Rightarrow> string list \<Rightarrow> string" where
  "redirect_with_warns base warns =
     (if warns = [] then base
      else base @ ''?'' @ join_with ''&'' (map (\<lambda>v. ''warn='' @ query_escape v) warns))"

definition warn_flags :: "request \<Rightarrow> string list \<Rightarrow> string list" where
  "warn_flags r known = filter (\<lambda>k. (''warn'', k) \<in> set (rq_query r)) known"

definition saved_redirect :: "bool \<Rightarrow> bool \<Rightarrow> string" where
  "saved_redirect cache_ok audit_ok =
     redirect_with_warns ''/admin/services''
       ((if cache_ok then [] else [''cache'']) @ (if audit_ok then [] else [''audit'']))"

section \<open>Handlers stay within the statements\<close>

lemma evolves_html_page [evolve_intros]: "evolves R (html_page status name fs)"
  unfolding html_page_def by (intro evolve_intros)+

lemma evolves_respond [evolve_intros]: "evolves R (respond_unauthorized r reason)"
  unfolding respond_unauthorized_def by (intro evolve_intros)+

lemma evolves_log_admin_write [evolve_intros]: "evolves db_step (log_admin_write e actor ev)"
  unfolding log_admin_write_def by (intro evolve_intros)+

lemma evolves_admin_auth [evolve_intros]:
  "evolves db_step (admin_login_page r)" "evolves db_step (admin_login_post e base_url r)"
  "evolves db_step (admin_verify_page e r)" "evolves db_step (admin_verify_post e i ttl r)"
  "evolves db_step (admin_logout e i r)" "evolves db_step (start_admin_session e i ttl r user sid)"
  unfolding admin_login_page_def admin_login_post_def try_issue_magic_link_def send_admin_link_def link_requested_def
    admin_verify_page_def admin_verify_post_def admin_consumed_def render_verify_def set_admin_cookie_def admin_logout_def
    start_admin_session_def Let_def
  by (intro evolve_intros)+

lemma evolves_admin_middleware [evolve_intros]:
  "(\<And>actor. evolves db_step (inner actor r)) \<Longrightarrow> evolves db_step (admin_middleware e i inner r)"
  unfolding admin_middleware_def admin_of_claims_def by (intro evolve_intros | assumption)+

section \<open>Who gets in\<close>

text \<open>
  An administrator: active, with the role, and known by this address since before the token was issued.
\<close>

definition admin_user :: "claims \<Rightarrow> user_row \<Rightarrow> db \<Rightarrow> bool" where
  "admin_user c user d \<longleftrightarrow>
     user \<in> set (t_users d) \<and> u_deactivated user = None \<and> u_email user = c_email c \<and>
     has_role (u_roles user) ''konge'' \<and> has_role (join_with '','' (c_groups c)) ''konge'' \<and>
     issued_after_email_epoch (Some c) user"

definition admin_token :: "env \<Rightarrow> issuer \<Rightarrow> string \<Rightarrow> claims \<Rightarrow> bool" where
  "admin_token e i tok c \<longleftrightarrow> signed_claims e i tok c \<and> c_use c = ''admin'' \<and> admin_audience \<in> set (c_aud c)"

definition turned_away :: "reply \<Rightarrow> bool" where
  "turned_away reply \<longleftrightarrow> reply = Redirect 303 ''/admin/login'' \<or> (\<exists>body. reply = Plain 401 body)"

lemma respond_wp:
  "wp (respond_unauthorized r reason) (\<lambda>reply w'. turned_away reply \<and> w_db w' = w_db w \<and> w_cookies w' = w_cookies w \<and> w_mails w' = w_mails w) w"
  by (auto simp: respond_unauthorized_def wp_simps turned_away_def)

lemma admin_of_claims_wp:
  "wp (admin_of_claims e c) (\<lambda>ru w'. w_db w' = w_db w \<and> response w' = response w \<and>
     (\<forall>user. ru = Inr user \<longrightarrow> admin_user c user (w_db w))) w"
  by (auto simp: admin_of_claims_def admin_user_def wp_simps dest!: get_active_by_email_Inr split: option.split sum.split)

lemma admin_aud_ne: "admin_audience \<noteq> []"
  by (simp add: admin_audience_def)

lemma admin_verify_wp:
  "wp (verify e i tok expect_admin) (\<lambda>rc w'. w_db w' = w_db w \<and> response w' = response w \<and>
     (\<forall>c. rc = Inr c \<longrightarrow> admin_token e i tok c)) w"
proof -
  have "keeps response (verify e i tok expect_admin)"
    unfolding verify_def parse_token_def jwt_try_def by (intro keeps_intros)+
  from wp_keeps [OF this verify_wp] show ?thesis
    by (rule wp_mono) (auto simp: admin_token_def expect_admin_def admin_aud_ne)
qed

text \<open>The inner handler ran, for an administrator, and what it did is all that was done.\<close>

definition served_admin ::
  "env \<Rightarrow> issuer \<Rightarrow> (string \<Rightarrow> handler) \<Rightarrow> request \<Rightarrow> world \<Rightarrow> reply \<Rightarrow> world \<Rightarrow> bool" where
  "served_admin e i inner r w reply w' \<longleftrightarrow>
     (\<exists>tok c user w1. cookie_get r ''admin_token'' = Some tok \<and> admin_token e i tok c \<and> admin_user c user (w_db w) \<and>
        w_db w1 = w_db w \<and> response w1 = response w \<and> run_state (inner (u_email user) r) w1 = (reply, w'))"

lemma admin_middleware_wp:
  "wp (admin_middleware e i inner r) (\<lambda>reply w'.
     turned_away reply \<and> w_db w' = w_db w \<and> w_cookies w' = w_cookies w \<and> w_mails w' = w_mails w \<or> served_admin e i inner r w reply w') w"
proof -
  let ?Q = "\<lambda>reply w'. turned_away reply \<and> w_db w' = w_db w \<and> w_cookies w' = w_cookies w \<and> w_mails w' = w_mails w \<or> served_admin e i inner r w reply w'"
  have away: "wp (respond_unauthorized r reason) ?Q w1" if "w_db w1 = w_db w" "response w1 = response w" for reason w1
    by (rule wp_mono [OF respond_wp]) (use that in \<open>auto simp: response_def\<close>)
  have inner: "wp (inner (u_email user) r) ?Q w1"
    if "cookie_get r ''admin_token'' = Some tok" "admin_token e i tok c" "admin_user c user (w_db w)"
      "w_db w1 = w_db w" "response w1 = response w" for tok c user w1
    by (rule wpI) (use that in \<open>auto simp: served_admin_def\<close>)
  have claims: "wp (admin_of_claims e c) (\<lambda>ru. wp (case ru of Inl reason \<Rightarrow> respond_unauthorized r reason
      | Inr user \<Rightarrow> inner (u_email user) r) ?Q) w1"
    if "cookie_get r ''admin_token'' = Some tok" "admin_token e i tok c" "w_db w1 = w_db w" "response w1 = response w" for tok c w1
    by (rule wp_mono [OF admin_of_claims_wp]) (use that in \<open>auto intro!: away inner split: sum.split\<close>)
  show ?thesis
  proof (cases "cookie_get r ''admin_token''")
    case None
    then show ?thesis by (simp add: admin_middleware_def away)
  next
    case (Some tok)
    show ?thesis
      unfolding admin_middleware_def Some option.case wp_bind
      by (rule wp_mono [OF admin_verify_wp]) (auto split: sum.split intro!: away claims [OF Some, unfolded wp_bind] simp: wp_bind)
  qed
qed

section \<open>What a link can do\<close>

lemma issue_admin_wp: "wp (issue_admin e i user ttl) (\<lambda>rt w'. w_db w' = w_db w \<and> response w' = response w) w"
  by (auto simp: issue_admin_def sign_claims_def build_claims_def new_jti_def wp_simps split: option.split sum.split)

definition may_administer :: "env \<Rightarrow> magic_row \<Rightarrow> db \<Rightarrow> bool" where
  "may_administer e mt d \<longleftrightarrow> mt_service mt = None \<and>
     (\<exists>user \<in> set (t_users d). u_deactivated user = None \<and> u_email user = normalize_email e (mt_email mt) \<and>
        has_role (u_roles user) ''konge'')"

lemma admin_consumed_wp:
  "wp (admin_consumed e i ttl r mt) (\<lambda>reply w'. w_db w' = w_db w \<and>
     (w_cookies w' = w_cookies w \<or> may_administer e mt (w_db w))) w"
proof (cases "mt_service mt")
  case None
  have open': "wp (issue_admin e i user ttl) (\<lambda>rt. wp (case rt of Inl _ \<Rightarrow> return_io (HttpError 500 ''intern feil'')
      | Inr tok \<Rightarrow> do {
          set_admin_cookie e tok ttl;
          audit_log (admin_event r ''admin_login'' (u_email user) True []);
          return_io (Redirect 303 ''/admin/users'')
        }) (\<lambda>reply w'. w_db w' = w_db w \<and> (w_cookies w' = w_cookies w \<or> may_administer e mt (w_db w)))) w1"
    if "w_db w1 = w_db w" "w_cookies w1 = w_cookies w" "get_active_user_by_email (normalize_email e (mt_email mt)) (w_db w) = Inr user"
      "has_role (u_roles user) ''konge''" for user w1
    by (rule wp_mono [OF issue_admin_wp])
      (use that None get_active_by_email_Inr [OF that(3)] in
        \<open>auto simp: wp_simps set_admin_cookie_def may_administer_def response_def split: sum.split\<close>)
  show ?thesis
    using None
    by (auto simp: admin_consumed_def wp_bind wp_return wp_effects wp_db_read wp_case_option split: option.split sum.split if_splits
        intro!: open' [unfolded wp_bind])
qed (auto simp: admin_consumed_def wp_simps)

definition admin_link_used :: "env \<Rightarrow> request \<Rightarrow> world \<Rightarrow> world \<Rightarrow> bool" where
  "admin_link_used e r w w' \<longleftrightarrow>
     (let live = magic_live_at (hash_opaque e (trim_space (post_form_value r ''token''))) ''admin''
            (format_utc (e_clock e (w_step w)))
      in same_origin e r \<and> (\<exists>row \<in> set (t_magic (w_db w)). live row \<and> may_administer e row (w_db w)) \<and>
         \<not> list_ex live (t_magic (w_db w')))"

lemma admin_verify_post_wp:
  "wp (admin_verify_post e i ttl r) (\<lambda>reply w'. t_refresh (w_db w') = t_refresh (w_db w) \<and>
     (w_cookies w' = w_cookies w \<or> admin_link_used e r w w')) w"
proof -
  let ?h = "hash_opaque e (trim_space (post_form_value r ''token''))" and ?now = "format_utc (e_clock e (w_step w))"
  let ?c = "consume_magic ?h ''admin'' ?now (w_db w)"
  have users: "t_users (snd ?c) = t_users (w_db w)" "t_refresh (snd ?c) = t_refresh (w_db w)"
    by (simp_all add: snd_consume_magic)
  have used: "wp (admin_consumed e i ttl r mt) (\<lambda>reply w'. t_refresh (w_db w') = t_refresh (w_db w) \<and>
      (w_cookies w' = w_cookies w \<or> admin_link_used e r w w')) w1"
    if so: "same_origin e r" and c: "fst ?c = Inr mt" and d: "w_db w1 = snd ?c" and ck: "w_cookies w1 = w_cookies w" for mt w1
  proof (rule wp_mono [OF admin_consumed_wp], goal_cases)
    case (1 reply w')
    from consume_magic_Inr [OF c] obtain row where row: "row \<in> set (t_magic (w_db w))" "magic_live_at ?h ''admin'' ?now row"
      "mt = row\<lparr>mt_used := 1\<rparr>" by blast
    have "may_administer e mt (w_db w1) = may_administer e row (w_db w)" by (simp add: may_administer_def row(3) d users)
    with 1 row(1,2) so d ck users consumed_dead [of ?h "''admin''" ?now "w_db w"] show ?case
      by (auto simp: admin_link_used_def Let_def)
  qed
  show ?thesis
    using used
    by (auto simp: admin_verify_post_def render_verify_def Let_def wp_simps users snd_consume_magic split: option.split sum.split)
qed

section \<open>Properties\<close>

text \<open>A handler behind the admin middleware runs only for a request whose cookie is a token signed here for the
  admin purpose and audience, of a user who is active, has the role now as well as in the token, and had this address
  when the token was issued; it starts from the untouched state.  Everyone else is turned away and nothing changes.\<close>

theorem admin_middleware_gate:
  "case run_state (admin_middleware e i inner r) w of (reply, w') \<Rightarrow>
     turned_away reply \<and> w_db w' = w_db w \<and> w_cookies w' = w_cookies w \<and> w_mails w' = w_mails w \<or> served_admin e i inner r w reply w'"
  using admin_middleware_wp [of e i inner r w] by (simp add: wp_def)

text \<open>C9. The confirmation of an admin link sets a cookie only for a POST of the page itself with an unspent, unexpired
  token of the admin purpose that belongs to no service, for an active user of its address who has the role; the
  token is spent then, and no session of a service is ever made.\<close>

theorem admin_link_gate:
  "case run_state (admin_verify_post e i ttl r) w of (reply, w') \<Rightarrow>
     t_refresh (w_db w') = t_refresh (w_db w) \<and> (w_cookies w' = w_cookies w \<or> admin_link_used e r w w')"
  using admin_verify_post_wp [of e i ttl r w] by (simp add: wp_def)

end
