(* ===== verification/Approval.thy ===== *)
theory Approval
  imports Identity
begin

text \<open>
  Which identities are approved for the administration (\<open>admin_ok\<close>): the resolver of \<open>internal/auth/identity.go\<close>
  never approves one, and the row it returns is the identity of the login, owned by the user it returns.
\<close>

section \<open>What the resolver leaves of the approvals\<close>

text \<open>The identities approved for the administration, as keys.\<close>

definition approvals :: "db \<Rightarrow> (int \<times> string \<times> string \<times> int) list" where
  "approvals d =
     map (\<lambda>x. (ui_id x, ui_issuer x, ui_subject x, ui_user x)) (filter (\<lambda>x. ui_admin_ok x = 1) (t_identities d))"

lemma approvals_insert: "approvals (snd (insert_identity p d)) = approvals d"
  by (simp add: approvals_def insert_identity_def)

lemma approvals_seen: "approvals (snd (update_identity_seen email now k d)) = approvals d"
proof -
  have "map key (filter P (upd_where Q f xs)) = map key (filter P xs)"
    if "\<And>x. P (f x) = P x" "\<And>x. key (f x) = key x" for key :: "identity_row \<Rightarrow> int \<times> string \<times> string \<times> int" and P Q f xs
    by (induction xs) (auto simp: that)
  then show ?thesis by (simp add: approvals_def update_identity_seen_def)
qed

lemma keeps_approvals [keeps_intros]: "keeps (\<lambda>w. approvals (w_db w)) (resolve_identity e ext pol meta)"
proof -
  have frame: "approvals (snd (link_identity_if_first p d)) = approvals d" "approvals (snd (create_user u d)) = approvals d" for p u d
    by (simp_all add: link_identity_if_first_def approvals_insert)
      (simp_all add: approvals_def create_user_def Let_def)
  show ?thesis
    unfolding resolve_identity_def resolve_two_attempts resolve_once_def matched_def link_def link_insert_def link_finish_def
      deny_link_def register_def register_body_def resolver_audit_def touch_def new_public_id_def
    by (intro keeps_intros keeps_db_write approvals_insert approvals_seen frame)+
qed

section \<open>The row the resolver returns\<close>

text \<open>It is the row of the external identity, owned by the user; if it is approved, it is among the approvals.\<close>

definition returned_ok :: "ext_identity \<Rightarrow> db \<Rightarrow> resolve_err + resolved \<Rightarrow> bool" where
  "returned_ok ext d r \<longleftrightarrow>
     (\<forall>u x out. r = Inr (u, Some x, out) \<longrightarrow>
        ui_user x = u_id u \<and> ui_issuer x = xi_issuer ext \<and> ui_subject x = xi_subject ext \<and>
        (ui_admin_ok x = 1 \<longrightarrow> (ui_id x, ui_issuer x, ui_subject x, ui_user x) \<in> set (approvals d)))"

lemma returned_ok_simps [simp]: "returned_ok ext d (Inl x)" "returned_ok ext d (Inr (u, None, out))"
  by (simp_all add: returned_ok_def)

lemma read_row:
  "get_identity iss sub d = Inr x \<Longrightarrow> ui_issuer x = iss \<and> ui_subject x = sub \<and>
     (ui_admin_ok x = 1 \<longrightarrow> (ui_id x, iss, sub, ui_user x) \<in> set (approvals d))"
  using get_identity_Inr [of iss sub d x] by (force simp: approvals_def)

lemma matched_returned:
  assumes "get_identity (xi_issuer ext) (xi_subject ext) (w_db w) = Inr x"
  shows "wp (matched e x ext meta) (\<lambda>r w'. returned_ok ext (w_db w') r) w"
  using read_row [OF assms]
  by (auto simp: matched_def touch_def resolver_audit_def wp_simps returned_ok_def approvals_seen split: option.split sum.split
      dest!: get_user_by_id_Inr)

lemma deny_returned: "wp (deny_link e user ext meta) (\<lambda>r w'. returned_ok ext (w_db w') r) w"
  by (auto simp: deny_link_def resolver_audit_def wp_simps split: option.split sum.split if_splits
      intro!: matched_returned)

lemma link_finish_returned:
  assumes "\<And>x. n \<noteq> 0 \<Longrightarrow> get_identity (xi_issuer ext) (xi_subject ext) (w_db w) = Inr x \<Longrightarrow> ui_user x = u_id user"
  shows "wp (link_finish e user ext pol meta n t) (\<lambda>r w'. returned_ok ext (w_db w') r) w"
  using assms read_row [of "xi_issuer ext" "xi_subject ext" "w_db w"]
  by (auto simp: link_finish_def resolver_audit_def wp_simps returned_ok_def [of _ _ "Inr (_, Some _, Linked)"]
      split: option.split sum.split intro!: matched_returned deny_returned)

lemma link_insert_row:
  "wp (link_insert e user ext pol now) (\<lambda>r w'. \<forall>n t x. r = Inr (n, t) \<longrightarrow> n \<noteq> 0 \<longrightarrow>
     get_identity (xi_issuer ext) (xi_subject ext) (w_db w') = Inr x \<longrightarrow> ui_user x = u_id user) w"
proof -
  note won = insert_identity_won(2) [of "link_params user ext now", simplified]
  have first: "ui_user x = u_id user"
    if "fst (link_identity_if_first (link_params user ext now) d) = Inr n" "n \<noteq> 0"
      "get_identity (xi_issuer ext) (xi_subject ext) (snd (link_identity_if_first (link_params user ext now) d)) = Inr x" for d n x
    using link_if_first_cases [of "link_params user ext now" d] that won by auto
  show ?thesis
    by (auto simp: link_insert_def wp_simps split: option.split sum.split intro: won first)
qed

lemma link_returned: "wp (link e user ext pol meta) (\<lambda>r w'. returned_ok ext (w_db w') r) w"
  unfolding link_def wp_simps
  by (rule wp_mono [OF link_insert_row]) (auto split: sum.split intro!: link_finish_returned)

lemma register_returned: "wp (register e ext pol) (\<lambda>r w'. returned_ok ext (w_db w') r) w"
  by (auto simp: register_def new_public_id_def wp_bind wp_return wp_effects wp_case_option wp_case_sum
      split: option.split sum.split intro!: wpI)

lemma resolve_once_returned: "wp (resolve_once e ext pol meta) (\<lambda>r w'. returned_ok ext (w_db w') r) w"
  by (auto simp: resolve_once_def wp_simps split: option.split sum.split
      intro!: matched_returned link_returned register_returned)

lemma resolve_identity_returned:
  "wp (resolve_identity e ext pol meta) (\<lambda>r w'. returned_ok ext (w_db w') r) w"
proof -
  have email: "returned_ok (ext\<lparr>xi_email := m\<rparr>) d r = returned_ok ext d r" for m d r
    by (simp add: returned_ok_def)
  note once = resolve_once_returned [of e "ext\<lparr>xi_email := normalize_email e (xi_email ext)\<rparr>" pol meta, unfolded email]
  have second: "wp (resolve_once e (ext\<lparr>xi_email := normalize_email e (xi_email ext)\<rparr>) pol meta)
      (\<lambda>r2 w2. returned_ok ext (w_db w2) (if r2 = Inl RetryResolve then Inl UserConflict else r2)) w1" for w1
    by (rule wp_mono [OF once]) simp
  show ?thesis
    unfolding resolve_identity_def resolve_two_attempts wp_bind
    by (rule wp_mono [OF once]) (auto simp: wp_simps intro!: second)
qed

end
