(* ===== verification/Google.thy ===== *)
theory Google
  imports AdminAuth GenericOidc Approval
begin

text \<open>
  Login with Google: \<open>internal/auth/google.go\<close>, and its admin purpose, \<open>google_admin.go\<close>.  One callback serves both;
  the purpose is read from the signed state alone.  The exchange of the code, the discovery document and the
  verification of the id token are calls of libraries and of Google: the fields of \<open>google_client\<close>.
\<close>

section \<open>Parameters\<close>

record google_claims =
  gl_sub :: string
  gl_iss :: string
  gl_email :: string
  gl_name :: string
  gl_verified :: bool

text \<open>
  The raw id token for client, secret, redirect address and code; whether the discovery document could be read; the
  nonce of a verified token with its claims, if they could be decoded; the authorization address of a request.
\<close>

record google_client =
  gc_exchange :: "string \<Rightarrow> string \<Rightarrow> string \<Rightarrow> string \<Rightarrow> string option"
  gc_provider :: bool
  gc_verify :: "string \<Rightarrow> string \<Rightarrow> (string \<times> google_claims option) option"
  gc_auth_url :: "auth_request \<Rightarrow> string"

record google_handlers =
  gg_cache :: "service_row list"
  gg_client :: string
  gg_client_secret :: string
  gg_secret :: string
  gg_getenv :: "string \<Rightarrow> string"
  gg_admin_ttl :: "duration option"

definition google_creds :: "google_handlers \<Rightarrow> service_row \<Rightarrow> string" where
  "google_creds h svc =
     (if nonempty (sv_google_client_id svc) then opt_str (sv_google_client_id svc) else gg_client h)"

definition google_secret :: "google_handlers \<Rightarrow> service_row \<Rightarrow> string option" where
  "google_secret h svc =
     resolve_client_secret (gg_getenv h) (sv_google_secret_env svc) (sv_google_client_secret svc) (gg_client_secret h)"

section \<open>Starting\<close>

definition audit_admin_failure :: "request \<Rightarrow> string \<Rightarrow> string \<Rightarrow> string \<Rightarrow> unit io" where
  "audit_admin_failure r sid email details =
     audit_log (method_event r ''admin_google_login'' ''google'' email sid False details)"

definition reject_admin :: "request \<Rightarrow> string \<Rightarrow> string \<Rightarrow> string \<Rightarrow> reply io" where
  "reject_admin r sid email details = do {
     audit_admin_failure r sid email details;
     return_io redirect_admin_login_error
   }"

text \<open>A refusal of the callback or of the start, in the flow it belongs to.\<close>

definition reject_callback :: "request \<Rightarrow> service_row \<Rightarrow> bool \<Rightarrow> string \<Rightarrow> reply io" where
  "reject_callback r svc admin reason =
     (if admin then reject_admin r (sv_id svc) [] (''reason='' @ reason)
      else reject r provider_google svc \<lparr>rj_email = [], rj_context = [], rj_reason = reason\<rparr>)"

definition google_callback_url :: "request \<Rightarrow> string" where
  "google_callback_url r = ''https://'' @ rq_host r @ ''/callback''"

definition google_request :: "google_handlers \<Rightarrow> request \<Rightarrow> service_row \<Rightarrow> string \<Rightarrow> string \<Rightarrow> auth_request" where
  "google_request h r svc state nonce =
     \<lparr>ar_client = google_creds h svc, ar_endpoint = ''google'', ar_redirect = google_callback_url r,
      ar_scopes = [''openid'', ''email'', ''profile''], ar_state = state, ar_challenge = None, ar_nonce = nonce,
      ar_prompt = ''select_account''\<rparr>"

definition redirect_to_google ::
  "env \<Rightarrow> google_handlers \<Rightarrow> google_client \<Rightarrow> request \<Rightarrow> service_row option \<Rightarrow> bool \<Rightarrow> reply io" where
  "redirect_to_google e h gc r found admin =
     (case found of
        None \<Rightarrow> return_io panic_reply
      | Some svc \<Rightarrow>
          if sv_auth_google svc \<noteq> 1 then return_io (HttpError 403 ''Google-innlogging ikke aktivert'')
          else if google_secret h svc = None then reject_callback r svc admin ''client_secret_missing''
          else do {
            rn \<leftarrow> generate_nonce e;
            case rn of
              None \<Rightarrow> return_io (HttpError 500 ''intern feil'')
            | Some nonce \<Rightarrow> do {
                now \<leftarrow> time_now e;
                let state = (if admin then sign_admin_state e now (gg_secret h) (sv_id svc) nonce
                             else sign_state e now (gg_secret h) (sv_id svc) nonce);
                state_cookie e ''oidc_state'' state;
                return_io (Redirect 302 (gc_auth_url gc (google_request h r svc state nonce)))
              }
          })"

definition google_login :: "env \<Rightarrow> google_handlers \<Rightarrow> google_client \<Rightarrow> handler" where
  "google_login e h gc r = do {
     redirect_cookie e r;
     redirect_to_google e h gc r (resolve_social_service e (gg_cache h) r) False
   }"

definition google_admin_login :: "env \<Rightarrow> google_handlers \<Rightarrow> google_client \<Rightarrow> handler" where
  "google_admin_login e h gc r =
     redirect_to_google e h gc r (resolve_or_default e (gg_cache h) (rq_host r) [] []) True"

section \<open>The identity in the claims\<close>

definition google_issuer :: string where "google_issuer = ''https://accounts.google.com''"

definition google_identity :: "google_claims \<Rightarrow> string \<Rightarrow> ext_identity option" where
  "google_identity cl email =
     (if gl_iss cl \<noteq> google_issuer \<and> gl_iss cl \<noteq> ''accounts.google.com'' then None
      else if trim_space (gl_sub cl) = [] then None
      else Some \<lparr>xi_provider = ''google'', xi_issuer = google_issuer, xi_subject = gl_sub cl, xi_email = email,
                 xi_name = gl_name cl\<rparr>)"

definition fetch_google_claims ::
  "google_client \<Rightarrow> string \<Rightarrow> string \<Rightarrow> string \<Rightarrow> string \<Rightarrow> string + google_claims \<times> string" where
  "fetch_google_claims gc client secret redirect code =
     (case gc_exchange gc client secret redirect code of
        None \<Rightarrow> Inl ''code_exchange''
      | Some raw \<Rightarrow>
          if \<not> gc_provider gc then Inl ''discovery''
          else (case gc_verify gc client raw of
                  None \<Rightarrow> Inl ''id_token''
                | Some (nonce, None) \<Rightarrow> Inl ''claims''
                | Some (nonce, Some cl) \<Rightarrow> Inr (cl, nonce)))"

section \<open>An administrator's session\<close>

datatype admin_bind = AdminBound | AdminAlreadyBound | AdminIdentityVanished

datatype bind_err = BindRollback | BindDb db_err

definition bind_body :: "env \<Rightarrow> int \<Rightarrow> int \<Rightarrow> string \<Rightarrow> (bind_err + admin_bind) io" where
  "bind_body e uid iid bound_at = do {
     rn \<leftarrow> db_write e ReqCtx (bind_admin bound_at uid);
     case rn of
       Inl x \<Rightarrow> return_io (Inl (BindDb x))
     | Inr n \<Rightarrow>
         if n = 0 then return_io (Inr AdminAlreadyBound)
         else do {
           rm \<leftarrow> db_write e ReqCtx (set_admin_ok iid uid bound_at);
           return_io (case rm of
             Inl x \<Rightarrow> Inl (BindDb x)
           | Inr m \<Rightarrow> if m = 0 then Inl BindRollback else Inr AdminBound)
         }
   }"

definition bind_admin_identity :: "env \<Rightarrow> int \<Rightarrow> int \<Rightarrow> string \<Rightarrow> (db_err + admin_bind) io" where
  "bind_admin_identity e uid iid bound_at = do {
     res \<leftarrow> in_tx e ReqCtx BindDb (bind_body e uid iid bound_at);
     return_io (case res of
       Inl BindRollback \<Rightarrow> Inr AdminIdentityVanished
     | Inl (BindDb x) \<Rightarrow> Inl x
     | Inr b \<Rightarrow> Inr b)
   }"

definition no_links :: link_policy where
  "no_links = \<lparr>lp_auto_link = False, lp_auto_register = False, lp_untrusted = False, lp_role = [], lp_org = []\<rparr>"

definition google_event :: "request \<Rightarrow> string \<Rightarrow> string \<Rightarrow> string \<Rightarrow> bool \<Rightarrow> string \<Rightarrow> event" where
  "google_event r typ sid email ok details = method_event r typ ''google'' email sid ok details"

text \<open>Approving the identity: the first admin login of an unbound user binds; a bound user needs an approved identity.\<close>

definition approve_identity ::
  "env \<Rightarrow> request \<Rightarrow> string \<Rightarrow> string \<Rightarrow> ext_identity \<Rightarrow> user_row \<Rightarrow> identity_row option \<Rightarrow> reply option io" where
  "approve_identity e r sid email ext user idn =
     (if (case idn of None \<Rightarrow> 0 | Some x \<Rightarrow> ui_admin_ok x) = 1 then return_io None
      else do {
        now \<leftarrow> time_now e;
        rb \<leftarrow> bind_admin_identity e (u_id user) (case idn of None \<Rightarrow> 0 | Some x \<Rightarrow> ui_id x) (format_utc now);
        case rb of
          Inl _ \<Rightarrow> do { reply \<leftarrow> reject_admin r sid email ''intern feil''; return_io (Some reply) }
        | Inr b \<Rightarrow>
            if b \<noteq> AdminBound then do {
              audit_log (google_event r ''identity_link_denied'' sid (u_email user) False
                (''reason='' @ (if b = AdminIdentityVanished then ''identity_vanished'' else ''not_admin_identity'')));
              reply \<leftarrow> reject_admin r sid email ''identitet ikke godkjent for admin'';
              return_io (Some reply)
            }
            else do {
              audit_log (google_event r ''identity_admin_approved'' sid (u_email user) True
                (''provider='' @ xi_provider ext @ '' issuer='' @ xi_issuer ext @ '' bound=1''));
              return_io None
            }
      })"

definition open_admin_session ::
  "env \<Rightarrow> issuer \<Rightarrow> google_handlers \<Rightarrow> request \<Rightarrow> user_row \<Rightarrow> string \<Rightarrow> reply io" where
  "open_admin_session e i h r user sid =
     (case gg_admin_ttl h of
        None \<Rightarrow> return_io (HttpError 500 ''intern feil'')
      | Some ttl \<Rightarrow> do {
          ok \<leftarrow> start_admin_session e i ttl r user sid;
          return_io (if ok then Redirect 303 ''/admin/users'' else HttpError 500 ''intern feil'')
        })"

definition admin_resolved ::
  "env \<Rightarrow> issuer \<Rightarrow> google_handlers \<Rightarrow> request \<Rightarrow> string \<Rightarrow> string \<Rightarrow> ext_identity \<Rightarrow> resolve_err + resolved \<Rightarrow> reply io" where
  "admin_resolved e i h r sid email ext res =
     (case res of
        Inl _ \<Rightarrow> reject_admin r sid email ''ukjent, deaktivert eller ikke koblet''
      | Inr (user, idn, _) \<Rightarrow>
          if \<not> csv_has_exact (u_roles user) ''konge'' then reject_admin r sid email ''mangler konge-rolle''
          else do {
            stop \<leftarrow> approve_identity e r sid email ext user idn;
            case stop of
              Some reply \<Rightarrow> return_io reply
            | None \<Rightarrow> open_admin_session e i h r user sid
          })"

definition complete_admin_login ::
  "env \<Rightarrow> issuer \<Rightarrow> google_handlers \<Rightarrow> request \<Rightarrow> service_row \<Rightarrow> google_claims \<Rightarrow> reply io" where
  "complete_admin_login e i h r svc cl =
     (let email = normalize_email e (gl_email cl) in
      if email = [] then reject_admin r (sv_id svc) [] ''mangler e-post i id_token''
      else if \<not> gl_verified cl then reject_admin r (sv_id svc) email ''e-post ikke verifisert av Google''
      else case google_identity cl email of
        None \<Rightarrow> reject_admin r (sv_id svc) email ''mangler sub eller ugyldig issuer i id_token''
      | Some ext \<Rightarrow> do {
          res \<leftarrow> resolve_identity e ext no_links
            \<lparr>rm_service = sv_id svc, rm_ip = rq_client_ip r, rm_ua = user_agent r\<rparr>;
          admin_resolved e i h r (sv_id svc) email ext res
        })"

section \<open>The callback\<close>

definition finish_google :: "env \<Rightarrow> issuer \<Rightarrow> request \<Rightarrow> service_row \<Rightarrow> google_claims \<Rightarrow> reply io" where
  "finish_google e i r svc cl =
     (let email = normalize_email e (gl_email cl);
          refuse = (\<lambda>reason. reject r provider_google svc \<lparr>rj_email = email, rj_context = [], rj_reason = reason\<rparr>)
      in if \<not> gl_verified cl then refuse ''email_unverified''
         else if email = [] then refuse ''email_missing''
         else case google_identity cl email of
           None \<Rightarrow> refuse ''missing_sub''
         | Some ext \<Rightarrow> finish e i r provider_google svc ext)"

definition finish_google_callback ::
  "env \<Rightarrow> issuer \<Rightarrow> google_handlers \<Rightarrow> request \<Rightarrow> service_row \<Rightarrow> bool \<Rightarrow> google_claims \<Rightarrow> string \<Rightarrow> string \<Rightarrow> reply io" where
  "finish_google_callback e i h r svc admin cl token_nonce state_nonce =
     (if \<not> check_id_token_nonce token_nonce state_nonce then reject_callback r svc admin ''nonce''
      else if admin then do {
        clear_cookie e ''oidc_state'';
        complete_admin_login e i h r svc cl
      }
      else finish_google e i r svc cl)"

definition google_answer ::
  "env \<Rightarrow> issuer \<Rightarrow> google_handlers \<Rightarrow> google_client \<Rightarrow> request \<Rightarrow> state_claims \<Rightarrow> service_row \<Rightarrow> reply io" where
  "google_answer e i h gc r c svc =
     (case google_secret h svc of
        None \<Rightarrow> reject_callback r svc (st_admin c) ''client_secret_missing''
      | Some secret \<Rightarrow>
          (case fetch_google_claims gc (google_creds h svc) secret (google_callback_url r) (query_get r ''code'') of
             Inl reason \<Rightarrow> reject_callback r svc (st_admin c) reason
           | Inr (cl, nonce) \<Rightarrow> finish_google_callback e i h r svc (st_admin c) cl nonce (st_nonce c)))"

definition named_service :: "string \<Rightarrow> service_row" where
  "named_service sid = blank_service\<lparr>sv_id := sid, sv_display_name := [], sv_theme := []\<rparr>"

definition google_callback :: "env \<Rightarrow> issuer \<Rightarrow> google_handlers \<Rightarrow> google_client \<Rightarrow> handler" where
  "google_callback e i h gc r = do {
     rc \<leftarrow> read_state e r ''oidc_state'' (gg_secret h);
     case rc of
       Inl reply \<Rightarrow> return_io reply
     | Inr c \<Rightarrow>
         if st_idp c \<noteq> [] \<or> st_github c then return_io (redirect_login_error [] LoginFailed)
         else (case resolve e (gg_cache h) [] (st_service c) [] of
                 None \<Rightarrow> reject_callback r (named_service (st_service c)) (st_admin c) ''unknown_service''
               | Some svc \<Rightarrow> google_answer e i h gc r c svc)
   }"

section \<open>The ordinary login\<close>

definition google_session ::
  "env \<Rightarrow> google_handlers \<Rightarrow> google_client \<Rightarrow> request \<Rightarrow> bool \<Rightarrow> service_row \<Rightarrow> ext_identity \<Rightarrow> bool \<Rightarrow> bool" where
  "google_session e h gc r admin svc ext trusted \<longleftrightarrow> trusted \<and>
     (\<exists>c secret cl. state_shown e r ''oidc_state'' (gg_secret h) c \<and> st_admin c = admin \<and> st_idp c = [] \<and> \<not> st_github c \<and>
        resolve e (gg_cache h) [] (st_service c) [] = Some svc \<and> google_secret h svc = Some secret \<and>
        fetch_google_claims gc (google_creds h svc) secret (google_callback_url r) (query_get r ''code'') = Inr (cl, st_nonce c) \<and>
        st_nonce c \<noteq> [] \<and> gl_verified cl \<and> google_identity cl (normalize_email e (gl_email cl)) = Some ext)"

lemma keeps_db_reject_admin: "keeps (\<lambda>w. w_db w) (reject_admin r sid email details)"
  unfolding reject_admin_def audit_admin_failure_def
  by (intro keeps_intros keeps_db_ticks(4) [where g = "\<lambda>d. d"])

lemma keeps_db_reject_callback: "keeps (\<lambda>w. w_db w) (reject_callback r svc admin reason)"
  unfolding reject_callback_def by (intro keeps_intros keeps_db_reject_admin keeps_db_rejections)

lemma evolves_bind_admin [evolve_intros]: "evolves db_step (bind_admin_identity e uid iid at)"
proof -
  have "evolves R (case res of Inl BindRollback \<Rightarrow> return_io x | Inl (BindDb y) \<Rightarrow> return_io (f y) | Inr b \<Rightarrow> return_io (g b))"
    for R and res :: "bind_err + 'a" and x :: 'b and f g
    by (simp split: sum.split bind_err.split add: evolves_return)
  then show ?thesis unfolding bind_admin_identity_def bind_body_def by (intro evolve_intros)+
qed

lemma evolves_google [evolve_intros]:
  "evolves db_step (google_login e h gc r)" "evolves db_step (google_admin_login e h gc r)"
  "evolves db_step (google_callback e i h gc r)"
  unfolding google_login_def google_admin_login_def google_callback_def google_answer_def finish_google_callback_def
    finish_google_def complete_admin_login_def admin_resolved_def approve_identity_def open_admin_session_def
    redirect_to_google_def reject_callback_def reject_admin_def reject_def audit_rejected_def audit_admin_failure_def
    redirect_cookie_def generate_nonce_def state_cookie_def read_state_def clear_cookie_def Let_def
  by (intro evolve_intros)+

section \<open>Cookies of the panel\<close>

definition admin_cookies :: "world \<Rightarrow> cookie list" where
  "admin_cookies w = filter (\<lambda>ck. ck_name ck = ''admin_token'') (w_cookies w)"

lemma keeps_admin_response: "keeps response m \<Longrightarrow> keeps admin_cookies m"
  by (simp add: keeps_def response_def admin_cookies_def)

lemma keeps_admin_ticks [keeps_intros]:
  "keeps admin_cookies (time_now e)" "keeps admin_cookies (rand_read e k)" "keeps admin_cookies (db_read e ctx f)"
  "keeps admin_cookies (db_write e ctx u)" "keeps admin_cookies (audit_log ev)" "keeps admin_cookies (send_mail m)"
  "keeps admin_cookies (set_header a b)" "keeps admin_cookies (del_header a)"
  by (simp_all add: keeps_def io_simps admin_cookies_def split: option.split prod.split)

lemma keeps_admin_set: "ck_name c \<noteq> ''admin_token'' \<Longrightarrow> keeps admin_cookies (set_cookie c)"
  by (simp add: keeps_def io_simps admin_cookies_def)

lemma keeps_admin_in_tx: "keeps response body \<Longrightarrow> keeps admin_cookies (in_tx e ctx wrap body)"
  by (rule keeps_admin_response) (rule keeps_response_in_tx)

lemma keeps_admin_complete:
  assumes "lm_cookie m \<noteq> ''admin_token''"
  shows "keeps admin_cookies (complete_login e i r svc user m)"
  unfolding complete_login_def answer_login_def cookie_defs issue_access_def issue_access_detailed_def sign_claims_def
    build_claims_def new_jti_def issue_def generate_family_id_def new_root_token_def generate_plain_token_def
  by (intro keeps_intros keeps_admin_set) (simp_all add: auth_cookie_def assms)

lemma keeps_admin_finish: "keeps admin_cookies (finish e i r provider_google svc ext)"
proof -
  have g: "lm_cookie (fp_login provider_google) \<noteq> ''admin_token''" by (simp add: provider_google_def login_google_def)
  show ?thesis
    unfolding finish_def finish_with_policy_def audit_rejected_def reject_def
    by (intro keeps_intros keeps_admin_complete [OF g] keeps_admin_response [OF keeps_resolver(1)])
qed

section \<open>What the admin purpose can do\<close>

lemma bind_admin_wp:
  "wp (bind_admin_identity e uid iid at) (\<lambda>res w'. t_refresh (w_db w') = t_refresh (w_db w) \<and> admin_cookies w' = admin_cookies w \<and>
     (res = Inr AdminBound \<longrightarrow> (\<exists>u \<in> set (t_users (w_db w)). u_id u = uid \<and> u_admin_bound u = None))) w"
proof -
  have frame: "t_refresh (snd (bind_admin at uid d)) = t_refresh d" "t_refresh (snd (set_admin_ok iid uid at d)) = t_refresh d" for d
    by (simp_all add: bind_admin_def set_admin_ok_def Let_def)
  have unbound: "\<exists>u \<in> set (t_users d). u_id u = uid \<and> u_admin_bound u = None"
    if "fst (bind_admin at uid d) = Inr n" "n \<noteq> 0" for d n
    using that count_where_0_iff [of "\<lambda>r. u_id r = uid \<and> u_admin_bound r = None" "t_users d"]
    by (auto simp: bind_admin_def Let_def)
  show ?thesis
    by (auto simp: bind_admin_identity_def bind_body_def wp_simps frame admin_cookies_def split: option.split sum.split bind_err.split
        intro: unbound)
qed

text \<open>The identity of the row, or a user who was not bound to any yet.\<close>

definition may_approve :: "ext_identity \<Rightarrow> user_row \<Rightarrow> db \<Rightarrow> bool" where
  "may_approve ext user d \<longleftrightarrow>
     (\<exists>iid. (iid, xi_issuer ext, xi_subject ext, u_id user) \<in> set (approvals d)) \<or>
     (\<exists>u \<in> set (t_users d). u_id u = u_id user \<and> u_admin_bound u = None)"

lemma reject_admin_wp:
  "wp (reject_admin r sid email details) (\<lambda>reply w'. w_db w' = w_db w \<and> admin_cookies w' = admin_cookies w) w"
  by (simp add: reject_admin_def audit_admin_failure_def wp_simps admin_cookies_def)

lemma approve_identity_wp:
  assumes "returned_ok ext (w_db w) (Inr (user, idn, out))"
  shows "wp (approve_identity e r sid email ext user idn) (\<lambda>res w'. t_refresh (w_db w') = t_refresh (w_db w) \<and>
    admin_cookies w' = admin_cookies w \<and> (res = None \<longrightarrow> may_approve ext user (w_db w))) w"
proof (cases "(case idn of None \<Rightarrow> 0 | Some x \<Rightarrow> ui_admin_ok x) = 1")
  case True
  then obtain x where "idn = Some x" "ui_admin_ok x = 1" by (auto split: option.splits)
  with assms have "may_approve ext user (w_db w)" by (auto simp: returned_ok_def may_approve_def)
  with True show ?thesis by (simp add: approve_identity_def wp_return)
next
  case False
  have cookies: "admin_cookies (w\<lparr>w_step := n\<rparr>) = admin_cookies w" "admin_cookies (w'\<lparr>w_audit := evs\<rparr>) = admin_cookies w'" for n w' evs
    by (simp_all add: admin_cookies_def)
  show ?thesis
    unfolding approve_identity_def if_not_P [OF False] wp_bind wp_effects
    by (rule wp_mono [OF bind_admin_wp])
      (auto simp: wp_simps cookies may_approve_def intro!: wp_mono [OF reject_admin_wp] split: sum.split)
qed

definition google_admin :: "env \<Rightarrow> google_handlers \<Rightarrow> google_client \<Rightarrow> request \<Rightarrow> world \<Rightarrow> world \<Rightarrow> bool" where
  "google_admin e h gc r w w' \<longleftrightarrow>
     t_refresh (w_db w') = t_refresh (w_db w) \<and>
     (admin_cookies w' = admin_cookies w \<or>
      (\<exists>svc ext user. google_session e h gc r True svc ext True \<and> user \<in> set (t_users (w_db w)) \<and> u_deactivated user = None \<and>
         csv_has_exact (u_roles user) ''konge'' \<and> may_approve ext user (w_db w)))"

lemma open_admin_session_keeps: "keeps (\<lambda>w. t_refresh (w_db w)) (open_admin_session e i h r user sid)"
  unfolding open_admin_session_def start_admin_session_def set_admin_cookie_def issue_admin_def sign_claims_def
    build_claims_def new_jti_def
  by (intro keeps_intros)

text \<open>A refusal, seen from the start of the request.\<close>

lemma google_admin_refused:
  assumes "w_db w1 = w_db w" "admin_cookies w1 = admin_cookies w"
  shows "wp (reject_admin r' sid email details) (\<lambda>reply w'. google_admin e h gc r w w') w1"
  by (rule wp_mono [OF reject_admin_wp]) (simp add: google_admin_def assms)

lemma google_admin_same:
  "t_refresh (w_db w') = t_refresh (w_db w) \<Longrightarrow> admin_cookies w' = admin_cookies w \<Longrightarrow> google_admin e h gc r w w'"
  by (simp add: google_admin_def)

lemma admin_resolved_wp:
  assumes "google_session e h gc r True svc ext True"
    and same: "t_refresh (w_db w1) = t_refresh (w_db w)" "t_users (w_db w1) = t_users (w_db w)"
      "approvals (w_db w1) = approvals (w_db w)" "admin_cookies w1 = admin_cookies w"
    and user: "\<And>u x out. res = Inr (u, x, out) \<Longrightarrow> u \<in> set (t_users (w_db w)) \<and> u_deactivated u = None"
    and row: "returned_ok ext (w_db w1) res"
  shows "wp (admin_resolved e i h r sid email ext res) (\<lambda>reply w'. google_admin e h gc r w w') w1"
proof (cases res)
  case (Inl x)
  have "wp (reject_admin r sid email d) (\<lambda>reply w'. google_admin e h gc r w w') w1" for d
    by (rule wp_mono [OF reject_admin_wp]) (simp add: google_admin_def same)
  with Inl show ?thesis by (simp add: admin_resolved_def)
next
  case (Inr y)
  obtain u x out where y: "y = (u, x, out)" by (cases y)
  have no: "wp (reject_admin r sid email d) (\<lambda>reply w'. google_admin e h gc r w w') w1" for d
    by (rule wp_mono [OF reject_admin_wp]) (simp add: google_admin_def same)
  have appr: "wp (approve_identity e r sid email ext u x) (\<lambda>res w'. t_refresh (w_db w') = t_refresh (w_db w) \<and>
      admin_cookies w' = admin_cookies w \<and> (res = None \<longrightarrow> may_approve ext u (w_db w))) w1"
    using row by (intro wp_mono [OF approve_identity_wp [where out = out]]) (auto simp: Inr y same may_approve_def)
  have open': "wp (open_admin_session e i h r u sid) (\<lambda>reply w'. google_admin e h gc r w w') w2"
    if "t_refresh (w_db w2) = t_refresh (w_db w)" "may_approve ext u (w_db w)" "csv_has_exact (u_roles u) ''konge''" for w2
  proof (rule wpI)
    fix reply w' assume "run_state (open_admin_session e i h r u sid) w2 = (reply, w')"
    from keepsD [OF open_admin_session_keeps this] that user [of u x out] assms(1) Inr y
    show "google_admin e h gc r w w'" unfolding google_admin_def by auto
  qed
  show ?thesis
  proof (cases "csv_has_exact (u_roles u) ''konge''")
    case True
    have "wp (approve_identity e r sid email ext u x) (\<lambda>stop. wp (case stop of Some reply \<Rightarrow> return_io reply
        | None \<Rightarrow> open_admin_session e i h r u sid) (\<lambda>reply w'. google_admin e h gc r w w')) w1"
      by (rule wp_mono [OF appr]) (auto simp: wp_return split: option.split intro!: open' True google_admin_same)
    with True Inr y show ?thesis by (simp add: admin_resolved_def wp_bind)
  qed (simp add: admin_resolved_def Inr y no)
qed

lemma complete_admin_wp:
  assumes session: "\<And>ext. gl_verified cl \<Longrightarrow> google_identity cl (normalize_email e (gl_email cl)) = Some ext \<Longrightarrow>
      google_session e h gc r True svc ext True"
    and "w_db w1 = w_db w" "admin_cookies w1 = admin_cookies w"
  shows "wp (complete_admin_login e i h r svc cl) (\<lambda>reply w'. google_admin e h gc r w w') w1"
proof -
  let ?meta = "\<lparr>rm_service = sv_id svc, rm_ip = rq_client_ip r, rm_ua = user_agent r\<rparr>"
  have resolved: "wp (resolve_identity e ext no_links ?meta) (\<lambda>res. wp (admin_resolved e i h r (sv_id svc) email ext res)
      (\<lambda>reply w'. google_admin e h gc r w w')) w1"
    if "google_session e h gc r True svc ext True" for ext email
  proof (rule wpI)
    fix res w2 assume run: "run_state (resolve_identity e ext no_links ?meta) w1 = (res, w2)"
    have keeps: "keeps response (resolve_identity e ext no_links ?meta)"
      "keeps (\<lambda>w. t_refresh (w_db w)) (resolve_identity e ext no_links ?meta)"
      unfolding resolve_identity_def resolve_two_attempts by (intro keeps_intros keeps_resolve_once)+
    note ok = resolve_identity_result(2) [OF run]
    show "wp (admin_resolved e i h r (sv_id svc) email ext res) (\<lambda>reply w'. google_admin e h gc r w w') w2"
    proof (rule admin_resolved_wp [OF that])
      show "t_refresh (w_db w2) = t_refresh (w_db w)" using keepsD [OF keeps(2) run] assms(2) by simp
      show "approvals (w_db w2) = approvals (w_db w)" using keepsD [OF keeps_approvals run] assms(2) by simp
      show "admin_cookies w2 = admin_cookies w" using keepsD [OF keeps_admin_response [OF keeps(1)] run] assms(3) by simp
      show "t_users (w_db w2) = t_users (w_db w)"
        using ok assms(2) by (auto simp: resolved_ok_def no_links_def split: sum.splits outcome.splits)
      show "u \<in> set (t_users (w_db w)) \<and> u_deactivated u = None" if "res = Inr (u, x, out)" for u x out
        using ok assms(2) by (auto simp: that resolved_ok_def no_links_def split: outcome.splits)
      show "returned_ok ext (w_db w2) res" by (rule wpD [OF resolve_identity_returned run])
    qed
  qed
  show ?thesis
    unfolding complete_admin_login_def Let_def
    by (auto simp: wp_bind split: option.split intro!: google_admin_refused assms resolved session)
qed

section \<open>The callback's two ends\<close>

definition google_end :: "env \<Rightarrow> issuer \<Rightarrow> google_handlers \<Rightarrow> google_client \<Rightarrow> request \<Rightarrow> world \<Rightarrow> reply \<Rightarrow> world \<Rightarrow> bool" where
  "google_end e i h gc r w reply w' \<longleftrightarrow>
     login_outcome (google_session e h gc r False) e i w reply w' \<and> admin_cookies w' = admin_cookies w \<or>
     google_admin e h gc r w w'"

lemma google_end_keeps:
  assumes "keeps (\<lambda>w. w_db w) m" "keeps admin_cookies m" and "w_db w1 = w_db w" "admin_cookies w1 = admin_cookies w"
  shows "wp m (google_end e i h gc r w) w1"
  using wp_keeps_any [OF assms(1), of w1] wp_keeps_any [OF assms(2), of w1] assms(3,4)
  by (auto simp: google_end_def google_admin_def wp_def split: prod.splits)

lemma keeps_admin_rejections: "keeps admin_cookies (reject_callback r svc admin reason)" "keeps admin_cookies (reject r p svc rej)"
  unfolding reject_callback_def reject_admin_def audit_admin_failure_def reject_def audit_rejected_def by (intro keeps_intros)+

lemma reject_end:
  "w_db w1 = w_db w \<Longrightarrow> admin_cookies w1 = admin_cookies w \<Longrightarrow> wp (reject_callback r' svc admin reason) (google_end e i h gc r w) w1"
  "w_db w1 = w_db w \<Longrightarrow> admin_cookies w1 = admin_cookies w \<Longrightarrow> wp (reject r' p svc rej) (google_end e i h gc r w) w1"
  by (simp_all add: google_end_keeps keeps_db_reject_callback keeps_db_rejections keeps_admin_rejections)

lemma finish_google_end:
  assumes "\<And>ext. gl_verified cl \<Longrightarrow> google_identity cl (normalize_email e (gl_email cl)) = Some ext \<Longrightarrow>
      google_session e h gc r False svc ext True"
    and "w_db w1 = w_db w" "admin_cookies w1 = admin_cookies w"
  shows "wp (finish_google e i r svc cl) (google_end e i h gc r w) w1"
proof -
  have fin: "wp (finish e i r provider_google svc ext) (google_end e i h gc r w) w1"
    if "google_session e h gc r False svc ext True" for ext
    by (rule wp_mono [OF wp_keeps [OF keeps_admin_finish outcome_finish [of "google_session e h gc r False", OF that assms(2)]]])
      (simp add: google_end_def assms(3))
  show ?thesis
    unfolding finish_google_def Let_def by (auto split: option.split intro!: reject_end assms fin)
qed

lemma fetch_google_answer_wp:
  assumes "state_shown e r ''oidc_state'' (gg_secret h) c" "st_idp c = []" "\<not> st_github c"
    "resolve e (gg_cache h) [] (st_service c) [] = Some svc" "w_db w1 = w_db w" "admin_cookies w1 = admin_cookies w"
  shows "wp (google_answer e i h gc r c svc) (google_end e i h gc r w) w1"
proof -
  have fin: "wp (finish_google_callback e i h r svc (st_admin c) cl nonce (st_nonce c)) (google_end e i h gc r w) w1"
    if f: "google_secret h svc = Some secret"
      "fetch_google_claims gc (google_creds h svc) secret (google_callback_url r) (query_get r ''code'') = Inr (cl, nonce)"
    for secret cl nonce
  proof (cases "check_id_token_nonce nonce (st_nonce c)")
    case True
    have session: "google_session e h gc r (st_admin c) svc ext True"
      if "gl_verified cl" "google_identity cl (normalize_email e (gl_email cl)) = Some ext" for ext
      unfolding google_session_def using assms f that True by (auto simp: check_id_token_nonce_def)
    have cookies: "admin_cookies (w1\<lparr>w_cookies := w_cookies w1 @ [auth_cookie e ''oidc_state'' [] SameSiteDefault (-1)]\<rparr>) = admin_cookies w"
      by (simp add: admin_cookies_def auth_cookie_def assms(6) [unfolded admin_cookies_def])
    show ?thesis
    proof (cases "st_admin c")
      case True
      have "wp (complete_admin_login e i h r svc cl) (\<lambda>reply w'. google_admin e h gc r w w')
          (w1\<lparr>w_cookies := w_cookies w1 @ [auth_cookie e ''oidc_state'' [] SameSiteDefault (-1)]\<rparr>)"
        by (rule complete_admin_wp) (use session True cookies assms(5) in auto)
      then have "wp (complete_admin_login e i h r svc cl) (google_end e i h gc r w)
          (w1\<lparr>w_cookies := w_cookies w1 @ [auth_cookie e ''oidc_state'' [] SameSiteDefault (-1)]\<rparr>)"
        by (rule wp_mono) (simp add: google_end_def)
      with True \<open>check_id_token_nonce nonce (st_nonce c)\<close> show ?thesis
        by (simp add: finish_google_callback_def clear_cookie_def wp_simps)
    next
      case False
      with session have "wp (finish_google e i r svc cl) (google_end e i h gc r w) w1"
        by (intro finish_google_end assms) simp
      with False \<open>check_id_token_nonce nonce (st_nonce c)\<close> show ?thesis by (simp add: finish_google_callback_def)
    qed
  qed (simp add: finish_google_callback_def reject_end assms)
  show ?thesis
    unfolding google_answer_def by (auto split: option.split sum.split intro!: reject_end assms fin)
qed

lemma google_callback_wp: "wp (google_callback e i h gc r) (google_end e i h gc r w) w"
proof -
  have stop: "google_end e i h gc r w reply w1" if "admin_cookies w1 = admin_cookies w" "w_db w1 = w_db w" for reply w1
    using that by (simp add: google_end_def google_admin_def)
  show ?thesis
    unfolding google_callback_def wp_bind
  proof (rule wp_mono [OF read_state_wp], goal_cases)
    case (1 rc w1)
    then have same: "w_db w1 = w_db w" "admin_cookies w1 = admin_cookies w" by (simp_all add: response_def admin_cookies_def)
    show ?case
    proof (cases rc)
      case (Inr c)
      with 1 have shown: "state_shown e r ''oidc_state'' (gg_secret h) c" by simp
      show ?thesis
      proof (cases "st_idp c \<noteq> [] \<or> st_github c")
        case False
        then show ?thesis
          using fetch_google_answer_wp [OF shown _ _ _ same] reject_end(1) [OF same]
          by (simp add: Inr split: option.split)
      qed (simp add: Inr wp_return stop same)
    qed (simp add: wp_return stop same)
  qed
qed

section \<open>Property\<close>

text \<open>C29. The Google callback ends in one of two ways.  In the ordinary flow it sets no admin cookie, and it changes the
  database only for a verified Google identity that belongs to a login state signed here.  In the admin flow it makes no
  session of a service, and it sets an admin cookie only for a signed admin state and a verified address, for an
  active user with the role whose identity was approved before, or who was not bound to any identity yet.\<close>

theorem google_callback_gate:
  "case run_state (google_callback e i h gc r) w of (reply, w') \<Rightarrow>
     login_outcome (google_session e h gc r False) e i w reply w' \<and> admin_cookies w' = admin_cookies w \<or>
     google_admin e h gc r w w'"
  using google_callback_wp [of e i h gc r w] by (simp add: wp_def google_end_def)

end
