(* ===== verification/Microsoft.thy ===== *)
theory Microsoft
  imports GenericOidc
begin

text \<open>
  Login with Microsoft: \<open>internal/auth/microsoft.go\<close> and \<open>microsoft_claims.go\<close>.  The library checks the signature, the
  audience and the expiry of the id token; the issuer is checked here, because the common endpoint signs for every
  tenant.  The subject is the object id, never the address.
\<close>

section \<open>Claims\<close>

text \<open>\<open>mc_edov_raw\<close> is the JSON text of \<open>xms_edov\<close>, empty when absent.\<close>

record ms_claims =
  mc_email :: string
  mc_name :: string
  mc_tid :: string
  mc_oid :: string
  mc_iss :: string
  mc_nonce :: string
  mc_edov :: "bool option"
  mc_edov_raw :: string

definition personal_tenant :: string where
  "personal_tenant = ''9188040d-6c67-4c5b-b112-36a304b66dad''"

definition hex_char :: "char \<Rightarrow> bool" where
  "hex_char c \<longleftrightarrow> hex_val c \<noteq> None"

definition ms_guid :: "string \<Rightarrow> bool" where
  "ms_guid s \<longleftrightarrow>
     (let parts = split_on (CHR ''-'') s in map length parts = [8, 4, 4, 4, 12] \<and> list_all (list_all hex_char) parts)"

definition quoted :: "string \<Rightarrow> string" where
  "quoted s = CHR 0x22 # s @ [CHR 0x22]"

definition parse_edov :: "string \<Rightarrow> bool option" where
  "parse_edov raw =
     (if raw = [] then None
      else Some (trim_space raw \<in> {''true'', quoted ''true'', quoted ''1'', ''1''}))"

definition ms_issuer :: "string \<Rightarrow> string" where
  "ms_issuer tid = ''https://login.microsoftonline.com/'' @ tid @ ''/v2.0''"

text \<open>The address, or the reason of the refusal.\<close>

definition validate_ms_claims :: "env \<Rightarrow> ms_claims \<Rightarrow> string \<Rightarrow> string + string" where
  "validate_ms_claims e cl state_nonce =
     (if state_nonce = [] \<or> mc_nonce cl = [] \<or> mc_nonce cl \<noteq> state_nonce then Inl ''nonce''
      else if \<not> ms_guid (mc_tid cl) \<or> mc_iss cl \<noteq> ms_issuer (mc_tid cl) then Inl ''issuer''
      else if \<not> fold_eq e (mc_tid cl) personal_tenant \<and> mc_edov cl \<noteq> Some True then Inl ''edov''
      else if trim_space (mc_email cl) = [] then Inl ''email_missing''
      else Inr (mc_email cl))"

section \<open>The provider\<close>

text \<open>
  The raw id token for client, secret, redirect address and code; a verified token's claims, or what could be read
  of the tenant when they did not decode; the authorization address of a request.
\<close>

record ms_client =
  mo_exchange :: "string \<Rightarrow> string \<Rightarrow> string \<Rightarrow> string \<Rightarrow> string option"
  mo_verify :: "string \<Rightarrow> string \<Rightarrow> (string + ms_claims) option"
  mo_auth_url :: "auth_request \<Rightarrow> string"

record ms_handlers =
  ms_cache :: "service_row list"
  ms_client_id :: string
  ms_client_secret :: string
  ms_state_secret :: string
  ms_getenv :: "string \<Rightarrow> string"

datatype ms_fetch_err = MsCodeExchange | MsIdToken | MsClaimsDecode string

definition fetch_ms_claims ::
  "ms_client \<Rightarrow> string \<Rightarrow> string \<Rightarrow> string \<Rightarrow> string \<Rightarrow> ms_fetch_err + ms_claims" where
  "fetch_ms_claims mo client secret redirect code =
     (case mo_exchange mo client secret redirect code of
        None \<Rightarrow> Inl MsCodeExchange
      | Some raw \<Rightarrow>
          (case mo_verify mo client raw of
             None \<Rightarrow> Inl MsIdToken
           | Some (Inl tid) \<Rightarrow> Inl (MsClaimsDecode tid)
           | Some (Inr cl) \<Rightarrow> Inr (cl\<lparr>mc_edov := parse_edov (mc_edov_raw cl)\<rparr>)))"

definition ms_creds :: "ms_handlers \<Rightarrow> service_row \<Rightarrow> string" where
  "ms_creds h svc =
     (if nonempty (sv_microsoft_client_id svc) then opt_str (sv_microsoft_client_id svc) else ms_client_id h)"

definition ms_secret :: "ms_handlers \<Rightarrow> service_row \<Rightarrow> string option" where
  "ms_secret h svc =
     resolve_client_secret (ms_getenv h) (sv_microsoft_secret_env svc) (sv_microsoft_client_secret svc) (ms_client_secret h)"

definition ms_callback_url :: "request \<Rightarrow> string" where
  "ms_callback_url r = ''https://'' @ rq_host r @ ''/ms-callback''"

definition ms_auth_base :: string where
  "ms_auth_base = ''https://login.microsoftonline.com/common/oauth2/v2.0''"

definition reject_ms :: "request \<Rightarrow> service_row \<Rightarrow> string \<Rightarrow> string \<Rightarrow> reply io" where
  "reject_ms r svc ctx reason = reject r provider_microsoft svc \<lparr>rj_email = [], rj_context = ctx, rj_reason = reason\<rparr>"

definition ms_request :: "ms_handlers \<Rightarrow> request \<Rightarrow> service_row \<Rightarrow> string \<Rightarrow> string \<Rightarrow> auth_request" where
  "ms_request h r svc state nonce =
     \<lparr>ar_client = ms_creds h svc, ar_endpoint = ms_auth_base @ ''/authorize'', ar_redirect = ms_callback_url r,
      ar_scopes = [''openid'', ''email'', ''profile''], ar_state = state, ar_challenge = None, ar_nonce = nonce,
      ar_prompt = ''select_account''\<rparr>"

definition ms_login :: "env \<Rightarrow> ms_handlers \<Rightarrow> ms_client \<Rightarrow> handler" where
  "ms_login e h mo r =
     (case resolve_social_service e (ms_cache h) r of
        None \<Rightarrow> return_io panic_reply
      | Some svc \<Rightarrow>
          if sv_auth_microsoft svc \<noteq> 1 then return_io (HttpError 403 ''Microsoft-innlogging ikke aktivert'')
          else if ms_secret h svc = None then reject_ms r svc [] ''client_secret_missing''
          else do {
            rn \<leftarrow> generate_nonce e;
            case rn of
              None \<Rightarrow> return_io (HttpError 500 ''intern feil'')
            | Some nonce \<Rightarrow> do {
                now \<leftarrow> time_now e;
                let state = sign_state e now (ms_state_secret h) (sv_id svc) nonce;
                state_cookie e ''ms_state'' state;
                return_io (Redirect 302 (mo_auth_url mo (ms_request h r svc state nonce)))
              }
          })"

section \<open>The callback\<close>

definition ms_tid_context :: "string \<Rightarrow> string" where
  "ms_tid_context tid = (if tid = [] then [] else ''tid='' @ sanitize_log_value tid)"

definition ms_identity :: "env \<Rightarrow> ms_claims \<Rightarrow> string \<Rightarrow> ext_identity" where
  "ms_identity e cl email =
     \<lparr>xi_provider = ''microsoft'', xi_issuer = ms_issuer (lower e (mc_tid cl)), xi_subject = lower e (mc_oid cl),
      xi_email = email, xi_name = mc_name cl\<rparr>"

definition finish_ms ::
  "env \<Rightarrow> issuer \<Rightarrow> request \<Rightarrow> service_row \<Rightarrow> ms_claims \<Rightarrow> string \<Rightarrow> reply io" where
  "finish_ms e i r svc cl state_nonce =
     (case validate_ms_claims e cl state_nonce of
        Inl reason \<Rightarrow> reject_ms r svc (ms_tid_context (mc_tid cl)) reason
      | Inr raw \<Rightarrow>
          if \<not> ms_guid (mc_oid cl) then reject_ms r svc (ms_tid_context (mc_tid cl)) ''missing_oid''
          else finish e i r provider_microsoft svc (ms_identity e cl (normalize_email e raw)))"

definition ms_fetch_failed :: "request \<Rightarrow> service_row \<Rightarrow> ms_fetch_err \<Rightarrow> reply io" where
  "ms_fetch_failed r svc err =
     (case err of
        MsClaimsDecode tid \<Rightarrow> reject_ms r svc (ms_tid_context tid) ''claims_decode''
      | MsCodeExchange \<Rightarrow> reject_ms r svc [] ''code_exchange''
      | MsIdToken \<Rightarrow> reject_ms r svc [] ''id_token'')"

definition ms_answer ::
  "env \<Rightarrow> issuer \<Rightarrow> ms_handlers \<Rightarrow> ms_client \<Rightarrow> request \<Rightarrow> state_claims \<Rightarrow> service_row \<Rightarrow> reply io" where
  "ms_answer e i h mo r c svc =
     (case ms_secret h svc of
        None \<Rightarrow> reject_ms r svc [] ''client_secret_missing''
      | Some secret \<Rightarrow>
          (case fetch_ms_claims mo (ms_creds h svc) secret (ms_callback_url r) (query_get r ''code'') of
             Inl err \<Rightarrow> ms_fetch_failed r svc err
           | Inr cl \<Rightarrow> finish_ms e i r svc cl (st_nonce c)))"

definition ms_callback :: "env \<Rightarrow> issuer \<Rightarrow> ms_handlers \<Rightarrow> ms_client \<Rightarrow> handler" where
  "ms_callback e i h mo r = do {
     rc \<leftarrow> read_state e r ''ms_state'' (ms_state_secret h);
     case rc of
       Inl reply \<Rightarrow> return_io reply
     | Inr c \<Rightarrow>
         if st_admin c \<or> st_idp c \<noteq> [] \<or> st_github c then return_io (redirect_login_error [] LoginFailed)
         else (case resolve e (ms_cache h) [] (st_service c) [] of
                 None \<Rightarrow> do {
                   audit_rejected r provider_microsoft (st_service c)
                     \<lparr>rj_email = [], rj_context = [], rj_reason = ''unknown_service''\<rparr>;
                   return_io (redirect_login_error [] LoginFailed)
                 }
               | Some svc \<Rightarrow> ms_answer e i h mo r c svc)
   }"

section \<open>What is believed\<close>

lemma validate_ms_Inr:
  assumes "validate_ms_claims e cl n = Inr raw"
  shows "mc_nonce cl = n \<and> n \<noteq> [] \<and> ms_guid (mc_tid cl) \<and> mc_iss cl = ms_issuer (mc_tid cl) \<and>
    (fold_eq e (mc_tid cl) personal_tenant \<or> mc_edov cl = Some True) \<and> raw = mc_email cl \<and> trim_space raw \<noteq> []"
  using assms by (auto simp: validate_ms_claims_def split: if_splits)

text \<open>A login state of this flow, a token for it of a tenant that vouches for the address, and a stable subject.\<close>

definition ms_session ::
  "env \<Rightarrow> ms_handlers \<Rightarrow> ms_client \<Rightarrow> request \<Rightarrow> service_row \<Rightarrow> ext_identity \<Rightarrow> bool \<Rightarrow> bool" where
  "ms_session e h mo r svc ext trusted \<longleftrightarrow> trusted \<and>
     (\<exists>c secret cl. state_shown e r ''ms_state'' (ms_state_secret h) c \<and>
        \<not> st_admin c \<and> st_idp c = [] \<and> \<not> st_github c \<and> resolve e (ms_cache h) [] (st_service c) [] = Some svc \<and>
        ms_secret h svc = Some secret \<and>
        fetch_ms_claims mo (ms_creds h svc) secret (ms_callback_url r) (query_get r ''code'') = Inr cl \<and>
        mc_nonce cl = st_nonce c \<and> st_nonce c \<noteq> [] \<and> ms_guid (mc_tid cl) \<and> mc_iss cl = ms_issuer (mc_tid cl) \<and>
        (fold_eq e (mc_tid cl) personal_tenant \<or> mc_edov cl = Some True) \<and> trim_space (mc_email cl) \<noteq> [] \<and>
        ms_guid (mc_oid cl) \<and> ext = ms_identity e cl (normalize_email e (mc_email cl)))"

lemma evolves_ms [evolve_intros]:
  "evolves db_step (ms_login e h mo r)" "evolves db_step (ms_callback e i h mo r)"
proof -
  have fetch: "evolves db_step (ms_fetch_failed r svc err)" for svc err
    by (cases err) (auto simp: ms_fetch_failed_def reject_ms_def reject_def audit_rejected_def intro!: evolve_intros)
  show "evolves db_step (ms_login e h mo r)" "evolves db_step (ms_callback e i h mo r)"
    unfolding ms_login_def ms_callback_def ms_answer_def finish_ms_def reject_ms_def reject_def audit_rejected_def
      generate_nonce_def state_cookie_def read_state_def
    by (intro evolve_intros fetch)+
qed

lemma ms_answer_wp:
  assumes "state_shown e r ''ms_state'' (ms_state_secret h) c" and "w_db w1 = w_db w"
    and "\<not> st_admin c" "st_idp c = []" "\<not> st_github c" "resolve e (ms_cache h) [] (st_service c) [] = Some svc"
  shows "wp (ms_answer e i h mo r c svc) (login_outcome (ms_session e h mo r) e i w) w1"
proof -
  have no: "wp (reject_ms r svc ctx reason) (login_outcome (ms_session e h mo r) e i w) w1" for ctx reason
    unfolding reject_ms_def by (rule outcome_reject [OF assms(2)])
  have failed: "wp (ms_fetch_failed r svc err) (login_outcome (ms_session e h mo r) e i w) w1" for err
    by (cases err) (simp_all add: ms_fetch_failed_def no)
  have fin: "wp (finish_ms e i r svc cl (st_nonce c)) (login_outcome (ms_session e h mo r) e i w) w1"
    if "ms_secret h svc = Some secret"
      "fetch_ms_claims mo (ms_creds h svc) secret (ms_callback_url r) (query_get r ''code'') = Inr cl" for secret cl
  proof (cases "\<exists>raw. validate_ms_claims e cl (st_nonce c) = Inr raw \<and> ms_guid (mc_oid cl)")
    case True
    then obtain raw where v: "validate_ms_claims e cl (st_nonce c) = Inr raw" "ms_guid (mc_oid cl)" by blast
    have "ms_session e h mo r svc (ms_identity e cl (normalize_email e raw)) True"
      unfolding ms_session_def using assms that validate_ms_Inr [OF v(1)] v(2) by blast
    then show ?thesis by (simp add: finish_ms_def v outcome_finish assms(2))
  next
    case False
    then show ?thesis by (auto simp: finish_ms_def no split: sum.split)
  qed
  show ?thesis
    unfolding ms_answer_def by (auto simp: no failed fin split: option.split sum.split)
qed

lemma ms_callback_wp: "wp (ms_callback e i h mo r) (login_outcome (ms_session e h mo r) e i w) w"
  unfolding ms_callback_def wp_bind
  by (rule wp_mono [OF read_state_wp])
    (auto simp: wp_simps outcome_return split: sum.split option.split intro!: ms_answer_wp outcome_audit)

section \<open>Property\<close>

text \<open>The Microsoft callback changes the database only for a verified id token: its nonce is that of a login state
  signed here for a service with Microsoft login, its issuer is the one of its tenant, and the tenant is the one of
  personal accounts or vouches for the address's domain.  The identity is the tenant and the object id, and a session is
  opened only for its active owner.\<close>

theorem ms_callback_gate:
  "case run_state (ms_callback e i h mo r) w of (reply, w') \<Rightarrow> login_outcome (ms_session e h mo r) e i w reply w'"
  using ms_callback_wp [of e i h mo r w] by (simp add: wp_def)

end
