(* ===== verification/GitHub.thy ===== *)
theory GitHub
  imports GenericOidc
begin

text \<open>
  Login with GitHub: \<open>internal/auth/github.go\<close> and \<open>github_client.go\<close>.  GitHub has no id token: the identity is read
  with an access token from its REST interface.  The answers of GitHub, decoded from JSON, are the fields of
  \<open>gh_server\<close>; which answers are believed is modelled here.
\<close>

section \<open>What GitHub answers\<close>

record gh_token_answer =
  ta_access :: string
  ta_type :: string
  ta_error :: string

text \<open>\<open>gu_id\<close> is the JSON text of the id, empty when absent.\<close>

record gh_user =
  gu_id :: string
  gu_name :: "string option"

record gh_email =
  ge_email :: string
  ge_primary :: bool
  ge_verified :: bool

text \<open>An answer is a status and a decoded body, if it decoded; none at all when the transport failed.\<close>

type_synonym 'a gh_answer = "(nat \<times> 'a option) option"

record gh_server =
  gs_token :: "(string \<times> string) list \<Rightarrow> gh_token_answer gh_answer"
  gs_user :: "string \<Rightarrow> gh_user gh_answer"
  gs_emails :: "string \<Rightarrow> gh_email list gh_answer"

datatype gh_err = GhCodeExchange | GhUserFetch | GhMissingID

definition gh_exchange ::
  "env \<Rightarrow> gh_server \<Rightarrow> string \<Rightarrow> string \<Rightarrow> string \<Rightarrow> string \<Rightarrow> string \<Rightarrow> gh_err + string" where
  "gh_exchange e gs client secret code redirect verifier =
     (case gs_token gs [(''client_id'', client), (''client_secret'', secret), (''code'', code),
          (''redirect_uri'', redirect), (''code_verifier'', verifier)] of
        Some (status, Some out) \<Rightarrow>
          if status \<noteq> 200 then Inl GhCodeExchange
          else if ta_error out \<noteq> [] then Inl GhCodeExchange
          else if ta_access out = [] \<or> \<not> fold_eq e (ta_type out) ''bearer'' then Inl GhCodeExchange
          else Inr (ta_access out)
      | _ \<Rightarrow> Inl GhCodeExchange)"

definition get_json :: "'a gh_answer \<Rightarrow> gh_err + 'a" where
  "get_json answer =
     (case answer of
        Some (status, Some out) \<Rightarrow> if status \<noteq> 200 then Inl GhUserFetch else Inr out
      | _ \<Rightarrow> Inl GhUserFetch)"

definition gh_subject :: "string \<Rightarrow> gh_err + string" where
  "gh_subject txt =
     (case parse_int64 txt of
        None \<Rightarrow> Inl GhMissingID
      | Some i \<Rightarrow> if i \<le> 0 \<or> format_int i \<noteq> txt then Inl GhMissingID else Inr txt)"

text \<open>Subject and name of the user; only a JSON number counts as an id.\<close>

definition gh_user_of :: "gh_server \<Rightarrow> string \<Rightarrow> gh_err + string \<times> string" where
  "gh_user_of gs at =
     (case get_json (gs_user gs at) of
        Inl x \<Rightarrow> Inl x
      | Inr u \<Rightarrow>
          (let n = gu_id u;
               txt = (case n of [] \<Rightarrow> [] | c # _ \<Rightarrow> if c = CHR ''-'' \<or> is_digit c then n else [])
           in map_sum id (\<lambda>sub. (sub, opt_str (gu_name u))) (gh_subject txt)))"

fun pick_primary :: "gh_email list \<Rightarrow> gh_email option \<Rightarrow> gh_email option option" where
  "pick_primary [] found = Some found"
| "pick_primary (x # xs) found =
     (if \<not> ge_primary x then pick_primary xs found
      else if found \<noteq> None then None
      else pick_primary xs (Some x))"

definition noreply_domain :: string where "noreply_domain = ''noreply.github.com''"

definition pick_email :: "env \<Rightarrow> gh_email list \<Rightarrow> string \<times> bool" where
  "pick_email e es =
     (case pick_primary es None of
        Some (Some x) \<Rightarrow>
          if \<not> ge_verified x \<or> \<not> raw_email_safe (ge_email x) then ([], False)
          else (let domain = lower e (case cut_last (CHR ''@'') (ge_email x) of None \<Rightarrow> ge_email x | Some (_, d) \<Rightarrow> d) in
                if domain = noreply_domain \<or> has_suffix domain (CHR ''.'' # noreply_domain) then ([], False)
                else (ge_email x, True))
      | _ \<Rightarrow> ([], False))"

record gh_identity =
  gi_subject :: string
  gi_name :: string
  gi_email :: string
  gi_trusted :: bool

definition gh_fetch ::
  "env \<Rightarrow> gh_server \<Rightarrow> string \<Rightarrow> string \<Rightarrow> string \<Rightarrow> string \<Rightarrow> string \<Rightarrow> gh_err + gh_identity" where
  "gh_fetch e gs client secret code redirect verifier =
     (case gh_exchange e gs client secret code redirect verifier of
        Inl x \<Rightarrow> Inl x
      | Inr at \<Rightarrow>
          (case gh_user_of gs at of
             Inl x \<Rightarrow> Inl x
           | Inr (sub, name) \<Rightarrow>
               (case get_json (gs_emails gs at) of
                  Inl x \<Rightarrow> Inl x
                | Inr es \<Rightarrow>
                    (case pick_email e es of (email, trusted) \<Rightarrow>
                       Inr \<lparr>gi_subject = sub, gi_name = name, gi_email = email, gi_trusted = trusted\<rparr>))))"

section \<open>Foreign text\<close>

definition provider_error_token :: "string \<Rightarrow> string" where
  "provider_error_token s = map (\<lambda>c. if token_char c \<or> c = CHR ''.'' then c else CHR ''_'') (take 64 s)"

definition is_bidi_control :: "nat \<Rightarrow> bool" where
  "is_bidi_control r \<longleftrightarrow> 0x200E \<le> r \<and> r \<le> 0x200F \<or> 0x202A \<le> r \<and> r \<le> 0x202E \<or> 0x2066 \<le> r \<and> r \<le> 0x2069"

definition max_display_name :: nat where "max_display_name = 100"

definition drop_runes :: "(nat \<Rightarrow> bool) \<Rightarrow> string \<Rightarrow> string" where
  "drop_runes P s =
     concat (map (\<lambda>(r, b). case r of None \<Rightarrow> replacement | Some c \<Rightarrow> if P c then [] else b) (runes s))"

definition take_runes :: "nat \<Rightarrow> string \<Rightarrow> string" where
  "take_runes n s = concat (map (\<lambda>(r, b). case r of None \<Rightarrow> replacement | Some _ \<Rightarrow> b) (take n (runes s)))"

definition clean_display_name :: "string \<Rightarrow> string" where
  "clean_display_name s =
     (let a = trim_space (drop_runes (\<lambda>r. is_control r \<or> is_bidi_control r) (to_valid_utf8 s));
          b = (if max_display_name < length (runes a) then take_runes max_display_name a else a)
      in trim_space b)"

section \<open>Starting\<close>

record gh_handlers =
  gt_cache :: "service_row list"
  gt_client :: string
  gt_client_secret :: string
  gt_secret :: string
  gt_base_url :: string
  gt_getenv :: "string \<Rightarrow> string"

definition gh_client_id :: "gh_handlers \<Rightarrow> service_row \<Rightarrow> string" where
  "gh_client_id h svc =
     (if nonempty (sv_github_client_id svc) then opt_str (sv_github_client_id svc) else gt_client h)"

definition gh_secret :: "gh_handlers \<Rightarrow> service_row \<Rightarrow> string option" where
  "gh_secret h svc =
     (case resolve_client_secret (gt_getenv h) (sv_github_secret_env svc) None (gt_client_secret h) of
        None \<Rightarrow> None
      | Some s \<Rightarrow> if trim_space s = [] then None else Some s)"

definition gh_redirect_url :: "request \<Rightarrow> string" where
  "gh_redirect_url r = ''https://'' @ rq_host r @ ''/github-callback''"

definition gh_authorize_values :: "env \<Rightarrow> gh_handlers \<Rightarrow> request \<Rightarrow> service_row \<Rightarrow> string \<Rightarrow> (string \<times> string) list" where
  "gh_authorize_values e h r svc state =
     fold (\<lambda>(k, v). values_set k v)
       [(''client_id'', gh_client_id h svc), (''response_type'', ''code''), (''redirect_uri'', gh_redirect_url r),
        (''scope'', ''read:user user:email''), (''state'', state),
        (''code_challenge'', s256_challenge e (pkce_verifier e (gt_secret h) state)),
        (''code_challenge_method'', ''S256''), (''prompt'', ''select_account'')] []"

definition reject_gh :: "request \<Rightarrow> service_row \<Rightarrow> string \<Rightarrow> string \<Rightarrow> reply io" where
  "reject_gh r svc ctx reason = reject r provider_github svc \<lparr>rj_email = [], rj_context = ctx, rj_reason = reason\<rparr>"

definition gh_login :: "env \<Rightarrow> gh_handlers \<Rightarrow> handler" where
  "gh_login e h r =
     (case resolve_social_service e (gt_cache h) r of
        None \<Rightarrow> return_io (redirect_login_error [] LoginFailed)
      | Some svc \<Rightarrow>
          if sv_auth_github svc \<noteq> 1 then return_io (HttpError 403 ''GitHub-innlogging ikke aktivert'')
          else if gh_secret h svc = None then reject_gh r svc [] ''client_secret_missing''
          else do {
            rn \<leftarrow> generate_nonce e;
            case rn of
              None \<Rightarrow> return_io (HttpError 500 ''intern feil'')
            | Some nonce \<Rightarrow> do {
                now \<leftarrow> time_now e;
                let state = sign_github_state e now (gt_secret h) (sv_id svc) nonce;
                state_cookie e ''gh_state'' state;
                set_header ''Cache-Control'' ''no-store'';
                return_io (Redirect 302 (gt_base_url h @ ''/login/oauth/authorize?'' @
                  values_encode (gh_authorize_values e h r svc state)))
              }
          })"

section \<open>The callback\<close>

definition gh_reason :: "gh_err \<Rightarrow> string" where
  "gh_reason x =
     (case x of GhCodeExchange \<Rightarrow> ''code_exchange'' | GhMissingID \<Rightarrow> ''missing_id'' | GhUserFetch \<Rightarrow> ''user_fetch'')"

definition gh_external :: "gh_identity \<Rightarrow> ext_identity" where
  "gh_external gi =
     \<lparr>xi_provider = ''github'', xi_issuer = ''https://github.com'', xi_subject = gi_subject gi, xi_email = gi_email gi,
      xi_name = clean_display_name (gi_name gi)\<rparr>"

definition gh_fetched ::
  "env \<Rightarrow> issuer \<Rightarrow> gh_handlers \<Rightarrow> gh_server \<Rightarrow> request \<Rightarrow> service_row \<Rightarrow> string \<Rightarrow> reply io" where
  "gh_fetched e i h gs r svc secret =
     (case gh_fetch e gs (gh_client_id h svc) secret (query_get r ''code'') (gh_redirect_url r)
             (pkce_verifier e (gt_secret h) (query_get r ''state'')) of
        Inl x \<Rightarrow> reject_gh r svc [] (gh_reason x)
      | Inr gi \<Rightarrow> finish_with_policy e i r provider_github svc (gh_external gi)
                    ((policy_for svc)\<lparr>lp_untrusted := \<not> gi_trusted gi\<rparr>) [])"

definition gh_allowed ::
  "env \<Rightarrow> issuer \<Rightarrow> gh_handlers \<Rightarrow> gh_server \<Rightarrow> request \<Rightarrow> service_row \<Rightarrow> reply io" where
  "gh_allowed e i h gs r svc =
     (if sv_auth_github svc \<noteq> 1 then reject_gh r svc [] ''method_disabled''
      else if query_get r ''error'' \<noteq> []
      then reject_gh r svc (''error='' @ provider_error_token (query_get r ''error'')) ''provider_error''
      else case gh_secret h svc of
        None \<Rightarrow> reject_gh r svc [] ''client_secret_missing''
      | Some secret \<Rightarrow> gh_fetched e i h gs r svc secret)"

definition gh_callback :: "env \<Rightarrow> issuer \<Rightarrow> gh_handlers \<Rightarrow> gh_server \<Rightarrow> handler" where
  "gh_callback e i h gs r = do {
     rc \<leftarrow> read_state e r ''gh_state'' (gt_secret h);
     case rc of
       Inl reply \<Rightarrow> return_io reply
     | Inr c \<Rightarrow> do {
         clear_cookie e ''gh_state'';
         (if \<not> st_github c then return_io (redirect_login_error [] LoginFailed)
          else case resolve e (gt_cache h) [] (st_service c) [] of
            None \<Rightarrow> do {
              audit_rejected r provider_github (st_service c)
                \<lparr>rj_email = [], rj_context = [], rj_reason = ''unknown_service''\<rparr>;
              return_io (redirect_login_error [] LoginFailed)
            }
          | Some svc \<Rightarrow> gh_allowed e i h gs r svc)
       }
   }"

section \<open>What is believed\<close>

lemma gh_subject_Inr: "gh_subject txt = Inr sub \<Longrightarrow> sub = txt \<and> (\<exists>i > 0. txt = format_int i)"
  by (auto simp: gh_subject_def split: option.splits if_splits) (metis not_le)

lemma pick_primary_found: "pick_primary es (Some y) = Some z \<Longrightarrow> z = Some y \<and> (\<forall>x \<in> set es. \<not> ge_primary x)"
  by (induction es) (auto split: if_splits)

lemma pick_primary_Some:
  "pick_primary es None = Some (Some y) \<Longrightarrow> filter ge_primary es = [y]"
proof (induction es)
  case (Cons x es)
  show ?case
  proof (cases "ge_primary x")
    case True
    with Cons.prems have "pick_primary es (Some x) = Some (Some y)" by simp
    from pick_primary_found [OF this] True show ?thesis by (auto simp: filter_empty_conv)
  next
    case False
    with Cons show ?thesis by simp
  qed
qed simp

text \<open>The address counts: the only primary one, verified, plain, and not one of GitHub's hidden addresses.\<close>

definition gh_address_ok :: "env \<Rightarrow> gh_email list \<Rightarrow> string \<Rightarrow> bool" where
  "gh_address_ok e es email \<longleftrightarrow>
     (\<exists>x domain. filter ge_primary es = [x] \<and> ge_verified x \<and> ge_email x = email \<and> raw_email_safe email \<and>
        (case cut_last (CHR ''@'') email of None \<Rightarrow> email | Some (_, d) \<Rightarrow> d) = domain \<and>
        lower e domain \<noteq> noreply_domain \<and> \<not> has_suffix (lower e domain) (CHR ''.'' # noreply_domain))"

lemma pick_email_cases:
  "pick_email e es = ([], False) \<or> (\<exists>email. pick_email e es = (email, True) \<and> gh_address_ok e es email)"
  by (auto simp: pick_email_def gh_address_ok_def Let_def split: option.split dest: pick_primary_Some)

text \<open>An identity as \<open>gh_fetch\<close> gives it.\<close>

definition gh_identity_ok :: "env \<Rightarrow> gh_server \<Rightarrow> gh_identity \<Rightarrow> bool" where
  "gh_identity_ok e gs gi \<longleftrightarrow>
     (\<exists>i > 0. gi_subject gi = format_int i) \<and>
     (if gi_trusted gi then (\<exists>at es. gs_emails gs at = Some (200, Some es) \<and> gh_address_ok e es (gi_email gi))
      else gi_email gi = [])"

lemma get_json_Inr: "get_json a = Inr x \<longleftrightarrow> a = Some (200, Some x)"
  by (auto simp: get_json_def split: option.splits if_splits)

lemma gh_user_subject: "gh_user_of gs at = Inr (sub, name) \<Longrightarrow> \<exists>i > 0. sub = format_int i"
  by (auto simp: gh_user_of_def Let_def map_sum_def split: sum.splits list.splits if_splits dest!: gh_subject_Inr)

lemma gh_fetch_Inr:
  assumes "gh_fetch e gs client secret code redirect v = Inr gi"
  shows "gh_identity_ok e gs gi"
proof -
  from assms obtain at sub name es where *: "gh_user_of gs at = Inr (sub, name)" "gs_emails gs at = Some (200, Some es)"
    and gi: "gi = \<lparr>gi_subject = sub, gi_name = name, gi_email = fst (pick_email e es), gi_trusted = snd (pick_email e es)\<rparr>"
    by (auto simp: gh_fetch_def get_json_Inr split: sum.splits prod.splits)
  from gh_user_subject [OF *(1)] *(2) show ?thesis
    using pick_email_cases [of e es] unfolding gh_identity_ok_def gi by (elim disjE exE conjE; simp; blast)
qed

definition gh_session ::
  "env \<Rightarrow> gh_handlers \<Rightarrow> gh_server \<Rightarrow> request \<Rightarrow> service_row \<Rightarrow> ext_identity \<Rightarrow> bool \<Rightarrow> bool" where
  "gh_session e h gs r svc ext trusted \<longleftrightarrow>
     (\<exists>c secret gi. state_shown e r ''gh_state'' (gt_secret h) c \<and> st_github c \<and>
        resolve e (gt_cache h) [] (st_service c) [] = Some svc \<and> sv_auth_github svc = 1 \<and> query_get r ''error'' = [] \<and>
        gh_secret h svc = Some secret \<and>
        gh_fetch e gs (gh_client_id h svc) secret (query_get r ''code'') (gh_redirect_url r)
          (pkce_verifier e (gt_secret h) (query_get r ''state'')) = Inr gi \<and>
        gh_identity_ok e gs gi \<and> ext = gh_external gi \<and> trusted = gi_trusted gi)"

lemma evolves_gh [evolve_intros]:
  "evolves db_step (gh_login e h r)" "evolves db_step (gh_callback e i h gs r)"
  unfolding gh_login_def gh_callback_def gh_allowed_def gh_fetched_def reject_gh_def reject_def audit_rejected_def
    generate_nonce_def state_cookie_def read_state_def clear_cookie_def
  by (intro evolve_intros)+

lemma gh_allowed_wp:
  assumes "state_shown e r ''gh_state'' (gt_secret h) c" and "w_db w1 = w_db w"
    and "st_github c" "resolve e (gt_cache h) [] (st_service c) [] = Some svc"
  shows "wp (gh_allowed e i h gs r svc) (login_outcome (gh_session e h gs r) e i w) w1"
proof -
  have no: "wp (reject_gh r svc ctx reason) (login_outcome (gh_session e h gs r) e i w) w1" for ctx reason
    unfolding reject_gh_def by (rule outcome_reject [OF assms(2)])
  have fin: "wp (gh_fetched e i h gs r svc secret) (login_outcome (gh_session e h gs r) e i w) w1"
    if "sv_auth_github svc = 1" "query_get r ''error'' = []" "gh_secret h svc = Some secret" for secret
  proof (cases "gh_fetch e gs (gh_client_id h svc) secret (query_get r ''code'') (gh_redirect_url r)
          (pkce_verifier e (gt_secret h) (query_get r ''state''))")
    case (Inr gi)
    have "gh_session e h gs r svc (gh_external gi) (gi_trusted gi)"
      unfolding gh_session_def using assms that Inr gh_fetch_Inr [OF Inr] by blast
    then show ?thesis by (simp add: gh_fetched_def Inr outcome_finish_with_policy assms(2))
  qed (simp add: gh_fetched_def no)
  show ?thesis
    unfolding gh_allowed_def by (auto simp: no fin split: option.split)
qed

lemma gh_callback_wp: "wp (gh_callback e i h gs r) (login_outcome (gh_session e h gs r) e i w) w"
  unfolding gh_callback_def wp_bind
  by (rule wp_mono [OF read_state_wp])
    (auto simp: wp_simps cookie_defs outcome_return split: sum.split option.split intro!: gh_allowed_wp outcome_audit)

section \<open>Property\<close>

text \<open>C30. The GitHub callback changes the database only for a login state of this flow and an identity that GitHub gave
  for the code and the state's PKCE verifier: a positive id in canonical form, and an address that counts only when it is
  the single primary one, verified, plain ASCII and not hidden.  An address that does not count links no identity, and a
  session is opened only for the identity's active owner.\<close>

theorem gh_callback_gate:
  "case run_state (gh_callback e i h gs r) w of (reply, w') \<Rightarrow> login_outcome (gh_session e h gs r) e i w reply w'"
  using gh_callback_wp [of e i h gs r w] by (simp add: wp_def)

end
