(* ===== verification/AdminUsers.thy ===== *)
theory AdminUsers
  imports AdminAuth
begin

text \<open>
  The user pages of the admin panel: \<open>internal/admin/users.go\<close>.  The list with its filter and paging, the form of a new
  user, changes of name, roles and organisations, and the export.  The handlers run behind the admin middleware, which
  passes the acting administrator; \<open>chi.URLParam\<close> is an argument.  Paging computes in \<open>int\<close>, 64 bits that wrap
  around, and a slice with a negative bound panics.
\<close>

section \<open>The handler\<close>

text \<open>
  \<open>au_invites\<close> is nil unless \<open>WithInvites\<close> was called; \<open>au_err\<close> is \<open>err.Error()\<close> of the database driver.
\<close>

record invite_deps =
  id_idps :: idp_registry
  id_base_url :: string

record users_handler =
  au_invites :: "invite_deps option"
  au_err :: "db_err \<Rightarrow> string"

definition users_per_page :: int where "users_per_page = 25"

definition not_found :: reply where "not_found = HttpError 404 ''404 page not found''"

definition db_error :: reply where "db_error = HttpError 500 ''databasefeil''"

definition db_error_text :: "users_handler \<Rightarrow> db_err \<Rightarrow> reply" where
  "db_error_text h x = HttpError 500 (''databasefeil: '' @ au_err h x)"

definition users_redirect :: "bool \<Rightarrow> string" where
  "users_redirect audit_ok = (if audit_ok then ''/admin/users'' else redirect_with_warns ''/admin/users'' [''audit''])"

definition write_event :: "request \<Rightarrow> string \<Rightarrow> string \<Rightarrow> string \<Rightarrow> event" where
  "write_event r typ email details = method_event r typ [] email [] True details"

section \<open>The list\<close>

text \<open>\<open>strconv.Atoi\<close> without its error: 0 for text that is no number, the nearest 64-bit number when out of range.\<close>

definition atoi :: "string \<Rightarrow> int" where
  "atoi s =
     (let (neg, ds) = (case s of [] \<Rightarrow> (False, [])
                       | c # cs \<Rightarrow> if c = CHR ''+'' then (False, cs) else if c = CHR ''-'' then (True, cs) else (False, s))
      in if ds = [] \<or> \<not> list_all is_digit ds then 0
         else if neg then - int (min (dec_val ds) (2 ^ 63)) else int (min (dec_val ds) (2 ^ 63 - 1)))"

definition wrap64 :: "int \<Rightarrow> int" where
  "wrap64 i = signed_take_bit 63 i"

text \<open>\<open>xs[a:b]\<close> with \<open>b\<close> at most the length; \<open>None\<close> is the panic.\<close>

definition go_slice :: "'a list \<Rightarrow> int \<Rightarrow> int \<Rightarrow> 'a list option" where
  "go_slice xs a b = (if 0 \<le> a \<and> a \<le> b \<and> b \<le> int (length xs) then Some (take (nat (b - a)) (drop (nat a) xs)) else None)"

text \<open>
  SQLite's \<open>LIKE\<close>: \<open>%\<close> stands for any text, \<open>_\<close> for one character, ASCII letters match in either case, and both
  texts end at a NUL.
\<close>

definition skip_char :: "string \<Rightarrow> string" where
  "skip_char s =
     (case s of [] \<Rightarrow> []
      | c # cs \<Rightarrow> if 192 \<le> byte c then dropWhile (\<lambda>d. cont_byte (byte d)) cs else cs)"

lemma skip_char_shorter: "s \<noteq> [] \<Longrightarrow> length (skip_char s) < length s"
  using length_dropWhile_le [of "\<lambda>d. cont_byte (byte d)" "tl s"]
  by (cases s) (auto simp: skip_char_def le_imp_less_Suc)

function like_match :: "string \<Rightarrow> string \<Rightarrow> bool" where
  "like_match [] s = (s = [])"
| "like_match (p # ps) s =
     (if p = CHR ''%'' then like_match ps s \<or> (if s = [] then False else like_match (p # ps) (skip_char s))
      else if p = CHR ''_'' then (if s = [] then False else like_match ps (skip_char s))
      else case s of [] \<Rightarrow> False | c # cs \<Rightarrow> ascii_lower_char c = ascii_lower_char p \<and> like_match ps cs)"
  by pat_completeness auto
termination
  by (relation "measure (\<lambda>(ps, s). length ps + length s)") (auto simp: skip_char_shorter less_SucI)

declare like_match.simps [simp del]

definition sql_like :: "string \<Rightarrow> string \<Rightarrow> bool" where
  "sql_like pat s = like_match (takeWhile (\<lambda>c. c \<noteq> CHR 0x00) pat) (takeWhile (\<lambda>c. c \<noteq> CHR 0x00) s)"

definition list_users_by_org :: "string \<Rightarrow> int \<Rightarrow> int \<Rightarrow> db \<Rightarrow> db_err + user_row list" where
  "list_users_by_org pat limit off d =
     Inr (sql_page limit off (sort_key u_email (filter (\<lambda>u. sql_like pat (u_orgs u)) (t_users d))))"

definition page_number :: "request \<Rightarrow> int" where
  "page_number r = max 1 (atoi (query_get r ''page''))"

definition search_hit :: "env \<Rightarrow> string \<Rightarrow> user_row \<Rightarrow> bool" where
  "search_hit e search u \<longleftrightarrow>
     (let needle = to_lower (e_lower e) search in
      needle = [] \<or> index_text (to_lower (e_lower e) (u_email u)) needle \<noteq> None)"

definition page_of :: "int \<Rightarrow> 'a list \<Rightarrow> 'a list option" where
  "page_of page xs =
     (let start = wrap64 ((page - 1) * users_per_page);
          stop = wrap64 (start + users_per_page);
          n = int (length xs)
      in go_slice xs (if start > n then n else start) (if stop > n then n else stop))"

definition users_page :: "request \<Rightarrow> string \<Rightarrow> string \<Rightarrow> int \<Rightarrow> user_row list \<Rightarrow> nat \<Rightarrow> reply io" where
  "users_page r search org page users count =
     (let pages = max 1 ((int count + users_per_page - 1) div users_per_page) in
      html_page 200 ''admin/users.html''
        ([(''search'', search), (''org'', org), (''page'', format_int page), (''total_pages'', format_int pages),
          (''prev_page'', format_int (if 1 < page then page - 1 else 0)),
          (''next_page'', format_int (if page < pages then page + 1 else 0)),
          (''warn_audit'', flag_text (warn_flags r [''audit''] \<noteq> []))] @
         map (\<lambda>u. (''user:'' @ format_int (u_id u), u_email u)) users))"

definition filtered_users :: "env \<Rightarrow> users_handler \<Rightarrow> request \<Rightarrow> string \<Rightarrow> string \<Rightarrow> reply io" where
  "filtered_users e h r search org = do {
     ra \<leftarrow> db_read e ReqCtx
       (if org \<noteq> [] then list_users_by_org (CHR ''%'' # org @ ''%'') 1000 0 else list_users 1000 0);
     case ra of
       Inl x \<Rightarrow> return_io (db_error_text h x)
     | Inr rows \<Rightarrow>
         (let hits = filter (search_hit e search) rows in
          case page_of (page_number r) hits of
            None \<Rightarrow> return_io panic_reply
          | Some users \<Rightarrow> users_page r search org (page_number r) users (length hits))
   }"

definition all_users_page :: "env \<Rightarrow> users_handler \<Rightarrow> request \<Rightarrow> reply io" where
  "all_users_page e h r = do {
     ra \<leftarrow> db_read e ReqCtx (list_users users_per_page (wrap64 ((page_number r - 1) * users_per_page)));
     case ra of
       Inl x \<Rightarrow> return_io (db_error_text h x)
     | Inr users \<Rightarrow> do {
         rn \<leftarrow> db_read e ReqCtx count_users;
         case rn of
           Inl x \<Rightarrow> return_io (db_error_text h x)
         | Inr count \<Rightarrow> users_page r [] [] (page_number r) users count
       }
   }"

definition list_users_page :: "env \<Rightarrow> users_handler \<Rightarrow> handler" where
  "list_users_page e h r =
     (let search = trim_space (query_get r ''search''); org = trim_space (query_get r ''org'') in
      if search \<noteq> [] \<or> org \<noteq> [] then filtered_users e h r search org else all_users_page e h r)"

section \<open>A new user\<close>

definition new_user_page :: "reply io" where
  "new_user_page = html_page 200 ''admin/user-edit.html'' [(''is_new'', ''1'')]"

definition edit_error :: "string \<Rightarrow> string \<Rightarrow> string \<Rightarrow> string \<Rightarrow> reply io" where
  "edit_error roles orgs form_email msg =
     html_page 422 ''admin/user-edit.html''
       [(''is_new'', ''1''), (''roles'', roles), (''orgs'', orgs), (''form_email'', form_email), (''error'', msg)]"

definition nonblank :: "string \<Rightarrow> string option" where
  "nonblank s = (if s = [] then None else Some s)"

definition default_cost :: nat where "default_cost = 10"

text \<open>\<open>None\<close> when bcrypt refuses the password; no password is no hash.\<close>

definition new_password_hash :: "env \<Rightarrow> string \<Rightarrow> string option option" where
  "new_password_hash e password =
     (if password = [] then Some None else map_option Some (e_bcrypt_hash e default_cost password))"

definition create_user_params :: "string \<Rightarrow> string \<Rightarrow> string option \<Rightarrow> request \<Rightarrow> instant \<Rightarrow> user_params" where
  "create_user_params pid email hash r now =
     \<lparr>up_public_id = pid, up_email = email, up_password_hash = hash,
      up_name = nonblank (trim_space (post_form_value r ''name'')), up_roles = trim_space (post_form_value r ''roles''),
      up_orgs = trim_space (post_form_value r ''orgs''), up_created = format_utc now\<rparr>"

definition store_new_user :: "env \<Rightarrow> string \<Rightarrow> request \<Rightarrow> string \<Rightarrow> user_params \<Rightarrow> reply io" where
  "store_new_user e actor r email p = do {
     ru \<leftarrow> db_write e ReqCtx (create_user p);
     case ru of
       Inl x \<Rightarrow> edit_error (up_roles p) (up_orgs p) email
         (if x = UniqueViolation then ''Feil ved opprettelse: finnes e-posten allerede?'' else ''Feil ved opprettelse.'')
     | Inr _ \<Rightarrow> do {
         ok \<leftarrow> log_admin_write e actor (write_event r ''user_created'' email []);
         return_io (Redirect 303 (users_redirect ok))
       }
   }"

definition handle_create :: "env \<Rightarrow> string \<Rightarrow> handler" where
  "handle_create e actor r =
     (let email = trim_space (to_lower (e_lower e) (post_form_value r ''email''));
          roles = trim_space (post_form_value r ''roles''); orgs = trim_space (post_form_value r ''orgs'')
      in if email = [] then edit_error roles orgs email (''E-post er p'' @ [CHR 0xC3, CHR 0xA5] @ ''krevd.'')
      else case new_password_hash e (post_form_value r ''password'') of
        None \<Rightarrow> edit_error [] [] email ''Feil ved hashing av passord.''
      | Some hash \<Rightarrow> do {
          now \<leftarrow> time_now e;
          pid \<leftarrow> new_public_id e;
          case pid of
            None \<Rightarrow> edit_error roles orgs email ''Intern feil ved opprettelse.''
          | Some pid \<Rightarrow> store_new_user e actor r email (create_user_params pid email hash r now)
        })"

section \<open>The form of an existing user\<close>

record identity_view =
  iw_id :: int
  iw_provider :: string
  iw_tenant :: string
  iw_subject :: string
  iw_email :: string
  iw_created :: string
  iw_last_used :: string
  iw_admin_ok :: bool
  iw_unknown :: bool

definition dash :: string where "dash = [CHR 0xE2, CHR 0x80, CHR 0x94]"

definition ms_issuer_prefix :: string where "ms_issuer_prefix = ''https://login.microsoftonline.com/''"

definition rune_text :: "nat option \<times> string \<Rightarrow> string" where
  "rune_text x = (case x of (None, _) \<Rightarrow> replacement | (Some _, b) \<Rightarrow> b)"

definition short_subject :: "string \<Rightarrow> string" where
  "short_subject s =
     (let r = map rune_text (runes s) in
      if length r \<le> 6 then concat r else concat (take 6 r) @ [CHR 0xE2, CHR 0x80, CHR 0xA6])"

definition oidc_view :: "(string \<Rightarrow> (string \<times> string) option) \<Rightarrow> string \<Rightarrow> identity_view \<Rightarrow> identity_view" where
  "oidc_view names issuer v =
     (case names issuer of
        Some (name, slug) \<Rightarrow> v\<lparr>iw_provider := name @ '' ('' @ slug @ '')''\<rparr>
      | None \<Rightarrow> v\<lparr>iw_provider := ''ukjent leverand'' @ [CHR 0xC3, CHR 0xB8] @ ''r'', iw_unknown := True, iw_tenant := issuer\<rparr>)"

definition ms_tenant :: "string \<Rightarrow> string option" where
  "ms_tenant issuer =
     (case cut_prefix ms_issuer_prefix issuer of
        None \<Rightarrow> None
      | Some rest \<Rightarrow>
          if CHR ''/'' \<in> set rest \<and> hd rest \<noteq> CHR ''/'' then Some (takeWhile (\<lambda>c. c \<noteq> CHR ''/'') rest) else None)"

definition identity_view_of :: "(string \<Rightarrow> (string \<times> string) option) \<Rightarrow> identity_row \<Rightarrow> identity_view" where
  "identity_view_of names i =
     (let v = \<lparr>iw_id = ui_id i, iw_provider = ui_provider i, iw_tenant = dash, iw_subject = short_subject (ui_subject i),
                iw_email = dash, iw_created = ui_created i, iw_last_used = dash, iw_admin_ok = (ui_admin_ok i = 1),
                iw_unknown = False\<rparr>;
          v = (if ui_provider i = ''oidc'' then oidc_view names (ui_issuer i) v else v);
          v = (if ui_provider i = ''github'' then v\<lparr>iw_provider := ''GitHub''\<rparr> else v);
          v = (if ui_provider i = ''microsoft'' then (case ms_tenant (ui_issuer i) of None \<Rightarrow> v | Some t \<Rightarrow> v\<lparr>iw_tenant := t\<rparr>) else v);
          v = (if opt_str (ui_email i) \<noteq> [] then v\<lparr>iw_email := opt_str (ui_email i)\<rparr> else v)
      in if opt_str (ui_last_used i) \<noteq> [] then v\<lparr>iw_last_used := opt_str (ui_last_used i)\<rparr> else v)"

text \<open>A later row of the same issuer replaces the earlier one in the map.\<close>

definition identity_views :: "identity_row list \<Rightarrow> (string \<times> string \<times> string) list \<Rightarrow> identity_view list" where
  "identity_views rows names = map (identity_view_of (map_of (rev names))) rows"

record invite_view =
  vw_id :: int
  vw_provider :: string
  vw_service :: string
  vw_expires :: string
  vw_created_by :: string

definition invite_view_of :: "provider_row list \<Rightarrow> invite_row \<Rightarrow> invite_view" where
  "invite_view_of provs r =
     \<lparr>vw_id = li_id r, vw_provider = (case map_of (map (\<lambda>p. (ip_id p, ip_display_name p)) (rev provs)) (li_provider r) of
         None \<Rightarrow> [] | Some n \<Rightarrow> n), vw_service = li_service r, vw_expires = li_expires r, vw_created_by = li_created_by r\<rparr>"

definition invite_options :: "idp_registry \<Rightarrow> service_row list \<Rightarrow> (string \<times> string) list" where
  "invite_options ir svcs =
     concat (map (\<lambda>s. map (\<lambda>p. (pr_slug p @ '':'' @ sv_id s, pr_name p @ '' p'' @ [CHR 0xC3, CHR 0xA5] @ '' '' @ sv_id s))
       (for_service ir (sv_id s))) (filter (\<lambda>s. sv_active s = 1) svcs))"

definition invite_data ::
  "env \<Rightarrow> users_handler \<Rightarrow> user_row \<Rightarrow> (invite_view list \<times> (string \<times> string) list) option io" where
  "invite_data e h u =
     (case au_invites h of
        None \<Rightarrow> return_io (Some ([], []))
      | Some deps \<Rightarrow> do {
          now \<leftarrow> time_now e;
          rr \<leftarrow> db_read e ReqCtx (list_active_invites (u_id u) (format_link_invite_time now));
          case rr of
            Inl _ \<Rightarrow> return_io None
          | Inr rows \<Rightarrow> do {
              rp \<leftarrow> db_read e ReqCtx list_all_identity_providers;
              case rp of
                Inl _ \<Rightarrow> return_io None
              | Inr provs \<Rightarrow>
                  if u_deactivated u \<noteq> None then return_io (Some (map (invite_view_of provs) rows, []))
                  else do {
                    rs \<leftarrow> db_read e ReqCtx list_all_services;
                    return_io (case rs of
                      Inl _ \<Rightarrow> None
                    | Inr svcs \<Rightarrow> Some (map (invite_view_of provs) rows, invite_options (id_idps deps) svcs))
                  }
            }
        })"

text \<open>The fields of the form.  A bound administrator without an approved identity is shown as such.\<close>

definition edit_fields ::
  "users_handler \<Rightarrow> user_row \<Rightarrow> identity_view list \<Rightarrow> invite_view list \<times> (string \<times> string) list \<Rightarrow> (string \<times> string) list" where
  "edit_fields h u views invites =
     [(''is_new'', ''0''), (''user_id'', format_int (u_id u)), (''email'', u_email u), (''roles'', u_roles u), (''orgs'', u_orgs u),
      (''admin_bound_at'', opt_str (u_admin_bound u)),
      (''bound_without_identity'', flag_text (opt_str (u_admin_bound u) \<noteq> [] \<and> \<not> list_ex iw_admin_ok views)),
      (''show_invites'', flag_text (au_invites h \<noteq> None)), (''deactivated'', flag_text (u_deactivated u \<noteq> None))] @
     concat (map (\<lambda>v. [(''identity:'' @ format_int (iw_id v), iw_provider v), (''tenant'', iw_tenant v), (''subject'', iw_subject v),
       (''identity_email'', iw_email v), (''created'', iw_created v), (''last_used'', iw_last_used v),
       (''admin_ok'', flag_text (iw_admin_ok v)), (''unknown'', flag_text (iw_unknown v))]) views) @
     concat (map (\<lambda>v. [(''invite:'' @ format_int (vw_id v), vw_provider v), (''invite_service'', vw_service v),
       (''invite_expires'', vw_expires v), (''invite_created_by'', vw_created_by v)]) (fst invites)) @
     map (\<lambda>(val, label). (''invite_option:'' @ val, label)) (snd invites)"

definition edit_data :: "env \<Rightarrow> users_handler \<Rightarrow> user_row \<Rightarrow> (string \<times> string) list option io" where
  "edit_data e h u = do {
     ri \<leftarrow> db_read e ReqCtx (list_identities (u_id u));
     case ri of
       Inl _ \<Rightarrow> return_io None
     | Inr rows \<Rightarrow> do {
         rn \<leftarrow> db_read e ReqCtx list_identity_provider_names;
         case rn of
           Inl _ \<Rightarrow> return_io None
         | Inr names \<Rightarrow> do {
             deps \<leftarrow> invite_data e h u;
             return_io (map_option (edit_fields h u (identity_views rows names)) deps)
           }
       }
   }"

text \<open>The form with one more field: after an error, or after an invitation was sent.\<close>

definition edit_form :: "env \<Rightarrow> users_handler \<Rightarrow> user_row \<Rightarrow> nat \<Rightarrow> (string \<times> string) list \<Rightarrow> reply io" where
  "edit_form e h u status extra = do {
     d \<leftarrow> edit_data e h u;
     case d of
       None \<Rightarrow> return_io db_error
     | Some fs \<Rightarrow> html_page status ''admin/user-edit.html'' (fs @ extra)
   }"

text \<open>The user an administrator's request is about, by the id in its path.\<close>

definition with_user :: "env \<Rightarrow> string \<Rightarrow> (user_row \<Rightarrow> reply io) \<Rightarrow> reply io" where
  "with_user e uid f =
     (case parse_int64 uid of
        None \<Rightarrow> return_io not_found
      | Some i \<Rightarrow> do {
          ru \<leftarrow> db_read e ReqCtx (get_user_by_id i);
          case ru of
            Inl x \<Rightarrow> return_io (if x = NoRows then not_found else db_error)
          | Inr u \<Rightarrow> f u
        })"

definition handle_edit :: "env \<Rightarrow> users_handler \<Rightarrow> string \<Rightarrow> handler" where
  "handle_edit e h uid r =
     with_user e uid (\<lambda>u. edit_form e h u 200 [(''invite_sent'', flag_text (query_get r ''invite'' = ''sent''))])"

definition handle_update :: "env \<Rightarrow> users_handler \<Rightarrow> string \<Rightarrow> string \<Rightarrow> handler" where
  "handle_update e h actor uid r =
     (case parse_int64 uid of
        None \<Rightarrow> return_io not_found
      | Some i \<Rightarrow> do {
          ru \<leftarrow> db_write e ReqCtx (update_user (nonblank (trim_space (post_form_value r ''name'')))
            (trim_space (post_form_value r ''roles'')) (trim_space (post_form_value r ''orgs'')) i);
          case ru of
            Inl x \<Rightarrow> return_io (db_error_text h x)
          | Inr _ \<Rightarrow> do {
              ok \<leftarrow> log_admin_write e actor (write_event r ''user_edited'' [] (''id='' @ format_int i));
              return_io (Redirect 303 (users_redirect ok))
            }
        })"

section \<open>The export\<close>

text \<open>A field that would start a formula in a spreadsheet gets an apostrophe.\<close>

definition csv_esc :: "string \<Rightarrow> string" where
  "csv_esc s =
     (case s of
        [] \<Rightarrow> []
      | c # _ \<Rightarrow> if c \<in> {CHR ''='', CHR ''+'', CHR ''-'', CHR ''@'', CHR 0x09, CHR 0x0D} then CHR 0x27 # s else s)"

text \<open>\<open>encoding/csv\<close>: a field with a comma, a quote, a line break or a leading space is quoted.\<close>

definition csv_needs_quotes :: "string \<Rightarrow> bool" where
  "csv_needs_quotes f \<longleftrightarrow>
     f \<noteq> [] \<and> (f = [CHR 0x5C, CHR ''.''] \<or> list_ex (\<lambda>c. c \<in> {CHR 0x0A, CHR 0x0D, CHR 0x22, CHR '',''}) f \<or> trim_left f \<noteq> f)"

definition csv_field :: "string \<Rightarrow> string" where
  "csv_field f =
     (if csv_needs_quotes f then CHR 0x22 # concat (map (\<lambda>c. if c = CHR 0x22 then [c, c] else [c]) f) @ [CHR 0x22] else f)"

definition csv_record :: "string list \<Rightarrow> string" where
  "csv_record fs = join_with '','' (map csv_field fs) @ [CHR 0x0A]"

definition csv_user :: "user_row \<Rightarrow> string list" where
  "csv_user u =
     map csv_esc [format_int (u_id u), u_email u, opt_str (u_name u), u_roles u, u_orgs u, u_created u, opt_str (u_last_login u)]"

definition handle_export :: "env \<Rightarrow> users_handler \<Rightarrow> reply io" where
  "handle_export e h = do {
     ru \<leftarrow> db_read e ReqCtx (list_users 100000 0);
     case ru of
       Inl x \<Rightarrow> return_io (db_error_text h x)
     | Inr users \<Rightarrow> do {
         set_headers [(''Content-Type'', ''text/csv; charset=utf-8''),
           (''Content-Disposition'', ''attachment; filename='' @ [CHR 0x22] @ ''kauth-users.csv'' @ [CHR 0x22])];
         return_io (Plain 200 (concat (map csv_record
           ([''id'', ''email'', ''name'', ''roles'', ''orgs'', ''created_at'', ''last_login''] # map csv_user users))))
       }
   }"

section \<open>Pages change nothing\<close>

lemma keeps_mails_response: "keeps response m \<Longrightarrow> keeps w_mails m"
  by (simp add: keeps_def response_def)

lemma keeps_html_page [keeps_intros]:
  "keeps (\<lambda>w. g (w_db w)) (html_page status name fs)" "keeps w_cookies (html_page status name fs)"
  "keeps w_mails (html_page status name fs)"
  by (simp_all add: keeps_def html_page_def io_simps)

lemma keeps_edit_data [keeps_intros]:
  "keeps (\<lambda>w. g (w_db w)) (edit_data e h u)" "keeps response (edit_data e h u)"
  unfolding edit_data_def invite_data_def by (intro keeps_intros)+

lemma keeps_edit_form [keeps_intros]:
  "keeps (\<lambda>w. g (w_db w)) (edit_form e h u status extra)" "keeps w_mails (edit_form e h u status extra)"
  unfolding edit_form_def by (intro keeps_intros keeps_mails_response)+

lemma evolves_edit_form [evolve_intros]: "evolves db_step (edit_form e h u status extra)"
  unfolding edit_form_def edit_data_def invite_data_def by (intro evolve_intros)+

lemma evolves_with_user [evolve_intros]:
  "(\<And>u. evolves db_step (f u)) \<Longrightarrow> evolves db_step (with_user e uid f)"
  unfolding with_user_def by (intro evolve_intros | assumption)+

lemma evolves_edit_error [evolve_intros]: "evolves db_step (edit_error roles orgs form_email msg)"
  unfolding edit_error_def by (intro evolve_intros)

lemma evolves_admin_users [evolve_intros]:
  "evolves db_step (list_users_page e h r)" "evolves db_step (handle_create e actor r)" "evolves db_step (handle_edit e h uid r)"
  "evolves db_step (handle_update e h actor uid r)" "evolves db_step (handle_export e h)"
  unfolding list_users_page_def filtered_users_def all_users_page_def users_page_def handle_create_def store_new_user_def
    handle_edit_def handle_update_def handle_export_def new_public_id_def Let_def
  by (intro evolve_intros)+

lemma with_user_at:
  assumes "\<And>x w'. w_db w' = w_db w \<Longrightarrow> w_mails w' = w_mails w \<Longrightarrow> Q not_found w' \<and> Q db_error w'"
    and "\<And>i u. parse_int64 uid = Some i \<Longrightarrow> get_user_by_id i (w_db w) = Inr u \<Longrightarrow> wp (f u) Q (w\<lparr>w_step := Suc (w_step w)\<rparr>)"
  shows "wp (with_user e uid f) Q w"
  using assms by (auto simp: with_user_def wp_simps split: option.split sum.split)

lemma with_user_wp:
  assumes "\<And>x w'. w_db w' = w_db w \<Longrightarrow> w_mails w' = w_mails w \<Longrightarrow> Q not_found w' \<and> Q db_error w'"
    and "\<And>i u n. parse_int64 uid = Some i \<Longrightarrow> get_user_by_id i (w_db w) = Inr u \<Longrightarrow> wp (f u) Q (w\<lparr>w_step := n\<rparr>)"
  shows "wp (with_user e uid f) Q w"
  by (rule with_user_at) (use assms in blast)+

section \<open>Paging\<close>

text \<open>On every page below the limit of the arithmetic the slice is the page.\<close>

lemma page_of_small:
  assumes "1 \<le> page" "page \<le> 2 ^ 58"
  shows "page_of page xs = Some (take 25 (drop (25 * nat (page - 1)) xs))"
proof -
  have w: "wrap64 i = i" if "0 \<le> i" "i < 2 ^ 63" for i
    using that by (simp add: wrap64_def signed_take_bit_int_eq_self)
  let ?start = "(page - 1) * 25"
  have s: "wrap64 ?start = ?start" "wrap64 (?start + 25) = ?start + 25" using assms by (simp_all add: w)
  have n: "nat ?start = 25 * nat (page - 1)" using assms by (simp add: nat_mult_distrib)
  show ?thesis
  proof (cases "?start > int (length xs)")
    case True
    then have "length xs \<le> 25 * nat (page - 1)" using n by simp
    with True show ?thesis unfolding page_of_def users_per_page_def Let_def s go_slice_def by simp
  next
    case False
    then have "nat (int (length xs) - ?start) = length xs - 25 * nat (page - 1)" using assms by (simp add: nat_diff_distrib n)
    with False assms n show ?thesis unfolding page_of_def users_per_page_def Let_def s go_slice_def
      by (auto simp: algebra_simps)
  qed
qed

text \<open>
  Beyond it the product wraps around: for some pages the slice has a negative bound and the handler panics, whatever
  the table holds.
\<close>

lemma page_of_panics: "page_of 368934881474191034 xs = None"
  by (simp add: page_of_def users_per_page_def wrap64_def go_slice_def signed_take_bit_eq_take_bit_shift take_bit_eq_mod)

lemma huge_page_panics:
  assumes "page_number r = 368934881474191034"
  shows "wp (filtered_users e h r search org)
    (\<lambda>reply w'. w_db w' = w_db w \<and> (reply = panic_reply \<or> (\<exists>x. reply = db_error_text h x))) w"
  using assms by (auto simp: filtered_users_def wp_simps page_of_panics split: option.split sum.split)

lemma csv_esc_no_formula: "csv_esc s = c # cs \<Longrightarrow> c \<notin> {CHR ''='', CHR ''+'', CHR ''-'', CHR ''@'', CHR 0x09, CHR 0x0D}"
  by (auto simp: csv_esc_def split: list.splits if_splits)

end
