(* ===== verification/AuditFilter.thy ===== *)
theory AuditFilter
  imports AdminUsers GenericOidc
begin

text \<open>
  The filter of the audit page: \<open>internal/admin/audit_filter.go\<close>.  A query string becomes a list of clauses, which are
  the \<open>WHERE\<close> part of the query; a clause has its SQL text with its bound values, and its meaning on a row in SQL's
  three-valued logic, where \<open>None\<close> is \<open>NULL\<close>.
\<close>

section \<open>The filter\<close>

definition audit_none :: string where "audit_none = ''__none__''"

definition audit_op_not :: string where "audit_op_not = ''not''"

record audit_filter =
  af_from :: string
  af_to :: string
  af_email :: string
  af_email_op :: string
  af_ip :: string
  af_ip_op :: string
  af_details :: string
  af_details_op :: string
  af_events :: "string list"
  af_methods :: "string list"
  af_services :: "string list"
  af_ok :: "string list"

definition parse_audit_filter :: "request \<Rightarrow> audit_filter" where
  "parse_audit_filter r =
     \<lparr>af_from = trim_space (query_get r ''from''), af_to = trim_space (query_get r ''to''),
      af_email = trim_space (query_get r ''email''), af_email_op = query_get r ''email_op'',
      af_ip = trim_space (query_get r ''ip''), af_ip_op = query_get r ''ip_op'',
      af_details = trim_space (query_get r ''details''), af_details_op = query_get r ''details_op'',
      af_events = query_all r ''event'', af_methods = query_all r ''method'', af_services = query_all r ''service'',
      af_ok = query_all r ''ok''\<rparr>"

definition text_pair :: "string \<Rightarrow> string \<Rightarrow> (string \<times> string) list" where
  "text_pair k v = (if v = [] then [] else [(k, v)])"

definition op_pair :: "string \<Rightarrow> string \<Rightarrow> string \<Rightarrow> (string \<times> string) list" where
  "op_pair k v op = (if v \<noteq> [] \<and> op = audit_op_not then [(k, audit_op_not)] else [])"

definition choice_pairs :: "string \<Rightarrow> string list \<Rightarrow> (string \<times> string) list" where
  "choice_pairs k vs = map (Pair k) (filter (\<lambda>v. trim_space v \<noteq> []) vs)"

definition filter_values :: "audit_filter \<Rightarrow> (string \<times> string) list" where
  "filter_values f =
     text_pair ''from'' (af_from f) @ text_pair ''to'' (af_to f) @ text_pair ''email'' (af_email f) @
     text_pair ''ip'' (af_ip f) @ text_pair ''details'' (af_details f) @
     op_pair ''email_op'' (af_email f) (af_email_op f) @ op_pair ''ip_op'' (af_ip f) (af_ip_op f) @
     op_pair ''details_op'' (af_details f) (af_details_op f) @
     choice_pairs ''event'' (af_events f) @ choice_pairs ''method'' (af_methods f) @
     choice_pairs ''service'' (af_services f) @ choice_pairs ''ok'' (af_ok f)"

definition query_string :: "audit_filter \<Rightarrow> string" where
  "query_string f = values_encode (filter_values f)"

definition clean_choices :: "string list \<Rightarrow> string list" where
  "clean_choices vs = filter (\<lambda>v. v \<noteq> []) (map trim_space vs)"

definition selected :: "string list \<Rightarrow> string \<Rightarrow> bool" where
  "selected vs v \<longleftrightarrow> clean_choices vs = [] \<or> v \<in> set vs"

section \<open>Clauses\<close>

datatype audit_column = EventType | AuthMethod | EmailColumn | ServiceId | IpAddress | DetailsColumn

fun column_name :: "audit_column \<Rightarrow> string" where
  "column_name EventType = ''event_type''"
| "column_name AuthMethod = ''auth_method''"
| "column_name EmailColumn = ''email''"
| "column_name ServiceId = ''service_id''"
| "column_name IpAddress = ''ip_address''"
| "column_name DetailsColumn = ''details''"

fun column_of :: "audit_column \<Rightarrow> audit_row \<Rightarrow> string option" where
  "column_of EventType r = Some (ae_type r)"
| "column_of AuthMethod r = ae_method r"
| "column_of EmailColumn r = ae_email r"
| "column_of ServiceId r = ae_service r"
| "column_of IpAddress r = ae_ip r"
| "column_of DetailsColumn r = ae_details r"

datatype audit_clause =
    CreatedFrom string
  | CreatedTo string
  | IsNull audit_column
  | In audit_column "string list"
  | InOrNull audit_column "string list"
  | Like audit_column string
  | NotLike audit_column string
  | SuccessIn "int list"

definition escape_like :: "string \<Rightarrow> string" where
  "escape_like s = concat (map (\<lambda>c. if c \<in> {CHR 0x5C, CHR ''%'', CHR ''_''} then [CHR 0x5C, c] else [c]) s)"

definition parse_day :: "string \<Rightarrow> string option" where
  "parse_day s = (case parse_date s of Some (_, rest) \<Rightarrow> if rest = [] then Some s else None | None \<Rightarrow> None)"

definition parse_day_start :: "string \<Rightarrow> string option" where
  "parse_day_start s = map_option (\<lambda>d. d @ ''T00:00:00Z'') (parse_day s)"

definition parse_day_end :: "string \<Rightarrow> string option" where
  "parse_day_end s = map_option (\<lambda>d. d @ ''T23:59:59Z'') (parse_day s)"

definition choice_clause :: "audit_column \<Rightarrow> string list \<Rightarrow> audit_clause list" where
  "choice_clause col vs =
     (let vals = clean_choices vs; args = filter (\<lambda>v. v \<noteq> audit_none) vals in
      if vals = [] then []
      else if args = [] then [IsNull col]
      else if audit_none \<in> set vals then [InOrNull col args]
      else [In col args])"

definition success_clause :: "string list \<Rightarrow> audit_clause list" where
  "success_clause vs =
     (let args = List.map_filter parse_int64 (clean_choices vs) in if args = [] then [] else [SuccessIn args])"

definition like_clause :: "audit_column \<Rightarrow> string \<Rightarrow> string \<Rightarrow> audit_clause list" where
  "like_clause col v op =
     (let pat = CHR ''%'' # escape_like v @ ''%'' in
      if v = [] then [] else [if op = audit_op_not then NotLike col pat else Like col pat])"

definition option_clause :: "(string \<Rightarrow> audit_clause) \<Rightarrow> string option \<Rightarrow> audit_clause list" where
  "option_clause c ts = (case ts of None \<Rightarrow> [] | Some t \<Rightarrow> [c t])"

definition audit_clauses :: "audit_filter \<Rightarrow> audit_clause list" where
  "audit_clauses f =
     option_clause CreatedFrom (parse_day_start (af_from f)) @ option_clause CreatedTo (parse_day_end (af_to f)) @
     choice_clause EventType (af_events f) @ choice_clause AuthMethod (af_methods f) @ choice_clause ServiceId (af_services f) @
     like_clause EmailColumn (af_email f) (af_email_op f) @ like_clause IpAddress (af_ip f) (af_ip_op f) @
     like_clause DetailsColumn (af_details f) (af_details_op f) @ success_clause (af_ok f)"

definition active_count :: "audit_filter \<Rightarrow> nat" where
  "active_count f = length (audit_clauses f)"

section \<open>The text of the query\<close>

datatype sql_arg = TextArg string | IntArg int

definition placeholders :: "nat \<Rightarrow> string" where
  "placeholders n = join_with '','' (replicate n ''?'')"

definition like_escape :: string where
  "like_escape = '' ESCAPE '' @ [CHR 0x27, CHR 0x5C, CHR 0x27]"

fun clause_sql :: "audit_clause \<Rightarrow> string \<times> sql_arg list" where
  "clause_sql (CreatedFrom t) = (''created_at >= ?'', [TextArg t])"
| "clause_sql (CreatedTo t) = (''created_at <= ?'', [TextArg t])"
| "clause_sql (IsNull c) = (column_name c @ '' IS NULL'', [])"
| "clause_sql (In c vs) = (column_name c @ '' IN ('' @ placeholders (length vs) @ '')'', map TextArg vs)"
| "clause_sql (InOrNull c vs) =
     (''('' @ column_name c @ '' IN ('' @ placeholders (length vs) @ '') OR '' @ column_name c @ '' IS NULL)'', map TextArg vs)"
| "clause_sql (Like c p) = (column_name c @ '' LIKE ?'' @ like_escape, [TextArg p])"
| "clause_sql (NotLike c p) =
     (''('' @ column_name c @ '' IS NULL OR '' @ column_name c @ '' NOT LIKE ?'' @ like_escape @ '')'', [TextArg p])"
| "clause_sql (SuccessIn ns) = (''success IN ('' @ placeholders (length ns) @ '')'', map IntArg ns)"

definition build_audit_query :: "audit_filter \<Rightarrow> string \<times> sql_arg list" where
  "build_audit_query f =
     (let cs = map clause_sql (audit_clauses f) in
      if cs = [] then ([], []) else ('' WHERE '' @ join_with '' AND '' (map fst cs), concat (map snd cs)))"

section \<open>What a clause means\<close>

text \<open>\<open>LIKE\<close> with the escape character \<open>\\<close>: what follows it stands for itself.\<close>

function like_esc :: "string \<Rightarrow> string \<Rightarrow> bool" where
  "like_esc [] s = (s = [])"
| "like_esc (p # ps) s =
     (if p = CHR 0x5C then
        (case ps of
           [] \<Rightarrow> False
         | q # qs \<Rightarrow> (case s of [] \<Rightarrow> False | c # cs \<Rightarrow> ascii_lower_char c = ascii_lower_char q \<and> like_esc qs cs))
      else if p = CHR ''%'' then like_esc ps s \<or> (if s = [] then False else like_esc (p # ps) (skip_char s))
      else if p = CHR ''_'' then (if s = [] then False else like_esc ps (skip_char s))
      else case s of [] \<Rightarrow> False | c # cs \<Rightarrow> ascii_lower_char c = ascii_lower_char p \<and> like_esc ps cs)"
  by pat_completeness auto
termination
  by (relation "measure (\<lambda>(ps, s). length ps + length s)") (auto simp: skip_char_shorter less_SucI)

declare like_esc.simps [simp del]

definition sql_like_esc :: "string \<Rightarrow> string \<Rightarrow> bool" where
  "sql_like_esc pat s = like_esc (takeWhile (\<lambda>c. c \<noteq> CHR 0x00) pat) (takeWhile (\<lambda>c. c \<noteq> CHR 0x00) s)"

definition sql_in :: "'a list \<Rightarrow> 'a option \<Rightarrow> bool option" where
  "sql_in vs v = map_option (\<lambda>x. x \<in> set vs) v"

definition sql_or :: "bool option \<Rightarrow> bool option \<Rightarrow> bool option" where
  "sql_or a b =
     (if a = Some True \<or> b = Some True then Some True else if a = Some False \<and> b = Some False then Some False else None)"

fun clause_value :: "audit_clause \<Rightarrow> audit_row \<Rightarrow> bool option" where
  "clause_value (CreatedFrom t) r = Some (t \<le> ae_created r)"
| "clause_value (CreatedTo t) r = Some (ae_created r \<le> t)"
| "clause_value (IsNull c) r = Some (column_of c r = None)"
| "clause_value (In c vs) r = sql_in vs (column_of c r)"
| "clause_value (InOrNull c vs) r = sql_or (sql_in vs (column_of c r)) (Some (column_of c r = None))"
| "clause_value (Like c p) r = map_option (sql_like_esc p) (column_of c r)"
| "clause_value (NotLike c p) r =
     sql_or (Some (column_of c r = None)) (map_option (\<lambda>s. \<not> sql_like_esc p s) (column_of c r))"
| "clause_value (SuccessIn ns) r = sql_in ns (Some (ae_success r))"

text \<open>\<open>WHERE\<close> keeps the rows on which the conjunction is true, not false and not \<open>NULL\<close>.\<close>

definition kept_by :: "audit_filter \<Rightarrow> audit_row \<Rightarrow> bool" where
  "kept_by f r \<longleftrightarrow> list_all (\<lambda>c. clause_value c r = Some True) (audit_clauses f)"

section \<open>What the filter is for\<close>

text \<open>The meaning without SQL: \<open>contains_ci\<close> is the occurrence of a text, in either case of ASCII letters.\<close>

definition contains_ci :: "string \<Rightarrow> string \<Rightarrow> bool" where
  "contains_ci v s \<longleftrightarrow> sublist (map ascii_lower_char v) (map ascii_lower_char s)"

definition chosen :: "string list \<Rightarrow> string option \<Rightarrow> bool" where
  "chosen vs v \<longleftrightarrow>
     clean_choices vs = [] \<or>
     (case v of None \<Rightarrow> audit_none \<in> set (clean_choices vs) | Some x \<Rightarrow> x \<in> set (clean_choices vs) \<and> x \<noteq> audit_none)"

definition says :: "string \<Rightarrow> string \<Rightarrow> string option \<Rightarrow> bool" where
  "says v op col \<longleftrightarrow>
     v = [] \<or>
     (if op = audit_op_not then (case col of None \<Rightarrow> True | Some s \<Rightarrow> \<not> contains_ci v s)
      else (case col of None \<Rightarrow> False | Some s \<Rightarrow> contains_ci v s))"

definition succeeded_as :: "string list \<Rightarrow> int \<Rightarrow> bool" where
  "succeeded_as vs n \<longleftrightarrow>
     (let ns = List.map_filter parse_int64 (clean_choices vs) in ns = [] \<or> n \<in> set ns)"

definition audit_match :: "audit_filter \<Rightarrow> audit_row \<Rightarrow> bool" where
  "audit_match f r \<longleftrightarrow>
     (case parse_day (af_from f) of None \<Rightarrow> True | Some d \<Rightarrow> d @ ''T00:00:00Z'' \<le> ae_created r) \<and>
     (case parse_day (af_to f) of None \<Rightarrow> True | Some d \<Rightarrow> ae_created r \<le> d @ ''T23:59:59Z'') \<and>
     chosen (af_events f) (Some (ae_type r)) \<and> chosen (af_methods f) (ae_method r) \<and> chosen (af_services f) (ae_service r) \<and>
     says (af_email f) (af_email_op f) (ae_email r) \<and> says (af_ip f) (af_ip_op f) (ae_ip r) \<and>
     says (af_details f) (af_details_op f) (ae_details r) \<and> succeeded_as (af_ok f) (ae_success r)"

section \<open>Escaped text matches itself\<close>

lemma escape_like_Cons:
  "escape_like (c # v) = (if c \<in> {CHR 0x5C, CHR ''%'', CHR ''_''} then [CHR 0x5C, c] else [c]) @ escape_like v"
  by (simp add: escape_like_def)

lemma like_escaped:
  "like_esc (escape_like v @ rest) s \<longleftrightarrow>
     length v \<le> length s \<and> map ascii_lower_char (take (length v) s) = map ascii_lower_char v \<and> like_esc rest (drop (length v) s)"
proof (induction v arbitrary: s)
  case Nil
  show ?case by (simp add: escape_like_def)
next
  case (Cons c v)
  show ?case
  proof (cases s)
    case Nil
    then show ?thesis by (simp add: escape_like_Cons like_esc.simps)
  next
    case (Cons d ds)
    show ?thesis
      by (cases "c \<in> {CHR 0x5C, CHR ''%'', CHR ''_''}") (auto simp: Cons escape_like_Cons like_esc.simps Cons.IH)
  qed
qed

lemma like_anything: "like_esc [CHR ''%''] s"
proof (induction s rule: length_induct)
  case (1 s)
  then show ?case
    by (cases "s = []") (simp_all add: like_esc.simps(2) like_esc.simps(1) skip_char_shorter)
qed

text \<open>\<open>plain_text\<close>: no NUL, and the text starts with a character.\<close>

definition plain_text :: "string \<Rightarrow> bool" where
  "plain_text v \<longleftrightarrow> CHR 0x00 \<notin> set v \<and> (v = [] \<or> \<not> cont_byte (byte (hd v)))"

lemma lower_cont: "ascii_lower_char c = ascii_lower_char d \<Longrightarrow> cont_byte (byte d) \<Longrightarrow> cont_byte (byte c)"
proof -
  assume eq: "ascii_lower_char c = ascii_lower_char d" and d: "cont_byte (byte d)"
  have lower: "byte (ascii_lower_char x) = (if 65 \<le> byte x \<and> byte x \<le> 90 then byte x + 32 else byte x)" for x
    by (auto simp: ascii_lower_char_def byte_def less_eq_char_def)
  have "byte (ascii_lower_char c) = byte (ascii_lower_char d)" using eq by simp
  with d show ?thesis by (auto simp: lower cont_byte_def split: if_splits)
qed

lemma contains_skip_cont:
  assumes "v \<noteq> []" "\<not> cont_byte (byte (hd v))"
  shows "contains_ci v (dropWhile (\<lambda>d. cont_byte (byte d)) s) \<longleftrightarrow> contains_ci v s"
proof (induction s)
  case (Cons d ds)
  have "\<not> prefix (map ascii_lower_char v) (map ascii_lower_char (d # ds))" if "cont_byte (byte d)"
    using assms that lower_cont [of "hd v" d] by (cases v) auto
  then show ?case using Cons by (auto simp: contains_ci_def sublist_Cons_right)
qed simp

lemma contains_step:
  assumes "v = [] \<or> \<not> cont_byte (byte (hd v))"
  shows "contains_ci v s \<longleftrightarrow>
    prefix (map ascii_lower_char v) (map ascii_lower_char s) \<or> (s \<noteq> [] \<and> contains_ci v (skip_char s))"
proof (cases "v = []")
  case False
  with assms have c: "\<not> cont_byte (byte (hd v))" by simp
  show ?thesis
    by (cases s) (auto simp: contains_ci_def skip_char_def sublist_Cons_right
        contains_skip_cont [OF False c, unfolded contains_ci_def])
qed (simp add: contains_ci_def)

lemma prefix_map_take: "prefix (map f v) (map f t) \<longleftrightarrow> length v \<le> length t \<and> map f (take (length v) t) = map f v"
proof
  assume "prefix (map f v) (map f t)"
  then obtain zs where zs: "map f t = map f v @ zs" by (auto simp: prefix_def)
  then have "length t = length v + length zs" by (metis length_append length_map)
  moreover have "map f (take (length v) t) = map f v"
    using zs by (metis append_eq_conv_conj length_map take_map)
  ultimately show "length v \<le> length t \<and> map f (take (length v) t) = map f v" by simp
next
  assume "length v \<le> length t \<and> map f (take (length v) t) = map f v"
  then show "prefix (map f v) (map f t)" by (metis map_append append_take_drop_id prefixI)
qed

lemma like_contains:
  assumes "v = [] \<or> \<not> cont_byte (byte (hd v))"
  shows "like_esc (CHR ''%'' # escape_like v @ ''%'') s \<longleftrightarrow> contains_ci v s"
proof (induction s rule: length_induct)
  case (1 s)
  have pre: "like_esc (escape_like v @ ''%'') t \<longleftrightarrow> prefix (map ascii_lower_char v) (map ascii_lower_char t)" for t
    by (simp add: like_escaped like_anything prefix_map_take)
  show ?case
    using 1 contains_step [OF assms, of s] pre [of s]
    by (auto simp: like_esc.simps(2) [of "CHR ''%''"] skip_char_shorter)
qed

section \<open>The query means what the filter says\<close>

text \<open>Texts of a row that SQLite reads to their end.\<close>

definition plain_row :: "audit_row \<Rightarrow> bool" where
  "plain_row r \<longleftrightarrow> (\<forall>s \<in> {ae_email r, ae_ip r, ae_details r}. \<forall>t. s = Some t \<longrightarrow> CHR 0x00 \<notin> set t)"

definition plain_filter :: "audit_filter \<Rightarrow> bool" where
  "plain_filter f \<longleftrightarrow> plain_text (af_email f) \<and> plain_text (af_ip f) \<and> plain_text (af_details f)"

lemma takeWhile_plain: "c \<notin> set s \<Longrightarrow> takeWhile (\<lambda>d. d \<noteq> c) s = s"
  by (subst takeWhile_eq_all_conv) blast

lemma escape_like_set: "CHR 0x00 \<notin> set v \<Longrightarrow> CHR 0x00 \<notin> set (escape_like v)"
proof -
  have "set (escape_like v) \<subseteq> insert (CHR 0x5C) (set v)" 
  proof (induction v)
    case (Cons c v)
    then show ?case by (auto simp: escape_like_Cons)
  qed (simp add: escape_like_def)
  moreover have "CHR 0x00 \<noteq> CHR 0x5C" by simp
  ultimately show "CHR 0x00 \<notin> set v \<Longrightarrow> CHR 0x00 \<notin> set (escape_like v)" by blast
qed

lemma sql_like_contains:
  assumes "plain_text v" "CHR 0x00 \<notin> set s"
  shows "sql_like_esc (CHR ''%'' # escape_like v @ ''%'') s \<longleftrightarrow> contains_ci v s"
proof -
  have "CHR 0x00 \<notin> set (CHR ''%'' # escape_like v @ ''%'')"
    using assms(1) escape_like_set [of v] by (simp add: plain_text_def)
  from takeWhile_plain [OF this] takeWhile_plain [OF assms(2)]
  have "sql_like_esc (CHR ''%'' # escape_like v @ ''%'') s \<longleftrightarrow> like_esc (CHR ''%'' # escape_like v @ ''%'') s"
    by (simp only: sql_like_esc_def)
  also have "\<dots> \<longleftrightarrow> contains_ci v s" using assms(1) by (intro like_contains) (simp add: plain_text_def)
  finally show ?thesis .
qed

definition holds :: "audit_clause list \<Rightarrow> audit_row \<Rightarrow> bool" where
  "holds cs r \<longleftrightarrow> list_all (\<lambda>c. clause_value c r = Some True) cs"

lemma holds_append [simp]: "holds (xs @ ys) r \<longleftrightarrow> holds xs r \<and> holds ys r"
  by (simp add: holds_def)

lemma holds_choice: "holds (choice_clause col vs) r \<longleftrightarrow> chosen vs (column_of col r)"
  by (cases "column_of col r"; cases "clean_choices vs")
    (auto simp: holds_def choice_clause_def chosen_def Let_def sql_in_def sql_or_def filter_empty_conv)

lemma holds_like:
  assumes "plain_text v" "\<And>s. column_of col r = Some s \<Longrightarrow> CHR 0x00 \<notin> set s"
  shows "holds (like_clause col v op) r \<longleftrightarrow> says v op (column_of col r)"
  using sql_like_contains [OF assms(1)] assms(2)
  by (cases "column_of col r") (auto simp: holds_def like_clause_def says_def Let_def sql_or_def)

lemma holds_success: "holds (success_clause vs) r \<longleftrightarrow> succeeded_as vs (ae_success r)"
  by (simp add: holds_def success_clause_def succeeded_as_def Let_def sql_in_def)

lemma holds_days:
  "holds (option_clause CreatedFrom (parse_day_start d)) r \<longleftrightarrow>
     (case parse_day d of None \<Rightarrow> True | Some d \<Rightarrow> d @ ''T00:00:00Z'' \<le> ae_created r)"
  "holds (option_clause CreatedTo (parse_day_end d)) r \<longleftrightarrow>
     (case parse_day d of None \<Rightarrow> True | Some d \<Rightarrow> ae_created r \<le> d @ ''T23:59:59Z'')"
  by (simp_all add: holds_def option_clause_def parse_day_start_def parse_day_end_def split: option.split)

text \<open>C38. The SQL query of the audit page keeps a row exactly when the filter means it: both days included, a choice
  that also covers rows without a value, a text search that takes every character of the search literally in either
  case, and a negated search that keeps rows without a value.\<close>

theorem audit_query_is_the_filter:
  assumes "plain_filter f" "plain_row r"
  shows "kept_by f r \<longleftrightarrow> audit_match f r"
proof -
  have "kept_by f r \<longleftrightarrow> holds (audit_clauses f) r" by (simp add: kept_by_def holds_def)
  moreover have "holds (like_clause EmailColumn (af_email f) (af_email_op f)) r \<longleftrightarrow> says (af_email f) (af_email_op f) (ae_email r)"
    "holds (like_clause IpAddress (af_ip f) (af_ip_op f)) r \<longleftrightarrow> says (af_ip f) (af_ip_op f) (ae_ip r)"
    "holds (like_clause DetailsColumn (af_details f) (af_details_op f)) r \<longleftrightarrow> says (af_details f) (af_details_op f) (ae_details r)"
    using assms
      holds_like [of "af_email f" EmailColumn r] holds_like [of "af_ip f" IpAddress r] holds_like [of "af_details f" DetailsColumn r]
    by (simp_all add: plain_filter_def plain_row_def)
  ultimately show ?thesis
    by (simp add: audit_clauses_def audit_match_def holds_choice holds_success holds_days)
qed

definition demo_audit_filter :: audit_filter where
  "demo_audit_filter = \<lparr>af_from = ''2026-01-01'', af_to = ''2026-13-01'', af_email = ''A_b'', af_email_op = [], af_ip = ''10.'',
     af_ip_op = ''not'', af_details = [], af_details_op = [], af_events = [''login''], af_methods = [''__none__''],
     af_services = [], af_ok = [''1'']\<rparr>"

definition demo_audit_row :: audit_row where
  "demo_audit_row = \<lparr>ae_id = 1, ae_type = ''login'', ae_method = None, ae_email = Some ''xa_B@example.org'', ae_service = None,
     ae_ip = None, ae_ua = None, ae_success = 1, ae_details = None, ae_created = ''2026-02-03T04:05:06Z''\<rparr>"

theorem audit_query_is_the_filter_witness:
  "kept_by demo_audit_filter demo_audit_row \<longleftrightarrow> audit_match demo_audit_filter demo_audit_row"
  by (rule audit_query_is_the_filter)
    (simp_all add: plain_filter_def plain_row_def plain_text_def demo_audit_filter_def demo_audit_row_def cont_byte_def byte_def)

section \<open>The filter survives its query string\<close>

lemma get_first_filter: "get_first vs k = (case filter (\<lambda>kv. fst kv = k) vs of [] \<Rightarrow> [] | kv # _ \<Rightarrow> snd kv)"
  by (simp add: get_first_def map_of_filter split: list.split)

lemma filter_pairs [simp]:
  "filter (\<lambda>kv. fst kv = k) (text_pair l v) = (if k = l then text_pair l v else [])"
  "filter (\<lambda>kv. fst kv = k) (op_pair l v op) = (if k = l then op_pair l v op else [])"
  "filter (\<lambda>kv. fst kv = k) (choice_pairs l vs) = (if k = l then choice_pairs l vs else [])"
  by (simp_all add: text_pair_def op_pair_def choice_pairs_def filter_empty_conv)

lemma query_of_filter:
  "query_get (r\<lparr>rq_query := url_query (query_string f)\<rparr>) k =
     (case filter (\<lambda>kv. fst kv = k) (filter_values f) of [] \<Rightarrow> [] | kv # _ \<Rightarrow> snd kv)"
  "query_all (r\<lparr>rq_query := url_query (query_string f)\<rparr>) k = map snd (filter (\<lambda>kv. fst kv = k) (filter_values f))"
  by (simp_all add: query_get_def query_all_def query_string_def url_query_encode get_first_filter sort_key_stable)

definition kept_op :: "string \<Rightarrow> string \<Rightarrow> string" where
  "kept_op v op = (if v \<noteq> [] \<and> op = audit_op_not then audit_op_not else [])"

lemma pair_values [simp]:
  "(case text_pair k v of [] \<Rightarrow> [] | kv # _ \<Rightarrow> snd kv) = v"
  "(case op_pair k v op of [] \<Rightarrow> [] | kv # _ \<Rightarrow> snd kv) = kept_op v op"
  "map snd (choice_pairs k vs) = filter (\<lambda>v. trim_space v \<noteq> []) vs"
  by (simp_all add: text_pair_def op_pair_def choice_pairs_def comp_def kept_op_def)

lemma clean_choices_filter [simp]: "clean_choices (filter (\<lambda>v. trim_space v \<noteq> []) vs) = clean_choices vs"
  by (simp add: clean_choices_def filter_map comp_def)

lemma like_clause_op: "like_clause c v (kept_op v op) = like_clause c v op"
  by (simp add: like_clause_def kept_op_def audit_op_not_def Let_def)

lemma clauses_by_clean:
  "choice_clause c (filter (\<lambda>v. trim_space v \<noteq> []) vs) = choice_clause c vs"
  "success_clause (filter (\<lambda>v. trim_space v \<noteq> []) vs) = success_clause vs"
  by (simp_all add: choice_clause_def success_clause_def)

text \<open>C39. The address of the next page and of the export carries the filter: read back, it gives the same query.\<close>

theorem audit_filter_roundtrip:
  "audit_clauses (parse_audit_filter (r'\<lparr>rq_query := url_query (query_string (parse_audit_filter r))\<rparr>)) =
     audit_clauses (parse_audit_filter r)"
  by (simp add: parse_audit_filter_def [of "r'\<lparr>rq_query := url_query (query_string (parse_audit_filter r))\<rparr>"]
      query_of_filter filter_values_def audit_clauses_def clauses_by_clean like_clause_op)
    (simp add: parse_audit_filter_def trim_space_idem like_clause_op)

end
