(* ===== verification/AuditPage.thy ===== *)
theory AuditPage
  imports AuditFilter
begin

text \<open>
  The audit page of the admin panel: \<open>internal/admin/audit_query.go\<close>, the queries over the filter's clauses, and
  \<open>audit.go\<close>, the paged list and the CSV export.
\<close>

section \<open>Queries\<close>

definition query_audit_events :: "audit_filter \<Rightarrow> int \<Rightarrow> int \<Rightarrow> db \<Rightarrow> db_err + audit_row list" where
  "query_audit_events f limit off d =
     Inr (sql_page limit off (rev (sort_key ae_created (sort_key ae_id (filter (kept_by f) (t_audit d))))))"

definition count_audit_events :: "audit_filter \<Rightarrow> db \<Rightarrow> db_err + nat" where
  "count_audit_events f d = Inr (count_where (kept_by f) (t_audit d))"

text \<open>The values of a column in order, with the mark for rows without one at the end.\<close>

definition distinct_values :: "audit_column \<Rightarrow> db \<Rightarrow> db_err + string list" where
  "distinct_values c d =
     (let col = map (column_of c) (t_audit d); vals = sort (remdups (map opt_str (filter (\<lambda>v. opt_str v \<noteq> []) col))) in
      Inr (if list_ex (\<lambda>v. opt_str v = []) col then vals @ [audit_none] else vals))"

record audit_choices =
  ac_events :: "string list"
  ac_methods :: "string list"
  ac_services :: "string list"

definition load_audit_choices :: "env \<Rightarrow> (db_err + audit_choices) io" where
  "load_audit_choices e = do {
     re \<leftarrow> db_read e ReqCtx (distinct_values EventType);
     case re of
       Inl x \<Rightarrow> return_io (Inl x)
     | Inr evs \<Rightarrow> do {
         rm \<leftarrow> db_read e ReqCtx (distinct_values AuthMethod);
         case rm of
           Inl x \<Rightarrow> return_io (Inl x)
         | Inr ms \<Rightarrow> do {
             rs \<leftarrow> db_read e ReqCtx (distinct_values ServiceId);
             return_io (case rs of
               Inl x \<Rightarrow> Inl x
             | Inr ss \<Rightarrow> Inr \<lparr>ac_events = evs, ac_methods = ms, ac_services = ss\<rparr>)
           }
       }
   }"

section \<open>Handlers\<close>

text \<open>\<open>ah_err\<close> is the text of an error of the named query (\<open>fmt.Errorf\<close> around the driver's).\<close>

record audit_handler =
  ah_err :: "string \<Rightarrow> db_err \<Rightarrow> string"

definition audit_failed :: "audit_handler \<Rightarrow> string \<Rightarrow> db_err \<Rightarrow> reply" where
  "audit_failed h what x = HttpError 500 (''databasefeil: '' @ ah_err h what x)"

definition audit_per_page :: int where "audit_per_page = 50"

definition audit_export_limit :: int where "audit_export_limit = 100000"

definition total_pages :: "nat \<Rightarrow> int" where
  "total_pages n = max 1 ((int n + audit_per_page - 1) div audit_per_page)"

definition audit_page_number :: "request \<Rightarrow> nat \<Rightarrow> int" where
  "audit_page_number r n = min (page_number r) (total_pages n)"

definition choice_fields :: "string \<Rightarrow> string list \<Rightarrow> string list \<Rightarrow> (string \<times> string) list" where
  "choice_fields k picked vals = map (\<lambda>v. (k @ v, flag_text (selected picked v))) vals"

definition audit_page_fields ::
  "audit_filter \<Rightarrow> audit_choices \<Rightarrow> int \<Rightarrow> nat \<Rightarrow> audit_row list \<Rightarrow> (string \<times> string) list" where
  "audit_page_fields f ch page n rows =
     (let pages = total_pages n; qs = query_string f in
      [(''export_url'', ''/admin/audit/export?'' @ qs), (''count'', format_int (int n)), (''page'', format_int page),
       (''total_pages'', format_int pages), (''active_count'', format_int (int (active_count f))),
       (''prev_url'', if 1 < page then ''/admin/audit?'' @ qs @ ''&page='' @ format_int (page - 1) else []),
       (''next_url'', if page < pages then ''/admin/audit?'' @ qs @ ''&page='' @ format_int (page + 1) else [])] @
      choice_fields ''event:'' (af_events f) (ac_events ch) @ choice_fields ''method:'' (af_methods f) (ac_methods ch) @
      choice_fields ''service:'' (af_services f) (ac_services ch) @
      map (\<lambda>row. (''row:'' @ format_int (ae_id row), ae_type row)) rows)"

definition list_audit :: "env \<Rightarrow> audit_handler \<Rightarrow> handler" where
  "list_audit e h r =
     (let f = parse_audit_filter r in do {
        rn \<leftarrow> db_read e ReqCtx (count_audit_events f);
        case rn of
          Inl x \<Rightarrow> return_io (audit_failed h ''telle auditlogg'' x)
        | Inr n \<Rightarrow> do {
            rr \<leftarrow> db_read e ReqCtx (query_audit_events f audit_per_page
              (wrap64 ((audit_page_number r n - 1) * audit_per_page)));
            case rr of
              Inl x \<Rightarrow> return_io (audit_failed h ''hente auditlogg'' x)
            | Inr rows \<Rightarrow> do {
                rc \<leftarrow> load_audit_choices e;
                case rc of
                  Inl x \<Rightarrow> return_io (audit_failed h ''hente verdier'' x)
                | Inr ch \<Rightarrow> html_page 200 ''admin/audit.html'' (audit_page_fields f ch (audit_page_number r n) n rows)
              }
          }
      })"

definition csv_event :: "audit_row \<Rightarrow> string list" where
  "csv_event r =
     map csv_esc [format_int (ae_id r), ae_created r, ae_type r, opt_str (ae_method r), opt_str (ae_email r),
       opt_str (ae_service r), opt_str (ae_ip r), opt_str (ae_ua r), format_int (ae_success r), opt_str (ae_details r)]"

definition audit_csv_header :: "string list" where
  "audit_csv_header = [''id'', ''created_at'', ''event_type'', ''auth_method'', ''email'', ''service_id'', ''ip_address'',
     ''user_agent'', ''success'', ''details'']"

definition export_audit :: "env \<Rightarrow> audit_handler \<Rightarrow> handler" where
  "export_audit e h r = do {
     rr \<leftarrow> db_read e ReqCtx (query_audit_events (parse_audit_filter r) audit_export_limit 0);
     case rr of
       Inl x \<Rightarrow> return_io (audit_failed h ''hente auditlogg'' x)
     | Inr rows \<Rightarrow> do {
         set_headers [(''Content-Type'', ''text/csv; charset=utf-8''),
           (''Content-Disposition'', ''attachment; filename='' @ [CHR 0x22] @ ''kauth-audit.csv'' @ [CHR 0x22])];
         return_io (Plain 200 (concat (map csv_record (audit_csv_header # map csv_event rows))))
       }
   }"

lemma evolves_audit_page [evolve_intros]: "evolves db_step (list_audit e h r)" "evolves db_step (export_audit e h r)"
  unfolding list_audit_def export_audit_def load_audit_choices_def Let_def by (intro evolve_intros)+

section \<open>Pages\<close>

text \<open>The page is cut to the last one before the offset is computed, so the offset is the true one.\<close>

lemma audit_offset:
  assumes "int n < 2 ^ 62"
  shows "wrap64 ((audit_page_number r n - 1) * audit_per_page) = (audit_page_number r n - 1) * audit_per_page"
    and "0 \<le> (audit_page_number r n - 1) * audit_per_page" and "(audit_page_number r n - 1) * audit_per_page \<le> int n"
proof -
  have p: "1 \<le> audit_page_number r n" "audit_page_number r n \<le> total_pages n"
    by (simp_all add: audit_page_number_def page_number_def total_pages_def)
  have "(total_pages n - 1) * 50 \<le> int n" by (simp add: total_pages_def audit_per_page_def max_def) linarith
  with p show lo: "0 \<le> (audit_page_number r n - 1) * audit_per_page"
    and hi: "(audit_page_number r n - 1) * audit_per_page \<le> int n"
    by (simp_all add: audit_per_page_def)
  from lo hi assms show "wrap64 ((audit_page_number r n - 1) * audit_per_page) = (audit_page_number r n - 1) * audit_per_page"
    by (simp add: wrap64_def signed_take_bit_int_eq_self)
qed

text \<open>The pages of the list are the export, cut into pieces.\<close>

lemma audit_pages_in_order:
  assumes "query_audit_events f (int (length (t_audit d))) 0 d = Inr rows" "query_audit_events f 50 (int k) d = Inr piece"
  shows "piece = take 50 (drop k rows)"
proof -
  have "length (filter (kept_by f) (t_audit d)) \<le> length (t_audit d)" by simp
  with assms show ?thesis by (auto simp: query_audit_events_def sql_page_def Let_def)
qed

end
