(* ===== verification/AdminAccess.thy ===== *)
theory AdminAccess
  imports AdminUsers LinkFinish
begin

text \<open>
  What the admin panel does to a user's access: deactivation (\<open>internal/admin/users.go\<close>), a new address
  (\<open>users_email.go\<close>), unlinking an identity (\<open>users_identity.go\<close>) and invitations to link one
  (\<open>users_invite.go\<close>).  Each change and what must follow it (revoked sessions, burned links and invitations) are one
  transaction that does not end when the administrator goes away.
\<close>

section \<open>Deactivation\<close>

definition db_failed :: "db_err \<Rightarrow> reply" where
  "db_failed x = (if x = NoRows then not_found else db_error)"

definition deactivate_body :: "env \<Rightarrow> int \<Rightarrow> instant \<Rightarrow> (db_err + string \<times> nat) io" where
  "deactivate_body e i now = do {
     re \<leftarrow> db_write e Detached (deactivate_user (format_utc now) i);
     case re of
       Inl x \<Rightarrow> return_io (Inl x)
     | Inr email \<Rightarrow> do {
         t \<leftarrow> time_now e;
         rn \<leftarrow> db_write e Detached (burn_invites_for_user (format_link_invite_time t) i);
         return_io (case rn of Inl x \<Rightarrow> Inl x | Inr n \<Rightarrow> Inr (email, n))
       }
   }"

text \<open>The revocation comes after the commit; when it fails the user stays deactivated and the audit row says so.\<close>

definition deactivation_details :: "int \<Rightarrow> db_err + nat \<Rightarrow> nat \<Rightarrow> string" where
  "deactivation_details i rn burned =
     ''id='' @ format_int i @
     (case rn of Inl _ \<Rightarrow> '' revoke_failed'' | Inr n \<Rightarrow> '' revoked='' @ format_int (int n)) @
     '' invites_burned='' @ format_int (int burned)"

definition after_deactivation :: "env \<Rightarrow> string \<Rightarrow> request \<Rightarrow> int \<Rightarrow> string \<Rightarrow> nat \<Rightarrow> reply io" where
  "after_deactivation e actor r i email burned = do {
     rn \<leftarrow> db_write e Detached (revoke_user_refresh ''user_deactivated'' i);
     ok \<leftarrow> log_admin_write e actor (write_event r ''user_deactivated'' email (deactivation_details i rn burned));
     return_io (Redirect 303 (users_redirect ok))
   }"

definition handle_deactivate :: "env \<Rightarrow> string \<Rightarrow> string \<Rightarrow> handler" where
  "handle_deactivate e actor uid r =
     (case parse_int64 uid of
        None \<Rightarrow> return_io not_found
      | Some i \<Rightarrow> do {
          now \<leftarrow> time_now e;
          rt \<leftarrow> in_tx e Detached id (deactivate_body e i now);
          case rt of
            Inl x \<Rightarrow> return_io (db_failed x)
          | Inr (email, burned) \<Rightarrow> after_deactivation e actor r i email burned
        })"

section \<open>A new address\<close>

datatype email_err = EmailSame | EmailTaken | EmailConcurrent | EmailDb db_err

record email_done =
  ed_old :: string
  ed_revoked :: nat
  ed_burned :: nat
  ed_invites :: nat

definition to_email_err :: "db_err \<Rightarrow> email_err" where
  "to_email_err x = (if x = UniqueViolation then EmailTaken else EmailDb x)"

definition burn_links ::
  "env \<Rightarrow> int \<Rightarrow> string \<Rightarrow> string \<Rightarrow> instant \<Rightarrow> nat \<Rightarrow> (email_err + email_done) io" where
  "burn_links e i old_email new_email now revoked = do {
     rb \<leftarrow> db_write e Detached (burn_magic (normalize_email e old_email) new_email (format_utc now));
     case rb of
       Inl x \<Rightarrow> return_io (Inl (EmailDb x))
     | Inr burned \<Rightarrow> do {
         t \<leftarrow> time_now e;
         rn \<leftarrow> db_write e Detached (burn_invites_for_user (format_link_invite_time t) i);
         return_io (case rn of
           Inl x \<Rightarrow> Inl (EmailDb x)
         | Inr n \<Rightarrow> Inr \<lparr>ed_old = old_email, ed_revoked = revoked, ed_burned = burned, ed_invites = n\<rparr>)
       }
   }"

definition move_email :: "env \<Rightarrow> int \<Rightarrow> user_row \<Rightarrow> string \<Rightarrow> instant \<Rightarrow> nat \<Rightarrow> (email_err + email_done) io" where
  "move_email e i cur new_email now revoked =
     (if normalize_email e (u_email cur) = new_email then return_io (Inl EmailSame)
      else do {
        rn \<leftarrow> db_write e Detached (update_user_email new_email (format_utc now) i (u_email cur));
        case rn of
          Inl x \<Rightarrow> return_io (Inl (to_email_err x))
        | Inr n \<Rightarrow>
            if n \<noteq> 1 then return_io (Inl EmailConcurrent)
            else burn_links e i (u_email cur) new_email now revoked
      })"

definition email_change_body :: "env \<Rightarrow> int \<Rightarrow> string \<Rightarrow> instant \<Rightarrow> (email_err + email_done) io" where
  "email_change_body e i new_email now = do {
     rr \<leftarrow> db_write e Detached (revoke_user_refresh ''email_changed'' i);
     case rr of
       Inl x \<Rightarrow> return_io (Inl (EmailDb x))
     | Inr revoked \<Rightarrow> do {
         ru \<leftarrow> db_read e Detached (get_user_by_id i);
         case ru of
           Inl x \<Rightarrow> return_io (Inl (EmailDb x))
         | Inr cur \<Rightarrow> move_email e i cur new_email now revoked
       }
   }"

definition email_error :: "env \<Rightarrow> users_handler \<Rightarrow> user_row \<Rightarrow> string \<Rightarrow> nat \<Rightarrow> string \<Rightarrow> reply io" where
  "email_error e h u form_email status msg =
     edit_form e h u status [(''email_error'', msg), (''form_new_email'', form_email)]"

text \<open>After a concurrent change the form shows the user as they are now, when that can be read.\<close>

definition email_refused :: "env \<Rightarrow> users_handler \<Rightarrow> user_row \<Rightarrow> string \<Rightarrow> email_err \<Rightarrow> reply io" where
  "email_refused e h u form_email x =
     (case x of
        EmailDb y \<Rightarrow> return_io (db_failed y)
      | EmailSame \<Rightarrow> email_error e h u form_email 422 ''Det er allerede brukerens adresse.''
      | EmailTaken \<Rightarrow> email_error e h u form_email 409 ''Adressen er i bruk av en annen bruker.''
      | EmailConcurrent \<Rightarrow> do {
          ru \<leftarrow> db_read e ReqCtx (get_user_by_id (u_id u));
          email_error e h (case ru of Inl _ \<Rightarrow> u | Inr fresh \<Rightarrow> fresh) form_email 409
            (''Brukeren ble endret samtidig. Pr'' @ [CHR 0xC3, CHR 0xB8] @ ''v igjen.'')
        })"

definition edit_page :: "int \<Rightarrow> string" where
  "edit_page i = ''/admin/users/'' @ format_int i @ ''/edit''"

definition admin_done :: "bool \<Rightarrow> int \<Rightarrow> reply" where
  "admin_done ok i = Redirect 303 (if ok then edit_page i else users_redirect False)"

definition email_details :: "env \<Rightarrow> int \<Rightarrow> email_done \<Rightarrow> string" where
  "email_details e i d =
     ''id='' @ format_int i @ '' old='' @ e_quote e (ed_old d) @ '' revoked='' @ format_int (int (ed_revoked d)) @
     '' burned='' @ format_int (int (ed_burned d)) @ '' invites_burned='' @ format_int (int (ed_invites d))"

definition change_email :: "env \<Rightarrow> users_handler \<Rightarrow> string \<Rightarrow> request \<Rightarrow> user_row \<Rightarrow> string \<Rightarrow> reply io" where
  "change_email e h actor r u new_email = do {
     now \<leftarrow> time_now e;
     rd \<leftarrow> in_tx e Detached EmailDb (email_change_body e (u_id u) new_email now);
     case rd of
       Inl x \<Rightarrow> email_refused e h u (post_form_value r ''email'') x
     | Inr d \<Rightarrow> do {
         ok \<leftarrow> log_admin_write e actor (write_event r ''user_email_changed'' new_email (email_details e (u_id u) d));
         return_io (admin_done ok (u_id u))
       }
   }"

definition handle_email_change :: "env \<Rightarrow> users_handler \<Rightarrow> string \<Rightarrow> string \<Rightarrow> handler" where
  "handle_email_change e h actor uid r =
     with_user e uid (\<lambda>u.
       let form_email = post_form_value r ''email''; new_email = normalize_email e form_email in
       if \<not> valid_email new_email then email_error e h u form_email 422 ''Skriv inn en gyldig e-postadresse.''
       else if post_form_value r ''confirm'' \<noteq> ''1'' then
         email_error e h u form_email 422 ''Bekreft at endringen er avtalt med tjenesteeierne.''
       else change_email e h actor r u new_email)"

section \<open>Unlinking an identity\<close>

record unlinked =
  ul_row :: "string \<times> string \<times> int"
  ul_email :: string
  ul_revoked :: nat

definition unlink_body :: "env \<Rightarrow> int \<Rightarrow> int \<Rightarrow> (db_err + unlinked) io" where
  "unlink_body e i j = do {
     rd \<leftarrow> db_write e Detached (delete_identity j i);
     case rd of
       Inl x \<Rightarrow> return_io (Inl x)
     | Inr row \<Rightarrow> do {
         ru \<leftarrow> db_read e Detached (get_user_by_id i);
         case ru of
           Inl x \<Rightarrow> return_io (Inl x)
         | Inr u \<Rightarrow> do {
             rn \<leftarrow> db_write e Detached (revoke_user_refresh ''identity_unlinked'' i);
             return_io (case rn of
               Inl x \<Rightarrow> Inl x
             | Inr n \<Rightarrow> Inr \<lparr>ul_row = row, ul_email = u_email u, ul_revoked = n\<rparr>)
           }
       }
   }"

definition unlink_details :: "int \<Rightarrow> int \<Rightarrow> unlinked \<Rightarrow> string" where
  "unlink_details i j d =
     (case ul_row d of (prov, issuer, admin_ok) \<Rightarrow>
        ''id='' @ format_int i @ '' identity='' @ format_int j @ '' provider='' @ prov @ '' issuer='' @ issuer @
        '' admin_ok='' @ format_int admin_ok @ '' revoked='' @ format_int (int (ul_revoked d)))"

definition handle_unlink :: "env \<Rightarrow> string \<Rightarrow> string \<Rightarrow> string \<Rightarrow> handler" where
  "handle_unlink e actor uid iid r =
     (case (parse_int64 uid, parse_int64 iid) of
        (Some i, Some j) \<Rightarrow> do {
          rd \<leftarrow> in_tx e Detached id (unlink_body e i j);
          case rd of
            Inl x \<Rightarrow> return_io (db_failed x)
          | Inr d \<Rightarrow> do {
              ok \<leftarrow> log_admin_write e actor (write_event r ''identity_unlinked'' (ul_email d) (unlink_details i j d));
              return_io (admin_done ok i)
            }
        }
      | _ \<Rightarrow> return_io not_found)"

section \<open>Inviting to link an identity\<close>

datatype invite_err = InviteQuota | InviteDb db_err

definition invite_error :: "env \<Rightarrow> users_handler \<Rightarrow> user_row \<Rightarrow> nat \<Rightarrow> string \<Rightarrow> reply io" where
  "invite_error e h u status msg = edit_form e h u status [(''invite_error'', msg)]"

definition invite_pair :: "request \<Rightarrow> string \<times> string" where
  "invite_pair r =
     (let slug = post_form_value r ''provider''; sid = post_form_value r ''service''; pair = post_form_value r ''pair'' in
      if slug = [] \<and> sid = []
      then (takeWhile (\<lambda>c. c \<noteq> CHR '':'') pair, drop 1 (dropWhile (\<lambda>c. c \<noteq> CHR '':'') pair))
      else (slug, sid))"

definition find_service_by_id :: "env \<Rightarrow> string \<Rightarrow> (db_err + service_row option) io" where
  "find_service_by_id e sid = do {
     rs \<leftarrow> db_read e ReqCtx list_all_services;
     return_io (case rs of Inl x \<Rightarrow> Inl x | Inr svcs \<Rightarrow> Inr (List.find (\<lambda>s. sv_id s = sid) svcs))
   }"

definition link_invite_window :: duration where "link_invite_window = hour"

definition link_invite_params ::
  "string \<Rightarrow> user_row \<Rightarrow> provider \<Rightarrow> service_row \<Rightarrow> string \<Rightarrow> string \<Rightarrow> instant \<Rightarrow> invite_params" where
  "link_invite_params h u p svc email actor now =
     \<lparr>vp_hash = h, vp_user = u_id u, vp_provider = pr_id p, vp_service = sv_id svc, vp_email = email, vp_created_by = actor,
      vp_created = format_link_invite_time now, vp_expires = format_link_invite_time (now + link_invite_ttl),
      vp_window_start = format_link_invite_time (now - link_invite_window)\<rparr>"

text \<open>The older invitations are spent first; the quota then rolls that back, so that the previous one stands.\<close>

definition invite_body :: "env \<Rightarrow> invite_params \<Rightarrow> (invite_err + int) io" where
  "invite_body e p = do {
     rb \<leftarrow> db_write e Detached (burn_invites (vp_created p) (vp_user p) (vp_provider p));
     case rb of
       Inl x \<Rightarrow> return_io (Inl (InviteDb x))
     | Inr _ \<Rightarrow> do {
         rn \<leftarrow> db_write e Detached (insert_invite_limited p);
         case rn of
           Inl x \<Rightarrow> return_io (Inl (InviteDb x))
         | Inr n \<Rightarrow>
             if n = 0 then return_io (Inl InviteQuota)
             else do {
               rv \<leftarrow> db_read e Detached (get_valid_invite (vp_hash p) (vp_created p));
               return_io (case rv of Inl x \<Rightarrow> Inl (InviteDb x) | Inr row \<Rightarrow> Inr (li_id row))
             }
       }
   }"

definition invite_mail :: "env \<Rightarrow> invite_deps \<Rightarrow> request \<Rightarrow> service_row \<Rightarrow> provider \<Rightarrow> string \<Rightarrow> string \<Rightarrow> mail" where
  "invite_mail e deps r svc p email plain =
     SendLinkInvite email (sv_email_from_name svc) (link_base_url (id_base_url deps) (Some svc) @ ''/link/'' @ plain)
       (pr_name p) (locale_of e r) (opt_str (sv_email_from_address svc))"

definition invite_details :: "user_row \<Rightarrow> int \<Rightarrow> provider \<Rightarrow> service_row \<Rightarrow> string" where
  "invite_details u vid p svc =
     ''id='' @ format_int (u_id u) @ '' invite='' @ format_int vid @ '' provider='' @ pr_slug p @ '' service='' @ sv_id svc"

text \<open>Without its audit row no link may be out: the invitation is spent, so that its place in the quota stays taken.\<close>

definition withdraw_invite :: "env \<Rightarrow> users_handler \<Rightarrow> user_row \<Rightarrow> int \<Rightarrow> reply io" where
  "withdraw_invite e h u vid = do {
     t \<leftarrow> time_now e;
     rn \<leftarrow> db_write e Detached (revoke_invite (format_link_invite_time t) vid (u_id u));
     invite_error e h u 500
       (''Invitasjonen ble ikke sendt fordi audit-loggen ikke kunne skrives. Pr'' @ [CHR 0xC3, CHR 0xB8] @ ''v igjen.'')
   }"

definition send_invite ::
  "env \<Rightarrow> users_handler \<Rightarrow> invite_deps \<Rightarrow> string \<Rightarrow> request \<Rightarrow> user_row \<Rightarrow> provider \<Rightarrow> service_row \<Rightarrow> string \<Rightarrow> string \<Rightarrow> int \<Rightarrow> reply io"
where
  "send_invite e h deps actor r u p svc email plain vid = do {
     ok \<leftarrow> log_admin_write e actor (write_event r ''identity_link_invited'' email (invite_details u vid p svc));
     if \<not> ok then withdraw_invite e h u vid
     else do {
       send_mail (invite_mail e deps r svc p email plain);
       return_io (Redirect 303 (edit_page (u_id u) @ ''?invite=sent''))
     }
   }"

definition create_invite ::
  "env \<Rightarrow> users_handler \<Rightarrow> invite_deps \<Rightarrow> string \<Rightarrow> request \<Rightarrow> user_row \<Rightarrow> provider \<Rightarrow> service_row \<Rightarrow> string \<Rightarrow> reply io" where
  "create_invite e h deps actor r u p svc email = do {
     rt \<leftarrow> new_link_invite_token e;
     case rt of
       None \<Rightarrow> return_io (HttpError 500 ''intern feil'')
     | Some (plain, hash) \<Rightarrow> do {
         now \<leftarrow> time_now e;
         rv \<leftarrow> in_tx e Detached InviteDb (invite_body e (link_invite_params hash u p svc email actor now));
         case rv of
           Inl x \<Rightarrow>
             if x = InviteQuota then invite_error e h u 429 ''For mange invitasjoner siste time.''
             else return_io db_error
         | Inr vid \<Rightarrow> send_invite e h deps actor r u p svc email plain vid
       }
   }"

text \<open>The provider must be loaded and offered by the service, which must be active.\<close>

definition invite_for_service ::
  "env \<Rightarrow> users_handler \<Rightarrow> invite_deps \<Rightarrow> string \<Rightarrow> request \<Rightarrow> user_row \<Rightarrow> provider \<Rightarrow> string \<Rightarrow> string \<Rightarrow> reply io" where
  "invite_for_service e h deps actor r u p sid email = do {
     rs \<leftarrow> find_service_by_id e sid;
     case rs of
       Inl _ \<Rightarrow> return_io db_error
     | Inr None \<Rightarrow> invite_error e h u 422 ''Tjenesten finnes ikke eller er deaktivert.''
     | Inr (Some svc) \<Rightarrow>
         if sv_active svc \<noteq> 1 then invite_error e h u 422 ''Tjenesten finnes ikke eller er deaktivert.''
         else if \<not> list_ex (\<lambda>q. pr_id q = pr_id p) (for_service (id_idps deps) (sv_id svc)) then
           invite_error e h u 422 (''Leverand'' @ [CHR 0xC3, CHR 0xB8] @ ''ren er ikke tilordnet tjenesten.'')
         else create_invite e h deps actor r u p svc email
   }"

definition handle_invite_create :: "env \<Rightarrow> users_handler \<Rightarrow> string \<Rightarrow> string \<Rightarrow> handler" where
  "handle_invite_create e h actor uid r =
     (case au_invites h of
        None \<Rightarrow> return_io not_found
      | Some deps \<Rightarrow> with_user e uid (\<lambda>u.
          case invite_pair r of (slug, sid) \<Rightarrow>
            let email = normalize_email e (u_email u) in
            if u_deactivated u \<noteq> None \<or> \<not> valid_email email then
              invite_error e h u 422 ''Brukeren er deaktivert eller mangler e-postadresse.''
            else case map_of (ir_providers (id_idps deps)) slug of
              None \<Rightarrow> invite_error e h u 422 (''Leverand'' @ [CHR 0xC3, CHR 0xB8] @ ''ren er ikke lastet.'')
            | Some p \<Rightarrow> invite_for_service e h deps actor r u p sid email))"

definition handle_invite_revoke :: "env \<Rightarrow> string \<Rightarrow> string \<Rightarrow> string \<Rightarrow> handler" where
  "handle_invite_revoke e actor uid vid r =
     (case (parse_int64 uid, parse_int64 vid) of
        (Some i, Some v) \<Rightarrow> do {
          now \<leftarrow> time_now e;
          rn \<leftarrow> db_write e Detached (revoke_invite (format_link_invite_time now) v i);
          case rn of
            Inl _ \<Rightarrow> return_io db_error
          | Inr n \<Rightarrow>
              if n = 0 then return_io not_found
              else do {
                ok \<leftarrow> log_admin_write e actor (write_event r ''identity_link_invite_revoked'' []
                  (''id='' @ format_int i @ '' invite='' @ format_int v));
                return_io (admin_done ok i)
              }
        }
      | _ \<Rightarrow> return_io not_found)"

section \<open>Handlers stay within the statements\<close>

lemma evolves_case_email_err [evolve_intros]:
  "evolves R a \<Longrightarrow> evolves R b \<Longrightarrow> evolves R c \<Longrightarrow> (\<And>y. evolves R (d y)) \<Longrightarrow>
   evolves R (case x of EmailSame \<Rightarrow> a | EmailTaken \<Rightarrow> b | EmailConcurrent \<Rightarrow> c | EmailDb y \<Rightarrow> d y)"
  by (simp split: email_err.split)

lemma evolves_invite_error [evolve_intros]: "evolves db_step (invite_error e h u status msg)"
  unfolding invite_error_def by (intro evolve_intros)

lemma evolves_admin_access [evolve_intros]:
  "evolves db_step (handle_deactivate e actor uid r)" "evolves db_step (handle_email_change e h actor uid r)"
  "evolves db_step (handle_unlink e actor uid iid r)" "evolves db_step (handle_invite_create e h actor uid r)"
  "evolves db_step (handle_invite_revoke e actor uid vid r)"
  unfolding handle_deactivate_def deactivate_body_def after_deactivation_def handle_email_change_def email_error_def
    change_email_def email_change_body_def move_email_def burn_links_def email_refused_def handle_unlink_def unlink_body_def
    handle_invite_create_def invite_for_service_def find_service_by_id_def create_invite_def new_link_invite_token_def
    invite_body_def send_invite_def withdraw_invite_def handle_invite_revoke_def Let_def
  by (intro evolve_intros)+

section \<open>What a user has left\<close>

definition no_session :: "int \<Rightarrow> db \<Rightarrow> bool" where
  "no_session i d \<longleftrightarrow> (\<forall>t \<in> set (t_refresh d). rt_user t = Some i \<longrightarrow> rt_revoked t \<noteq> 0)"

definition no_invite :: "int \<Rightarrow> db \<Rightarrow> bool" where
  "no_invite i d \<longleftrightarrow> (\<forall>v \<in> set (t_invites d). li_user v = i \<longrightarrow> li_used_at v \<noteq> None)"

definition no_link :: "string set \<Rightarrow> string \<Rightarrow> db \<Rightarrow> bool" where
  "no_link emails now d \<longleftrightarrow> (\<forall>m \<in> set (t_magic d). mt_email m \<in> emails \<and> mt_used m = 0 \<longrightarrow> mt_expires m \<le> now)"

lemma all_upd_where: "(\<forall>s \<in> set (upd_where P f rs). Q s) \<longleftrightarrow> (\<forall>r \<in> set rs. Q (if P r then f r else r))"
  by (induction rs) simp_all

lemma left_cong:
  "t_refresh d' = t_refresh d \<Longrightarrow> no_session i d' = no_session i d"
  "t_invites d' = t_invites d \<Longrightarrow> no_invite i d' = no_invite i d"
  "t_magic d' = t_magic d \<Longrightarrow> no_link es now d' = no_link es now d"
  by (simp_all add: no_session_def no_invite_def no_link_def)

lemma revoke_user_refresh_ends: "no_session i (snd (revoke_user_refresh reason i d))"
  by (simp add: no_session_def revoke_user_refresh_def Let_def all_upd_where)

lemma burn_invites_ends: "no_invite i (snd (burn_invites_for_user now i d))"
  by (simp add: no_invite_def burn_invites_for_user_def burn_invites_where_def Let_def all_upd_where)

lemma burn_magic_ends: "no_link {a, b} now (snd (burn_magic a b now d))"
  by (auto simp: no_link_def burn_magic_def Let_def all_upd_where not_less)

lemma statement_frames [simp]:
  "t_users (snd (burn_invites_for_user now i d)) = t_users d" "t_refresh (snd (burn_invites_for_user now i d)) = t_refresh d"
  "t_magic (snd (burn_invites_for_user now i d)) = t_magic d"
  "t_users (snd (revoke_user_refresh reason i d)) = t_users d" "t_invites (snd (revoke_user_refresh reason i d)) = t_invites d"
  "t_identities (snd (revoke_user_refresh reason i d)) = t_identities d"
  "t_users (snd (burn_magic a b now d)) = t_users d" "t_refresh (snd (burn_magic a b now d)) = t_refresh d"
  by (simp_all add: burn_invites_for_user_def burn_invites_where_def revoke_user_refresh_def burn_magic_def Let_def)

lemma wp_log_admin_write:
  assumes "\<And>n. Q False (w\<lparr>w_step := n\<rparr>)"
    and "\<And>row n. ae_type row = ev_type ev \<Longrightarrow> Q True (w\<lparr>w_db := (w_db w)\<lparr>t_audit := t_audit (w_db w) @ [row]\<rparr>, w_step := n\<rparr>)"
  shows "wp (log_admin_write e actor ev) Q w"
  using assms
  by (simp add: log_admin_write_def log_sync_def insert_audit_def event_params_def wp_simps split: option.split)

lemma fault_of_failure: "db_failure e Detached n = Some x \<Longrightarrow> e_fault e n"
  by (simp add: db_failure_def split: if_splits)

section \<open>Deactivation ends everything\<close>

definition deactivated :: "int \<Rightarrow> db \<Rightarrow> db \<Rightarrow> bool" where
  "deactivated i d d' \<longleftrightarrow>
     (\<exists>u \<in> set (t_users d). u_id u = i) \<and> (\<forall>u \<in> set (t_users d'). u_id u = i \<longrightarrow> u_deactivated u \<noteq> None) \<and> no_invite i d'"

lemma deactivate_user_Inr:
  assumes "deactivate_user now i d = (Inr email, d')"
  shows "(\<exists>u \<in> set (t_users d). u_id u = i) \<and> (\<forall>u \<in> set (t_users d'). u_id u = i \<longrightarrow> u_deactivated u \<noteq> None)"
proof -
  let ?rows = "upd_where (\<lambda>r. u_id r = i) (u_deactivated_update (\<lambda>_. Some now)) (t_users d)"
  have "\<forall>u \<in> set ?rows. u_id u = i \<longrightarrow> u_deactivated u \<noteq> None" by (simp add: all_upd_where)
  moreover have "t_users d' = ?rows" "\<exists>u \<in> set (t_users d). u_id u = i"
    using assms
    by (auto simp: deactivate_user_def update_returning_def split: prod.splits sum.splits option.splits if_splits dest!: find_SomeD)
  ultimately show ?thesis by simp
qed

lemma deactivate_body_wp:
  "wp (deactivate_body e i now) (\<lambda>r w'. \<forall>a n. r = Inr a \<longrightarrow> deactivated i (w_db w) (w_db (w'\<lparr>w_step := n\<rparr>))) w"
proof -
  let ?d = "deactivate_user (format_utc now) i (w_db w)"
  show ?thesis
    by (cases ?d; cases "fst ?d")
      (auto simp: deactivate_body_def wp_simps deactivated_def burn_invites_ends dest!: deactivate_user_Inr split: option.split sum.split)
qed

lemma after_deactivation_wp:
  assumes "deactivated i d (w_db w)"
  shows "wp (after_deactivation e actor r i email burned)
    (\<lambda>reply w'. deactivated i d (w_db w') \<and> (no_session i (w_db w') \<or> (\<exists>n. e_fault e n))) w"
proof -
  have upd: "deactivated i d (d'\<lparr>t_audit := rows\<rparr>) = deactivated i d d'" "no_session i (d'\<lparr>t_audit := rows\<rparr>) = no_session i d'"
    for d' rows by (simp_all add: deactivated_def left_cong [of "d'\<lparr>t_audit := rows\<rparr>" d'])
  have rev: "deactivated i d (snd (revoke_user_refresh ''user_deactivated'' i (w_db w)))"
    using assms by (simp add: deactivated_def left_cong [of "snd (revoke_user_refresh ''user_deactivated'' i (w_db w))" "w_db w"])
  show ?thesis
    by (auto simp: after_deactivation_def wp_simps upd assms rev revoke_user_refresh_ends split: option.split
        intro!: wp_log_admin_write dest!: fault_of_failure)
qed

text \<open>C12. Deactivating a user either changes nothing and says so, or the user is deactivated, every invitation they
  had is spent and every refresh token they had is revoked; only a failing database can leave a session, whatever the
  administrator's client does.\<close>

theorem deactivation_ends_access:
  "case run_state (handle_deactivate e actor uid r) w of (reply, w') \<Rightarrow>
     w_db w' = w_db w \<and> reply \<in> {not_found, db_error} \<or>
     (\<exists>i. parse_int64 uid = Some i \<and> deactivated i (w_db w) (w_db w') \<and> (no_session i (w_db w') \<or> (\<exists>n. e_fault e n)))"
proof -
  have "wp (handle_deactivate e actor uid r) (\<lambda>reply w'.
     w_db w' = w_db w \<and> reply \<in> {not_found, db_error} \<or>
     (\<exists>i. parse_int64 uid = Some i \<and> deactivated i (w_db w) (w_db w') \<and> (no_session i (w_db w') \<or> (\<exists>n. e_fault e n)))) w"
  proof (cases "parse_int64 uid")
    case (Some i)
    show ?thesis
      by (simp add: handle_deactivate_def Some wp_bind wp_effects)
        (rule wp_in_tx_db; (rule wp_mono [OF deactivate_body_wp])?;
          auto simp: wp_return db_failed_def Some intro!: wp_mono [OF after_deactivation_wp])
  qed (simp add: handle_deactivate_def wp_return)
  then show ?thesis by (simp add: wp_def)
qed

section \<open>A new address cuts off the old one\<close>

text \<open>
  What the transaction did: the user with the old address has the new one since \<open>now\<close>, nobody else has it, and no
  session, no link to either address and no invitation is left.
\<close>

definition email_moved :: "env \<Rightarrow> int \<Rightarrow> string \<Rightarrow> string \<Rightarrow> instant \<Rightarrow> db \<Rightarrow> db \<Rightarrow> bool" where
  "email_moved e i old_email new_email now d d' \<longleftrightarrow>
     normalize_email e old_email \<noteq> new_email \<and> (\<exists>u \<in> set (t_users d). u_id u = i \<and> u_email u = old_email) \<and>
     \<not> email_taken new_email (filter (\<lambda>u. \<not> (u_id u = i \<and> u_email u = old_email)) (t_users d)) \<and>
     t_users d' = upd_where (\<lambda>u. u_id u = i \<and> u_email u = old_email)
       (\<lambda>u. u\<lparr>u_email := new_email, u_email_changed := Some (format_utc now)\<rparr>) (t_users d) \<and>
     no_session i d' \<and> no_link {normalize_email e old_email, new_email} (format_utc now) d' \<and> no_invite i d'"

lemma update_user_email_Inr:
  assumes "fst (update_user_email new_email ts i old_email d) = Inr n" "n \<noteq> 0"
  shows "\<not> email_taken new_email (filter (\<lambda>u. \<not> (u_id u = i \<and> u_email u = old_email)) (t_users d))"
    and "snd (update_user_email new_email ts i old_email d) = d\<lparr>t_users := upd_where (\<lambda>u. u_id u = i \<and> u_email u = old_email)
       (\<lambda>u. u\<lparr>u_email := new_email, u_email_changed := Some ts\<rparr>) (t_users d)\<rparr>"
  using assms by (auto simp: update_user_email_def Let_def split: if_splits)

lemma burn_links_wp:
  assumes "no_session i (w_db w)"
  shows "wp (burn_links e i old_email new_email now k) (\<lambda>r w'. isl r \<or>
     t_users (w_db w') = t_users (w_db w) \<and> no_session i (w_db w') \<and>
     no_link {normalize_email e old_email, new_email} (format_utc now) (w_db w') \<and> no_invite i (w_db w')) w"
proof -
  let ?b = "snd (burn_magic (normalize_email e old_email) new_email (format_utc now) (w_db w))"
  have "no_session i (snd (burn_invites_for_user ts i ?b)) = no_session i (w_db w)"
    "no_link es x (snd (burn_invites_for_user ts i ?b)) = no_link es x ?b" for ts es x
    by (rule left_cong; simp)+
  then show ?thesis using assms
    by (auto simp: burn_links_def wp_simps burn_invites_ends burn_magic_ends split: option.split sum.split)
qed

lemma email_movedI:
  assumes "normalize_email e (u_email cur) \<noteq> new_email" "cur \<in> set (t_users d)"
    and "fst (update_user_email new_email (format_utc now) (u_id cur) (u_email cur) d0) = Inr 1" "t_users d0 = t_users d"
    and "t_users d' = t_users (snd (update_user_email new_email (format_utc now) (u_id cur) (u_email cur) d0))"
    and "no_session (u_id cur) d' \<and> no_link {normalize_email e (u_email cur), new_email} (format_utc now) d' \<and>
      no_invite (u_id cur) d'"
  shows "email_moved e (u_id cur) (u_email cur) new_email now d d'"
  unfolding email_moved_def
  using assms(1,2,6) update_user_email_Inr [OF assms(3)] assms(4,5) by auto

lemma move_email_wp:
  assumes "no_session (u_id cur) (w_db w)" "cur \<in> set (t_users (w_db w))" "t_users (w_db w) = t_users d"
  shows "wp (move_email e (u_id cur) cur new_email now k)
    (\<lambda>r w'. isl r \<or> email_moved e (u_id cur) (u_email cur) new_email now d (w_db w')) w"
proof -
  let ?u = "update_user_email new_email (format_utc now) (u_id cur) (u_email cur) (w_db w)"
  show ?thesis
  proof (cases "fst ?u")
    case (Inl x)
    then show ?thesis by (simp add: move_email_def wp_simps split: option.split)
  next
    case (Inr m)
    have step: "wp (burn_links e (u_id cur) (u_email cur) new_email now k)
      (\<lambda>r w'. isl r \<or> email_moved e (u_id cur) (u_email cur) new_email now d (w_db w'))
      (w\<lparr>w_db := snd ?u, w_step := j\<rparr>)" if "m = 1" "normalize_email e (u_email cur) \<noteq> new_email" for j
    proof -
      have "t_refresh (snd ?u) = t_refresh (w_db w)" using that(1) by (simp add: update_user_email_Inr [OF Inr])
      then have "no_session (u_id cur) (snd ?u)" using assms(1) left_cong(1) by blast
      with that assms Inr show ?thesis
        by (intro wp_mono [OF burn_links_wp]) (auto intro!: email_movedI)
    qed
    show ?thesis
      by (auto simp: move_email_def wp_simps Inr intro: step split: option.split)
  qed
qed

lemma email_change_body_wp:
  "wp (email_change_body e i new_email now)
    (\<lambda>r w'. isl r \<or> (\<exists>old_email. email_moved e i old_email new_email now (w_db w) (w_db w'))) w"
proof -
  let ?d = "snd (revoke_user_refresh ''email_changed'' i (w_db w))"
  have step: "wp (move_email e i cur new_email now k)
      (\<lambda>r w'. isl r \<or> (\<exists>old_email. email_moved e i old_email new_email now (w_db w) (w_db w')))
      (w\<lparr>w_db := ?d, w_step := j\<rparr>)" if "get_user_by_id i ?d = Inr cur" for cur k j
  proof -
    have c: "cur \<in> set (t_users ?d)" "u_id cur = i" using get_user_by_id_Inr [OF that] by simp_all
    show ?thesis
      by (rule wp_mono [OF move_email_wp [where cur = cur and d = "w_db w", unfolded c(2)]])
        (use c in \<open>auto simp: revoke_user_refresh_ends\<close>)
  qed
  show ?thesis
    by (auto simp: email_change_body_def wp_simps split: option.split sum.split intro: step)
qed

lemma keeps_email_refused: "keeps (\<lambda>w. g (w_db w)) (email_refused e h u form_email x)"
  by (cases x) (simp_all add: email_refused_def email_error_def, (intro keeps_intros)+)

lemma wp_same_db: "keeps (\<lambda>w. w_db w) m \<Longrightarrow> (\<And>a w'. w_db w' = w_db w \<Longrightarrow> Q a w') \<Longrightarrow> wp m Q w"
  by (rule wp_mono [OF wp_keeps_any]) auto

lemma change_email_wp:
  "wp (change_email e h actor r u new_email)
    (\<lambda>_ w'. w_db w' = w_db w \<or> (\<exists>old_email now. email_moved e (u_id u) old_email new_email now (w_db w) (w_db w'))) w"
proof -
  have upd: "email_moved e i o' n' now d (d'\<lparr>t_audit := rows\<rparr>) = email_moved e i o' n' now d d'" for i o' n' now d d' rows
    by (simp add: email_moved_def left_cong [of "d'\<lparr>t_audit := rows\<rparr>" d'])
  have fin: "wp (log_admin_write e actor ev) (\<lambda>ok w'. email_moved e (u_id u) o' new_email now (w_db w) (w_db w')) w1"
    if "email_moved e (u_id u) o' new_email now (w_db w) (w_db w1)" for o' now w1 ev
    using that by (auto simp: upd intro!: wp_log_admin_write)
  show ?thesis
    unfolding change_email_def wp_bind wp_effects
  proof (rule wp_in_tx_db, goal_cases)
    case (1 x w')
    then show ?case by (auto intro!: wp_same_db [OF keeps_email_refused])
  next
    case 2
    show ?case
    proof (rule wp_mono [OF email_change_body_wp], intro allI impI)
      fix rd and w1 :: world and d :: email_done and n
      assume "isl rd \<or> (\<exists>old_email. email_moved e (u_id u) old_email new_email (e_clock e (w_step w))
          (w_db (w\<lparr>w_step := Suc (w_step w), w_step := Suc (w_step (w\<lparr>w_step := Suc (w_step w)\<rparr>))\<rparr>)) (w_db w1))"
        and rd: "rd = Inr d"
      then obtain o' where "email_moved e (u_id u) o' new_email (e_clock e (w_step w)) (w_db w) (w_db (w1\<lparr>w_step := n\<rparr>))"
        by auto
      note moved = fin [OF this]
      show "wp (case Inr d of
          Inl x \<Rightarrow> email_refused e h u (post_form_value r ''email'') x
        | Inr d \<Rightarrow> do {
            ok \<leftarrow> log_admin_write e actor (write_event r ''user_email_changed'' new_email (email_details e (u_id u) d));
            return_io (admin_done ok (u_id u))
          })
        (\<lambda>_ w'. w_db w' = w_db w \<or> (\<exists>old_email now. email_moved e (u_id u) old_email new_email now (w_db w) (w_db w')))
        (w1\<lparr>w_step := n\<rparr>)"
        by (auto simp: wp_bind wp_return intro!: wp_mono [OF moved])
    qed
  qed
qed

text \<open>C11. Changing an address either leaves the database as it was, or was confirmed and moved the user from an address
  they had to a valid one that nobody has: since that moment older tokens are not theirs any more, and no session of the
  user, no unused link to the old or the new address and no invitation is left.\<close>

theorem address_change_cuts_off:
  "case run_state (handle_email_change e h actor uid r) w of (_, w') \<Rightarrow>
     w_db w' = w_db w \<or>
     (\<exists>i old_email now. parse_int64 uid = Some i \<and> post_form_value r ''confirm'' = ''1'' \<and>
        valid_email (normalize_email e (post_form_value r ''email'')) \<and>
        email_moved e i old_email (normalize_email e (post_form_value r ''email'')) now (w_db w) (w_db w'))"
proof -
  have "wp (handle_email_change e h actor uid r) (\<lambda>_ w'. w_db w' = w_db w \<or>
     (\<exists>i old_email now. parse_int64 uid = Some i \<and> post_form_value r ''confirm'' = ''1'' \<and>
        valid_email (normalize_email e (post_form_value r ''email'')) \<and>
        email_moved e i old_email (normalize_email e (post_form_value r ''email'')) now (w_db w) (w_db w'))) w"
    unfolding handle_email_change_def email_error_def Let_def
    by (rule with_user_wp)
      (auto intro!: wp_same_db [OF keeps_edit_form(1)] wp_mono [OF change_email_wp] dest!: get_user_by_id_Inr)
  then show ?thesis by (simp add: wp_def)
qed

section \<open>An unlinked identity is gone\<close>

definition identity_gone :: "int \<Rightarrow> int \<Rightarrow> db \<Rightarrow> db \<Rightarrow> bool" where
  "identity_gone i j d d' \<longleftrightarrow>
     (\<exists>x \<in> set (t_identities d). ui_id x = j \<and> ui_user x = i) \<and>
     t_identities d' = delete_where (\<lambda>x. ui_id x = j \<and> ui_user x = i) (t_identities d) \<and>
     t_users d' = t_users d \<and> no_session i d'"

lemma delete_identity_Inr:
  assumes "fst (delete_identity j i d) = Inr row"
  shows "\<exists>x \<in> set (t_identities d). ui_id x = j \<and> ui_user x = i"
  using assms by (auto simp: delete_identity_def Let_def map_sum_def split: sum.splits dest: select_one_Inr)

lemma snd_delete_identity:
  "snd (delete_identity j i d) = d\<lparr>t_identities := delete_where (\<lambda>x. ui_id x = j \<and> ui_user x = i) (t_identities d)\<rparr>"
  by (simp add: delete_identity_def Let_def)

lemma unlink_body_wp:
  "wp (unlink_body e i j) (\<lambda>r w'. isl r \<or> identity_gone i j (w_db w) (w_db w')) w"
  by (auto simp: unlink_body_def wp_simps identity_gone_def revoke_user_refresh_ends snd_delete_identity
      dest!: delete_identity_Inr split: option.split sum.split)

text \<open>Unlinking either leaves the database as it was, or removed exactly that identity of that user and revoked
  every refresh token they had, in one transaction.\<close>

theorem unlink_ends_sessions:
  "case run_state (handle_unlink e actor uid iid r) w of (reply, w') \<Rightarrow>
     w_db w' = w_db w \<and> reply \<in> {not_found, db_error} \<or>
     (\<exists>i j. parse_int64 uid = Some i \<and> parse_int64 iid = Some j \<and> identity_gone i j (w_db w) (w_db w'))"
proof -
  have upd: "identity_gone i j d (d'\<lparr>t_audit := rows\<rparr>) = identity_gone i j d d'" for i j d d' rows
    by (simp add: identity_gone_def left_cong [of "d'\<lparr>t_audit := rows\<rparr>" d'])
  have "wp (handle_unlink e actor uid iid r) (\<lambda>reply w'. w_db w' = w_db w \<and> reply \<in> {not_found, db_error} \<or>
     (\<exists>i j. parse_int64 uid = Some i \<and> parse_int64 iid = Some j \<and> identity_gone i j (w_db w) (w_db w'))) w"
  proof (cases "parse_int64 uid"; cases "parse_int64 iid")
    fix i j assume ij: "parse_int64 uid = Some i" "parse_int64 iid = Some j"
    show ?thesis
      by (simp add: handle_unlink_def ij wp_bind)
        (rule wp_in_tx_db; (rule wp_mono [OF unlink_body_wp])?;
          auto simp: wp_return wp_bind db_failed_def ij upd intro!: wp_log_admin_write)
  qed (simp_all add: handle_unlink_def wp_return)
  then show ?thesis by (simp add: wp_def)
qed

section \<open>An invitation goes out once, audited\<close>

definition invite_for :: "string \<Rightarrow> user_row \<Rightarrow> provider \<Rightarrow> service_row \<Rightarrow> string \<Rightarrow> string \<Rightarrow> invite_row \<Rightarrow> bool" where
  "invite_for h u p svc email actor v \<longleftrightarrow>
     li_hash v = h \<and> li_user v = u_id u \<and> li_provider v = pr_id p \<and> li_service v = sv_id svc \<and> li_email v = email \<and>
     li_created_by v = actor"

text \<open>
  What the transaction did at an instant: the invitation is stored, unused and valid for a day; with it the user was sent at
  most five in the hour before the instant; and it is the one unused invitation of this user and provider.
\<close>

definition invited :: "instant \<Rightarrow> invite_row \<Rightarrow> db \<Rightarrow> bool" where
  "invited now v d \<longleftrightarrow>
     v \<in> set (t_invites d) \<and> li_created v = format_utc now \<and> li_expires v = format_utc (now + 24 * hour) \<and> li_used_at v = None \<and>
     count_where (\<lambda>x. li_user x = li_user v \<and> format_utc (now - hour) < li_created x) (t_invites d) \<le> 5 \<and>
     (\<forall>x \<in> set (t_invites d). li_user x = li_user v \<and> li_provider x = li_provider v \<and> li_used_at x = None \<longrightarrow>
        li_hash x = li_hash v)"

lemma burn_invites_spent:
  "\<forall>v \<in> set (t_invites (snd (burn_invites now uid pid d))). \<not> (li_user v = uid \<and> li_provider v = pid \<and> li_used_at v = None)"
  by (simp add: burn_invites_def burn_invites_where_def Let_def all_upd_where)

lemma insert_invite_invited:
  assumes "fst (insert_invite_limited (link_invite_params h u p svc email actor now) d) = Inr n" "n \<noteq> 0"
    and "\<forall>v \<in> set (t_invites d). \<not> (li_user v = u_id u \<and> li_provider v = pr_id p \<and> li_used_at v = None)"
  shows "\<exists>v. invite_for h u p svc email actor v \<and>
    invited now v (snd (insert_invite_limited (link_invite_params h u p svc email actor now) d))"
proof -
  let ?d' = "snd (insert_invite_limited (link_invite_params h u p svc email actor now) d)"
  have quota: "count_where (\<lambda>x. li_user x = u_id u \<and> format_utc (now - hour) < li_created x) (t_invites d) < 5"
    using assms(1,2)
    by (auto simp: insert_invite_limited_def link_invite_params_def invite_in_window_def [abs_def] link_invite_window_def
        format_link_invite_time_def Let_def split: if_splits)
  have "\<exists>i. t_invites ?d' = t_invites d @
      [\<lparr>li_id = i, li_hash = h, li_user = u_id u, li_provider = pr_id p, li_service = sv_id svc, li_email = email,
        li_created_by = actor, li_created = format_utc now, li_expires = format_utc (now + 24 * hour), li_used_at = None\<rparr>]"
    using assms(1,2)
    by (auto simp: insert_invite_limited_def link_invite_params_def link_invite_ttl_def format_link_invite_time_def Let_def
        split: if_splits)
  then obtain i where rows: "t_invites ?d' = t_invites d @
      [\<lparr>li_id = i, li_hash = h, li_user = u_id u, li_provider = pr_id p, li_service = sv_id svc, li_email = email,
        li_created_by = actor, li_created = format_utc now, li_expires = format_utc (now + 24 * hour), li_used_at = None\<rparr>]" ..
  show ?thesis
    by (rule exI [of _ "last (t_invites ?d')"])
      (use quota assms(3) in \<open>auto simp: rows invite_for_def invited_def count_where_append\<close>)
qed

lemma invite_body_wp:
  "wp (invite_body e (link_invite_params h u p svc email actor now)) (\<lambda>r w'. isl r \<or>
     t_audit (w_db w') = t_audit (w_db w) \<and> (\<exists>v. invite_for h u p svc email actor v \<and> invited now v (w_db w'))) w"
proof -
  let ?q = "link_invite_params h u p svc email actor now"
  have sel: "vp_user ?q = u_id u" "vp_provider ?q = pr_id p" by (simp_all add: link_invite_params_def)
  have audit: "t_audit (snd (insert_invite_limited ?q (snd (burn_invites t a b d)))) = t_audit d" for t a b d
    by (simp add: insert_invite_limited_def burn_invites_def burn_invites_where_def Let_def)
  have ins: "\<exists>v. invite_for h u p svc email actor v \<and>
      invited now v (snd (insert_invite_limited ?q (snd (burn_invites t (u_id u) (pr_id p) (w_db w)))))"
    if "fst (insert_invite_limited ?q (snd (burn_invites t (u_id u) (pr_id p) (w_db w)))) = Inr n" "0 < n" for t n
    by (rule insert_invite_invited [OF that(1) _ burn_invites_spent]) (use that(2) in simp)
  show ?thesis
    by (auto simp: invite_body_def wp_simps sel audit intro: ins split: option.split sum.split)
qed

definition invite_mailed ::
  "env \<Rightarrow> invite_deps \<Rightarrow> string \<Rightarrow> request \<Rightarrow> user_row \<Rightarrow> provider \<Rightarrow> service_row \<Rightarrow> string \<Rightarrow> instant \<Rightarrow> world \<Rightarrow> world \<Rightarrow> bool" where
  "invite_mailed e deps actor r u p svc email now w w' \<longleftrightarrow>
     (\<exists>plain v row. invite_for (hash_opaque e plain) u p svc email actor v \<and> invited now v (w_db w') \<and>
        t_audit (w_db w') = t_audit (w_db w) @ [row] \<and> ae_type row = ''identity_link_invited'' \<and> ae_email row = null_str email \<and>
        w_mails w' = w_mails w @ [invite_mail e deps r svc p email plain])"

definition at_most_one_mail ::
  "env \<Rightarrow> invite_deps \<Rightarrow> string \<Rightarrow> request \<Rightarrow> user_row \<Rightarrow> provider \<Rightarrow> service_row \<Rightarrow> string \<Rightarrow> instant \<Rightarrow> world \<Rightarrow> world \<Rightarrow> bool" where
  "at_most_one_mail e deps actor r u p svc email now w w' \<longleftrightarrow>
     w_mails w' = w_mails w \<or> invite_mailed e deps actor r u p svc email now w w'"

text \<open>The clock is read once, after the user, the service and the secret of the link.\<close>

definition invite_out :: "env \<Rightarrow> users_handler \<Rightarrow> string \<Rightarrow> string \<Rightarrow> request \<Rightarrow> world \<Rightarrow> world \<Rightarrow> bool" where
  "invite_out e h actor uid r w w' \<longleftrightarrow>
     (\<exists>deps u p svc. au_invites h = Some deps \<and> u \<in> set (t_users (w_db w)) \<and> parse_int64 uid = Some (u_id u) \<and>
        u_deactivated u = None \<and> valid_email (normalize_email e (u_email u)) \<and>
        svc \<in> set (t_services (w_db w)) \<and> sv_active svc = 1 \<and>
        (\<exists>q \<in> set (for_service (id_idps deps) (sv_id svc)). pr_id q = pr_id p) \<and>
        invite_mailed e deps actor r u p svc (normalize_email e (u_email u)) (e_clock e (w_step w + 3)) w w')"

lemma invite_error_no_mail: "wp (invite_error e h u status msg) (\<lambda>_ w'. w_mails w' = w_mails w) w"
  unfolding invite_error_def by (rule wp_keeps_any) (intro keeps_intros)

text \<open>An audited write stores one row with the type and the address of the event, or tells that it did not.\<close>

lemma wp_log_admin_row:
  assumes "\<And>n. Q False (w\<lparr>w_step := n\<rparr>)"
    and "\<And>row n. ae_type row = ev_type ev \<Longrightarrow> ae_email row = null_str (ev_email ev) \<Longrightarrow>
      Q True (w\<lparr>w_db := (w_db w)\<lparr>t_audit := t_audit (w_db w) @ [row]\<rparr>, w_step := n\<rparr>)"
  shows "wp (log_admin_write e actor ev) Q w"
  using assms
  by (simp add: log_admin_write_def log_sync_def insert_audit_def event_params_def wp_simps split: option.split)

lemma send_invite_wp:
  assumes "invite_for (hash_opaque e plain) u p svc email actor v" "invited now v (w_db w1)"
    "t_audit (w_db w1) = t_audit (w_db w)" "w_mails w1 = w_mails w"
  shows "wp (send_invite e h deps actor r u p svc email plain vid)
    (\<lambda>_. at_most_one_mail e deps actor r u p svc email now w) w1"
proof -
  have upd: "invited t x (d\<lparr>t_audit := rows\<rparr>) = invited t x d" for t x d rows by (simp add: invited_def)
  have "keeps w_mails (withdraw_invite e h u vid)"
    unfolding withdraw_invite_def invite_error_def by (intro keeps_intros keeps_mails_response)+
  then have quiet: "wp (withdraw_invite e h u vid) (\<lambda>_ w'. w_mails w' = w_mails w2) (w2\<lparr>w_step := n\<rparr>)" for w2 n
    by (rule wp_mono [OF wp_keeps_any]) simp
  have sent: "invite_mailed e deps actor r u p svc email now w (w1\<lparr>w_db := (w_db w1)\<lparr>t_audit := t_audit (w_db w1) @ [row]\<rparr>,
      w_step := n, w_mails := w_mails w1 @ [invite_mail e deps r svc p email plain]\<rparr>)"
    if "ae_type row = ''identity_link_invited''" "ae_email row = null_str email" for row n
    unfolding invite_mailed_def
    by (rule exI [of _ plain], rule exI [of _ v], rule exI [of _ row]) (use assms that in \<open>simp add: upd\<close>)
  show ?thesis
    unfolding send_invite_def wp_bind
    by (rule wp_log_admin_row)
      (use assms sent in \<open>auto simp: wp_simps write_event_def method_event_def at_most_one_mail_def intro!: wp_mono [OF quiet]\<close>)
qed

text \<open>A transaction, by what its body achieves.\<close>

lemma wp_in_tx_via:
  assumes "wp body R (w\<lparr>w_step := Suc (w_step w)\<rparr>)" and "\<And>x n. Q (Inl (wrap x)) (w\<lparr>w_step := n\<rparr>)"
    and "\<And>x w'. R (Inl x) w' \<Longrightarrow> Q (Inl x) (w'\<lparr>w_db := w_db w\<rparr>)"
    and "\<And>a x w' n. R (Inr a) w' \<Longrightarrow> Q (Inl (wrap x)) (w'\<lparr>w_db := w_db w, w_step := n\<rparr>)"
    and "\<And>a w' n. R (Inr a) w' \<Longrightarrow> Q (Inr a) (w'\<lparr>w_step := n\<rparr>)"
  shows "wp (in_tx e ctx wrap body) Q w"
  unfolding wp_in_tx using assms(2-)
  by (auto split: option.split sum.split intro!: wp_mono [OF assms(1)])

lemma create_invite_wp:
  "wp (create_invite e h deps actor r u p svc email)
     (\<lambda>_. at_most_one_mail e deps actor r u p svc email (e_clock e (Suc (w_step w))) w) w"
proof -
  let ?now = "e_clock e (Suc (w_step w))"
  have keeps: "keeps w_mails (invite_body e q)" for q
    unfolding invite_body_def by (intro keeps_mails_response keeps_intros)
  have err: "wp (invite_error e h u st msg) (\<lambda>_. at_most_one_mail e deps actor r u p svc email ?now w) w1"
    if "w_mails w1 = w_mails w" for st msg w1
    using that by (intro wp_mono [OF invite_error_no_mail]) (simp add: at_most_one_mail_def)
  have none: "at_most_one_mail e deps actor r u p svc email ?now w w1" if "w_mails w1 = w_mails w" for w1
    using that by (simp add: at_most_one_mail_def)
  have tx: "wp (in_tx e Detached InviteDb (invite_body e (link_invite_params (hash_opaque e plain) u p svc email actor ?now)))
     (\<lambda>rv. wp (case rv of
        Inl x \<Rightarrow> if x = InviteQuota then invite_error e h u 429 ''For mange invitasjoner siste time.'' else return_io db_error
      | Inr vid \<Rightarrow> send_invite e h deps actor r u p svc email plain vid)
        (\<lambda>_. at_most_one_mail e deps actor r u p svc email ?now w)) (w\<lparr>w_step := n\<rparr>)"
    for plain n
  proof -
    let ?q = "link_invite_params (hash_opaque e plain) u p svc email actor ?now"
    let ?w = "w\<lparr>w_step := n\<rparr>"
    have body: "wp (invite_body e ?q) (\<lambda>rv w'. w_mails w' = w_mails w \<and> (isl rv \<or> t_audit (w_db w') = t_audit (w_db w) \<and>
        (\<exists>v. invite_for (hash_opaque e plain) u p svc email actor v \<and> invited ?now v (w_db w')))) (?w\<lparr>w_step := k\<rparr>)" for k
      using wp_keeps_any [OF keeps, of ?q "?w\<lparr>w_step := k\<rparr>"]
        invite_body_wp [of e "hash_opaque e plain" u p svc email actor ?now "?w\<lparr>w_step := k\<rparr>"]
      by (simp add: wp_conj)
    show ?thesis
      by (rule wp_in_tx_via [OF body]) (auto simp: wp_return intro!: err none send_invite_wp)
  qed
  show ?thesis
    using tx none by (auto simp: create_invite_def new_link_invite_token_def Let_def wp_bind wp_return wp_effects split: option.split)
qed

lemma invite_for_service_wp:
  assumes "w_mails w1 = w_mails w" "w_db w1 = w_db w"
  shows "wp (invite_for_service e h deps actor r u p sid email) (\<lambda>_ w'. w_mails w' = w_mails w \<or>
     (\<exists>svc \<in> set (t_services (w_db w)). sv_active svc = 1 \<and>
        (\<exists>q \<in> set (for_service (id_idps deps) (sv_id svc)). pr_id q = pr_id p) \<and>
        invite_mailed e deps actor r u p svc email (e_clock e (Suc (Suc (w_step w1)))) w w')) w1"
proof -
  let ?now = "e_clock e (Suc (Suc (w_step w1)))"
  have mailed: "invite_mailed e deps actor r u p svc email ?now (w1\<lparr>w_step := n\<rparr>) w' = invite_mailed e deps actor r u p svc email ?now w w'"
    for svc n w' by (simp add: invite_mailed_def assms)
  have one: "wp (create_invite e h deps actor r u p svc email) (\<lambda>_ w'. w_mails w' = w_mails w \<or>
     (\<exists>svc \<in> set (t_services (w_db w)). sv_active svc = 1 \<and>
        (\<exists>q \<in> set (for_service (id_idps deps) (sv_id svc)). pr_id q = pr_id p) \<and>
        invite_mailed e deps actor r u p svc email ?now w w')) (w1\<lparr>w_step := Suc (w_step w1)\<rparr>)"
    if "svc \<in> set (t_services (w_db w))" "sv_active svc = 1"
      "\<exists>q \<in> set (for_service (id_idps deps) (sv_id svc)). pr_id q = pr_id p" for svc
    using that by (intro wp_mono [OF create_invite_wp]) (auto simp: mailed at_most_one_mail_def assms)
  show ?thesis
    using assms
    by (auto simp: invite_for_service_def find_service_by_id_def list_all_services_def wp_bind wp_return wp_db_read list_ex_iff
      split: option.split sum.split dest!: find_SomeD intro!: wp_mono [OF invite_error_no_mail] one)
qed

text \<open>C13. An invitation is mailed only to the valid address of an active user, for a provider that an active service
  offers, after its own row was stored in the audit log.  By the clock of the server at that moment it is valid for a day,
  it is at most the fifth of this user within an hour, and it is the only unused invitation of this user for this provider;
  its link was given out in this one mail.\<close>

theorem invitation_is_audited_first:
  "case run_state (handle_invite_create e h actor uid r) w of (_, w') \<Rightarrow>
     w_mails w' = w_mails w \<or> invite_out e h actor uid r w w'"
proof -
  have "wp (handle_invite_create e h actor uid r) (\<lambda>_ w'. w_mails w' = w_mails w \<or> invite_out e h actor uid r w w') w"
  proof (cases "au_invites h")
    case (Some deps)
    have one: "wp (invite_for_service e h deps actor r u p sid (normalize_email e (u_email u)))
        (\<lambda>_ w'. w_mails w' = w_mails w \<or> invite_out e h actor uid r w w') (w\<lparr>w_step := Suc (w_step w)\<rparr>)"
      if "u \<in> set (t_users (w_db w))" "parse_int64 uid = Some (u_id u)" "u_deactivated u = None"
        "valid_email (normalize_email e (u_email u))" for u p sid
    proof (rule wp_mono [OF invite_for_service_wp [where w = w]])
      fix a w'
      assume "w_mails w' = w_mails w \<or> (\<exists>svc \<in> set (t_services (w_db w)). sv_active svc = 1 \<and>
        (\<exists>q \<in> set (for_service (id_idps deps) (sv_id svc)). pr_id q = pr_id p) \<and>
        invite_mailed e deps actor r u p svc (normalize_email e (u_email u))
          (e_clock e (Suc (Suc (w_step (w\<lparr>w_step := Suc (w_step w)\<rparr>))))) w w')"
      then have "w_mails w' = w_mails w \<or> (\<exists>svc \<in> set (t_services (w_db w)). sv_active svc = 1 \<and>
        (\<exists>q \<in> set (for_service (id_idps deps) (sv_id svc)). pr_id q = pr_id p) \<and>
        invite_mailed e deps actor r u p svc (normalize_email e (u_email u)) (e_clock e (w_step w + 3)) w w')"
        by (simp add: numeral_3_eq_3)
      with that Some show "w_mails w' = w_mails w \<or> invite_out e h actor uid r w w'"
        unfolding invite_out_def by blast
    qed simp_all
    show ?thesis
      unfolding handle_invite_create_def Some option.case
      by (rule with_user_at)
        (auto simp: Let_def split: prod.split option.split dest!: get_user_by_id_Inr intro!: one wp_mono [OF invite_error_no_mail])
  qed (simp add: handle_invite_create_def wp_return)
  then show ?thesis by (simp add: wp_def)
qed

end
