(* ===== verification/AdminServices.thy ===== *)
theory AdminServices
  imports AdminAccess
begin

text \<open>
  The service pages of the admin panel: \<open>internal/admin/services.go\<close>.  A form is checked, overlaid on the stored row and
  saved; the cache of active services is reloaded and the change is audited.  The uploaded picture and the file it is
  stored in are parameters; a handler that reloads the cache returns it with its reply.
\<close>

section \<open>Forms\<close>

definition post_form_all :: "request \<Rightarrow> string \<Rightarrow> string list" where
  "post_form_all r k = map snd (filter (\<lambda>kv. fst kv = k) (rq_form r))"

definition set_form :: "string \<Rightarrow> string \<Rightarrow> request \<Rightarrow> request" where
  "set_form k v r = r\<lparr>rq_form := (k, v) # filter (\<lambda>kv. fst kv \<noteq> k) (rq_form r)\<rparr>"

definition nullable_str :: "string \<Rightarrow> string option" where
  "nullable_str s = nonblank (trim_space s)"

definition default_str :: "string \<Rightarrow> string \<Rightarrow> string" where
  "default_str s def = (if trim_space s = [] then def else trim_space s)"

definition checkbox_int :: "request \<Rightarrow> string \<Rightarrow> int" where
  "checkbox_int r k = (if post_form_value r k = ''1'' then 1 else 0)"

text \<open>\<open>formSecretEnv\<close> and \<open>formOptional\<close>: \<open>None\<close> when the form has no such field, \<open>Some None\<close> when it is blank.\<close>

definition form_optional :: "request \<Rightarrow> string \<Rightarrow> string option option" where
  "form_optional r k = (if post_form_all r k = [] then None else Some (nullable_str (last (post_form_all r k))))"

definition form_sub_format :: "request \<Rightarrow> string option" where
  "form_sub_format r = (if post_form_all r ''sub_format'' = [] then None else Some (last (post_form_all r ''sub_format'')))"

definition form_auto_link :: "request \<Rightarrow> int option" where
  "form_auto_link r =
     (if post_form_all r ''auto_link'' = [] then None
      else Some (if last (post_form_all r ''auto_link'') = ''1'' then 1 else 0))"

definition value_or :: "'a option \<Rightarrow> 'a \<Rightarrow> 'a" where
  "value_or v d = (case v of None \<Rightarrow> d | Some x \<Rightarrow> x)"

definition default_accent :: string where "default_accent = CHR 0x23 # ''2563EB''"

text \<open>The row a form creates; \<open>COALESCE\<close> in the statement gives the two optional columns their defaults.\<close>

definition build_create_params :: "request \<Rightarrow> string \<Rightarrow> string \<Rightarrow> service_row" where
  "build_create_params r sid now =
     (let f = post_form_value r; opt = (\<lambda>k. value_or (form_optional r k) None) in
      \<lparr>sv_id = sid, sv_display_name = f ''display_name'', sv_tagline = nullable_str (f ''tagline''), sv_domain = f ''domain'',
       sv_auth_host = nullable_str (f ''auth_host''), sv_callback = f ''callback_url'',
       sv_logo_html = nullable_str (f ''logo_html''), sv_bg_image = nullable_str (f ''bg_image''),
       sv_bg_css = nullable_str (f ''bg_css''), sv_theme = default_str (f ''theme'') ''light'',
       sv_accent = default_str (f ''accent_color'') default_accent,
       sv_email_from_name = default_str (f ''email_from_name'') sid, sv_auto_register = checkbox_int r ''auto_register'',
       sv_default_role = nullable_str (f ''default_role''), sv_default_org = nullable_str (f ''default_org''),
       sv_require_role = nullable_str (f ''require_role''), sv_enforce_org = checkbox_int r ''enforce_org'',
       sv_is_default = checkbox_int r ''is_default'', sv_auth_google = checkbox_int r ''auth_google'',
       sv_auth_microsoft = checkbox_int r ''auth_microsoft'', sv_auth_magic = checkbox_int r ''auth_magic_link'',
       sv_auth_password = checkbox_int r ''auth_password'', sv_google_client_id = None, sv_google_client_secret = None,
       sv_microsoft_client_id = None, sv_microsoft_client_secret = None,
       sv_cookie_name = default_str (f ''jwt_cookie_name'') ''auth_token'',
       sv_access_ttl = default_str (f ''access_token_ttl'') ''PT15M'',
       sv_refresh_max_age = nullable_str (f ''refresh_token_max_age''), sv_active = checkbox_int r ''active'', sv_updated = now,
       sv_email_from_address = nullable_str (f ''email_from_address''),
       sv_sub_format = value_or (form_sub_format r) ''email'', sv_auto_link = value_or (form_auto_link r) 1,
       sv_google_secret_env = opt ''google_secret_env'', sv_microsoft_secret_env = opt ''microsoft_secret_env'',
       sv_auth_github = checkbox_int r ''auth_github'', sv_github_client_id = opt ''github_client_id'',
       sv_github_secret_env = opt ''github_secret_env''\<rparr>)"

text \<open>An update writes every column, so what the form does not carry comes from the stored row.\<close>

definition build_update_params :: "request \<Rightarrow> service_row \<Rightarrow> string \<Rightarrow> service_row" where
  "build_update_params r old now =
     (build_create_params r (sv_id old) now)
       \<lparr>sv_logo_html := sv_logo_html old, sv_bg_css := sv_bg_css old,
        sv_google_client_id := sv_google_client_id old, sv_google_client_secret := sv_google_client_secret old,
        sv_microsoft_client_id := sv_microsoft_client_id old, sv_microsoft_client_secret := sv_microsoft_client_secret old,
        sv_google_secret_env := value_or (form_optional r ''google_secret_env'') (sv_google_secret_env old),
        sv_microsoft_secret_env := value_or (form_optional r ''microsoft_secret_env'') (sv_microsoft_secret_env old),
        sv_github_secret_env := value_or (form_optional r ''github_secret_env'') (sv_github_secret_env old),
        sv_github_client_id := value_or (form_optional r ''github_client_id'') (sv_github_client_id old),
        sv_sub_format := value_or (form_sub_format r) (sv_sub_format old),
        sv_auto_link := value_or (form_auto_link r) (sv_auto_link old)\<rparr>"

section \<open>Checks\<close>

definition alnum :: "char \<Rightarrow> bool" where
  "alnum c \<longleftrightarrow> ascii_letter c \<or> is_digit c"

text \<open>\<open>authHostPattern\<close>: two or more labels between points, each starting and ending with a letter or a digit.\<close>

definition host_label :: "string \<Rightarrow> bool" where
  "host_label l \<longleftrightarrow> l \<noteq> [] \<and> list_all (\<lambda>c. alnum c \<or> c = CHR ''-'') l \<and> alnum (hd l) \<and> alnum (last l)"

definition auth_host_pattern :: "string \<Rightarrow> bool" where
  "auth_host_pattern s \<longleftrightarrow> 2 \<le> length (split_on (CHR ''.'') s) \<and> list_all host_label (split_on (CHR ''.'') s)"

definition validate_auth_host :: "string \<Rightarrow> string option" where
  "validate_auth_host raw =
     (let s = trim_space raw in
      if s = [] then None
      else if index_text s ''://'' \<noteq> None then Some ''auth_host skal ikke inneholde skjema (fjern https://)''
      else if list_ex (\<lambda>c. c \<in> {CHR ''/'', CHR '' '', CHR 0x09, CHR 0x0A}) s
      then Some (''auth_host skal v'' @ [CHR 0xC3, CHR 0xA6] @ ''re et rent vertsnavn, ikke inneholde sti eller mellomrom'')
      else if \<not> auth_host_pattern s then Some ''auth_host er ikke et gyldig vertsnavn''
      else None)"

definition validate_enforce_org :: "request \<Rightarrow> string option" where
  "validate_enforce_org r =
     (if checkbox_int r ''enforce_org'' = 1 \<and> nullable_str (post_form_value r ''default_org'') = None
      then Some (''Krev org-samsvar (enforce_org) forutsetter en standard org. Fyll ut standard org eller fjern avkryssingen.'')
      else None)"

definition validate_sub_format :: "request \<Rightarrow> string option" where
  "validate_sub_format r =
     (case form_sub_format r of
        None \<Rightarrow> None
      | Some v \<Rightarrow> if v \<noteq> ''email'' \<and> v \<noteq> ''id'' then Some ''Ugyldig sub-format. Velg email eller id.'' else None)"

definition secret_env_name :: "string \<Rightarrow> bool" where
  "secret_env_name v \<longleftrightarrow> length v \<le> 64 \<and> client_secret_env_re v"

definition validate_secret_env_field :: "request \<Rightarrow> string \<times> string \<Rightarrow> string option" where
  "validate_secret_env_field r fl =
     (case form_optional r (fst fl) of
        Some (Some v) \<Rightarrow>
          if secret_env_name v then None
          else Some (snd fl @ '': milj'' @ [CHR 0xC3, CHR 0xB8] @ ''variabelen m'' @ [CHR 0xC3, CHR 0xA5] @
            '' hete KAUTH_SVC_ etterfulgt av store bokstaver, tall og understrek (maks 64 tegn).'')
      | _ \<Rightarrow> None)"

fun first_some :: "'a option list \<Rightarrow> 'a option" where
  "first_some [] = None"
| "first_some (None # xs) = first_some xs"
| "first_some (Some x # xs) = Some x"

definition validate_secret_env :: "request \<Rightarrow> string option" where
  "validate_secret_env r = first_some (map (validate_secret_env_field r)
     [(''google_secret_env'', ''Google''), (''microsoft_secret_env'', ''Microsoft''), (''github_secret_env'', ''GitHub'')])"

definition github_client_id_re :: "string \<Rightarrow> bool" where
  "github_client_id_re v \<longleftrightarrow>
     1 \<le> length v \<and> length v \<le> 128 \<and> list_all (\<lambda>c. alnum c \<or> c \<in> {CHR ''.'', CHR ''_'', CHR ''-''}) v"

definition validate_github_client_id :: "request \<Rightarrow> string option" where
  "validate_github_client_id r =
     (case form_optional r ''github_client_id'' of
        Some (Some v) \<Rightarrow>
          if github_client_id_re v then None
          else Some ''GitHub client ID kan bare inneholde bokstaver, tall, punktum, bindestrek og understrek (maks 128 tegn)''
      | _ \<Rightarrow> None)"

definition valid_service_id :: "string \<Rightarrow> bool" where
  "valid_service_id s \<longleftrightarrow> 1 \<le> length s \<and> length s \<le> 64 \<and> list_all (\<lambda>c. lower_digit c \<or> c = CHR ''-'') s"

definition callback_problem :: string where
  "callback_problem = ''Callback-URL m'' @ [CHR 0xC3, CHR 0xA5] @ '' v'' @ [CHR 0xC3, CHR 0xA6] @
     ''re absolutte https-adresser, adskilt med komma.''"

definition policy_problem :: "request \<Rightarrow> string option" where
  "policy_problem r = first_some
     [validate_enforce_org r, validate_sub_format r, validate_secret_env r, validate_github_client_id r]"

section \<open>What the page shows\<close>

definition service_from_form :: "request \<Rightarrow> service_row" where
  "service_from_form r =
     (build_create_params r (post_form_value r ''id'') [])
       \<lparr>sv_email_from_name := post_form_value r ''email_from_name'', sv_logo_html := None, sv_bg_css := None\<rparr>"

definition without_secrets :: "service_row \<Rightarrow> service_row" where
  "without_secrets s = s\<lparr>sv_google_client_id := None, sv_google_client_secret := None, sv_microsoft_client_id := None,
     sv_microsoft_client_secret := None\<rparr>"

definition overlay_form :: "service_row \<Rightarrow> request \<Rightarrow> service_row" where
  "overlay_form old r =
     (let f = service_from_form r in
      f\<lparr>sv_id := sv_id old, sv_logo_html := sv_logo_html old, sv_bg_css := sv_bg_css old, sv_updated := sv_updated old,
        sv_google_client_id := None, sv_google_client_secret := None, sv_microsoft_client_id := None,
        sv_microsoft_client_secret := None,
        sv_sub_format := (case form_sub_format r of
            Some v \<Rightarrow> if v = ''email'' \<or> v = ''id'' then v else sv_sub_format old | None \<Rightarrow> sv_sub_format old),
        sv_auto_link := value_or (form_auto_link r) (sv_auto_link old),
        sv_google_secret_env := value_or (form_optional r ''google_secret_env'') (sv_google_secret_env old),
        sv_microsoft_secret_env := value_or (form_optional r ''microsoft_secret_env'') (sv_microsoft_secret_env old),
        sv_github_secret_env := value_or (form_optional r ''github_secret_env'') (sv_github_secret_env old),
        sv_github_client_id := value_or (form_optional r ''github_client_id'') (sv_github_client_id old)\<rparr>)"

definition env_is_set :: "env \<Rightarrow> string option \<Rightarrow> bool" where
  "env_is_set e name =
     (case name of None \<Rightarrow> False | Some n \<Rightarrow> client_secret_env_re n \<and> trim_space (e_getenv e n) \<noteq> [])"

definition secret_status :: "env \<Rightarrow> service_row \<Rightarrow> service_row option \<Rightarrow> (string \<times> string) list" where
  "secret_status e shown stored =
     [(''google_env_set'', flag_text (env_is_set e (sv_google_secret_env shown))),
      (''microsoft_env_set'', flag_text (env_is_set e (sv_microsoft_secret_env shown))),
      (''github_env_set'', flag_text (env_is_set e (sv_github_secret_env shown))),
      (''google_plain'', flag_text (case stored of None \<Rightarrow> False | Some s \<Rightarrow> nonempty (sv_google_client_secret s))),
      (''microsoft_plain'', flag_text (case stored of None \<Rightarrow> False | Some s \<Rightarrow> nonempty (sv_microsoft_client_secret s)))]"

definition service_fields :: "service_row \<Rightarrow> (string \<times> string) list" where
  "service_fields s =
     [(''id'', sv_id s), (''display_name'', sv_display_name s), (''tagline'', opt_str (sv_tagline s)), (''domain'', sv_domain s),
      (''auth_host'', opt_str (sv_auth_host s)), (''callback_url'', sv_callback s), (''bg_image'', opt_str (sv_bg_image s)),
      (''theme'', sv_theme s), (''accent_color'', sv_accent s), (''email_from_name'', sv_email_from_name s),
      (''email_from_address'', opt_str (sv_email_from_address s)), (''default_role'', opt_str (sv_default_role s)),
      (''default_org'', opt_str (sv_default_org s)), (''require_role'', opt_str (sv_require_role s)),
      (''jwt_cookie_name'', sv_cookie_name s), (''access_token_ttl'', sv_access_ttl s),
      (''refresh_token_max_age'', opt_str (sv_refresh_max_age s)), (''sub_format'', sv_sub_format s),
      (''google_client_id'', opt_str (sv_google_client_id s)), (''google_client_secret'', opt_str (sv_google_client_secret s)),
      (''microsoft_client_id'', opt_str (sv_microsoft_client_id s)),
      (''microsoft_client_secret'', opt_str (sv_microsoft_client_secret s)),
      (''google_secret_env'', opt_str (sv_google_secret_env s)), (''microsoft_secret_env'', opt_str (sv_microsoft_secret_env s)),
      (''github_client_id'', opt_str (sv_github_client_id s)), (''github_secret_env'', opt_str (sv_github_secret_env s))] @
     map (\<lambda>(k, v). (k, format_int v))
       [(''auto_register'', sv_auto_register s), (''enforce_org'', sv_enforce_org s), (''is_default'', sv_is_default s),
        (''auth_google'', sv_auth_google s), (''auth_microsoft'', sv_auth_microsoft s), (''auth_magic_link'', sv_auth_magic s),
        (''auth_password'', sv_auth_password s), (''auth_github'', sv_auth_github s), (''auto_link'', sv_auto_link s),
        (''active'', sv_active s)]"

definition service_error :: "env \<Rightarrow> service_row \<Rightarrow> service_row option \<Rightarrow> string \<Rightarrow> reply io" where
  "service_error e svc old msg =
     html_page 422 ''admin/service-edit.html''
       ([(''is_new'', flag_text (old = None)), (''error'', msg)] @ service_fields svc @ secret_status e svc old)"

section \<open>The uploaded picture\<close>

text \<open>
  \<open>bu_type\<close> is the part's \<open>Content-Type\<close>, \<open>bu_media\<close> what \<open>mime.ParseMediaType\<close> makes of it, \<open>bu_copied\<close> whether
  \<open>io.Copy\<close> succeeds.  \<open>sh_open\<close> is the error of creating the named file, if any.
\<close>

record bg_upload =
  bu_size :: int
  bu_type :: string
  bu_media :: string
  bu_copied :: bool

record services_handler =
  sh_form_ok :: "request \<Rightarrow> bool"
  sh_upload :: "request \<Rightarrow> bg_upload option"
  sh_open :: "string \<Rightarrow> string option"
  sh_err :: "db_err \<Rightarrow> string"
  sh_providers :: "idp_registry option"

definition media_extension :: "string \<Rightarrow> string option" where
  "media_extension m =
     (if m = ''image/jpeg'' then Some ''.jpg'' else if m = ''image/webp'' then Some ''.webp''
      else if m = ''image/png'' then Some ''.png'' else None)"

definition store_picture :: "env \<Rightarrow> services_handler \<Rightarrow> bg_upload \<Rightarrow> string \<Rightarrow> string \<Rightarrow> (string + string option) io" where
  "store_picture e h u sid ext = do {
     b \<leftarrow> rand_read e 4;
     return_io (case b of
       None \<Rightarrow> Inl ''Kunne ikke generere filnavn.''
     | Some bytes \<Rightarrow>
         (let filename = sid @ ''-bg-'' @ hex_encode bytes @ ext in
          case sh_open h (''static/'' @ filename) of
            Some msg \<Rightarrow> Inl (''Kunne ikke lagre bildet: '' @ msg)
          | None \<Rightarrow> if \<not> bu_copied u then Inl ''Kunne ikke lagre bildet.'' else Inr (Some (CHR ''/'' # filename))))
   }"

definition handle_bg_upload :: "env \<Rightarrow> services_handler \<Rightarrow> request \<Rightarrow> string \<Rightarrow> (string + string option) io" where
  "handle_bg_upload e h r sid =
     (case sh_upload h r of
        None \<Rightarrow> return_io (Inr None)
      | Some u \<Rightarrow>
          if bu_size u = 0 then return_io (Inr None)
          else if 2 ^ 20 < bu_size u then return_io (Inl ''Bildet er for stort (maks 1 MB).'')
          else (case media_extension (bu_media u) of
              None \<Rightarrow> return_io (Inl (''Ugyldig filtype ('' @ bu_type u @ ''). Kun JPEG, WebP og PNG er tillatt.''))
            | Some ext \<Rightarrow> store_picture e h u sid ext))"

section \<open>Handlers\<close>

definition list_services_page :: "env \<Rightarrow> services_handler \<Rightarrow> handler" where
  "list_services_page e h r = do {
     rs \<leftarrow> db_read e ReqCtx list_all_services;
     case rs of
       Inl x \<Rightarrow> return_io (HttpError 500 (''databasefeil: '' @ sh_err h x))
     | Inr svcs \<Rightarrow>
         (let warns = warn_flags r [''cache'', ''audit''] in
          html_page 200 ''admin/services.html''
            ([(''warn_cache'', flag_text (''cache'' \<in> set warns)), (''warn_audit'', flag_text (''audit'' \<in> set warns))] @
             map (\<lambda>s. (''service:'' @ sv_id s, sv_display_name s)) svcs))
   }"

definition new_service :: service_row where
  "new_service = blank_service\<lparr>sv_display_name := [], sv_auth_google := 1, sv_auth_magic := 1, sv_active := 1,
     sv_accent := default_accent, sv_theme := ''light'', sv_cookie_name := ''auth_token'', sv_access_ttl := ''PT15M'',
     sv_sub_format := ''email'', sv_auto_link := 1\<rparr>"

definition new_service_page :: "env \<Rightarrow> reply io" where
  "new_service_page e =
     html_page 200 ''admin/service-edit.html'' ((''is_new'', ''1'') # service_fields new_service @ secret_status e blank_service None)"

text \<open>\<open>registry.Invalidate\<close> reloads the cache; the row stays saved when that fails.\<close>

definition invalidate_cache :: "env \<Rightarrow> service_row list \<Rightarrow> (bool \<times> service_row list) io" where
  "invalidate_cache e cache = do { rc \<leftarrow> warmup e ReqCtx cache; return_io (fst rc = None, snd rc) }"

definition dash_str :: "string option \<Rightarrow> string" where
  "dash_str p = (case p of None \<Rightarrow> ''(ingen)'' | Some s \<Rightarrow> s)"

definition change_text :: "string \<Rightarrow> string option \<Rightarrow> string option \<Rightarrow> string" where
  "change_text k old new = (if dash_str old = dash_str new then [] else '' '' @ k @ ''='' @ dash_str old @ ''->'' @ dash_str new)"

definition github_client_id_change :: "string option \<Rightarrow> string option \<Rightarrow> string" where
  "github_client_id_change = change_text ''github_client_id''"

text \<open>The three references of the old and the new row; an old row does not exist at creation.\<close>

definition secret_env_changes :: "service_row option \<Rightarrow> service_row \<Rightarrow> string" where
  "secret_env_changes old new =
     (let of_old = (\<lambda>g. case old of None \<Rightarrow> None | Some s \<Rightarrow> g s) in
      change_text ''google_secret_env'' (of_old sv_google_secret_env) (sv_google_secret_env new) @
      change_text ''microsoft_secret_env'' (of_old sv_microsoft_secret_env) (sv_microsoft_secret_env new) @
      change_text ''github_secret_env'' (of_old sv_github_secret_env) (sv_github_secret_env new))"

definition identity_policy_changes :: "service_row \<Rightarrow> service_row \<Rightarrow> string" where
  "identity_policy_changes old new =
     (if sv_sub_format old \<noteq> sv_sub_format new then '' sub_format='' @ sv_sub_format old @ ''->'' @ sv_sub_format new else []) @
     (if sv_auto_link old \<noteq> sv_auto_link new
      then '' auto_link='' @ format_int (sv_auto_link old) @ ''->'' @ format_int (sv_auto_link new) else []) @
     (if sv_auth_github old \<noteq> sv_auth_github new
      then '' auth_github='' @ format_int (sv_auth_github old) @ ''->'' @ format_int (sv_auth_github new) else [])"

definition picture_text :: "string option \<Rightarrow> string" where
  "picture_text up = (case up of None \<Rightarrow> [] | Some path \<Rightarrow> '' bg_image_uploaded='' @ path)"

definition created_details :: "service_row \<Rightarrow> string option \<Rightarrow> string" where
  "created_details s up =
     ''service_created sub_format='' @ sv_sub_format s @ '' auto_link='' @ format_int (sv_auto_link s) @
     (if sv_auth_github s = 1 then '' auth_github=1'' else []) @ secret_env_changes None s @
     github_client_id_change None (sv_github_client_id s) @ picture_text up"

definition edited_details :: "service_row \<Rightarrow> service_row \<Rightarrow> string option \<Rightarrow> string" where
  "edited_details old s up =
     ''service_edited'' @ identity_policy_changes old s @ secret_env_changes (Some old) s @
     github_client_id_change (sv_github_client_id old) (sv_github_client_id s) @ picture_text up"

text \<open>After a saved row: reload, audit, and the list with its warnings.\<close>

definition service_saved ::
  "env \<Rightarrow> string \<Rightarrow> service_row list \<Rightarrow> request \<Rightarrow> string \<Rightarrow> string \<Rightarrow> string \<Rightarrow> (reply \<times> service_row list) io" where
  "service_saved e actor cache r typ sid details = do {
     rc \<leftarrow> invalidate_cache e cache;
     ok \<leftarrow> log_admin_write e actor (method_event r typ [] [] sid True details);
     return_io (Redirect 303 (saved_redirect (fst rc) ok), snd rc)
   }"

definition with_cache :: "service_row list \<Rightarrow> reply io \<Rightarrow> (reply \<times> service_row list) io" where
  "with_cache cache m = do { reply \<leftarrow> m; return_io (reply, cache) }"

definition with_picture :: "string option \<Rightarrow> request \<Rightarrow> request" where
  "with_picture up r = (case up of None \<Rightarrow> r | Some path \<Rightarrow> set_form ''bg_image'' path r)"

definition store_new_service ::
  "env \<Rightarrow> services_handler \<Rightarrow> string \<Rightarrow> service_row list \<Rightarrow> request \<Rightarrow> string \<Rightarrow> (reply \<times> service_row list) io" where
  "store_new_service e h actor cache r sid = do {
     ru \<leftarrow> handle_bg_upload e h r sid;
     case ru of
       Inl msg \<Rightarrow> with_cache cache (service_error e (service_from_form r) None msg)
     | Inr up \<Rightarrow>
         (let r = with_picture up r in do {
            now \<leftarrow> time_now e;
            let s = build_create_params r sid (format_utc now);
            rc \<leftarrow> db_write e ReqCtx (create_service s);
            case rc of
              Inl x \<Rightarrow> with_cache cache (service_error e (service_from_form r) None (''Feil ved opprettelse: '' @ sh_err h x))
            | Inr _ \<Rightarrow> service_saved e actor cache r ''service_created'' sid (created_details s up)
          })
   }"

definition service_id_problem :: string where
  "service_id_problem = ''Tjeneste-ID er p'' @ [CHR 0xC3, CHR 0xA5] @ ''krevd (a-z, 0-9 og bindestrek, maks 64 tegn).''"

definition create_service_page ::
  "env \<Rightarrow> services_handler \<Rightarrow> string \<Rightarrow> service_row list \<Rightarrow> request \<Rightarrow> (reply \<times> service_row list) io" where
  "create_service_page e h actor cache r =
     (if \<not> sh_form_ok h r then return_io (HttpError 400 ''ugyldig skjema'', cache)
      else (let sid = trim_space (post_form_value r ''id'');
                bad = (\<lambda>r msg. with_cache cache (service_error e (service_from_form r) None msg)) in
        if \<not> valid_service_id sid then bad r service_id_problem
        else case normalize_callback_urls e (post_form_value r ''callback_url'') of
          None \<Rightarrow> bad r callback_problem
        | Some cb \<Rightarrow>
            (let r = set_form ''callback_url'' cb r in
             case first_some [validate_auth_host (post_form_value r ''auth_host''), policy_problem r] of
               Some msg \<Rightarrow> bad r msg
             | None \<Rightarrow> store_new_service e h actor cache r sid)))"

definition store_service ::
  "env \<Rightarrow> services_handler \<Rightarrow> string \<Rightarrow> service_row list \<Rightarrow> request \<Rightarrow> service_row \<Rightarrow> instant \<Rightarrow> (reply \<times> service_row list) io" where
  "store_service e h actor cache r old now = do {
     ru \<leftarrow> handle_bg_upload e h r (sv_id old);
     case ru of
       Inl msg \<Rightarrow> with_cache cache (service_error e (overlay_form old r) (Some old) msg)
     | Inr up \<Rightarrow>
         (let r = with_picture up r; s = build_update_params r old (format_utc now) in do {
            rc \<leftarrow> db_write e ReqCtx (update_service s);
            case rc of
              Inl x \<Rightarrow> with_cache cache (service_error e (overlay_form old r) (Some old) (''Databasefeil: '' @ sh_err h x))
            | Inr _ \<Rightarrow> service_saved e actor cache r ''service_edited'' (sv_id old) (edited_details old s up)
          })
   }"

definition required_problem :: "request \<Rightarrow> string option" where
  "required_problem r =
     (if trim_space (post_form_value r ''display_name'') = [] \<or> trim_space (post_form_value r ''domain'') = [] \<or>
         trim_space (post_form_value r ''callback_url'') = []
      then Some (''Visningsnavn, domene og callback-URL er p'' @ [CHR 0xC3, CHR 0xA5] @ ''krevd.'') else None)"

definition update_found ::
  "env \<Rightarrow> services_handler \<Rightarrow> string \<Rightarrow> service_row list \<Rightarrow> request \<Rightarrow> service_row \<Rightarrow> (reply \<times> service_row list) io" where
  "update_found e h actor cache r old = do {
     now \<leftarrow> time_now e;
     (let bad = (\<lambda>r msg. with_cache cache (service_error e (overlay_form old r) (Some old) msg)) in
      case first_some [validate_auth_host (post_form_value r ''auth_host''), required_problem r] of
        Some msg \<Rightarrow> bad r msg
      | None \<Rightarrow>
          (case normalize_callback_urls e (post_form_value r ''callback_url'') of
             None \<Rightarrow> bad r callback_problem
           | Some cb \<Rightarrow>
               (let r = set_form ''callback_url'' cb r in
                case policy_problem r of
                  Some msg \<Rightarrow> bad r msg
                | None \<Rightarrow> store_service e h actor cache r old now)))
   }"

definition update_service_page ::
  "env \<Rightarrow> services_handler \<Rightarrow> string \<Rightarrow> service_row list \<Rightarrow> string \<Rightarrow> request \<Rightarrow> (reply \<times> service_row list) io" where
  "update_service_page e h actor cache sid r = do {
     rs \<leftarrow> find_service_by_id e sid;
     case rs of
       Inl _ \<Rightarrow> return_io (db_error, cache)
     | Inr None \<Rightarrow> return_io (not_found, cache)
     | Inr (Some old) \<Rightarrow>
         if \<not> sh_form_ok h r then return_io (HttpError 400 ''ugyldig skjema'', cache)
         else update_found e h actor cache r old
   }"

section \<open>Handlers stay within the statements\<close>

lemma evolves_service_error [evolve_intros]: "evolves db_step (service_error e svc old msg)"
  unfolding service_error_def by (intro evolve_intros)

lemma evolves_bg_upload [evolve_intros]: "evolves db_step (handle_bg_upload e h r sid)"
  unfolding handle_bg_upload_def store_picture_def by (intro evolve_intros)+

lemma evolves_service_saved [evolve_intros]: "evolves db_step (service_saved e actor cache r typ sid details)"
  unfolding service_saved_def invalidate_cache_def warmup_def by (intro evolve_intros)+

lemma evolves_with_cache [evolve_intros]: "evolves db_step m \<Longrightarrow> evolves db_step (with_cache cache m)"
  unfolding with_cache_def by (intro evolve_intros | assumption)+

lemma evolves_admin_services [evolve_intros]:
  "evolves db_step (list_services_page e h r)" "evolves db_step (new_service_page e)"
  "evolves db_step (create_service_page e h actor cache r)" "evolves db_step (update_service_page e h actor cache sid r)"
  unfolding list_services_page_def new_service_page_def create_service_page_def store_new_service_def update_service_page_def
    update_found_def store_service_def find_service_by_id_def Let_def
  by (intro evolve_intros)+

section \<open>What a form can save\<close>

text \<open>
  Whatever was posted, a saved row has usable callbacks, a host name that is nothing but a host name, no organisation
  rule without an organisation, references only to variables of services or the stored ones, and the stored secrets.
\<close>

definition reference_ok :: "service_row option \<Rightarrow> service_row \<Rightarrow> (service_row \<Rightarrow> string option) \<Rightarrow> bool" where
  "reference_ok old s g \<longleftrightarrow>
     (case g s of None \<Rightarrow> True | Some v \<Rightarrow> secret_env_name v \<or> (case old of None \<Rightarrow> False | Some o' \<Rightarrow> g o' = Some v))"

definition saved_ok :: "env \<Rightarrow> service_row option \<Rightarrow> service_row \<Rightarrow> bool" where
  "saved_ok e old s \<longleftrightarrow>
     list_all (callback_ok e) (callback_urls (sv_callback s)) \<and>
     (case sv_auth_host s of None \<Rightarrow> True | Some h \<Rightarrow> auth_host_pattern h) \<and>
     (sv_enforce_org s = 1 \<longrightarrow> sv_default_org s \<noteq> None) \<and>
     (\<forall>g \<in> {sv_google_secret_env, sv_microsoft_secret_env, sv_github_secret_env}. reference_ok old s g) \<and>
     (\<forall>g \<in> {sv_google_client_id, sv_google_client_secret, sv_microsoft_client_id, sv_microsoft_client_secret}.
        g s = (case old of None \<Rightarrow> None | Some o' \<Rightarrow> g o'))"

lemma post_form_set:
  "post_form_value (set_form k v r) l = (if l = k then v else post_form_value r l)"
  "post_form_all (set_form k v r) l = (if l = k then [v] else post_form_all r l)"
proof -
  have "l \<noteq> k \<Longrightarrow> map_of (filter (\<lambda>kv. fst kv \<noteq> k) xs) l = map_of xs l" for xs :: "(string \<times> string) list"
    by (induction xs) auto
  then show "post_form_value (set_form k v r) l = (if l = k then v else post_form_value r l)"
    by (auto simp: post_form_value_def get_first_def set_form_def)
  show "post_form_all (set_form k v r) l = (if l = k then [v] else post_form_all r l)"
    by (auto simp: post_form_all_def set_form_def intro!: arg_cong [of _ _ "map snd"] filter_cong)
qed

lemma form_with_picture [simp]:
  "l \<noteq> ''bg_image'' \<Longrightarrow> post_form_value (with_picture up r) l = post_form_value r l"
  "l \<noteq> ''bg_image'' \<Longrightarrow> post_form_all (with_picture up r) l = post_form_all r l"
  by (simp_all add: with_picture_def post_form_set split: option.split)

lemma form_optional_picture [simp]: "l \<noteq> ''bg_image'' \<Longrightarrow> form_optional (with_picture up r) l = form_optional r l"
  by (simp add: form_optional_def)

lemma first_some_None: "first_some xs = None \<longleftrightarrow> list_all (\<lambda>x. x = None) xs"
  by (induction xs rule: first_some.induct) auto

lemma validate_auth_host_None:
  "validate_auth_host raw = None \<Longrightarrow> nullable_str raw = Some h \<Longrightarrow> auth_host_pattern h"
  by (auto simp: validate_auth_host_def nullable_str_def nonblank_def Let_def split: if_splits)

lemma policy_fields:
  assumes "policy_problem r = None"
  shows "checkbox_int r ''enforce_org'' = 1 \<Longrightarrow> nullable_str (post_form_value r ''default_org'') \<noteq> None"
    and "k \<in> {''google_secret_env'', ''microsoft_secret_env'', ''github_secret_env''} \<Longrightarrow>
      form_optional r k = Some (Some v) \<Longrightarrow> secret_env_name v"
  using assms
  by (auto simp: policy_problem_def first_some_None validate_enforce_org_def validate_secret_env_def
      validate_secret_env_field_def split: if_splits option.splits)

lemma reference_ok_form:
  assumes "policy_problem r = None" "k \<in> {''google_secret_env'', ''microsoft_secret_env'', ''github_secret_env''}"
    and "g s = value_or (form_optional r k) (case old of None \<Rightarrow> None | Some o' \<Rightarrow> g o')"
  shows "reference_ok old s g"
proof (cases "form_optional r k")
  case None
  then show ?thesis using assms(3) by (auto simp: reference_ok_def value_or_def split: option.splits)
next
  case (Some v)
  then show ?thesis using assms(3) policy_fields(2) [OF assms(1,2)]
    by (auto simp: reference_ok_def value_or_def split: option.split)
qed

lemma create_sel:
  "sv_callback (build_create_params r sid now) = post_form_value r ''callback_url''"
  "sv_auth_host (build_create_params r sid now) = nullable_str (post_form_value r ''auth_host'')"
  "sv_enforce_org (build_create_params r sid now) = checkbox_int r ''enforce_org''"
  "sv_default_org (build_create_params r sid now) = nullable_str (post_form_value r ''default_org'')"
  "sv_google_secret_env (build_create_params r sid now) = value_or (form_optional r ''google_secret_env'') None"
  "sv_microsoft_secret_env (build_create_params r sid now) = value_or (form_optional r ''microsoft_secret_env'') None"
  "sv_github_secret_env (build_create_params r sid now) = value_or (form_optional r ''github_secret_env'') None"
  "sv_google_client_id (build_create_params r sid now) = None" "sv_google_client_secret (build_create_params r sid now) = None"
  "sv_microsoft_client_id (build_create_params r sid now) = None"
  "sv_microsoft_client_secret (build_create_params r sid now) = None" "sv_id (build_create_params r sid now) = sid"
  by (simp_all add: build_create_params_def Let_def)

lemma update_sel:
  "sv_callback (build_update_params r old now) = sv_callback (build_create_params r (sv_id old) now)"
  "sv_auth_host (build_update_params r old now) = sv_auth_host (build_create_params r (sv_id old) now)"
  "sv_enforce_org (build_update_params r old now) = sv_enforce_org (build_create_params r (sv_id old) now)"
  "sv_default_org (build_update_params r old now) = sv_default_org (build_create_params r (sv_id old) now)"
  "sv_google_secret_env (build_update_params r old now) =
     value_or (form_optional r ''google_secret_env'') (sv_google_secret_env old)"
  "sv_microsoft_secret_env (build_update_params r old now) =
     value_or (form_optional r ''microsoft_secret_env'') (sv_microsoft_secret_env old)"
  "sv_github_secret_env (build_update_params r old now) =
     value_or (form_optional r ''github_secret_env'') (sv_github_secret_env old)"
  "sv_google_client_id (build_update_params r old now) = sv_google_client_id old"
  "sv_google_client_secret (build_update_params r old now) = sv_google_client_secret old"
  "sv_microsoft_client_id (build_update_params r old now) = sv_microsoft_client_id old"
  "sv_microsoft_client_secret (build_update_params r old now) = sv_microsoft_client_secret old"
  "sv_id (build_update_params r old now) = sv_id old"
  by (simp_all add: build_update_params_def create_sel)

text \<open>A row with the form's fields, and the stored values (or none) where the form has none.\<close>

lemma form_saved_ok:
  assumes form: "normalize_callback_urls e raw = Some cb" "post_form_value r ''callback_url'' = cb"
      "validate_auth_host (post_form_value r ''auth_host'') = None" "policy_problem r = None"
    and row: "sv_callback s = post_form_value r ''callback_url''" "sv_auth_host s = nullable_str (post_form_value r ''auth_host'')"
      "sv_enforce_org s = checkbox_int r ''enforce_org''" "sv_default_org s = nullable_str (post_form_value r ''default_org'')"
    and refs: "\<And>g. g \<in> {sv_google_secret_env, sv_microsoft_secret_env, sv_github_secret_env} \<Longrightarrow> reference_ok old s g"
    and kept: "\<And>g. g \<in> {sv_google_client_id, sv_google_client_secret, sv_microsoft_client_id, sv_microsoft_client_secret} \<Longrightarrow>
      g s = (case old of None \<Rightarrow> None | Some o' \<Rightarrow> g o')"
  shows "saved_ok e old s"
proof -
  have "list_all (callback_ok e) (callback_urls (sv_callback s))"
    unfolding row(1) form(2) using callback_list_roundtrip [OF form(1)] by blast
  moreover have "case sv_auth_host s of None \<Rightarrow> True | Some h \<Rightarrow> auth_host_pattern h"
    using validate_auth_host_None [OF form(3)] row(2) by (simp split: option.split)
  moreover have "sv_enforce_org s = 1 \<longrightarrow> sv_default_org s \<noteq> None"
    using policy_fields(1) [OF form(4)] row(3,4) by simp
  ultimately show ?thesis unfolding saved_ok_def using refs kept by blast
qed

lemma create_saved_ok:
  assumes "normalize_callback_urls e raw = Some cb" "post_form_value r ''callback_url'' = cb"
    and "validate_auth_host (post_form_value r ''auth_host'') = None" "policy_problem r = None"
  shows "saved_ok e None (build_create_params (with_picture up r) sid now)"
proof (rule form_saved_ok [OF assms], goal_cases)
  case (5 g)
  then show ?case
    by (elim insertE emptyE; hypsubst; intro reference_ok_form [OF assms(4)]) (simp_all add: create_sel)
qed (auto simp: create_sel checkbox_int_def)

lemma update_saved_ok:
  assumes "normalize_callback_urls e raw = Some cb" "post_form_value r ''callback_url'' = cb"
    and "validate_auth_host (post_form_value r ''auth_host'') = None" "policy_problem r = None"
  shows "saved_ok e (Some old) (build_update_params (with_picture up r) old now)"
proof (rule form_saved_ok [OF assms], goal_cases)
  case (5 g)
  then show ?case
    by (elim insertE emptyE; hypsubst; intro reference_ok_form [OF assms(4)]) (simp_all add: update_sel)
qed (auto simp: create_sel update_sel checkbox_int_def)

lemma keeps_service_saved: "keeps (\<lambda>w. t_services (w_db w)) (service_saved e actor cache r typ sid details)"
  unfolding service_saved_def invalidate_cache_def warmup_def log_admin_write_def
  by (intro keeps_intros keeps_log_sync_db [where g = t_services]) simp_all

lemma keeps_service_error: "keeps (\<lambda>w. g (w_db w)) (with_cache cache (service_error e svc old msg))"
  unfolding with_cache_def service_error_def by (intro keeps_intros)

lemma keeps_bg_upload [keeps_intros]: "keeps (\<lambda>w. g (w_db w)) (handle_bg_upload e h r sid)"
  unfolding handle_bg_upload_def store_picture_def by (intro keeps_intros)+

lemma quiet_service_error: "wp (with_cache cache (service_error e svc old msg)) (\<lambda>_ w'. t_services (w_db w') = t_services (w_db w)) w"
  by (rule wp_keeps_any [OF keeps_service_error])

lemma quiet_service_saved:
  "wp (service_saved e actor cache r typ sid details) (\<lambda>_ w'. t_services (w_db w') = t_services (w_db w)) w"
  by (rule wp_keeps_any [OF keeps_service_saved])

text \<open>What a form has done to the table: nothing, one more row, or another row in the place of one.\<close>

definition row_created :: "env \<Rightarrow> service_row list \<Rightarrow> service_row list \<Rightarrow> bool" where
  "row_created e ss ss' \<longleftrightarrow>
     ss' = ss \<or> (\<exists>s. saved_ok e None s \<and> valid_service_id (sv_id s) \<and> ss' = ss @ [s])"

definition row_updated :: "env \<Rightarrow> service_row \<Rightarrow> service_row list \<Rightarrow> service_row list \<Rightarrow> bool" where
  "row_updated e old ss ss' \<longleftrightarrow>
     ss' = ss \<or> (\<exists>s. saved_ok e (Some old) s \<and> sv_id s = sv_id old \<and> ss' = upd_where (\<lambda>x. sv_id x = sv_id old) (\<lambda>_. s) ss)"

definition row_edited :: "env \<Rightarrow> string \<Rightarrow> service_row list \<Rightarrow> service_row list \<Rightarrow> bool" where
  "row_edited e sid ss ss' \<longleftrightarrow>
     ss' = ss \<or> (\<exists>old \<in> set ss. sv_id old = sid \<and> row_updated e old ss ss')"

lemma row_unchanged [simp]: "row_created e ss ss" "row_updated e old ss ss" "row_edited e sid ss ss"
  by (simp_all add: row_created_def row_updated_def row_edited_def)

lemma create_service_row:
  assumes "saved_ok e None s" "valid_service_id (sv_id s)"
  shows "row_created e (t_services d) (t_services (snd (create_service s d)))"
  using assms by (auto simp: row_created_def create_service_def)

lemma update_service_row:
  assumes "saved_ok e (Some old) s" "sv_id s = sv_id old"
  shows "row_updated e old (t_services d) (t_services (snd (update_service s d)))"
  using assms by (auto simp: row_updated_def update_service_def)

lemma wp_upload:
  "(\<And>ru w'. w_db w' = w_db w \<Longrightarrow> Q ru w') \<Longrightarrow> wp (handle_bg_upload e h r sid) Q w"
  by (rule wp_same_db [OF keeps_bg_upload])

lemma wp_error_page:
  "(\<And>a w'. t_services (w_db w') = t_services (w_db w) \<Longrightarrow> Q a w') \<Longrightarrow> wp (with_cache cache (service_error e svc old msg)) Q w"
  by (rule wp_mono [OF quiet_service_error])

lemma wp_saved_page:
  "(\<And>a w'. t_services (w_db w') = t_services (w_db w) \<Longrightarrow> Q a w') \<Longrightarrow>
     wp (service_saved e actor cache r typ sid details) Q w"
  by (rule wp_mono [OF quiet_service_saved])

lemma store_service_wp:
  assumes ok: "\<And>up now'. saved_ok e (Some old) (build_update_params (with_picture up r) old now')"
  shows "wp (store_service e h actor cache r old now)
     (\<lambda>_ w'. row_updated e old (t_services (w_db w)) (t_services (w_db w'))) w"
  unfolding store_service_def wp_bind Let_def
proof (rule wp_upload, goal_cases)
  case (1 ru w1)
  note row = update_service_row [OF ok update_sel(12), where d = "w_db w"]
  show ?case
    using 1 row by (cases ru) (auto simp: wp_bind wp_db_write split: option.split sum.split intro!: wp_error_page wp_saved_page)
qed

lemma store_new_service_wp:
  assumes ok: "\<And>up now'. saved_ok e None (build_create_params (with_picture up r) sid now')" and sid: "valid_service_id sid"
  shows "wp (store_new_service e h actor cache r sid)
     (\<lambda>_ w'. row_created e (t_services (w_db w)) (t_services (w_db w'))) w"
  unfolding store_new_service_def wp_bind Let_def
proof (rule wp_upload, goal_cases)
  case (1 ru w1)
  have row: "row_created e (t_services (w_db w)) (t_services (snd (create_service (build_create_params (with_picture up r) sid now') (w_db w))))"
    for up now' by (rule create_service_row [OF ok]) (simp add: create_sel sid)
  show ?case
    using 1 row by (cases ru) (auto simp: wp_bind wp_return wp_effects(1) wp_db_write split: option.split sum.split
        intro!: wp_error_page wp_saved_page)
qed

lemma create_page_wp:
  "wp (create_service_page e h actor cache r)
     (\<lambda>_ w'. row_created e (t_services (w_db w)) (t_services (w_db w'))) w"
proof -
  let ?r = "\<lambda>cb. set_form ''callback_url'' cb r"
  have "saved_ok e None (build_create_params (with_picture up (?r cb)) sid now')"
    if "normalize_callback_urls e (post_form_value r ''callback_url'') = Some cb"
      "validate_auth_host (post_form_value (?r cb) ''auth_host'') = None" "policy_problem (?r cb) = None" for cb up sid now'
    by (rule create_saved_ok [OF that(1) _ that(2,3)]) (simp add: post_form_set)
  then show ?thesis
    by (auto simp: create_service_page_def Let_def wp_return first_some_None split: option.split
        intro!: wp_error_page store_new_service_wp)
qed

lemma update_found_wp:
  "wp (update_found e h actor cache r old)
     (\<lambda>_ w'. row_updated e old (t_services (w_db w)) (t_services (w_db w'))) w"
proof -
  let ?r = "\<lambda>cb. set_form ''callback_url'' cb r"
  have ok: "saved_ok e (Some old) (build_update_params (with_picture up (?r cb)) old now')"
    if "normalize_callback_urls e (post_form_value r ''callback_url'') = Some cb"
      "validate_auth_host (post_form_value r ''auth_host'') = None" "policy_problem (?r cb) = None" for cb up now'
    by (rule update_saved_ok [OF that(1) _ _ that(3)]) (simp_all add: post_form_set that(2))
  have "wp (store_service e h actor cache (?r cb) old now)
      (\<lambda>_ w'. row_updated e old (t_services (w_db w)) (t_services (w_db w'))) w1"
    if "w_db w1 = w_db w" "normalize_callback_urls e (post_form_value r ''callback_url'') = Some cb"
      "validate_auth_host (post_form_value r ''auth_host'') = None" "policy_problem (?r cb) = None" for cb now and w1 :: world
    using store_service_wp [OF ok [OF that(2-4)], where w = w1] that(1) by simp
  then show ?thesis
    by (auto simp: update_found_def Let_def wp_bind wp_effects(1) first_some_None split: option.split intro!: wp_error_page)
qed

text \<open>C14. Whatever an administrator posts, the form that creates a service adds at most one row, with a well-formed id,
  and the form that edits one replaces at most the row of the service it names, with an id unchanged; the row that is
  saved has only usable callbacks, a login host that is a host name, no organisation rule without an organisation, no
  reference to a variable outside those of services unless it was stored before, and the secrets that were stored.\<close>

theorem service_forms_are_checked:
  "wp (create_service_page e h actor cache r)
     (\<lambda>_ w'. row_created e (t_services (w_db w)) (t_services (w_db w'))) w \<and>
   wp (update_service_page e h actor cache sid r)
     (\<lambda>_ w'. row_edited e sid (t_services (w_db w)) (t_services (w_db w'))) w"
proof
  have "wp (update_found e h actor cache r old)
      (\<lambda>_ w'. row_edited e sid (t_services (w_db w)) (t_services (w_db w'))) (w\<lparr>w_step := n\<rparr>)"
    if "old \<in> set (t_services (w_db w))" "sv_id old = sid" for old n
  proof (rule wp_mono [OF update_found_wp])
    show "row_edited e sid (t_services (w_db w)) (t_services (w_db w'))"
      if "row_updated e old (t_services (w_db (w\<lparr>w_step := n\<rparr>))) (t_services (w_db w'))" for w' :: world
      using that \<open>old \<in> _\<close> \<open>sv_id old = sid\<close> by (auto simp: row_edited_def)
  qed
  then show "wp (update_service_page e h actor cache sid r)
     (\<lambda>_ w'. row_edited e sid (t_services (w_db w)) (t_services (w_db w'))) w"
    by (auto simp: update_service_page_def find_service_by_id_def list_all_services_def wp_bind wp_return wp_db_read
        split: option.split sum.split dest!: find_SomeD)
qed (rule create_page_wp)

end
