(* ===== verification/AdminProviders.thy ===== *)
theory AdminProviders
  imports AdminServices
begin

text \<open>
  Which configured providers a service offers: \<open>internal/admin/services_providers.go\<close> and
  \<open>internal/admin/providers.go\<close>, with the page that edits a service (\<open>HandleEdit\<close> of \<open>internal/admin/services.go\<close>), which
  shows them.  The order in which Go visits the keys of a form is a parameter, a rank of the keys, which gives every order; the handler that reloads the assignments
  returns the registry with its reply.
\<close>

record providers_handler =
  ph_form_ok :: "request \<Rightarrow> bool"
  ph_order :: "string \<Rightarrow> nat"

section \<open>The pages\<close>

definition service_refs :: "(assign_row \<times> string) list \<Rightarrow> int \<Rightarrow> (string \<times> int) list" where
  "service_refs rows i = map (\<lambda>(a, _). (as_service a, as_position a)) (filter (\<lambda>(a, _). as_provider a = i) rows)"

definition status_fields :: "idp_status \<Rightarrow> (string \<times> string) list" where
  "status_fields s =
     [(''slug'', is_slug s), (''name'', is_name s), (''issuer'', is_issuer s), (''active'', flag_text (is_active s)),
      (''loaded'', flag_text (is_loaded s)), (''reason'', is_reason s), (''allowlisted'', flag_text (is_allowlisted s)),
      (''secret_env'', is_secret_env s), (''secret_set'', flag_text (is_secret_set s))]"

definition provider_view :: "(assign_row \<times> string) list \<Rightarrow> idp_status \<Rightarrow> (string \<times> string) list" where
  "provider_view rows s =
     status_fields s @ map (\<lambda>(sid, p). (''service:'' @ sid, format_int p)) (service_refs rows (is_id s))"

definition list_providers_page :: "env \<Rightarrow> idp_registry \<Rightarrow> reply io" where
  "list_providers_page e ir = do {
     ra \<leftarrow> db_read e ReqCtx list_service_identity_providers_all;
     case ra of
       Inl x \<Rightarrow> return_io db_error
     | Inr rows \<Rightarrow> html_page 200 ''admin/providers.html'' (concat (map (provider_view rows) (ir_statuses ir)))
   }"

record provider_row_view =
  sp_id :: int
  sp_slug :: string
  sp_name :: string
  sp_assigned :: bool
  sp_position :: int

record kept_row_view =
  kp_id :: int
  kp_slug :: string
  kp_name :: string
  kp_position :: int
  kp_reason :: string
  kp_inactive :: bool

definition positions :: "(assign_row \<times> string) list \<Rightarrow> int \<rightharpoonup> int" where
  "positions rows = map_of (rev (map (\<lambda>(a, _). (as_provider a, as_position a)) rows))"

definition kept_view :: "(int \<rightharpoonup> int) \<Rightarrow> idp_status \<Rightarrow> kept_row_view option" where
  "kept_view pos s =
     (case pos (is_id s) of
        Some p \<Rightarrow> if is_loaded s then None
          else Some \<lparr>kp_id = is_id s, kp_slug = is_slug s, kp_name = is_name s, kp_position = p, kp_reason = is_reason s,
                     kp_inactive = (\<not> is_active s)\<rparr>
      | None \<Rightarrow> None)"

definition provider_choice :: "(int \<rightharpoonup> int) \<Rightarrow> idp_status \<Rightarrow> provider_row_view" where
  "provider_choice pos s =
     \<lparr>sp_id = is_id s, sp_slug = is_slug s, sp_name = is_name s, sp_assigned = (pos (is_id s) \<noteq> None),
      sp_position = (case pos (is_id s) of None \<Rightarrow> 0 | Some p \<Rightarrow> p)\<rparr>"

definition service_rows ::
  "env \<Rightarrow> idp_registry \<Rightarrow> string \<Rightarrow> (db_err + provider_row_view list \<times> kept_row_view list) io" where
  "service_rows e ir sid = do {
     ra \<leftarrow> db_read e ReqCtx (list_assignments_for_service sid);
     return_io (case ra of
       Inl x \<Rightarrow> Inl x
     | Inr rows \<Rightarrow> Inr (map (provider_choice (positions rows)) (filter is_loaded (ir_statuses ir)),
                       List.map_filter (kept_view (positions rows)) (ir_statuses ir)))
   }"

definition offer_fields :: "provider_row_view \<Rightarrow> (string \<times> string) list" where
  "offer_fields p =
     [(''provider:'' @ format_int (sp_id p), sp_slug p), (''name'', sp_name p), (''assigned'', flag_text (sp_assigned p)),
      (''position'', format_int (sp_position p))]"

definition kept_fields :: "kept_row_view \<Rightarrow> (string \<times> string) list" where
  "kept_fields p =
     [(''kept:'' @ format_int (kp_id p), kp_slug p), (''name'', kp_name p), (''position'', format_int (kp_position p)),
      (''reason'', kp_reason p), (''inactive'', flag_text (kp_inactive p))]"

definition edit_page_of ::
  "env \<Rightarrow> request \<Rightarrow> service_row \<Rightarrow> (provider_row_view list \<times> kept_row_view list) option \<Rightarrow> reply io" where
  "edit_page_of e r s rows =
     (let warns = warn_flags r [''reload'', ''audit''] in
      html_page 200 ''admin/service-edit.html''
        ([(''is_new'', flag_text False)] @ service_fields (without_secrets s) @ secret_status e s (Some s) @
         [(''warn_reload'', flag_text (''reload'' \<in> set warns)), (''warn_audit'', flag_text (''audit'' \<in> set warns))] @
         (case rows of
            None \<Rightarrow> []
          | Some (ps, ks) \<Rightarrow> (''show_providers'', ''1'') # concat (map offer_fields ps) @ concat (map kept_fields ks))))"

definition edit_service_page :: "env \<Rightarrow> services_handler \<Rightarrow> string \<Rightarrow> handler" where
  "edit_service_page e h sid r = do {
     rs \<leftarrow> find_service_by_id e sid;
     case rs of
       Inl _ \<Rightarrow> return_io db_error
     | Inr None \<Rightarrow> return_io not_found
     | Inr (Some s) \<Rightarrow>
         (case sh_providers h of
            None \<Rightarrow> edit_page_of e r s None
          | Some ir \<Rightarrow> do {
              rr \<leftarrow> service_rows e ir sid;
              case rr of
                Inl _ \<Rightarrow> return_io db_error
              | Inr rows \<Rightarrow> edit_page_of e r s (Some rows)
            })
   }"

section \<open>The form\<close>

definition max_provider_position :: int where "max_provider_position = 9999"

definition loaded_slug :: "idp_registry \<Rightarrow> int \<rightharpoonup> string" where
  "loaded_slug ir = map_of (rev (map (\<lambda>s. (is_id s, is_slug s)) (filter is_loaded (ir_statuses ir))))"

definition form_keys :: "providers_handler \<Rightarrow> request \<Rightarrow> string list" where
  "form_keys h r = sort_key (ph_order h) (remdups (map fst (rq_form r)))"

definition ticked :: "request \<Rightarrow> string \<Rightarrow> bool" where
  "ticked r k \<longleftrightarrow> post_form_all r k \<noteq> [] \<and> last (post_form_all r k) = ''on''"

record pick =
  pk_id :: int
  pk_slug :: string
  pk_pos :: int

definition pick_position :: "request \<Rightarrow> int \<Rightarrow> int option" where
  "pick_position r i =
     (let raw = trim_space (post_form_value r (''position_'' @ format_int i)) in
      if raw = [] then Some 0
      else case parse_int64 raw of
        None \<Rightarrow> None
      | Some p \<Rightarrow> if p < 0 \<or> max_provider_position < p then None else Some p)"

definition unknown_provider :: string where
  "unknown_provider = ''ukjent eller ikke lastet leverand'' @ [CHR 0xC3, CHR 0xB8] @ ''r''"

definition pick_of :: "(int \<rightharpoonup> string) \<Rightarrow> request \<Rightarrow> string \<Rightarrow> string + pick" where
  "pick_of loaded r t =
     (case parse_int64 t of
        None \<Rightarrow> Inl unknown_provider
      | Some i \<Rightarrow>
          (case loaded i of
             None \<Rightarrow> Inl unknown_provider
           | Some slug \<Rightarrow>
               (case pick_position r i of
                  None \<Rightarrow> Inl ''ugyldig posisjon''
                | Some p \<Rightarrow> Inr \<lparr>pk_id = i, pk_slug = slug, pk_pos = p\<rparr>)))"

text \<open>The suffixes of the ticked keys with a prefix, in the order of the visit; the first bad one ends the loop.\<close>

definition ticked_suffixes :: "string \<Rightarrow> request \<Rightarrow> string list \<Rightarrow> string list" where
  "ticked_suffixes p r ks = List.map_filter (\<lambda>k. if ticked r k then cut_prefix k p else None) ks"

fun collect :: "('a \<Rightarrow> 'e + 'b) \<Rightarrow> 'a list \<Rightarrow> 'e + 'b list" where
  "collect f [] = Inr []"
| "collect f (x # xs) =
     (case f x of
        Inl err \<Rightarrow> Inl err
      | Inr y \<Rightarrow> (case collect f xs of Inl err \<Rightarrow> Inl err | Inr ys \<Rightarrow> Inr (y # ys)))"

definition picks_of :: "(int \<rightharpoonup> string) \<Rightarrow> request \<Rightarrow> string list \<Rightarrow> string + pick list" where
  "picks_of loaded r ks =
     (case collect (pick_of loaded r) (ticked_suffixes ''provider_'' r ks) of
        Inl err \<Rightarrow> Inl err
      | Inr ps \<Rightarrow> Inr (sort_key pk_pos (sort_key pk_slug ps)))"

text \<open>\<open>remove_<id>\<close> is for an assignment that is there now, to a provider that is not loaded.\<close>

definition removal_of :: "(int \<rightharpoonup> string) \<Rightarrow> (assign_row \<times> string) list \<Rightarrow> string \<Rightarrow> string + int" where
  "removal_of loaded current t =
     (case parse_int64 t of
        Some i \<Rightarrow>
          if list_ex (\<lambda>(a, _). as_provider a = i \<and> loaded i = None) current then Inr i
          else Inl (''kan ikke fjerne denne leverand'' @ [CHR 0xC3, CHR 0xB8] @ ''ren'')
      | None \<Rightarrow> Inl (''kan ikke fjerne denne leverand'' @ [CHR 0xC3, CHR 0xB8] @ ''ren''))"

definition removals_of ::
  "(int \<rightharpoonup> string) \<Rightarrow> request \<Rightarrow> (assign_row \<times> string) list \<Rightarrow> string list \<Rightarrow> string + int list" where
  "removals_of loaded r current ks = collect (removal_of loaded current) (ticked_suffixes ''remove_'' r ks)"

section \<open>Saving the assignments\<close>

fun insert_all :: "env \<Rightarrow> assign_row list \<Rightarrow> (db_err + unit) io" where
  "insert_all e [] = return_io (Inr ())"
| "insert_all e (a # as) = do {
     rc \<leftarrow> db_write e Detached (insert_assignment a);
     case rc of
       Inl x \<Rightarrow> return_io (Inl x)
     | Inr _ \<Rightarrow> insert_all e as
   }"

definition slug_at :: "string \<Rightarrow> int \<Rightarrow> string" where
  "slug_at slug p = slug @ '':'' @ format_int p"

definition frozen_rows :: "(int \<rightharpoonup> string) \<Rightarrow> bool \<Rightarrow> int list \<Rightarrow> (assign_row \<times> string) list \<Rightarrow> (assign_row \<times> string) list" where
  "frozen_rows loaded gone removes rows =
     filter (\<lambda>(a, _). loaded (as_provider a) = None \<and> (as_provider a \<in> set removes) = gone) rows"

definition assign_body ::
  "env \<Rightarrow> string \<Rightarrow> (int \<rightharpoonup> string) \<Rightarrow> int list \<Rightarrow> pick list \<Rightarrow> (db_err + string list \<times> string list) io" where
  "assign_body e sid loaded removes picks = do {
     re \<leftarrow> db_read e Detached (list_assignments_for_service sid);
     case re of
       Inl x \<Rightarrow> return_io (Inl x)
     | Inr rows \<Rightarrow> do {
         rd \<leftarrow> db_write e Detached (delete_assignments sid);
         case rd of
           Inl x \<Rightarrow> return_io (Inl x)
         | Inr _ \<Rightarrow>
             (let kept = frozen_rows loaded False removes rows; removed = frozen_rows loaded True removes rows in do {
                rc \<leftarrow> insert_all e
                  (map (\<lambda>(a, _). \<lparr>as_service = sid, as_provider = as_provider a, as_position = as_position a\<rparr>) kept @
                   map (\<lambda>p. \<lparr>as_service = sid, as_provider = pk_id p, as_position = pk_pos p\<rparr>) picks);
                return_io (case rc of
                  Inl x \<Rightarrow> Inl x
                | Inr _ \<Rightarrow> Inr (map (\<lambda>(a, slug). slug_at slug (as_position a)) kept, map snd removed))
              })
       }
   }"

definition providers_details :: "string \<Rightarrow> pick list \<Rightarrow> string list \<times> string list \<Rightarrow> string" where
  "providers_details sid picks done_rows =
     ''service='' @ sid @ '' providers='' @ join_with '','' (map (\<lambda>p. slug_at (pk_slug p) (pk_pos p)) picks) @
     '' kept='' @ join_with '','' (fst done_rows) @ '' removed='' @ join_with '','' (snd done_rows)"

definition providers_saved ::
  "env \<Rightarrow> string \<Rightarrow> idp_registry \<Rightarrow> string \<Rightarrow> request \<Rightarrow> string \<Rightarrow> (reply \<times> idp_registry) io" where
  "providers_saved e actor ir sid r details = do {
     audited \<leftarrow> log_admin_write e actor (method_event r ''service_providers_updated'' [] [] sid True details);
     rr \<leftarrow> reload_assignments e ir Detached;
     return_io (Redirect 303 (redirect_with_warns (''/admin/services/'' @ sid @ ''/edit'')
         ((if fst rr = None then [] else [''reload'']) @ (if audited then [] else [''audit'']))), snd rr)
   }"

definition save_assignments ::
  "env \<Rightarrow> providers_handler \<Rightarrow> string \<Rightarrow> idp_registry \<Rightarrow> string \<Rightarrow> request \<Rightarrow> pick list \<Rightarrow> (reply \<times> idp_registry) io" where
  "save_assignments e h actor ir sid r picks = do {
     rc \<leftarrow> db_read e ReqCtx (list_assignments_for_service sid);
     case rc of
       Inl _ \<Rightarrow> return_io (db_error, ir)
     | Inr current \<Rightarrow>
         (case removals_of (loaded_slug ir) r current (form_keys h r) of
            Inl msg \<Rightarrow> return_io (HttpError 400 msg, ir)
          | Inr removes \<Rightarrow> do {
              rt \<leftarrow> in_tx e Detached id (assign_body e sid (loaded_slug ir) removes picks);
              case rt of
                Inl _ \<Rightarrow> return_io (db_error, ir)
              | Inr done_rows \<Rightarrow> providers_saved e actor ir sid r (providers_details sid picks done_rows)
            })
   }"

definition update_providers ::
  "env \<Rightarrow> providers_handler \<Rightarrow> string \<Rightarrow> idp_registry \<Rightarrow> string \<Rightarrow> request \<Rightarrow> (reply \<times> idp_registry) io" where
  "update_providers e h actor ir sid r =
     (if \<not> ph_form_ok h r then return_io (HttpError 400 ''ugyldig skjema'', ir)
      else do {
        rs \<leftarrow> find_service_by_id e sid;
        case rs of
          Inl _ \<Rightarrow> return_io (db_error, ir)
        | Inr None \<Rightarrow> return_io (not_found, ir)
        | Inr (Some _) \<Rightarrow>
            (case picks_of (loaded_slug ir) r (form_keys h r) of
               Inl msg \<Rightarrow> return_io (HttpError 400 msg, ir)
             | Inr picks \<Rightarrow> save_assignments e h actor ir sid r picks)
      })"

section \<open>Handlers stay within the statements\<close>

lemma evolves_insert_all [evolve_intros]: "evolves db_step (insert_all e as)"
  by (induction as) (simp_all, (intro evolve_intros | assumption)+)

lemma evolves_edit_page [evolve_intros]: "evolves db_step (edit_page_of e r s rows)"
  unfolding edit_page_of_def Let_def by (intro evolve_intros)+

lemma evolves_assign_body [evolve_intros]: "evolves db_step (assign_body e sid loaded removes picks)"
  unfolding assign_body_def Let_def by (intro evolve_intros)+

lemma evolves_admin_providers [evolve_intros]:
  "evolves db_step (list_providers_page e ir)" "evolves db_step (edit_service_page e sh sid r)"
  "evolves db_step (update_providers e h actor ir sid r)"
  unfolding list_providers_page_def edit_service_page_def service_rows_def update_providers_def save_assignments_def
    providers_saved_def find_service_by_id_def
  by (intro evolve_intros)+

section \<open>What the form asks for\<close>

lemma collect_Inr: "collect f xs = Inr ys \<Longrightarrow> map f xs = map Inr ys"
  by (induction xs arbitrary: ys) (auto split: sum.splits)

lemma collect_Inl: "collect f xs = Inl err \<Longrightarrow> \<exists>x \<in> set xs. isl (f x)"
  by (induction xs arbitrary: err) (auto split: sum.splits)

lemma map_Inr_set: "map f xs = map Inr ys \<Longrightarrow> y \<in> set ys \<longleftrightarrow> (\<exists>x \<in> set xs. f x = Inr y)"
  by (metis (no_types, lifting) Inr_inject image_iff image_set)

lemma map_Inr_all: "map f xs = map Inr ys \<Longrightarrow> x \<in> set xs \<Longrightarrow> \<exists>y. f x = Inr y"
  by (metis (no_types, lifting) image_iff image_set)

lemma cut_prefix_Some: "cut_prefix k p = Some t \<longleftrightarrow> k = p @ t"
  by (auto simp: cut_prefix_def has_prefix_def split: if_splits) (metis append_eq_conv_conj)

lemma form_keys_ticked: "ticked r k \<Longrightarrow> k \<in> set (form_keys h r)"
  by (auto simp: ticked_def form_keys_def post_form_all_def filter_empty_conv image_iff)

lemma ticked_suffixes_set: "t \<in> set (ticked_suffixes p r (form_keys h r)) \<longleftrightarrow> ticked r (p @ t)"
  using form_keys_ticked [of r "p @ t" h] by (auto simp: ticked_suffixes_def set_map_filter cut_prefix_Some)

lemma distinct_map_filter:
  assumes "distinct xs" and "\<And>x x' y. f x = Some y \<Longrightarrow> f x' = Some y \<Longrightarrow> x = x'"
  shows "distinct (List.map_filter f xs)"
  using assms(1)
proof (induction xs)
  case (Cons x xs)
  show ?case
  proof (cases "f x")
    case (Some y)
    have "y \<notin> set (List.map_filter f xs)"
      using assms(2) [OF Some] Cons.prems by (auto simp: set_map_filter)
    then show ?thesis using Cons Some by (simp add: List.map_filter_simps)
  qed (use Cons in \<open>simp add: List.map_filter_simps\<close>)
qed (simp add: List.map_filter_simps)

lemma ticked_suffixes_distinct: "distinct (ticked_suffixes p r (form_keys h r))"
  unfolding ticked_suffixes_def
  by (rule distinct_map_filter) (auto simp: form_keys_def cut_prefix_Some split: if_splits)

text \<open>
  An assignment the form asked for: a ticked provider that is loaded, at the position the form gives it, 0 when the field is
  empty.  An assignment that stays: to a provider that is not loaded, where the form does not ask for its removal.
\<close>

definition chosen :: "idp_registry \<Rightarrow> string \<Rightarrow> request \<Rightarrow> assign_row \<Rightarrow> bool" where
  "chosen ir sid r a \<longleftrightarrow>
     as_service a = sid \<and> loaded_slug ir (as_provider a) \<noteq> None \<and>
     (\<exists>t. parse_int64 t = Some (as_provider a) \<and> ticked r (''provider_'' @ t)) \<and>
     (let raw = trim_space (post_form_value r (''position_'' @ format_int (as_provider a))) in
        if raw = [] then as_position a = 0 else parse_int64 raw = Some (as_position a)) \<and>
     0 \<le> as_position a \<and> as_position a \<le> 9999"

definition to_remove :: "request \<Rightarrow> int \<Rightarrow> bool" where
  "to_remove r i \<longleftrightarrow> (\<exists>t. parse_int64 t = Some i \<and> ticked r (''remove_'' @ t))"

definition left_alone :: "idp_registry \<Rightarrow> string \<Rightarrow> request \<Rightarrow> db \<Rightarrow> assign_row \<Rightarrow> bool" where
  "left_alone ir sid r d a \<longleftrightarrow>
     a \<in> set (t_assign d) \<and> as_service a = sid \<and> provider_of d (as_provider a) \<noteq> None \<and>
     loaded_slug ir (as_provider a) = None \<and> \<not> to_remove r (as_provider a)"

definition reassigned :: "idp_registry \<Rightarrow> string \<Rightarrow> request \<Rightarrow> db \<Rightarrow> assign_row list \<Rightarrow> bool" where
  "reassigned ir sid r d rows' \<longleftrightarrow>
     (\<exists>new. rows' = filter (\<lambda>a. as_service a \<noteq> sid) (t_assign d) @ new \<and> distinct (map as_provider new) \<and>
        (\<forall>a. a \<in> set new \<longleftrightarrow> chosen ir sid r a \<or> left_alone ir sid r d a))"

text \<open>The form is in order: it ticks loaded providers with positions in bounds, and removes only what is there, unloaded.\<close>

definition ticks_ok :: "idp_registry \<Rightarrow> string \<Rightarrow> request \<Rightarrow> db \<Rightarrow> bool" where
  "ticks_ok ir sid r d \<longleftrightarrow>
     (\<forall>t. ticked r (''provider_'' @ t) \<longrightarrow>
        (\<exists>i a. parse_int64 t = Some i \<and> as_provider a = i \<and> chosen ir sid r a)) \<and>
     (\<forall>t. ticked r (''remove_'' @ t) \<longrightarrow>
        (\<exists>i. parse_int64 t = Some i \<and> loaded_slug ir i = None \<and> provider_of d i \<noteq> None \<and>
           (\<exists>a \<in> set (t_assign d). as_service a = sid \<and> as_provider a = i)))"

text \<open>What the keys of the tables ask of the rows: no provider twice, and every ticked provider is still in its table.\<close>

definition storable :: "idp_registry \<Rightarrow> string \<Rightarrow> request \<Rightarrow> db \<Rightarrow> bool" where
  "storable ir sid r d \<longleftrightarrow>
     distinct (map (\<lambda>a. (as_service a, as_provider a)) (t_assign d)) \<and>
     (\<forall>a. chosen ir sid r a \<longrightarrow> provider_of d (as_provider a) \<noteq> None) \<and>
     (\<forall>t t'. ticked r (''provider_'' @ t) \<and> ticked r (''provider_'' @ t') \<and> parse_int64 t = parse_int64 t' \<longrightarrow> t = t')"

definition row_of :: "string \<Rightarrow> pick \<Rightarrow> assign_row" where
  "row_of sid p = \<lparr>as_service = sid, as_provider = pk_id p, as_position = pk_pos p\<rparr>"

lemma row_of_fields [simp]:
  "as_service (row_of sid p) = sid" "as_provider (row_of sid p) = pk_id p" "as_position (row_of sid p) = pk_pos p"
  by (simp_all add: row_of_def)

lemma pick_position_iff:
  "pick_position r i = Some p \<longleftrightarrow>
     (let raw = trim_space (post_form_value r (''position_'' @ format_int i)) in
        if raw = [] then p = 0 else parse_int64 raw = Some p) \<and> 0 \<le> p \<and> p \<le> 9999"
  by (auto simp: pick_position_def Let_def max_provider_position_def split: option.split)

lemma pick_of_Inr:
  "pick_of loaded r t = Inr p \<longleftrightarrow>
     parse_int64 t = Some (pk_id p) \<and> loaded (pk_id p) = Some (pk_slug p) \<and> pick_position r (pk_id p) = Some (pk_pos p)"
  by (cases p) (auto simp: pick_of_def split: option.splits)

lemma pick_of_chosen:
  "ticked r (''provider_'' @ t) \<Longrightarrow> pick_of (loaded_slug ir) r t = Inr p \<Longrightarrow> chosen ir sid r (row_of sid p)"
  by (auto simp: chosen_def pick_of_Inr pick_position_iff Let_def)

lemma chosen_pick:
  assumes "chosen ir sid r a"
  obtains t p where "ticked r (''provider_'' @ t)" "parse_int64 t = Some (as_provider a)" "pick_of (loaded_slug ir) r t = Inr p"
    "a = row_of sid p"
proof -
  obtain t slug where "ticked r (''provider_'' @ t)" "parse_int64 t = Some (as_provider a)"
    "loaded_slug ir (as_provider a) = Some slug"
    using assms by (auto simp: chosen_def)
  moreover from this(2,3) have "pick_of (loaded_slug ir) r t = Inr \<lparr>pk_id = as_provider a, pk_slug = slug, pk_pos = as_position a\<rparr>"
    using assms by (auto simp: pick_of_Inr pick_position_iff chosen_def Let_def)
  moreover have "a = row_of sid \<lparr>pk_id = as_provider a, pk_slug = slug, pk_pos = as_position a\<rparr>"
    using assms by (cases a) (simp add: chosen_def row_of_def)
  ultimately show thesis using that by blast
qed

section \<open>The loops over the form\<close>

lemma picks_of_Inr:
  assumes "picks_of (loaded_slug ir) r (form_keys h r) = Inr ps"
  shows "a \<in> row_of sid ` set ps \<longleftrightarrow> chosen ir sid r a"
    and "storable ir sid r d \<Longrightarrow> distinct (map pk_id ps)"
    and "ticked r (''provider_'' @ t) \<Longrightarrow> \<exists>a. parse_int64 t = Some (as_provider a) \<and> chosen ir sid r a"
proof -
  let ?ts = "ticked_suffixes ''provider_'' r (form_keys h r)" and ?f = "pick_of (loaded_slug ir) r"
  obtain qs where qs: "map ?f ?ts = map Inr qs" "set ps = set qs" "distinct ps = distinct qs"
    using assms by (auto simp: picks_of_def dest: collect_Inr split: sum.splits)
  have pick: "p \<in> set ps \<longleftrightarrow> (\<exists>t. ticked r (''provider_'' @ t) \<and> ?f t = Inr p)" for p
    unfolding qs(2) map_Inr_set [OF qs(1)] by (auto simp: ticked_suffixes_set)
  show "a \<in> row_of sid ` set ps \<longleftrightarrow> chosen ir sid r a"
  proof
    show "chosen ir sid r a" if "a \<in> row_of sid ` set ps"
      using that pick pick_of_chosen by blast
    show "a \<in> row_of sid ` set ps" if a: "chosen ir sid r a"
      by (rule chosen_pick [OF a]) (use pick in blast)
  qed
  show "\<exists>a. parse_int64 t = Some (as_provider a) \<and> chosen ir sid r a" if tk: "ticked r (''provider_'' @ t)"
  proof -
    obtain p where p: "?f t = Inr p"
      using map_Inr_all [OF qs(1), unfolded ticked_suffixes_set, OF tk] by blast
    then show ?thesis
      using pick_of_chosen [OF tk p, of sid] by (intro exI [of _ "row_of sid p"]) (simp add: pick_of_Inr)
  qed
  show "distinct (map pk_id ps)" if "storable ir sid r d"
  proof -
    have "map (\<lambda>t. the (parse_int64 t)) ?ts = map pk_id qs"
    proof (rule nth_equalityI)
      show "length (map (\<lambda>t. the (parse_int64 t)) ?ts) = length (map pk_id qs)"
        using arg_cong [OF qs(1), of length] by simp
      fix i assume "i < length (map (\<lambda>t. the (parse_int64 t)) ?ts)"
      then show "map (\<lambda>t. the (parse_int64 t)) ?ts ! i = map pk_id qs ! i"
        using arg_cong [OF qs(1), of "\<lambda>l. l ! i"] arg_cong [OF qs(1), of length] by (auto simp: pick_of_Inr)
    qed
    moreover have "distinct (map (\<lambda>t. the (parse_int64 t)) ?ts)"
      unfolding distinct_map
    proof (intro conjI ticked_suffixes_distinct inj_onI)
      fix t t' assume *: "t \<in> set ?ts" "t' \<in> set ?ts" "the (parse_int64 t) = the (parse_int64 t')"
      then have "parse_int64 t \<noteq> None" "parse_int64 t' \<noteq> None"
        using map_Inr_all [OF qs(1)] by (fastforce simp: pick_of_Inr)+
      then have "parse_int64 t = parse_int64 t'" using *(3) by auto
      then show "t = t'" using * that by (auto simp: storable_def ticked_suffixes_set)
    qed
    moreover have "distinct (map pk_id ps) = distinct (map pk_id qs)"
      using qs(2,3) by (simp add: distinct_map)
    ultimately show ?thesis by simp
  qed
qed

lemma picks_of_Inl:
  assumes "picks_of (loaded_slug ir) r (form_keys h r) = Inl msg"
  shows "\<not> ticks_ok ir sid r d"
proof -
  obtain t where "ticked r (''provider_'' @ t)" "isl (pick_of (loaded_slug ir) r t)"
    using assms by (auto simp: picks_of_def ticked_suffixes_set dest!: collect_Inl split: sum.splits)
  moreover have "\<not> isl (pick_of (loaded_slug ir) r t)"
    if a: "parse_int64 t = Some (as_provider a)" "chosen ir sid r a" for a
  proof -
    obtain t' p where "parse_int64 t' = Some (as_provider a)" "pick_of (loaded_slug ir) r t' = Inr p"
      using chosen_pick [OF a(2)] by metis
    then show ?thesis using a(1) by (simp add: pick_of_def)
  qed
  ultimately show ?thesis by (auto simp: ticks_ok_def)
qed

lemma joined_provider:
  assumes "list_assignments_for_service sid d = Inr rows"
  shows "(\<exists>slug. (a, slug) \<in> set rows) \<longleftrightarrow> a \<in> set (t_assign d) \<and> as_service a = sid \<and> provider_of d (as_provider a) \<noteq> None"
  using assms by (auto simp: list_assignments_for_service_def joined_set)

definition removable :: "idp_registry \<Rightarrow> string \<Rightarrow> db \<Rightarrow> int \<Rightarrow> bool" where
  "removable ir sid d i \<longleftrightarrow> loaded_slug ir i = None \<and> provider_of d i \<noteq> None \<and>
     (\<exists>a \<in> set (t_assign d). as_service a = sid \<and> as_provider a = i)"

lemma removal_of_Inr:
  assumes "list_assignments_for_service sid d = Inr rows"
  shows "removal_of (loaded_slug ir) rows t = Inr i \<longleftrightarrow> parse_int64 t = Some i \<and> removable ir sid d i"
    and "isl (removal_of (loaded_slug ir) rows t) \<longleftrightarrow> (\<nexists>i. parse_int64 t = Some i \<and> removable ir sid d i)"
proof -
  have "list_ex (\<lambda>(a, _). as_provider a = i \<and> loaded_slug ir i = None) rows \<longleftrightarrow> removable ir sid d i" for i
    using joined_provider [OF assms] by (fastforce simp: list_ex_iff removable_def)
  then show "removal_of (loaded_slug ir) rows t = Inr i \<longleftrightarrow> parse_int64 t = Some i \<and> removable ir sid d i"
    "isl (removal_of (loaded_slug ir) rows t) \<longleftrightarrow> (\<nexists>i. parse_int64 t = Some i \<and> removable ir sid d i)"
    by (auto simp: removal_of_def split: option.split)
qed

lemma removals_of_Inr:
  assumes "list_assignments_for_service sid d = Inr rows" "removals_of (loaded_slug ir) r rows (form_keys h r) = Inr is"
  shows "i \<in> set is \<longleftrightarrow> to_remove r i" and "ticked r (''remove_'' @ t) \<Longrightarrow> \<exists>i. parse_int64 t = Some i \<and> removable ir sid d i"
proof -
  let ?ts = "ticked_suffixes ''remove_'' r (form_keys h r)" and ?f = "removal_of (loaded_slug ir) rows"
  have eq: "map ?f ?ts = map Inr is" using assms(2) by (simp add: removals_of_def collect_Inr)
  show all: "\<exists>i. parse_int64 t = Some i \<and> removable ir sid d i" if "ticked r (''remove_'' @ t)" for t
    using map_Inr_all [OF eq, of t] that by (auto simp: ticked_suffixes_set removal_of_Inr [OF assms(1)])
  show "i \<in> set is \<longleftrightarrow> to_remove r i"
    unfolding map_Inr_set [OF eq] removal_of_Inr [OF assms(1)] to_remove_def Bex_def ticked_suffixes_set
    using all by fastforce
qed

lemma ticks_okI:
  assumes "picks_of (loaded_slug ir) r (form_keys h r) = Inr ps" "list_assignments_for_service sid d = Inr rows"
    "removals_of (loaded_slug ir) r rows (form_keys h r) = Inr is"
  shows "ticks_ok ir sid r d"
  using picks_of_Inr(3) [OF assms(1), of _ sid] removals_of_Inr(2) [OF assms(2,3)]
  unfolding ticks_ok_def removable_def by metis

lemma removals_of_Inl:
  assumes "list_assignments_for_service sid d = Inr rows" "removals_of (loaded_slug ir) r rows (form_keys h r) = Inl msg"
  shows "\<not> ticks_ok ir sid r d"
proof -
  obtain t where "ticked r (''remove_'' @ t)" "\<nexists>i. parse_int64 t = Some i \<and> removable ir sid d i"
    using assms(2) by (auto simp: removals_of_def ticked_suffixes_set removal_of_Inr [OF assms(1)] dest!: collect_Inl)
  then show ?thesis unfolding ticks_ok_def removable_def by blast
qed

section \<open>What the transaction stores\<close>

definition assign_key :: "assign_row \<Rightarrow> string \<times> int" where
  "assign_key a = (as_service a, as_provider a)"

definition fresh_keys :: "assign_row list \<Rightarrow> assign_row list \<Rightarrow> bool" where
  "fresh_keys rows as \<longleftrightarrow> distinct (map assign_key as) \<and> assign_key ` set as \<inter> assign_key ` set rows = {}"

definition refers :: "db \<Rightarrow> assign_row \<Rightarrow> bool" where
  "refers d a \<longleftrightarrow> service_exists d (as_service a) \<and> provider_of d (as_provider a) \<noteq> None"

lemma provider_of_None: "provider_of d i = None \<longleftrightarrow> (\<forall>p \<in> set (t_providers d). ip_id p \<noteq> i)"
  by (auto simp: provider_of_def find_None_iff)

lemma fresh_keys_Cons:
  "fresh_keys rows (a # as) \<longleftrightarrow> assign_key a \<notin> assign_key ` set rows \<and> fresh_keys (rows @ [a]) as"
  by (auto simp: fresh_keys_def)

lemma insert_assignment_key:
  "insert_assignment a d =
     (if assign_key a \<in> assign_key ` set (t_assign d) then (Inl UniqueViolation, d)
      else if \<not> refers d a then (Inl ConstraintViolation, d)
      else (Inr (), d\<lparr>t_assign := t_assign d @ [a]\<rparr>))"
proof -
  have "(\<exists>b \<in> set (t_assign d). as_service b = as_service a \<and> as_provider b = as_provider a) \<longleftrightarrow>
      assign_key a \<in> assign_key ` set (t_assign d)"
    by (simp add: assign_key_def image_iff eq_commute [of "as_service a"] eq_commute [of "as_provider a"])
  moreover have "(service_exists d (as_service a) \<and> (\<exists>p \<in> set (t_providers d). ip_id p = as_provider a)) \<longleftrightarrow> refers d a"
    by (auto simp: refers_def provider_of_None)
  ultimately show ?thesis by (simp only: insert_assignment_def)
qed

text \<open>The inserts succeed exactly as the keys and the references of the rows allow.\<close>

lemma insert_all_wp:
  "wp (insert_all e as) (\<lambda>rc w'.
     if isl rc then (\<exists>i. e_fault e i) \<or> \<not> (fresh_keys (t_assign (w_db w)) as \<and> list_all (refers (w_db w)) as)
     else t_assign (w_db w') = t_assign (w_db w) @ as \<and> fresh_keys (t_assign (w_db w)) as) w"
proof (induction as arbitrary: w)
  case (Cons a as)
  have refers: "refers (d\<lparr>t_assign := rows\<rparr>) = refers d" for d rows
    by (simp add: fun_eq_iff refers_def service_exists_def provider_of_def)
  have "wp (insert_all e as) (\<lambda>rc w'.
     if isl rc then (\<exists>i. e_fault e i) \<or> \<not> (fresh_keys (t_assign (w_db w)) (a # as) \<and> list_all (refers (w_db w)) (a # as))
     else t_assign (w_db w') = t_assign (w_db w) @ a # as \<and> fresh_keys (t_assign (w_db w)) (a # as))
      (w\<lparr>w_db := (w_db w)\<lparr>t_assign := t_assign (w_db w) @ [a]\<rparr>, w_step := n\<rparr>)"
    if "assign_key a \<notin> assign_key ` set (t_assign (w_db w))" "refers (w_db w) a" for n
    by (rule wp_mono [OF Cons.IH]) (use that in \<open>auto simp: fresh_keys_Cons refers\<close>)
  then show ?case
    by (auto simp: wp_bind wp_return wp_db_write insert_assignment_key db_failure_def fresh_keys_Cons split: option.split sum.split)
qed (simp add: wp_return fresh_keys_def)

lemma joined_fst:
  "map fst (joined_assignments P d) =
     filter (\<lambda>a. \<exists>p. provider_of d (as_provider a) = Some p \<and> P p) (t_assign d)"
proof -
  have "map fst (List.map_filter (\<lambda>a. case f a of None \<Rightarrow> None | Some p \<Rightarrow> if P p then Some (a, ip_slug p) else None) xs) =
      filter (\<lambda>a. \<exists>p. f a = Some p \<and> P p) xs" for f :: "assign_row \<Rightarrow> provider_row option" and xs
    by (induction xs) (auto simp: List.map_filter_simps split: option.split)
  then show ?thesis by (simp add: joined_assignments_def)
qed

lemma distinct_map_filterI: "distinct (map f xs) \<Longrightarrow> distinct (map f (filter P xs))"
  by (induction xs) auto

lemma distinct_by_position: "distinct (map f (by_position rows)) = distinct (map f rows)"
  by (simp add: by_position_def distinct_map)

lemma listed_distinct:
  assumes "list_assignments_for_service sid d = Inr rows" "distinct (map assign_key (t_assign d))"
  shows "distinct (map (assign_key \<circ> fst) rows)"
proof -
  have "distinct (map assign_key (map fst (joined_assignments (\<lambda>_. True) d)))"
    using assms(2) unfolding joined_fst by (rule distinct_map_filterI)
  then show ?thesis
    using assms(1) by (auto simp: list_assignments_for_service_def distinct_by_position intro: distinct_map_filterI)
qed

definition new_rows :: "string \<Rightarrow> (int \<rightharpoonup> string) \<Rightarrow> int list \<Rightarrow> (assign_row \<times> string) list \<Rightarrow> pick list \<Rightarrow> assign_row list" where
  "new_rows sid loaded removes rows picks =
     map (\<lambda>(a, _). \<lparr>as_service = sid, as_provider = as_provider a, as_position = as_position a\<rparr>)
       (frozen_rows loaded False removes rows) @ map (row_of sid) picks"

text \<open>The form was in order, and these are the rows it leads to.\<close>

definition form_read ::
  "providers_handler \<Rightarrow> idp_registry \<Rightarrow> string \<Rightarrow> request \<Rightarrow> db \<Rightarrow> (assign_row \<times> string) list \<Rightarrow> pick list \<Rightarrow> int list \<Rightarrow> bool" where
  "form_read h ir sid r d rows picks removes \<longleftrightarrow>
     list_assignments_for_service sid d = Inr rows \<and> picks_of (loaded_slug ir) r (form_keys h r) = Inr picks \<and>
     removals_of (loaded_slug ir) r rows (form_keys h r) = Inr removes"

lemma new_rows_kept:
  assumes "list_assignments_for_service sid d = Inr rows"
  shows "new_rows sid loaded removes rows picks = map fst (frozen_rows loaded False removes rows) @ map (row_of sid) picks"
proof -
  have same: "\<lparr>as_service = sid, as_provider = as_provider a, as_position = as_position a\<rparr> = a" if "as_service a = sid" for a
    using that by (cases a) simp
  have "as_service a = sid" if "(a, slug) \<in> set rows" for a slug
    using that assms by (auto simp: list_assignments_for_service_def)
  then show ?thesis by (auto simp: new_rows_def frozen_rows_def intro!: same)
qed

lemma new_rows_exact:
  assumes "form_read h ir sid r d rows picks removes"
  shows "a \<in> set (new_rows sid (loaded_slug ir) removes rows picks) \<longleftrightarrow> chosen ir sid r a \<or> left_alone ir sid r d a"
proof -
  have read: "list_assignments_for_service sid d = Inr rows" "picks_of (loaded_slug ir) r (form_keys h r) = Inr picks"
    "removals_of (loaded_slug ir) r rows (form_keys h r) = Inr removes"
    using assms by (simp_all add: form_read_def)
  have "a \<in> fst ` set (frozen_rows (loaded_slug ir) False removes rows) \<longleftrightarrow> left_alone ir sid r d a"
    using joined_provider [OF read(1), of a] removals_of_Inr(1) [OF read(1,3)]
    by (force simp: frozen_rows_def left_alone_def)
  then show ?thesis
    using picks_of_Inr(1) [OF read(2), of a sid] by (auto simp: new_rows_kept [OF read(1)])
qed

lemma map_assign_key: "(\<And>a. a \<in> set as \<Longrightarrow> as_service a = sid) \<Longrightarrow> map assign_key as = map (Pair sid) (map as_provider as)"
  by (simp add: assign_key_def)

lemma new_rows_service: "a \<in> set (new_rows sid loaded removes rows picks) \<Longrightarrow> as_service a = sid"
  by (auto simp: new_rows_def)

lemma reassignedI:
  assumes "form_read h ir sid r d rows picks removes"
    and "fresh_keys any (new_rows sid (loaded_slug ir) removes rows picks)"
  shows "reassigned ir sid r d (filter (\<lambda>a. as_service a \<noteq> sid) (t_assign d) @ new_rows sid (loaded_slug ir) removes rows picks)"
  unfolding reassigned_def
proof (rule exI [of _ "new_rows sid (loaded_slug ir) removes rows picks"], intro conjI allI)
  let ?new = "new_rows sid (loaded_slug ir) removes rows picks"
  have "map assign_key ?new = map (Pair sid) (map as_provider ?new)"
    by (rule map_assign_key) (erule new_rows_service)
  then have "distinct (map (Pair sid) (map as_provider ?new))"
    using assms(2) unfolding fresh_keys_def by metis
  then show "distinct (map as_provider ?new)"
    unfolding distinct_map [of "Pair sid"] by blast
qed (simp_all add: new_rows_exact [OF assms(1)])

lemma storable_new_rows:
  assumes "form_read h ir sid r d rows picks removes" "storable ir sid r d" "service_exists d sid"
  shows "fresh_keys (filter (\<lambda>a. as_service a \<noteq> sid) (t_assign d)) (new_rows sid (loaded_slug ir) removes rows picks)"
    and "list_all (refers d) (new_rows sid (loaded_slug ir) removes rows picks)"
proof -
  let ?new = "new_rows sid (loaded_slug ir) removes rows picks"
  have read: "list_assignments_for_service sid d = Inr rows" "picks_of (loaded_slug ir) r (form_keys h r) = Inr picks"
    using assms(1) by (simp_all add: form_read_def)
  have "distinct (map (assign_key \<circ> fst) (frozen_rows (loaded_slug ir) False removes rows))"
    using listed_distinct [OF read(1)] assms(2)
    by (auto simp: storable_def frozen_rows_def assign_key_def [abs_def] intro: distinct_map_filterI)
  moreover have "assign_key \<circ> row_of sid = Pair sid \<circ> pk_id"
    by (simp add: fun_eq_iff assign_key_def)
  moreover have "distinct (map (Pair sid \<circ> pk_id) picks)"
    using picks_of_Inr(2) [OF read(2) assms(2)] by (simp add: distinct_map inj_on_def)
  moreover have "\<forall>p \<in> set picks. loaded_slug ir (pk_id p) \<noteq> None"
    using picks_of_Inr(1) [OF read(2), of _ sid] by (force simp: chosen_def)
  ultimately have "distinct (map assign_key ?new)"
    by (auto simp: new_rows_kept [OF read(1)] frozen_rows_def assign_key_def)
  then show "fresh_keys (filter (\<lambda>a. as_service a \<noteq> sid) (t_assign d)) ?new"
    using new_rows_service by (fastforce simp: fresh_keys_def assign_key_def)
  show "list_all (refers d) ?new"
    using assms(2,3) new_rows_exact [OF assms(1)] new_rows_service
    by (fastforce simp: list_all_iff refers_def storable_def left_alone_def)
qed

section \<open>Every outcome of the handler\<close>

text \<open>
  A redirect answers a form that was in order, and then the assignments are the ones it asks for; every other answer comes
  with an unchanged database and names its reason.
\<close>

definition providers_outcome ::
  "env \<Rightarrow> providers_handler \<Rightarrow> idp_registry \<Rightarrow> string \<Rightarrow> request \<Rightarrow> db \<Rightarrow> reply \<Rightarrow> db \<Rightarrow> bool" where
  "providers_outcome e h ir sid r d reply d' \<longleftrightarrow>
     (if \<exists>loc. reply = Redirect 303 loc
      then service_exists d sid \<and> ph_form_ok h r \<and> ticks_ok ir sid r d \<and> reassigned ir sid r d (t_assign d')
      else d' = d \<and>
        (reply = not_found \<and> \<not> service_exists d sid \<or>
         (\<exists>msg. reply = HttpError 400 msg) \<and> \<not> (ph_form_ok h r \<and> ticks_ok ir sid r d) \<or>
         reply = db_error \<and> ((\<exists>i. e_fault e i \<or> e_cancel e i) \<or> \<not> storable ir sid r d)))"

lemma isl_case: "isl (case rc of Inl x \<Rightarrow> Inl x | Inr u \<Rightarrow> Inr (g u)) = isl rc"
  by (cases rc) simp_all

lemma assign_body_wp:
  assumes "form_read h ir sid r (w_db w) rows picks removes" "service_exists (w_db w) sid"
  shows "wp (assign_body e sid (loaded_slug ir) removes picks)
     (\<lambda>rc w'. if isl rc then (\<exists>i. e_fault e i) \<or> \<not> storable ir sid r (w_db w)
        else reassigned ir sid r (w_db w) (t_assign (w_db w'))) w"
proof -
  let ?rest = "filter (\<lambda>a. as_service a \<noteq> sid) (t_assign (w_db w))"
  let ?new = "new_rows sid (loaded_slug ir) removes rows picks"
  have refers: "refers (d\<lparr>t_assign := rows\<rparr>) = refers d" for d rows
    by (simp add: fun_eq_iff refers_def service_exists_def provider_of_def)
  have rows: "list_assignments_for_service sid (w_db w) = Inr rows" using assms(1) by (simp add: form_read_def)
  have "wp (insert_all e ?new) (\<lambda>rc w'. if isl rc then (\<exists>i. e_fault e i) \<or> \<not> storable ir sid r (w_db w)
      else reassigned ir sid r (w_db w) (t_assign (w_db w'))) (w\<lparr>w_db := (w_db w)\<lparr>t_assign := ?rest\<rparr>, w_step := n\<rparr>)" for n
    by (rule wp_mono [OF insert_all_wp])
      (use storable_new_rows [OF assms(1) _ assms(2)] reassignedI [OF assms(1)] in \<open>auto simp: refers split: if_splits\<close>)
  then show ?thesis
    by (auto simp: assign_body_def Let_def wp_bind wp_return wp_db_read wp_db_write delete_assignments_def delete_where_def
        rows isl_case new_rows_def row_of_def [abs_def] db_failure_def split: option.split)
qed

lemma keeps_providers_saved: "keeps (\<lambda>w. t_assign (w_db w)) (providers_saved e actor ir sid r details)"
  unfolding providers_saved_def reload_assignments_def log_admin_write_def
  by (intro keeps_intros keeps_log_sync_db [where g = t_assign]) simp_all

lemma providers_saved_wp:
  assumes "service_exists d sid" "ph_form_ok h r" "ticks_ok ir sid r d" "reassigned ir sid r d (t_assign (w_db w))"
  shows "wp (providers_saved e actor ir sid r details) (\<lambda>rv w'. providers_outcome e h ir sid r d (fst rv) (w_db w')) w"
proof -
  have "wp (providers_saved e actor ir sid r details) (\<lambda>rv w'. \<exists>loc. fst rv = Redirect 303 loc) w"
    by (simp add: providers_saved_def wp_bind wp_return wp_any)
  then have "wp (providers_saved e actor ir sid r details)
      (\<lambda>rv w'. (\<exists>loc. fst rv = Redirect 303 loc) \<and> t_assign (w_db w') = t_assign (w_db w)) w"
    using wp_keeps_any [OF keeps_providers_saved, of e actor ir sid r details w] by (simp add: wp_conj)
  then show ?thesis
    by (rule wp_mono) (use assms in \<open>auto simp: providers_outcome_def\<close>)
qed

lemma save_assignments_wp:
  assumes "picks_of (loaded_slug ir) r (form_keys h r) = Inr picks" "service_exists (w_db w) sid" "ph_form_ok h r"
  shows "wp (save_assignments e h actor ir sid r picks) (\<lambda>rv w'. providers_outcome e h ir sid r (w_db w) (fst rv) (w_db w')) w"
proof -
  obtain rows where rows: "list_assignments_for_service sid (w_db w) = Inr rows"
    by (simp add: list_assignments_for_service_def)
  have refused: "providers_outcome e h ir sid r (w_db w) db_error (w_db w)"
    if "(\<exists>i. e_fault e i \<or> e_cancel e i) \<or> \<not> storable ir sid r (w_db w)"
    using that by (simp add: providers_outcome_def db_error_def)
  have bad: "providers_outcome e h ir sid r (w_db w) (HttpError 400 msg) (w_db w)"
    if "removals_of (loaded_slug ir) r rows (form_keys h r) = Inl m" for m msg
    using removals_of_Inl [OF rows that] by (simp add: providers_outcome_def)
  have tx: "wp (in_tx e Detached id (assign_body e sid (loaded_slug ir) removes picks))
      (\<lambda>rt. wp (case rt of
          Inl _ \<Rightarrow> return_io (db_error, ir)
        | Inr done_rows \<Rightarrow> providers_saved e actor ir sid r (providers_details sid picks done_rows))
        (\<lambda>rv w'. providers_outcome e h ir sid r (w_db w) (fst rv) (w_db w'))) (w\<lparr>w_step := n\<rparr>)"
    if rem: "removals_of (loaded_slug ir) r rows (form_keys h r) = Inr removes" for removes n
  proof -
    have read: "form_read h ir sid r (w_db w) rows picks removes"
      using rows assms(1) rem by (simp add: form_read_def)
    note saved = providers_saved_wp [OF assms(2,3) ticks_okI [OF assms(1) rows rem]]
    have "wp (assign_body e sid (loaded_slug ir) removes picks)
       (\<lambda>rc w'. if isl rc then (\<exists>i. e_fault e i) \<or> \<not> storable ir sid r (w_db w)
          else reassigned ir sid r (w_db w) (t_assign (w_db w'))) (w\<lparr>w_step := Suc n\<rparr>)"
      by (rule wp_mono [OF assign_body_wp [where rows = rows and h = h]]) (use read assms(2) in auto)
    then show ?thesis
      unfolding wp_in_tx
      by (auto simp: wp_return db_failure_def split: option.split sum.split intro!: refused saved elim!: wp_mono)
  qed
  show ?thesis
    unfolding save_assignments_def wp_bind
    by (auto simp: wp_bind wp_return wp_db_read rows db_failure_def split: option.split sum.split intro!: refused bad tx)
qed

text \<open>C15. Saving which providers a service offers answers with a redirect only to a form in order, and then the
  assignments of every other service are as they were, and those of the service are exactly the ticked providers, each one
  loaded and at the position the form gave it, with the assignments it had to providers that are not loaded and whose
  removal the form did not ask for.  Every other answer leaves the whole database as it was: 404 only where there is
  no such service, 400 only to a form that is not in order, 500 only where a statement failed or the keys of the tables
  do not admit the rows.\<close>

theorem assignments_are_loaded:
  "wp (update_providers e h actor ir sid r)
     (\<lambda>rv w'. providers_outcome e h ir sid r (w_db w) (fst rv) (w_db w')) w"
proof -
  have saved: "wp (save_assignments e h actor ir sid r picks)
      (\<lambda>rv w'. providers_outcome e h ir sid r (w_db w) (fst rv) (w_db w')) (w\<lparr>w_step := n\<rparr>)"
    if "picks_of (loaded_slug ir) r (form_keys h r) = Inr picks" "service_exists (w_db w) sid" "ph_form_ok h r" for picks n
    using save_assignments_wp [of ir r h picks "w\<lparr>w_step := n\<rparr>" sid e actor] that by simp
  let ?found = "List.find (\<lambda>s. sv_id s = sid) (sort_key sv_display_name (t_services (w_db w)))"
  have found: "service_exists (w_db w) sid \<longleftrightarrow> ?found \<noteq> None"
    by (auto simp: service_exists_def find_None_iff)
  have bad: "providers_outcome e h ir sid r (w_db w) (HttpError 400 msg) (w_db w)"
    if "picks_of (loaded_slug ir) r (form_keys h r) = Inl m" for m msg
    using picks_of_Inl [OF that] by (simp add: providers_outcome_def)
  have rest: "providers_outcome e h ir sid r (w_db w) reply (w_db w)"
    if "reply = not_found \<and> ?found = None \<or> reply = db_error \<and> (\<exists>i. e_fault e i \<or> e_cancel e i) \<or>
      (\<exists>msg. reply = HttpError 400 msg) \<and> \<not> ph_form_ok h r" for reply
    using that by (auto simp: providers_outcome_def found not_found_def db_error_def)
  show ?thesis
  proof (cases "ph_form_ok h r")
    case True
    then show ?thesis
      by (auto simp: update_providers_def find_service_by_id_def list_all_services_def wp_bind wp_return wp_db_read
          db_failure_def found split: option.split sum.split intro!: rest bad saved)
  qed (auto simp: update_providers_def wp_return intro: rest)
qed

end
