(* ===== verification/Cleanup.thy ===== *)
theory Cleanup
  imports Statements Weakest TokenUtil
begin

text \<open>
  The hourly clean-up of the database: \<open>internal/jobs/cleanup.go\<close>.  A round of a job is one statement with a limit
  computed from the clock; \<open>Run\<close> does one round of each job and then whatever rounds its five tickers ask for, in any
  order, until it is stopped.
\<close>

datatype job = MagicJob | RefreshJob | AuditJob | CodeJob | InviteJob

definition link_invite_retention :: duration where "link_invite_retention = 7 * 24 * hour"

definition audit_retention :: duration where "audit_retention = 90 * 24 * hour"

definition clean_magic_tokens :: "env \<Rightarrow> (db_err + unit) io" where
  "clean_magic_tokens e = do {
     now \<leftarrow> time_now e;
     db_write e ReqCtx (delete_expired_magic (format_utc now) (format_utc (now - 24 * hour)))
   }"

definition clean_refresh_tokens :: "env \<Rightarrow> (db_err + unit) io" where
  "clean_refresh_tokens e = do {
     now \<leftarrow> time_now e;
     db_write e ReqCtx (delete_expired_refresh (format_utc now) (format_utc now))
   }"

definition clean_authorization_codes :: "env \<Rightarrow> (db_err + unit) io" where
  "clean_authorization_codes e = do {
     now \<leftarrow> time_now e;
     db_write e ReqCtx (delete_expired_codes (format_utc now))
   }"

definition clean_audit_events :: "env \<Rightarrow> (db_err + unit) io" where
  "clean_audit_events e = do {
     now \<leftarrow> time_now e;
     db_write e ReqCtx (delete_old_audit (format_utc (now - audit_retention)))
   }"

definition clean_link_invites :: "env \<Rightarrow> (db_err + unit) io" where
  "clean_link_invites e = do {
     now \<leftarrow> time_now e;
     db_write e ReqCtx (delete_expired_invites (format_link_invite_time (now - link_invite_retention)))
   }"

text \<open>A failure is only logged.\<close>

definition run_job :: "env \<Rightarrow> job \<Rightarrow> (db_err + unit) io" where
  "run_job e j =
     (case j of
        MagicJob \<Rightarrow> clean_magic_tokens e
      | RefreshJob \<Rightarrow> clean_refresh_tokens e
      | AuditJob \<Rightarrow> clean_audit_events e
      | CodeJob \<Rightarrow> clean_authorization_codes e
      | InviteJob \<Rightarrow> clean_link_invites e)"

fun run_jobs :: "env \<Rightarrow> job list \<Rightarrow> unit io" where
  "run_jobs e [] = return_io ()"
| "run_jobs e (j # js) = do { _ \<leftarrow> run_job e j; run_jobs e js }"

definition cleanup_run :: "env \<Rightarrow> job list \<Rightarrow> unit io" where
  "cleanup_run e ticks = run_jobs e ([MagicJob, RefreshJob, AuditJob, CodeJob, InviteJob] @ ticks)"

lemma evolves_run_job [evolve_intros]: "evolves db_step (run_job e j)"
  unfolding run_job_def clean_magic_tokens_def clean_refresh_tokens_def clean_authorization_codes_def clean_audit_events_def
    clean_link_invites_def
  by (cases j) (simp_all only: job.case, (intro evolve_intros)+)

lemma evolves_cleanup [evolve_intros]: "evolves db_step (cleanup_run e ticks)"
proof -
  have "evolves db_step (run_jobs e js)" for js
    by (induction js) (simp_all, (intro evolve_intros | assumption)+)
  then show ?thesis by (simp only: cleanup_run_def)
qed

section \<open>What a round may delete\<close>

text \<open>
  What the clock said at some moment decides: a refresh token goes when it and its family had expired, so a replay of a
  rotated token is recognised for as long as the family lives; a used magic link goes when it had expired, an unused one
  a day later; an invitation seven days after it expired; an audit row after ninety days.
\<close>

definition family_over :: "string \<Rightarrow> refresh_row \<Rightarrow> bool" where
  "family_over now r \<longleftrightarrow> rt_expires r < now \<and> (case rt_family_expires r of None \<Rightarrow> True | Some x \<Rightarrow> x < now)"

definition same_but_parent :: "refresh_row \<Rightarrow> refresh_row \<Rightarrow> bool" where
  "same_but_parent r r' \<longleftrightarrow> (\<exists>p. r' = r\<lparr>rt_parent := p\<rparr>)"

definition refresh_kept :: "instant set \<Rightarrow> refresh_row list \<Rightarrow> refresh_row list \<Rightarrow> bool" where
  "refresh_kept T rs rs' \<longleftrightarrow>
     (\<forall>r \<in> set rs. (\<exists>r' \<in> set rs'. same_but_parent r r') \<or> (\<exists>t \<in> T. family_over (format_utc t) r))"

definition kept_unless :: "('r \<Rightarrow> bool) \<Rightarrow> 'r list \<Rightarrow> 'r list \<Rightarrow> bool" where
  "kept_unless over rs rs' \<longleftrightarrow> (\<forall>r \<in> set rs. r \<in> set rs' \<or> over r)"

definition magic_over :: "instant set \<Rightarrow> magic_row \<Rightarrow> bool" where
  "magic_over T r \<longleftrightarrow>
     (\<exists>t \<in> T. mt_used r = 1 \<and> mt_expires r < format_utc t \<or> mt_expires r < format_utc (t - 24 * hour))"

definition nothing_live_lost :: "instant set \<Rightarrow> db \<Rightarrow> db \<Rightarrow> bool" where
  "nothing_live_lost T d d' \<longleftrightarrow>
     refresh_kept T (t_refresh d) (t_refresh d') \<and>
     kept_unless (magic_over T) (t_magic d) (t_magic d') \<and>
     kept_unless (\<lambda>c. \<exists>t \<in> T. ac_expires c < format_utc t) (t_codes d) (t_codes d') \<and>
     kept_unless (\<lambda>v. \<exists>t \<in> T. li_expires v < format_link_invite_time (t - link_invite_retention)) (t_invites d) (t_invites d') \<and>
     kept_unless (\<lambda>a. \<exists>t \<in> T. ae_created a < format_utc (t - audit_retention)) (t_audit d) (t_audit d') \<and>
     t_users d' = t_users d \<and> t_identities d' = t_identities d \<and> t_services d' = t_services d \<and>
     t_providers d' = t_providers d \<and> t_assign d' = t_assign d"

lemma same_but_parent_refl: "same_but_parent r r"
  unfolding same_but_parent_def by (metis refresh_row.surjective refresh_row.update_convs(6))

lemma refresh_kept_refl: "refresh_kept T rs rs"
  unfolding refresh_kept_def using same_but_parent_refl by blast

lemma refresh_kept_trans:
  assumes "refresh_kept T rs rs'" "refresh_kept T rs' rs''"
  shows "refresh_kept T rs rs''"
proof -
  have over: "family_over now (r\<lparr>rt_parent := p\<rparr>) = family_over now r" for now r p
    by (simp add: family_over_def)
  have trans: "same_but_parent r r' \<Longrightarrow> same_but_parent r' r'' \<Longrightarrow> same_but_parent r r''" for r r' r''
    by (auto simp: same_but_parent_def)
  show ?thesis unfolding refresh_kept_def
  proof
    fix r assume "r \<in> set rs"
    then consider t where "t \<in> T" "family_over (format_utc t) r" | r' where "r' \<in> set rs'" "same_but_parent r r'"
      using assms(1) by (auto simp: refresh_kept_def)
    then show "(\<exists>r' \<in> set rs''. same_but_parent r r') \<or> (\<exists>t \<in> T. family_over (format_utc t) r)"
    proof cases
      case 2
      then have "(\<exists>s \<in> set rs''. same_but_parent r' s) \<or> (\<exists>t \<in> T. family_over (format_utc t) r')"
        using assms(2) by (auto simp: refresh_kept_def)
      then show ?thesis using trans 2(2) over by (auto simp: same_but_parent_def)
    qed blast
  qed
qed

lemma nothing_live_lost_refl: "nothing_live_lost T d d"
  by (simp add: nothing_live_lost_def refresh_kept_refl kept_unless_def)

lemma nothing_live_lost_trans:
  "nothing_live_lost T d d' \<Longrightarrow> nothing_live_lost T d' d'' \<Longrightarrow> nothing_live_lost T d d''"
  unfolding nothing_live_lost_def kept_unless_def by (fastforce elim: refresh_kept_trans)

lemma delete_refresh_keeps:
  assumes "t \<in> T"
  shows "refresh_kept T (t_refresh d) (t_refresh (snd (delete_expired_refresh (format_utc t) (format_utc t) d)))"
proof -
  let ?P = "\<lambda>r. family_over (format_utc t) r"
  have "\<exists>r' \<in> set (upd_where Q (\<lambda>r. r\<lparr>rt_parent := None\<rparr>) (delete_where ?P rs)). same_but_parent r r'"
    if "r \<in> set rs" "\<not> ?P r" for Q r rs
  proof
    let ?r = "if Q r then r\<lparr>rt_parent := None\<rparr> else r"
    show "same_but_parent r ?r" using same_but_parent_refl by (auto simp: same_but_parent_def)
    show "?r \<in> set (upd_where Q (\<lambda>r. r\<lparr>rt_parent := None\<rparr>) (delete_where ?P rs))"
      unfolding in_upd_where using that by auto
  qed
  then show ?thesis
    using assms by (auto simp: refresh_kept_def delete_expired_refresh_def Let_def simp flip: family_over_def)
qed

lemma delete_refresh_loses:
  "t \<in> T \<Longrightarrow> nothing_live_lost T d (snd (delete_expired_refresh (format_utc t) (format_utc t) d))"
  using delete_refresh_keeps [of t T d]
  by (simp add: nothing_live_lost_def kept_unless_def) (simp add: delete_expired_refresh_def Let_def)

lemma deletes_lose:
  assumes "t \<in> T"
  shows "nothing_live_lost T d (snd (delete_expired_magic (format_utc t) (format_utc (t - 24 * hour)) d))"
    and "nothing_live_lost T d (snd (delete_expired_codes (format_utc t) d))"
    and "nothing_live_lost T d (snd (delete_old_audit (format_utc (t - audit_retention)) d))"
    and "nothing_live_lost T d (snd (delete_expired_invites (format_link_invite_time (t - link_invite_retention)) d))"
  using assms
  by (auto simp: nothing_live_lost_def refresh_kept_refl kept_unless_def magic_over_def delete_expired_magic_def
      delete_expired_codes_def delete_old_audit_def delete_expired_invites_def)

lemma run_job_wp:
  "wp (run_job e j) (\<lambda>_ w'. nothing_live_lost (range (e_clock e)) (w_db w) (w_db w')) w"
  unfolding run_job_def clean_magic_tokens_def clean_refresh_tokens_def clean_authorization_codes_def clean_audit_events_def
    clean_link_invites_def
  by (cases j) (simp_all add: wp_bind wp_effects wp_db_write nothing_live_lost_refl delete_refresh_loses deletes_lose
      split: option.split)

text \<open>C26. However often and in whatever order the clean-up jobs run, and whichever statements fail, a row is lost only
  when the clock had passed what it is kept for: a refresh token with its family's end, so that replaying a rotated
  token is recognised until the family is over, a magic link, a code, an invitation or an audit row with its time; users,
  identities, services and providers are never touched.\<close>

theorem cleanup_spares_what_counts:
  "wp (cleanup_run e ticks) (\<lambda>_ w'. nothing_live_lost (range (e_clock e)) (w_db w) (w_db w')) w"
proof -
  have "wp (run_jobs e js) (\<lambda>_ w'. nothing_live_lost (range (e_clock e)) (w_db w) (w_db w')) w" for js w
  proof (induction js arbitrary: w)
    case (Cons j js)
    have "wp (run_jobs e js) (\<lambda>_ w'. nothing_live_lost (range (e_clock e)) (w_db w) (w_db w')) w1"
      if "nothing_live_lost (range (e_clock e)) (w_db w) (w_db w1)" for w1 :: world
      by (rule wp_mono [OF Cons.IH]) (rule nothing_live_lost_trans [OF that])
    then show ?case unfolding run_jobs.simps wp_bind by (rule wp_mono [OF run_job_wp])
  qed (simp add: wp_return nothing_live_lost_refl)
  then show ?thesis unfolding cleanup_run_def .
qed

end
