(* ===== verification/Config.thy ===== *)
theory Config
  imports Issuer AdminUsers
begin

text \<open>
  Reading the configuration: \<open>internal/config/config.go\<close> and \<open>internal/config/keys.go\<close>.  The process environment, the
  files, the PEM and X.509 parsers, \<open>url.Parse\<close> and \<open>netip.ParseAddr\<close> are parameters; every problem is collected and
  any problem stops the start.
\<close>

record config_env =
  ce_env :: env
  ce_lookup :: "string \<Rightarrow> string option"
  ce_read :: "string \<Rightarrow> string + string"
  ce_pem :: "string \<Rightarrow> string option"
  ce_pkcs8 :: "string \<Rightarrow> privkey option option"
  ce_pkcs1 :: "string \<Rightarrow> privkey option"
  ce_pkix :: "string \<Rightarrow> pubkey option option"
  ce_ip :: "string \<Rightarrow> (string \<times> string) option"

datatype cors_err = CorsWildcard | CorsNull | CorsParse | CorsScheme | CorsNoHost | CorsNotOrigin

datatype cfg_err =
    Required string
  | BothSet string
  | Unreadable string string
  | BadKey string
  | BadKidVar string
  | WeakRSA string
  | PairMismatch
  | KidRequired string
  | KeyRequired string
  | KidTaken string string
  | SameMaterial string string
  | BadStateSecret
  | InsecureNeedsCookies
  | MockNeedsHttp
  | BadGithubURL string
  | GithubOverride string
  | BadTTL string
  | BadPasswordFlag
  | BadHTTPAddr
  | BadCORS cors_err

definition cfg_getenv :: "config_env \<Rightarrow> string \<Rightarrow> string" where
  "cfg_getenv ce k = opt_str (ce_lookup ce k)"

definition cfg_require :: "config_env \<Rightarrow> string \<Rightarrow> cfg_err list \<times> string" where
  "cfg_require ce k = (if cfg_getenv ce k = [] then [Required k] else [], cfg_getenv ce k)"

definition cfg_optional :: "config_env \<Rightarrow> string \<Rightarrow> string \<Rightarrow> string" where
  "cfg_optional ce k def = (if cfg_getenv ce k = [] then def else cfg_getenv ce k)"

section \<open>Base64 with padding\<close>

definition std_b64_val :: "char \<Rightarrow> nat option" where
  "std_b64_val c =
     index_of c (''ABCDEFGHIJKLMNOPQRSTUVWXYZabcdefghijklmnopqrstuvwxyz0123456789'' @ [CHR ''+'', CHR ''/''])"

definition std_b64_decode :: "string \<Rightarrow> string option" where
  "std_b64_decode s =
     (let t = filter (\<lambda>c. c \<noteq> CHR 0x0A \<and> c \<noteq> CHR 0x0D) s;
          core = takeWhile (\<lambda>c. c \<noteq> CHR ''='') t; pad = dropWhile (\<lambda>c. c \<noteq> CHR ''='') t in
      if length t mod 4 \<noteq> 0 \<or> 2 < length pad \<or> \<not> list_all (\<lambda>c. c = CHR ''='') pad then None
      else case all_some (map std_b64_val core) of
        None \<Rightarrow> None
      | Some vs \<Rightarrow> map_option (map char_of) (octets vs))"

section \<open>Keys\<close>

definition parse_rsa_private_key :: "config_env \<Rightarrow> string \<Rightarrow> privkey option" where
  "parse_rsa_private_key ce t =
     (case ce_pem ce t of
        None \<Rightarrow> None
      | Some block \<Rightarrow> (case ce_pkcs8 ce block of None \<Rightarrow> ce_pkcs1 ce block | Some key \<Rightarrow> key))"

definition parse_rsa_public_key :: "config_env \<Rightarrow> string \<Rightarrow> pubkey option" where
  "parse_rsa_public_key ce t =
     (case ce_pem ce t of
        None \<Rightarrow> None
      | Some block \<Rightarrow> (case ce_pkix ce block of None \<Rightarrow> None | Some key \<Rightarrow> key))"

definition decoded_or_raw :: "string \<Rightarrow> string" where
  "decoded_or_raw v = (case std_b64_decode v of Some b \<Rightarrow> b | None \<Rightarrow> v)"

text \<open>The text of a required key: base64 or PEM in one variable, or a file named by the other.\<close>

definition key_text :: "config_env \<Rightarrow> string \<Rightarrow> cfg_err list \<times> string" where
  "key_text ce var =
     (let pem = cfg_getenv ce (var @ ''_PEM'');
          both = (if pem \<noteq> [] \<and> cfg_getenv ce (var @ ''_PATH'') \<noteq> [] then [BothSet var] else []) in
      if pem \<noteq> [] then (both, decoded_or_raw pem)
      else (case cfg_require ce (var @ ''_PATH'') of (errs, path) \<Rightarrow>
        if path = [] then (both @ errs, [])
        else case ce_read ce path of
          Inl msg \<Rightarrow> (both @ errs @ [Unreadable (var @ ''_PATH'') msg], [])
        | Inr t \<Rightarrow> (both @ errs, t)))"

text \<open>No text gives no key and no problem of its own.\<close>

definition read_key :: "config_env \<Rightarrow> (string \<Rightarrow> 'k option) \<Rightarrow> string \<Rightarrow> cfg_err list \<times> 'k option" where
  "read_key ce parse var =
     (case key_text ce var of (errs, t) \<Rightarrow>
        if t = [] then (errs, None)
        else case parse t of
          None \<Rightarrow> (errs @ [BadKey var], None)
        | Some k \<Rightarrow> (errs, Some k))"

definition read_optional_pem :: "config_env \<Rightarrow> string \<Rightarrow> cfg_err option \<times> string option" where
  "read_optional_pem ce var =
     (let pem = cfg_getenv ce (var @ ''_PEM''); path = cfg_getenv ce (var @ ''_PATH'') in
      if pem \<noteq> [] \<and> path \<noteq> [] then (Some (BothSet var), Some [])
      else if pem \<noteq> [] then (None, Some (decoded_or_raw pem))
      else if path \<noteq> [] then
        (case ce_read ce path of
           Inl msg \<Rightarrow> (Some (Unreadable (var @ ''_PATH'') msg), Some [])
         | Inr t \<Rightarrow> (None, Some t))
      else (None, None))"

definition pub_var :: "string \<Rightarrow> string" where "pub_var name = ''KAUTH_'' @ name @ ''_PUBLIC_KEY''"
definition kid_var :: "string \<Rightarrow> string" where "kid_var name = ''KAUTH_'' @ name @ ''_KID''"

definition ring_key :: "config_env \<Rightarrow> string \<Rightarrow> string \<Rightarrow> cfg_err list \<times> pubkey option" where
  "ring_key ce var t =
     (case parse_rsa_public_key ce t of
        None \<Rightarrow> ([BadKey var], None)
      | Some k \<Rightarrow> if bit_len_less (pk_n k) min_rsa_bits then ([WeakRSA var], None) else ([], Some k))"

definition kid_problems :: "(string \<rightharpoonup> string) \<Rightarrow> string \<Rightarrow> string \<Rightarrow> bool \<Rightarrow> cfg_err list" where
  "kid_problems seen name kid found =
     (if found \<and> kid = [] then [KidRequired (kid_var name)]
      else if \<not> found \<and> kid \<noteq> [] then [KeyRequired (pub_var name)] else []) @
     (if kid = [] then []
      else if \<not> valid_kid kid then [BadKidVar (kid_var name)]
      else case seen kid of Some other \<Rightarrow> [KidTaken (kid_var name) other] | None \<Rightarrow> [])"

definition load_other ::
  "config_env \<Rightarrow> (string \<rightharpoonup> string) \<Rightarrow> string \<Rightarrow> cfg_err list \<times> (string \<rightharpoonup> string) \<times> string \<times> pubkey option" where
  "load_other ce seen name =
     (let kid = cfg_getenv ce (kid_var name); (err, text) = read_optional_pem ce (pub_var name);
          seen' = (if kid \<noteq> [] \<and> valid_kid kid then seen(kid \<mapsto> kid_var name) else seen);
          (key_errs, key) = (case (err, text) of (None, Some t) \<Rightarrow> ring_key ce (pub_var name) t | _ \<Rightarrow> ([], None)) in
      ((case err of None \<Rightarrow> [] | Some x \<Rightarrow> [x]) @ kid_problems seen name kid (text \<noteq> None) @ key_errs,
       seen', kid, if kid = [] then None else key))"

record ring_config =
  rc_kid :: string
  rc_next :: "pubkey option"
  rc_next_kid :: string
  rc_previous :: "pubkey option"
  rc_previous_kid :: string

definition same_pair :: "privkey \<Rightarrow> pubkey \<Rightarrow> bool" where
  "same_pair sk pk \<longleftrightarrow> sk_n sk = pk_n pk \<and> sk_e sk = pk_e pk"

definition current_problems :: "string \<Rightarrow> privkey option \<Rightarrow> pubkey option \<Rightarrow> cfg_err list" where
  "current_problems kid priv pub =
     (if valid_kid kid then [] else [BadKidVar ''KAUTH_SIGNING_KID'']) @
     (case priv of
        None \<Rightarrow> []
      | Some sk \<Rightarrow>
          (if bit_len_less (sk_n sk) min_rsa_bits then [WeakRSA ''KAUTH_PRIVATE_KEY''] else []) @
          (case pub of None \<Rightarrow> [] | Some pk \<Rightarrow> if same_pair sk pk then [] else [PairMismatch]))"

definition material_problems :: "pubkey option \<Rightarrow> pubkey option \<Rightarrow> pubkey option \<Rightarrow> cfg_err list" where
  "material_problems pub next_key previous =
     (if same_key_opt next_key pub then [SameMaterial (pub_var ''NEXT'') ''KAUTH_PUBLIC_KEY''] else []) @
     (if same_key_opt previous pub then [SameMaterial (pub_var ''PREVIOUS'') ''KAUTH_PUBLIC_KEY''] else []) @
     (if same_key_opt next_key previous then [SameMaterial (pub_var ''NEXT'') (pub_var ''PREVIOUS'')] else [])"

definition load_key_ring :: "config_env \<Rightarrow> privkey option \<Rightarrow> pubkey option \<Rightarrow> cfg_err list \<times> ring_config" where
  "load_key_ring ce priv pub =
     (let kid = cfg_optional ce ''KAUTH_SIGNING_KID'' ''kauth-1'';
          (e1, seen, next_kid, next_key) = load_other ce [kid \<mapsto> ''KAUTH_SIGNING_KID''] ''NEXT'';
          (e2, _, prev_kid, prev_key) = load_other ce seen ''PREVIOUS'';
          errs = current_problems kid priv pub @ e1 @ e2 @ material_problems pub next_key prev_key in
      (errs, \<lparr>rc_kid = kid, rc_next = (if errs = [] then next_key else None), rc_next_kid = next_kid,
              rc_previous = (if errs = [] then prev_key else None), rc_previous_kid = prev_kid\<rparr>))"

section \<open>Single values\<close>

definition issuer_separator :: "char \<Rightarrow> bool" where
  "issuer_separator c \<longleftrightarrow> c \<in> {CHR '','', CHR '' '', CHR 0x09, CHR 0x0A, CHR 0x0D}"

fun split_issuers_from :: "string \<Rightarrow> string \<Rightarrow> string list" where
  "split_issuers_from cur [] = (if cur = [] then [] else [rev cur])"
| "split_issuers_from cur (c # s) =
     (if issuer_separator c then (if cur = [] then [] else [rev cur]) @ split_issuers_from [] s
      else split_issuers_from (c # cur) s)"

definition split_issuers :: "string \<Rightarrow> string list" where
  "split_issuers v = split_issuers_from [] v"

definition parse_http_addr :: "config_env \<Rightarrow> string option \<Rightarrow> cfg_err list \<times> string" where
  "parse_http_addr ce v =
     (case v of
        None \<Rightarrow> ([], ''127.0.0.1'')
      | Some t \<Rightarrow>
          (case ce_ip ce t of
             None \<Rightarrow> ([BadHTTPAddr], [])
           | Some (zone, addr) \<Rightarrow> if zone \<noteq> [] then ([BadHTTPAddr], []) else ([], addr)))"

definition listen_addr :: "string \<Rightarrow> string \<Rightarrow> string" where
  "listen_addr host port =
     (if CHR '':'' \<in> set host \<or> CHR ''%'' \<in> set host then CHR ''['' # host @ '']:'' @ port else host @ CHR '':'' # port)"

definition is_http :: "env \<Rightarrow> string \<Rightarrow> bool" where
  "is_http e u \<longleftrightarrow> has_prefix (to_lower (e_lower e) u) ''http://''"

text \<open>\<open>strings.EqualFold\<close> with \<open>null\<close>: the letters n, u and l fold to their ASCII capitals only.\<close>

definition normalize_cors_origin :: "env \<Rightarrow> string \<Rightarrow> bool \<Rightarrow> cors_err + string" where
  "normalize_cors_origin e raw allow_http =
     (if CHR ''*'' \<in> set raw then Inl CorsWildcard
      else if equal_fold (\<lambda>_ _. False) raw ''null'' then Inl CorsNull
      else case e_url_parse e raw of
        None \<Rightarrow> Inl CorsParse
      | Some u \<Rightarrow>
          (let scheme = to_lower (e_lower e) (ul_scheme u) in
           if scheme \<noteq> ''https'' \<and> \<not> (scheme = ''http'' \<and> allow_http) then Inl CorsScheme
           else if ul_host u = [] \<or> ul_hostname u = [] then Inl CorsNoHost
           else if ul_path u \<noteq> [] \<and> ul_path u \<noteq> ''/'' \<or> ul_raw_query u \<noteq> [] \<or> ul_force_query u \<or> ul_fragment u \<noteq> [] \<or>
                   ul_has_user u \<or> ul_opaque u \<noteq> [] then Inl CorsNotOrigin
           else Inr (to_lower (e_lower e) (scheme @ ''://'' @ ul_host u))))"

definition github_url :: "config_env \<Rightarrow> string \<Rightarrow> string \<Rightarrow> bool \<Rightarrow> cfg_err list \<times> string" where
  "github_url ce name def allow_insecure =
     (let raw = cfg_getenv ce name in
      if raw = [] then ([], def)
      else case e_url_parse (ce_env ce) raw of
        None \<Rightarrow> ([BadGithubURL name], def)
      | Some u \<Rightarrow>
          if ul_scheme u = [] \<or> ul_host u = [] \<or> ul_scheme u \<noteq> ''https'' \<and> ul_scheme u \<noteq> ''http'' \<or> ul_has_user u \<or>
             ul_raw_query u \<noteq> [] \<or> ul_force_query u \<or> ul_fragment u \<noteq> [] \<or> CHR ''#'' \<in> set raw
          then ([BadGithubURL name], def)
          else (let norm = trim_right_char (CHR ''/'') raw in
            if norm \<noteq> def \<and> \<not> allow_insecure then ([GithubOverride name], def) else ([], norm)))"

section \<open>Durations\<close>

text \<open>
  A second reader of ISO 8601 durations, beside \<open>parse_iso8601\<close>: the letter \<open>T\<close> has no meaning, \<open>M\<close> is a minute
  everywhere, and \<open>strconv.Atoi\<close> gives the nearest 64-bit number.
\<close>

definition clamp_digits :: "string \<Rightarrow> 64 word" where
  "clamp_digits ds = of_nat (min (dec_val ds) (2 ^ 63 - 1))"

definition cfg_iso_step :: "64 word \<Rightarrow> string \<Rightarrow> (64 word \<times> string) option" where
  "cfg_iso_step acc s =
     (if s \<noteq> [] \<and> hd s = CHR ''T'' then Some (acc, tl s)
      else (let ds = takeWhile is_digit s; n = clamp_digits ds
            in if ds = [] then None
               else case dropWhile is_digit s of
                 [] \<Rightarrow> None
               | u # us \<Rightarrow>
                   if u = CHR ''D'' then Some (acc + n * 24 * dur64 hour, us)
                   else if u = CHR ''H'' then Some (acc + n * dur64 hour, us)
                   else if u = CHR ''M'' then Some (acc + n * dur64 minute, us)
                   else if u = CHR ''S'' then Some (acc + n * dur64 second, us)
                   else None))"

lemma cfg_iso_step_shorter: "cfg_iso_step acc s = Some (acc', r) \<Longrightarrow> length r < length s"
  using length_dropWhile_le [of is_digit s]
  by (cases s) (auto simp: cfg_iso_step_def Let_def split: if_splits list.splits)

function cfg_iso_loop :: "64 word \<Rightarrow> string \<Rightarrow> 64 word option" where
  "cfg_iso_loop acc s =
     (if s = [] then Some acc
      else case cfg_iso_step acc s of
        None \<Rightarrow> None
      | Some (a, r) \<Rightarrow> cfg_iso_loop a r)"
  by pat_completeness auto
termination
  by (relation "measure (\<lambda>(_, s). length s)") (auto dest: cfg_iso_step_shorter)

declare cfg_iso_loop.simps [simp del]

definition cfg_parse_iso8601 :: "(string \<Rightarrow> string) \<Rightarrow> string \<Rightarrow> duration option" where
  "cfg_parse_iso8601 upper s =
     (case cut_prefix (to_upper upper (trim_space s)) ''P'' of
        None \<Rightarrow> None
      | Some r \<Rightarrow> map_option sint (cfg_iso_loop 0 r))"

definition read_ttl :: "config_env \<Rightarrow> string \<Rightarrow> string \<Rightarrow> cfg_err list \<times> duration" where
  "read_ttl ce name def =
     (case cfg_parse_iso8601 (e_upper (ce_env ce)) (cfg_optional ce name def) of
        None \<Rightarrow> ([BadTTL name], 0)
      | Some d \<Rightarrow> ([], d))"

section \<open>The whole configuration\<close>

record config =
  cf_db_path :: string
  cf_issuer :: string
  cf_base_url :: string
  cf_private :: "privkey option"
  cf_public :: "pubkey option"
  cf_ring :: ring_config
  cf_state_secret :: string
  cf_issuers :: "string list"
  cf_insecure :: bool
  cf_smtp_host :: string
  cf_smtp_port :: int
  cf_smtp_user :: string
  cf_smtp_password :: string
  cf_smtp_from :: string
  cf_starttls :: bool
  cf_mock :: bool
  cf_brevo_key :: string
  cf_google :: "string \<times> string"
  cf_microsoft :: "string \<times> string"
  cf_github :: "string \<times> string"
  cf_github_base :: string
  cf_github_api :: string
  cf_access_ttl :: duration
  cf_admin_ttl :: duration
  cf_password_login :: bool
  cf_http_addr :: string
  cf_http_port :: string
  cf_cors :: "string list"
  cf_log_level :: string

definition state_secret :: "config_env \<Rightarrow> cfg_err list \<times> string" where
  "state_secret ce =
     (case cfg_require ce ''KAUTH_OIDC_STATE_SECRET'' of (errs, t) \<Rightarrow>
        if t = [] then (errs, [])
        else case std_b64_decode t of
          None \<Rightarrow> (errs @ [BadStateSecret], [])
        | Some b \<Rightarrow> if length b < 32 then (errs @ [BadStateSecret], []) else (errs, b))"

definition base_url :: "config_env \<Rightarrow> cfg_err list \<times> string" where
  "base_url ce =
     (let u = trim_right_char (CHR ''/'') (cfg_getenv ce ''KAUTH_BASE_URL'') in
      (if u = [] then [Required ''KAUTH_BASE_URL''] else [], u))"

definition insecure_cookies :: "config_env \<Rightarrow> bool" where
  "insecure_cookies ce \<longleftrightarrow> cfg_getenv ce ''KAUTH_INSECURE_COOKIES'' = ''true''"

definition oidc_insecure :: "config_env \<Rightarrow> cfg_err list \<times> bool" where
  "oidc_insecure ce =
     (let b = (cfg_getenv ce ''KAUTH_OIDC_ALLOW_INSECURE'' = ''true'') in
      (if b \<and> \<not> insecure_cookies ce then [InsecureNeedsCookies] else [], b))"

definition smtp_mock :: "config_env \<Rightarrow> string \<Rightarrow> string \<Rightarrow> cfg_err list \<times> bool" where
  "smtp_mock ce iss base =
     (let b = (cfg_optional ce ''KAUTH_SMTP_MOCK'' ''false'' = ''true'') in
      (if b \<and> \<not> (is_http (ce_env ce) iss \<and> is_http (ce_env ce) base) then [MockNeedsHttp] else [], b))"

definition password_login :: "config_env \<Rightarrow> cfg_err list \<times> bool" where
  "password_login ce =
     (let v = cfg_getenv ce ''KAUTH_PASSWORD_LOGIN_ENABLED'' in
      if v = [] \<or> v = ''false'' then ([], False) else if v = ''true'' then ([], True) else ([BadPasswordFlag], False))"

definition cors_origins :: "config_env \<Rightarrow> (cors_err + string) list" where
  "cors_origins ce =
     (let v = cfg_getenv ce ''KAUTH_CORS_ORIGINS'' in
      if v = [] then []
      else map (\<lambda>t. normalize_cors_origin (ce_env ce) t (insecure_cookies ce))
             (filter (\<lambda>t. t \<noteq> []) (map trim_space (split_on (CHR '','') v))))"

definition cors_errs :: "(cors_err + string) list \<Rightarrow> cfg_err list" where
  "cors_errs xs = List.map_filter (\<lambda>x. case x of Inl c \<Rightarrow> Some (BadCORS c) | Inr _ \<Rightarrow> None) xs"

definition cors_values :: "(cors_err + string) list \<Rightarrow> string list" where
  "cors_values xs = List.map_filter (\<lambda>x. case x of Inl _ \<Rightarrow> None | Inr o' \<Rightarrow> Some o') xs"

definition provider_pair :: "config_env \<Rightarrow> string \<Rightarrow> string \<times> string" where
  "provider_pair ce p =
     (cfg_getenv ce (''KAUTH_'' @ p @ ''_CLIENT_ID''), cfg_getenv ce (''KAUTH_'' @ p @ ''_CLIENT_SECRET''))"

text \<open>Every problem, in the order they are found.\<close>

definition config_problems :: "config_env \<Rightarrow> cfg_err list" where
  "config_problems ce =
     fst (cfg_require ce ''KAUTH_DB_PATH'') @ fst (cfg_require ce ''KAUTH_ISSUER'') @ fst (base_url ce) @
     fst (read_key ce (parse_rsa_private_key ce) ''KAUTH_PRIVATE_KEY'') @
     fst (read_key ce (parse_rsa_public_key ce) ''KAUTH_PUBLIC_KEY'') @
     fst (load_key_ring ce (snd (read_key ce (parse_rsa_private_key ce) ''KAUTH_PRIVATE_KEY''))
       (snd (read_key ce (parse_rsa_public_key ce) ''KAUTH_PUBLIC_KEY''))) @
     fst (state_secret ce) @ fst (oidc_insecure ce) @
     fst (smtp_mock ce (cfg_getenv ce ''KAUTH_ISSUER'') (snd (base_url ce))) @
     fst (github_url ce ''KAUTH_GITHUB_BASE_URL'' ''https://github.com'' (snd (oidc_insecure ce))) @
     fst (github_url ce ''KAUTH_GITHUB_API_URL'' ''https://api.github.com'' (snd (oidc_insecure ce))) @
     fst (read_ttl ce ''KAUTH_ACCESS_TOKEN_TTL'' ''PT15M'') @ fst (read_ttl ce ''KAUTH_ADMIN_TOKEN_TTL'' ''PT8H'') @
     fst (password_login ce) @ fst (parse_http_addr ce (ce_lookup ce ''KAUTH_HTTP_ADDR'')) @
     cors_errs (cors_origins ce)"

definition config_values :: "config_env \<Rightarrow> config" where
  "config_values ce =
     (let priv = snd (read_key ce (parse_rsa_private_key ce) ''KAUTH_PRIVATE_KEY'');
          pub = snd (read_key ce (parse_rsa_public_key ce) ''KAUTH_PUBLIC_KEY'');
          insecure = snd (oidc_insecure ce); v = cfg_getenv ce; opt = cfg_optional ce in
      \<lparr>cf_db_path = v ''KAUTH_DB_PATH'', cf_issuer = v ''KAUTH_ISSUER'', cf_base_url = snd (base_url ce), cf_private = priv,
       cf_public = pub, cf_ring = snd (load_key_ring ce priv pub), cf_state_secret = snd (state_secret ce),
       cf_issuers = split_issuers (v ''KAUTH_OIDC_ISSUERS''), cf_insecure = insecure, cf_smtp_host = v ''KAUTH_SMTP_HOST'',
       cf_smtp_port = atoi (opt ''KAUTH_SMTP_PORT'' ''587''), cf_smtp_user = v ''KAUTH_SMTP_USER'',
       cf_smtp_password = v ''KAUTH_SMTP_PASSWORD'', cf_smtp_from = opt ''KAUTH_SMTP_FROM'' ''noreply@localhost'',
       cf_starttls = (opt ''KAUTH_SMTP_STARTTLS'' ''true'' = ''true''),
       cf_mock = snd (smtp_mock ce (v ''KAUTH_ISSUER'') (snd (base_url ce))), cf_brevo_key = v ''KAUTH_BREVO_API_KEY'',
       cf_google = provider_pair ce ''GOOGLE'', cf_microsoft = provider_pair ce ''MICROSOFT'',
       cf_github = provider_pair ce ''GITHUB'',
       cf_github_base = snd (github_url ce ''KAUTH_GITHUB_BASE_URL'' ''https://github.com'' insecure),
       cf_github_api = snd (github_url ce ''KAUTH_GITHUB_API_URL'' ''https://api.github.com'' insecure),
       cf_access_ttl = snd (read_ttl ce ''KAUTH_ACCESS_TOKEN_TTL'' ''PT15M''),
       cf_admin_ttl = snd (read_ttl ce ''KAUTH_ADMIN_TOKEN_TTL'' ''PT8H''), cf_password_login = snd (password_login ce),
       cf_http_addr = snd (parse_http_addr ce (ce_lookup ce ''KAUTH_HTTP_ADDR'')), cf_http_port = opt ''KAUTH_HTTP_PORT'' ''8080'',
       cf_cors = cors_values (cors_origins ce), cf_log_level = opt ''KAUTH_LOG_LEVEL'' ''info''\<rparr>)"

definition load_config :: "config_env \<Rightarrow> cfg_err list + config" where
  "load_config ce = (if config_problems ce = [] then Inr (config_values ce) else Inl (config_problems ce))"

text \<open>\<open>keyRing\<close> of \<open>cmd/kauth/main.go\<close>.\<close>

definition key_ring_of :: "config \<Rightarrow> key_ring" where
  "key_ring_of c =
     \<lparr>kr_kid = rc_kid (cf_ring c), kr_private = cf_private c, kr_public = cf_public c,
      kr_next = map_option (\<lambda>k. \<lparr>pe_kid = rc_next_kid (cf_ring c), pe_key = Some k\<rparr>) (rc_next (cf_ring c)),
      kr_previous = map_option (\<lambda>k. \<lparr>pe_kid = rc_previous_kid (cf_ring c), pe_key = Some k\<rparr>) (rc_previous (cf_ring c))\<rparr>"

section \<open>What a loaded configuration guarantees\<close>

lemma load_other_clean:
  assumes "load_other ce seen name = ([], seen', kid, Some k)"
  shows "valid_kid kid \<and> seen kid = None \<and> seen' = seen(kid \<mapsto> kid_var name) \<and> \<not> bit_len_less (pk_n k) min_rsa_bits"
  using assms
  by (auto simp: load_other_def kid_problems_def ring_key_def Let_def split: prod.splits option.splits if_splits)

lemma load_other_seen:
  assumes "load_other ce seen name = (errs, seen', kid, key)" "seen k = Some v"
  shows "seen' k \<noteq> None"
  using assms by (auto simp: load_other_def Let_def split: prod.splits if_splits)

text \<open>The start-up check of the ring finds nothing more, except that a key may be missing.\<close>

lemma ring_is_valid:
  assumes ring: "load_key_ring ce (Some sk) (Some pk) = ([], rc)"
    and c: "cf_ring c = rc" "cf_private c = Some sk" "cf_public c = Some pk"
  shows "validate_ring (key_ring_of c) = None"
proof -
  define kid where "kid = cfg_optional ce ''KAUTH_SIGNING_KID'' ''kauth-1''"
  obtain e1 seen k1 n where l1: "load_other ce [kid \<mapsto> ''KAUTH_SIGNING_KID''] ''NEXT'' = (e1, seen, k1, n)"
    by (metis prod_cases4)
  obtain e2 seen2 k2 p where l2: "load_other ce seen ''PREVIOUS'' = (e2, seen2, k2, p)" by (metis prod_cases4)
  have errs: "current_problems kid (Some sk) (Some pk) = []" "e1 = []" "e2 = []" "material_problems (Some pk) n p = []"
    and rc: "rc = \<lparr>rc_kid = kid, rc_next = n, rc_next_kid = k1, rc_previous = p, rc_previous_kid = k2\<rparr>"
    using ring by (auto simp: load_key_ring_def Let_def l1 l2 kid_def [symmetric])
  have cur: "valid_kid kid" "\<not> bit_len_less (pk_n pk) min_rsa_bits" "sk_n sk = pk_n pk" "sk_e sk = pk_e pk"
    using errs(1) by (auto simp: current_problems_def same_pair_def split: if_splits)
  have next_ok: "valid_kid k1 \<and> k1 \<noteq> kid \<and> seen k1 \<noteq> None \<and> \<not> bit_len_less (pk_n a) min_rsa_bits \<and> \<not> same_key a pk"
    if "n = Some a" for a
    using load_other_clean [of ce "[kid \<mapsto> ''KAUTH_SIGNING_KID'']" "''NEXT''" seen k1 a] l1 errs(2,4) that
    by (auto simp: material_problems_def same_key_opt_def split: if_splits)
  have "seen kid \<noteq> None" using load_other_seen [OF l1, of kid] by simp
  then have prev_ok: "valid_kid k2 \<and> k2 \<noteq> kid \<and> seen k2 = None \<and> \<not> bit_len_less (pk_n a) min_rsa_bits \<and> \<not> same_key a pk"
    if "p = Some a" for a
    using load_other_clean [of ce seen "''PREVIOUS''" seen2 k2 a] l2 errs(3,4) that
    by (auto simp: material_problems_def same_key_opt_def split: if_splits)
  have apart: "\<not> same_key a b" if "n = Some a" "p = Some b" for a b
    using errs(4) that by (auto simp: material_problems_def same_key_opt_def split: if_splits)
  show ?thesis
    using next_ok prev_ok apart cur
    by (cases n; cases p) (auto simp: validate_ring_def key_ring_of_def c rc check_pub_def same_key_opt_def same_key_def)
qed

definition config_safe :: "config_env \<Rightarrow> config \<Rightarrow> bool" where
  "config_safe ce c \<longleftrightarrow>
     cf_issuer c \<noteq> [] \<and> cf_base_url c \<noteq> [] \<and> 32 \<le> length (cf_state_secret c) \<and>
     (cf_mock c \<longrightarrow> is_http (ce_env ce) (cf_issuer c) \<and> is_http (ce_env ce) (cf_base_url c)) \<and>
     (cf_insecure c \<longrightarrow> insecure_cookies ce) \<and>
     (cf_insecure c \<or> cf_github_base c = ''https://github.com'' \<and> cf_github_api c = ''https://api.github.com'') \<and>
     (cf_private c = None \<or> cf_public c = None \<or>
      \<not> isl (new_issuer (key_ring_of c) (cf_issuer c) (cf_access_ttl c) (cf_admin_ttl c)))"

lemma github_url_clean: "github_url ce name def insecure = ([], u) \<Longrightarrow> insecure \<or> u = def"
  by (auto simp: github_url_def Let_def split: option.splits if_splits)

lemma state_secret_clean: "state_secret ce = ([], b) \<Longrightarrow> 32 \<le> length b"
  by (auto simp: state_secret_def cfg_require_def split: if_splits option.splits)

lemma fst_Nil: "fst x = [] \<longleftrightarrow> x = ([], snd x)"
  by (cases x) simp

lemma config_safe_values:
  assumes "config_problems ce = []"
  shows "config_safe ce (config_values ce)"
proof -
  let ?c = "config_values ce"
  note clean = assms [unfolded config_problems_def append_is_Nil_conv]
  have issuer: "cf_issuer ?c \<noteq> []" using clean by (auto simp: cfg_require_def config_values_def Let_def split: if_splits)
  have base: "cf_base_url ?c \<noteq> []" using clean by (auto simp: base_url_def config_values_def Let_def split: if_splits)
  have secret: "32 \<le> length (cf_state_secret ?c)"
    using clean state_secret_clean [of ce "snd (state_secret ce)"] by (simp add: fst_Nil config_values_def Let_def)
  have mock: "cf_mock ?c \<longrightarrow> is_http (ce_env ce) (cf_issuer ?c) \<and> is_http (ce_env ce) (cf_base_url ?c)"
    using clean by (auto simp: smtp_mock_def config_values_def Let_def split: if_splits)
  have insecure: "cf_insecure ?c \<longrightarrow> insecure_cookies ce"
    using clean by (auto simp: oidc_insecure_def config_values_def Let_def split: if_splits)
  have github: "cf_insecure ?c \<or> cf_github_base ?c = ''https://github.com'' \<and> cf_github_api ?c = ''https://api.github.com''"
    using clean github_url_clean [of ce "''KAUTH_GITHUB_BASE_URL''" "''https://github.com''"]
      github_url_clean [of ce "''KAUTH_GITHUB_API_URL''" "''https://api.github.com''"]
    by (simp add: fst_Nil config_values_def Let_def) metis
  have "\<not> isl (new_issuer (key_ring_of ?c) (cf_issuer ?c) (cf_access_ttl ?c) (cf_admin_ttl ?c))"
    if "cf_private ?c = Some sk" "cf_public ?c = Some pk" for sk pk
  proof -
    have "load_key_ring ce (Some sk) (Some pk) = ([], cf_ring ?c)"
      using clean that by (simp add: fst_Nil config_values_def Let_def)
    from ring_is_valid [OF this refl that] show ?thesis using issuer by (simp add: new_issuer_def)
  qed
  then show ?thesis
    unfolding config_safe_def using issuer base secret mock insecure github by (metis option.exhaust)
qed

text \<open>C25. A configuration that is accepted cannot open what must stay closed in production: the state secret has at least
  32 bytes, mail is mocked only on plain HTTP, insecure providers need insecure cookies, GitHub's addresses are its own
  unless insecure providers are allowed, and its key ring is one the token issuer accepts unless a key is missing.\<close>

theorem loaded_config_is_safe:
  "case load_config ce of Inl errs \<Rightarrow> errs \<noteq> [] | Inr c \<Rightarrow> config_safe ce c"
  by (simp add: load_config_def config_safe_values)

text \<open>An empty key file is no problem for the reader: the missing key is only noticed by the issuer.\<close>

lemma empty_key_file_unnoticed:
  assumes "cfg_getenv ce (var @ ''_PEM'') = []" "cfg_getenv ce (var @ ''_PATH'') = path" "path \<noteq> []"
    and "ce_read ce path = Inr []"
  shows "read_key ce parse var = ([], None)"
  using assms by (simp add: read_key_def key_text_def cfg_require_def)

section \<open>The two readers of durations\<close>

lemma dec_val_bound: "list_all is_digit ds \<Longrightarrow> dec_val ds < 10 ^ length ds"
proof (induction ds rule: rev_induct)
  case (snoc c ds)
  have "digit_val c < 10" using snoc.prems by (simp add: is_digit_def digit_val_def less_eq_char_def) linarith
  then show ?case using snoc by (simp add: dec_val_snoc)
qed (simp add: dec_val_def)

lemma clamp_digits_short:
  assumes "list_all is_digit ds" "length ds \<le> 18"
  shows "clamp_digits ds = int64_of_digits ds"
proof -
  have "dec_val ds < 10 ^ 18"
    using dec_val_bound [OF assms(1)] power_increasing [OF assms(2), of "10 :: nat"] by simp
  then show ?thesis by (simp add: clamp_digits_def digits_val [OF assms(1)])
qed

lemma steps_agree:
  assumes "length s \<le> 18"
  shows "iso_step True acc s = map_option (\<lambda>(a, r). (True, a, r)) (cfg_iso_step acc s)"
proof -
  have "clamp_digits (takeWhile is_digit s) = int64_of_digits (takeWhile is_digit s)"
    by (rule clamp_digits_short) (use assms length_takeWhile_le [of is_digit s] in \<open>auto simp: list_all_iff dest: set_takeWhileD\<close>)
  then show ?thesis
    by (cases "dropWhile is_digit s")
      (simp_all add: iso_step_def cfg_iso_step_def Let_def del: dropWhile_eq_Nil_conv dropWhile_eq_Cons_conv)
qed

lemma loops_agree: "length s \<le> 18 \<Longrightarrow> iso_loop True acc s = cfg_iso_loop acc s"
proof (induction s arbitrary: acc rule: length_induct)
  case (1 s)
  show ?case
    by (subst iso_loop.simps, subst cfg_iso_loop.simps)
      (use 1 cfg_iso_step_shorter [of acc s] in \<open>auto simp: steps_agree split: option.split\<close>)
qed

text \<open>The configuration and the services have their own readers of ISO 8601 durations; on every duration that starts
  with \<open>PT\<close> and has at most 18 characters after it, they agree, also on which texts are refused.\<close>

theorem duration_parsers_agree:
  assumes "cut_prefix (to_upper upper (trim_space s)) ''P'' = Some (CHR ''T'' # r)" "length r \<le> 18"
  shows "cfg_parse_iso8601 upper s = parse_iso8601 upper s"
proof -
  have "iso_loop False 0 (CHR ''T'' # r) = iso_loop True 0 r" by (subst iso_loop.simps) (simp add: iso_step_def)
  moreover have "cfg_iso_loop 0 (CHR ''T'' # r) = cfg_iso_loop 0 r" by (subst cfg_iso_loop.simps) (simp add: cfg_iso_step_def)
  ultimately show ?thesis using assms by (simp add: cfg_parse_iso8601_def parse_iso8601_def loops_agree)
qed

theorem duration_parsers_agree_witness:
  "cfg_parse_iso8601 id ''PT8H'' = parse_iso8601 id ''PT8H''"
proof -
  have "cut_prefix (to_upper id (trim_space ''PT8H'')) ''P'' = Some (CHR ''T'' # ''8H'')" by code_simp
  then show ?thesis by (rule duration_parsers_agree) simp
qed

text \<open>Without the \<open>T\<close> they do not: a month for a service is a minute in the configuration.\<close>

lemma duration_parsers_differ:
  "cfg_parse_iso8601 id ''P1M'' = Some minute" "parse_iso8601 id ''P1M'' = Some (30 * day)"
  "cfg_parse_iso8601 id ''P5H'' = Some (5 * hour)" "parse_iso8601 id ''P5H'' = Some 0"
proof -
  have cut: "cut_prefix (to_upper id (trim_space ''P1M'')) ''P'' = Some ''1M''"
    "cut_prefix (to_upper id (trim_space ''P5H'')) ''P'' = Some ''5H''" by code_simp+
  have dec: "dec_val ''1'' = 1" "dec_val ''5'' = 5" by code_simp+
  note loops = cfg_iso_loop.simps [of _ "_ # _"] iso_loop.simps [of _ _ "_ # _"] cfg_iso_loop.simps [of _ "[]"]
    iso_loop.simps [of _ _ "[]"]
  show "cfg_parse_iso8601 id ''P1M'' = Some minute" "parse_iso8601 id ''P1M'' = Some (30 * day)"
    "cfg_parse_iso8601 id ''P5H'' = Some (5 * hour)" "parse_iso8601 id ''P5H'' = Some 0"
    by (simp_all add: cfg_parse_iso8601_def parse_iso8601_def cut loops cfg_iso_step_def iso_step_def Let_def
        clamp_digits_def int64_of_digits_def dec duration_defs is_digit_def digit_val_def less_eq_char_def)
qed

end
