(* ===== verification/Mail.thy ===== *)
theory Mail
  imports Config I18n
begin

text \<open>
  Sending mail: \<open>internal/mail/mail.go\<close>.  The texts are a catalogue; the SMTP server is the outcome of each step of a
  session, Brevo the status of its answer.  What is sent is a value: the printed mock line, the payload of a request, or
  the commands of a session in order.
\<close>

fun replace_all :: "string \<Rightarrow> string \<Rightarrow> string \<Rightarrow> string" where
  "replace_all old new [] = []"
| "replace_all old new (c # s) =
     (if has_prefix (c # s) old then new @ replace_all old new (drop (length old - 1) s) else c # replace_all old new s)"

definition one_line :: "string \<Rightarrow> string" where
  "one_line s = map (\<lambda>c. if c = CHR 0x0D \<or> c = CHR 0x0A then CHR '' '' else c) s"

definition crlf :: string where "crlf = [CHR 0x0D, CHR 0x0A]"

definition build_message :: "string \<Rightarrow> string \<Rightarrow> string \<Rightarrow> string \<Rightarrow> string \<Rightarrow> string" where
  "build_message from_address from_name to subject body =
     ''From: '' @ from_name @ '' <'' @ from_address @ ''>'' @ crlf @ ''To: '' @ to @ crlf @ ''Subject: '' @ subject @ crlf @
     ''MIME-Version: 1.0'' @ crlf @ ''Content-Type: text/plain; charset=UTF-8'' @ crlf @ crlf @ body"

definition build_magic_body :: "catalog \<Rightarrow> string \<Rightarrow> string \<Rightarrow> string" where
  "build_magic_body cat loc lnk = replace_all ''{link}'' lnk (get_text cat loc ''MailBody'')"

definition build_link_invite_body :: "catalog \<Rightarrow> string \<Rightarrow> string \<Rightarrow> string \<Rightarrow> string" where
  "build_link_invite_body cat loc lnk provider_name =
     replace_all ''{link}'' lnk (replace_all ''{provider}'' provider_name (get_text cat loc ''LinkInviteBody''))"

section \<open>An SMTP session\<close>

datatype smtp_cmd = Dial string | Hello | StartTLS | Auth | MailFrom string | RcptTo string | Data | WriteText string | CloseText | Quit

datatype mail_err = SmtpFailed smtp_cmd | NoStartTLS | NoAuth | NoBrevoKey string | BrevoFailed | BrevoStatus nat

record smtp_server =
  sm_ok :: "smtp_cmd \<Rightarrow> bool"
  sm_starttls :: bool
  sm_auth :: bool

definition smtp_do ::
  "smtp_server \<Rightarrow> smtp_cmd \<Rightarrow> smtp_cmd list \<times> mail_err option \<Rightarrow> smtp_cmd list \<times> mail_err option" where
  "smtp_do sv c rest = (if sm_ok sv c then (c # fst rest, snd rest) else ([c], Some (SmtpFailed c)))"

definition smtp_text :: "smtp_server \<Rightarrow> string \<Rightarrow> smtp_cmd list \<times> mail_err option" where
  "smtp_text sv msg =
     (if sm_ok sv (WriteText msg) then (case smtp_do sv CloseText (smtp_do sv Quit ([], None)) of (cs, r) \<Rightarrow> (WriteText msg # cs, r))
      else ([WriteText msg, CloseText], Some (SmtpFailed (WriteText msg))))"

definition smtp_letter :: "smtp_server \<Rightarrow> string \<Rightarrow> string \<Rightarrow> string \<Rightarrow> smtp_cmd list \<times> mail_err option" where
  "smtp_letter sv from_address to msg =
     smtp_do sv (MailFrom from_address) (smtp_do sv (RcptTo to) (smtp_do sv Data (smtp_text sv msg)))"

text \<open>The caller always has credentials, so the server must offer \<open>AUTH\<close>.\<close>

definition smtp_signed_in :: "smtp_server \<Rightarrow> string \<Rightarrow> string \<Rightarrow> string \<Rightarrow> smtp_cmd list \<times> mail_err option" where
  "smtp_signed_in sv from_address to msg =
     (if sm_auth sv then smtp_do sv Auth (smtp_letter sv from_address to msg) else ([], Some NoAuth))"

definition send_smtp :: "smtp_server \<Rightarrow> string \<Rightarrow> string \<Rightarrow> string \<Rightarrow> string \<Rightarrow> bool \<Rightarrow> smtp_cmd list \<times> mail_err option" where
  "send_smtp sv addr from_address to msg require_tls =
     smtp_do sv (Dial addr) (smtp_do sv Hello
       (if sm_starttls sv then smtp_do sv StartTLS (smtp_signed_in sv from_address to msg)
        else if require_tls then ([], Some NoStartTLS)
        else smtp_signed_in sv from_address to msg))"

section \<open>Brevo\<close>

definition escape_html_char :: "char \<Rightarrow> string" where
  "escape_html_char c =
     (if c = CHR ''&'' then ''&amp;'' else if c = CHR 0x27 then ''&#39;'' else if c = CHR ''<'' then ''&lt;''
      else if c = CHR ''>'' then ''&gt;'' else if c = CHR 0x22 then ''&#34;'' else [c])"

definition escape_html :: "string \<Rightarrow> string" where
  "escape_html s = concat (map escape_html_char s)"

record brevo_payload =
  bp_sender :: "string \<times> string"
  bp_to :: string
  bp_subject :: string
  bp_html :: string
  bp_text :: string

definition brevo_payload_of :: "string \<Rightarrow> string \<Rightarrow> string \<Rightarrow> string \<Rightarrow> string \<Rightarrow> brevo_payload" where
  "brevo_payload_of from_address from_name to subject body =
     \<lparr>bp_sender = (from_name, from_address), bp_to = to, bp_subject = subject,
      bp_html = ''<div style='' @ [CHR 0x22] @ ''font-family:sans-serif;white-space:pre-wrap'' @ [CHR 0x22] @ ''>'' @
        escape_html body @ ''</div>'', bp_text = body\<rparr>"

definition send_brevo :: "(string \<Rightarrow> brevo_payload \<Rightarrow> nat option) \<Rightarrow> string \<Rightarrow> brevo_payload \<Rightarrow> mail_err option" where
  "send_brevo post key p =
     (case post key p of
        None \<Rightarrow> Some BrevoFailed
      | Some status \<Rightarrow> if 300 \<le> status then Some (BrevoStatus status) else None)"

section \<open>The three mails\<close>

record mailer =
  ml_cfg :: config
  ml_cat :: catalog
  ml_server :: smtp_server
  ml_brevo :: "string \<Rightarrow> brevo_payload \<Rightarrow> nat option"

datatype sent = MockLine "string list" | BrevoPost string brevo_payload | Session "smtp_cmd list"

definition smtp_addr :: "config \<Rightarrow> string" where
  "smtp_addr c = cf_smtp_host c @ CHR '':'' # format_int (cf_smtp_port c)"

definition deliver ::
  "mailer \<Rightarrow> string \<Rightarrow> string \<Rightarrow> string \<Rightarrow> string \<Rightarrow> string \<Rightarrow> sent list \<times> mail_err option" where
  "deliver m to from_name from_address subject body =
     (let c = ml_cfg m in
      if from_address \<noteq> [] then
        if cf_brevo_key c = [] then ([], Some (NoBrevoKey from_address))
        else (let p = brevo_payload_of from_address from_name to subject body in
          ([BrevoPost (cf_brevo_key c) p], send_brevo (ml_brevo m) (cf_brevo_key c) p))
      else
        (let (cs, err) = send_smtp (ml_server m) (smtp_addr c) (cf_smtp_from c) to
               (build_message (cf_smtp_from c) from_name to subject body) (cf_starttls c)
         in ([Session cs], err)))"

definition mail_magic_link :: "mailer \<Rightarrow> string \<Rightarrow> string \<Rightarrow> string \<Rightarrow> string \<Rightarrow> string \<Rightarrow> sent list \<times> mail_err option" where
  "mail_magic_link m to from_name lnk loc from_address =
     (if cf_mock (ml_cfg m) then ([MockLine [to, from_name, from_address, loc, lnk]], None)
      else deliver m to from_name from_address (get_text (ml_cat m) loc ''MailSubject'') (build_magic_body (ml_cat m) loc lnk))"

definition mail_link_invite ::
  "mailer \<Rightarrow> string \<Rightarrow> string \<Rightarrow> string \<Rightarrow> string \<Rightarrow> string \<Rightarrow> string \<Rightarrow> sent list \<times> mail_err option" where
  "mail_link_invite m to from_name lnk provider_name loc from_address =
     (if cf_mock (ml_cfg m) then ([MockLine [to, from_name, from_address, loc, ''link-invite'', lnk]], None)
      else (let name = one_line provider_name in
        deliver m to from_name from_address
          (replace_all ''{provider}'' name (get_text (ml_cat m) loc ''LinkInviteSubject''))
          (build_link_invite_body (ml_cat m) loc lnk name)))"

definition mail_link_confirmation ::
  "mailer \<Rightarrow> string \<Rightarrow> string \<Rightarrow> string \<Rightarrow> string \<Rightarrow> string \<Rightarrow> sent list \<times> mail_err option" where
  "mail_link_confirmation m to from_name provider_name loc from_address =
     (if cf_mock (ml_cfg m) then ([MockLine [to, from_name, from_address, loc, ''link-confirmation'', provider_name]], None)
      else deliver m to from_name from_address (get_text (ml_cat m) loc ''LinkMailSubject'')
        (replace_all ''{provider}'' (one_line provider_name) (get_text (ml_cat m) loc ''LinkMailBody'')))"

text \<open>The mails that the handlers ask for.\<close>

definition send_one :: "mailer \<Rightarrow> mail \<Rightarrow> sent list \<times> mail_err option" where
  "send_one m x =
     (case x of
        SendMagicLink to from_name lnk loc from_address \<Rightarrow> mail_magic_link m to from_name lnk loc from_address
      | SendLinkInvite to from_name lnk name loc from_address \<Rightarrow> mail_link_invite m to from_name lnk name loc from_address
      | SendLinkConfirmation to from_name name loc from_address \<Rightarrow>
          mail_link_confirmation m to from_name name loc from_address)"

section \<open>Properties\<close>

text \<open>Before the connection is encrypted only the greeting is sent; afterwards, or when TLS is not required, the rest.\<close>

definition greeting :: "smtp_cmd \<Rightarrow> bool" where
  "greeting c \<longleftrightarrow> (case c of Dial _ \<Rightarrow> True | Hello \<Rightarrow> True | _ \<Rightarrow> False)"

definition confidential :: "mailer \<Rightarrow> sent \<Rightarrow> bool" where
  "confidential m s \<longleftrightarrow>
     (case s of
        MockLine _ \<Rightarrow> cf_mock (ml_cfg m)
      | BrevoPost key _ \<Rightarrow> key = cf_brevo_key (ml_cfg m) \<and> key \<noteq> []
      | Session cs \<Rightarrow> cf_starttls (ml_cfg m) \<longrightarrow>
          list_all greeting (takeWhile (\<lambda>c. c \<noteq> StartTLS) cs) \<and>
          (StartTLS \<in> set cs \<and> \<not> sm_ok (ml_server m) StartTLS \<longrightarrow> last cs = StartTLS))"

lemma smtp_do_tls: "c \<noteq> StartTLS \<Longrightarrow> greeting c \<Longrightarrow>
    list_all greeting (takeWhile (\<lambda>c. c \<noteq> StartTLS) (fst rest)) \<Longrightarrow>
    list_all greeting (takeWhile (\<lambda>c. c \<noteq> StartTLS) (fst (smtp_do sv c rest)))"
  by (simp add: smtp_do_def)

lemma send_smtp_tls:
  "list_all greeting (takeWhile (\<lambda>c. c \<noteq> StartTLS) (fst (send_smtp sv addr from_address to msg True)))"
  unfolding send_smtp_def
  by (intro smtp_do_tls) (auto simp: greeting_def smtp_do_def)

lemma send_smtp_refused:
  "StartTLS \<in> set (fst (send_smtp sv addr from_address to msg True)) \<Longrightarrow> \<not> sm_ok sv StartTLS \<Longrightarrow>
     last (fst (send_smtp sv addr from_address to msg True)) = StartTLS"
  by (auto simp: send_smtp_def smtp_do_def split: if_splits)

text \<open>C27. Nothing of a mail, neither credentials nor addresses nor text, goes to the server before the connection is
  encrypted when the configuration asks for it, and nothing follows a refused encryption; a link is printed only when mail
  is mocked, and Brevo is only used with its key.\<close>

theorem mail_is_confidential:
  "list_all (confidential m) (fst (send_one m x))"
proof -
  have session: "confidential m (Session (fst (send_smtp (ml_server m) addr f to msg (cf_starttls (ml_cfg m)))))" for addr f to msg
    by (cases "cf_starttls (ml_cfg m)") (simp_all add: confidential_def send_smtp_tls send_smtp_refused)
  have "list_all (confidential m) (fst (deliver m to from_name from_address subject body))"
    for to from_name from_address subject body
    using session by (simp add: deliver_def Let_def case_prod_unfold confidential_def [of m "BrevoPost _ _"])
  then show ?thesis
    by (simp add: send_one_def mail_magic_link_def mail_link_invite_def mail_link_confirmation_def Let_def confidential_def
        split: mail.split)
qed

text \<open>The name of a provider cannot add a header, but the sender's name can.\<close>

lemma one_line_clean: "CHR 0x0D \<notin> set (one_line s) \<and> CHR 0x0A \<notin> set (one_line s)"
  by (auto simp: one_line_def)

lemma set_replace_all: "set (replace_all old new s) \<subseteq> set new \<union> set s"
proof (induction old new s rule: replace_all.induct)
  case (2 old new c s)
  have "set (drop (length old - 1) s) \<subseteq> set s" by (rule set_drop_subset)
  with 2 show ?case by (cases "has_prefix (c # s) old") auto
qed simp

lemma invitation_subject_is_one_line:
  "c \<in> {CHR 0x0D, CHR 0x0A} \<Longrightarrow> c \<notin> set (get_text cat loc ''LinkInviteSubject'') \<Longrightarrow>
     c \<notin> set (replace_all ''{provider}'' (one_line name) (get_text cat loc ''LinkInviteSubject''))"
  using set_replace_all [of "''{provider}''" "one_line name" "get_text cat loc ''LinkInviteSubject''"] one_line_clean [of name]
  by blast

lemma sender_name_adds_a_header:
  "has_prefix (build_message ''k@x.no'' (''A'' @ crlf @ ''Bcc: b@x.no'' @ crlf @ ''X: '') to subject body)
     (''From: A'' @ crlf @ ''Bcc: b@x.no'' @ crlf)"
  by (simp add: build_message_def has_prefix_def crlf_def)

end
