(* ===== verification/App.thy ===== *)
theory App
  imports GenericOidc Google Microsoft GitHub LoginPage AuditPage AdminProviders Cleanup Mail
begin

text \<open>
  The program: \<open>cmd/kauth/main.go\<close> and \<open>internal/auth/globalchain.go\<close>.  Which handler answers which route, behind which
  middleware, under which method, with what of the configuration.  Matching the path of a request to a route is the
  router's (chi), a parameter; the constructors of \<open>route\<close> are the registrations of \<open>main.go\<close>, with the URL parameters.
  Each is registered for one method (\<open>r.Get\<close>, \<open>r.Post\<close>); a request with any other is answered with 405 before
  the handler and the middleware registered with it.  The caches are those of the moment of the request; the two handlers that
  reload one return it, and here only their reply is used.
\<close>

section \<open>Routes\<close>

datatype panel_route =
    PanelRoot
  | UsersList | UsersNew | UsersCreate | UserEdit string | UserUpdate string | UserDeactivate string | UserEmail string
  | UserUnlink string string | UserInvite string | UserInviteRevoke string string | UsersExport
  | AuditList | AuditExport
  | ServicesList | ServicesNew | ServicesCreate | ServiceEdit string | ServiceUpdate string | ServiceProviders string
  | ProvidersList

datatype admin_route =
    AdminUnknown nat
  | AdminLoginGet | AdminLoginPost | AdminVerifyGet | AdminVerifyPost | AdminLogout | AdminGoogleInit | AdminGoogleCallback
  | Panel panel_route

datatype route =
    Unknown nat | StaticFile | LoginHtml | LoginGet | DoLogin
  | GoogleLogin | GoogleCallback | MicrosoftLogin | MicrosoftCallback | GitHubLogin | GitHubCallback
  | IdpLogin string | IdpCallback string
  | MagicForm | MagicRequest | MagicConfirm string | MagicRedeem string
  | LinkConfirm string | LinkStart string
  | TokenPost | DispatchGet | LogoutGet | MeGet | JwksGet | DiscoveryGet
  | Admin admin_route

record app =
  ap_config :: config
  ap_issuer :: issuer
  ap_cache :: "service_row list"
  ap_idps :: idp_registry
  ap_texts :: catalog
  ap_taglines :: "string \<rightharpoonup> (string \<rightharpoonup> string)"
  ap_google :: google_client
  ap_microsoft :: ms_client
  ap_github :: gh_server
  ap_op :: op_client
  ap_getenv :: "string \<Rightarrow> string"
  ap_db_text :: "db_err \<Rightarrow> string"
  ap_audit_text :: "string \<Rightarrow> db_err \<Rightarrow> string"
  ap_services_form :: services_handler
  ap_providers_form :: providers_handler
  ap_split_host :: "string \<Rightarrow> string option"
  ap_parse_ip :: "string \<Rightarrow> (string \<times> bool) option"
  ap_remote :: "request \<Rightarrow> string"
  ap_route :: "request \<Rightarrow> route"
  ap_static :: "request \<Rightarrow> reply"

section \<open>The handlers as they are put together\<close>

definition login_h :: "app \<Rightarrow> login_handler" where
  "login_h a = \<lparr>lh_cache = ap_cache a, lh_password = cf_password_login (ap_config a), lh_idps = Some (ap_idps a),
     lh_taglines = ap_taglines a\<rparr>"

definition google_h :: "app \<Rightarrow> google_handlers" where
  "google_h a = \<lparr>gg_cache = ap_cache a, gg_client = fst (cf_google (ap_config a)), gg_client_secret = snd (cf_google (ap_config a)),
     gg_secret = cf_state_secret (ap_config a), gg_getenv = ap_getenv a, gg_admin_ttl = Some (cf_admin_ttl (ap_config a))\<rparr>"

definition microsoft_h :: "app \<Rightarrow> ms_handlers" where
  "microsoft_h a = \<lparr>ms_cache = ap_cache a, ms_client_id = fst (cf_microsoft (ap_config a)),
     ms_client_secret = snd (cf_microsoft (ap_config a)), ms_state_secret = cf_state_secret (ap_config a), ms_getenv = ap_getenv a\<rparr>"

definition github_h :: "app \<Rightarrow> gh_handlers" where
  "github_h a = \<lparr>gt_cache = ap_cache a, gt_client = fst (cf_github (ap_config a)), gt_client_secret = snd (cf_github (ap_config a)),
     gt_secret = cf_state_secret (ap_config a), gt_base_url = cf_github_base (ap_config a), gt_getenv = ap_getenv a\<rparr>"

definition link_h :: "app \<Rightarrow> link_handlers" where
  "link_h a = \<lparr>il_cache = ap_cache a, il_idps = ap_idps a, il_texts = ap_texts a, il_secret = cf_state_secret (ap_config a)\<rparr>"

definition generic_h :: "app \<Rightarrow> generic_handlers" where
  "generic_h a = \<lparr>go_cache = ap_cache a, go_idps = ap_idps a, go_secret = cf_state_secret (ap_config a), go_links = Some (link_h a)\<rparr>"

definition dispatch_h :: dispatcher where
  "dispatch_h = \<lparr>dh_default = [], dh_audit = True, dh_refresh = True\<rparr>"

definition users_h :: "app \<Rightarrow> users_handler" where
  "users_h a = \<lparr>au_invites = Some \<lparr>id_idps = ap_idps a, id_base_url = cf_base_url (ap_config a)\<rparr>, au_err = ap_db_text a\<rparr>"

definition services_h :: "app \<Rightarrow> services_handler" where
  "services_h a = (ap_services_form a)\<lparr>sh_err := ap_db_text a, sh_providers := Some (ap_idps a)\<rparr>"

definition audit_h :: "app \<Rightarrow> audit_handler" where
  "audit_h a = \<lparr>ah_err = ap_audit_text a\<rparr>"

section \<open>Answers\<close>

definition jwk_fields :: "jwk_entry \<Rightarrow> (string \<times> string) list" where
  "jwk_fields k = [(''kid'', jw_kid k), (''n'', jw_n k), (''e'', jw_e k)]"

definition jwks_handler :: "issuer \<Rightarrow> reply io" where
  "jwks_handler i = do {
     set_header ''Content-Type'' ''application/json'';
     set_header ''Cache-Control'' ''public, max-age=3600'';
     return_io (Page 200 ''jwks.json'' (concat (map jwk_fields (jwks (is_ring i)))))
   }"

definition discovery_handler :: "issuer \<Rightarrow> reply io" where
  "discovery_handler i = do {
     set_header ''Content-Type'' ''application/json'';
     return_io (Page 200 ''openid-configuration'' (concat (map (\<lambda>(k, vs). map (Pair k) vs) (discovery i))))
   }"

definition reply_only :: "(reply \<times> 's) io \<Rightarrow> reply io" where
  "reply_only m = do { x \<leftarrow> m; return_io (fst x) }"

definition panel :: "env \<Rightarrow> app \<Rightarrow> panel_route \<Rightarrow> string \<Rightarrow> handler" where
  "panel e a p actor r =
     (case p of
        PanelRoot \<Rightarrow> return_io (Redirect 302 ''/admin/users'')
      | UsersList \<Rightarrow> list_users_page e (users_h a) r
      | UsersNew \<Rightarrow> new_user_page
      | UsersCreate \<Rightarrow> handle_create e actor r
      | UserEdit uid \<Rightarrow> handle_edit e (users_h a) uid r
      | UserUpdate uid \<Rightarrow> handle_update e (users_h a) actor uid r
      | UserDeactivate uid \<Rightarrow> handle_deactivate e actor uid r
      | UserEmail uid \<Rightarrow> handle_email_change e (users_h a) actor uid r
      | UserUnlink uid iid \<Rightarrow> handle_unlink e actor uid iid r
      | UserInvite uid \<Rightarrow> handle_invite_create e (users_h a) actor uid r
      | UserInviteRevoke uid vid \<Rightarrow> handle_invite_revoke e actor uid vid r
      | UsersExport \<Rightarrow> handle_export e (users_h a)
      | AuditList \<Rightarrow> list_audit e (audit_h a) r
      | AuditExport \<Rightarrow> export_audit e (audit_h a) r
      | ServicesList \<Rightarrow> list_services_page e (services_h a) r
      | ServicesNew \<Rightarrow> new_service_page e
      | ServicesCreate \<Rightarrow> reply_only (create_service_page e (services_h a) actor (ap_cache a) r)
      | ServiceEdit sid \<Rightarrow> edit_service_page e (services_h a) sid r
      | ServiceUpdate sid \<Rightarrow> reply_only (update_service_page e (services_h a) actor (ap_cache a) sid r)
      | ServiceProviders sid \<Rightarrow> reply_only (update_providers e (ap_providers_form a) actor (ap_idps a) sid r)
      | ProvidersList \<Rightarrow> list_providers_page e (ap_idps a))"

definition panel_method :: "panel_route \<Rightarrow> string" where
  "panel_method p =
     (case p of
        PanelRoot \<Rightarrow> ''GET''
      | UsersList \<Rightarrow> ''GET'' | UsersNew \<Rightarrow> ''GET'' | UsersCreate \<Rightarrow> ''POST'' | UserEdit uid \<Rightarrow> ''GET'' | UserUpdate uid \<Rightarrow> ''POST''
      | UserDeactivate uid \<Rightarrow> ''POST'' | UserEmail uid \<Rightarrow> ''POST'' | UserUnlink uid iid \<Rightarrow> ''POST'' | UserInvite uid \<Rightarrow> ''POST''
      | UserInviteRevoke uid vid \<Rightarrow> ''POST'' | UsersExport \<Rightarrow> ''GET''
      | AuditList \<Rightarrow> ''GET'' | AuditExport \<Rightarrow> ''GET''
      | ServicesList \<Rightarrow> ''GET'' | ServicesNew \<Rightarrow> ''GET'' | ServicesCreate \<Rightarrow> ''POST'' | ServiceEdit sid \<Rightarrow> ''GET''
      | ServiceUpdate sid \<Rightarrow> ''POST'' | ServiceProviders sid \<Rightarrow> ''POST''
      | ProvidersList \<Rightarrow> ''GET'')"

text \<open>A registration: the handler runs for its own method, and the router answers the others.\<close>

definition registered :: "string \<Rightarrow> handler \<Rightarrow> handler" where
  "registered m h r = (if rq_method r = m then h r else return_io (Plain 405 []))"

text \<open>The router answers what it has no handler for, inside the middleware of its subtree.\<close>

definition admin :: "env \<Rightarrow> app \<Rightarrow> admin_route \<Rightarrow> handler" where
  "admin e a rt =
     (case rt of
        AdminUnknown status \<Rightarrow> (\<lambda>_. return_io (Plain status []))
      | AdminLoginGet \<Rightarrow> registered ''GET'' admin_login_page
      | AdminLoginPost \<Rightarrow> registered ''POST'' (admin_login_post e (cf_base_url (ap_config a)))
      | AdminVerifyGet \<Rightarrow> registered ''GET'' (admin_verify_page e)
      | AdminVerifyPost \<Rightarrow> registered ''POST'' (admin_verify_post e (ap_issuer a) (cf_admin_ttl (ap_config a)))
      | AdminLogout \<Rightarrow> registered ''GET'' (admin_logout e (ap_issuer a))
      | AdminGoogleInit \<Rightarrow> registered ''GET'' (google_admin_login e (google_h a) (ap_google a))
      | AdminGoogleCallback \<Rightarrow> registered ''GET'' (\<lambda>_. return_io admin_google_callback)
      | Panel p \<Rightarrow> registered (panel_method p) (admin_middleware e (ap_issuer a) (panel e a p)))"

definition routed :: "env \<Rightarrow> app \<Rightarrow> route \<Rightarrow> handler" where
  "routed e a rt =
     (let i = ap_issuer a; c = ap_config a; cache = ap_cache a in
      case rt of
        Unknown status \<Rightarrow> (\<lambda>_. return_io (Plain status []))
      | StaticFile \<Rightarrow> (\<lambda>r. return_io (ap_static a r))
      | LoginHtml \<Rightarrow> registered ''GET'' (\<lambda>_. return_io (Redirect 301 ''/login''))
      | LoginGet \<Rightarrow> registered ''GET'' (serve_login e (login_h a))
      | DoLogin \<Rightarrow> registered ''POST'' (do_login e i cache (cf_password_login c))
      | GoogleLogin \<Rightarrow> registered ''GET'' (google_login e (google_h a) (ap_google a))
      | GoogleCallback \<Rightarrow> registered ''GET'' (google_callback e i (google_h a) (ap_google a))
      | MicrosoftLogin \<Rightarrow> registered ''GET'' (ms_login e (microsoft_h a) (ap_microsoft a))
      | MicrosoftCallback \<Rightarrow> registered ''GET'' (ms_callback e i (microsoft_h a) (ap_microsoft a))
      | GitHubLogin \<Rightarrow> registered ''GET'' (gh_login e (github_h a))
      | GitHubCallback \<Rightarrow> registered ''GET'' (gh_callback e i (github_h a) (ap_github a))
      | IdpLogin slug \<Rightarrow> registered ''GET'' (generic_login e (generic_h a) (ap_op a) slug)
      | IdpCallback slug \<Rightarrow> registered ''GET'' (generic_callback e i (generic_h a) (ap_op a) slug)
      | MagicForm \<Rightarrow> registered ''GET'' (show_magic_form e cache)
      | MagicRequest \<Rightarrow> registered ''POST'' (request_link e cache (cf_base_url c))
      | MagicConfirm tok \<Rightarrow> registered ''GET'' (show_confirm e cache tok)
      | MagicRedeem tok \<Rightarrow> registered ''POST'' (redeem_magic e i cache (ap_texts a) tok)
      | LinkConfirm tok \<Rightarrow> registered ''GET'' (show_link_confirm e (link_h a) tok)
      | LinkStart tok \<Rightarrow> registered ''POST'' (fetch_middleware e (start_link e (link_h a) (ap_op a) tok))
      | TokenPost \<Rightarrow> registered ''POST'' (cors_middleware (cf_cors c) (token_endpoint e i cache (cf_cors c)))
      | DispatchGet \<Rightarrow> registered ''GET'' (serve_dispatch e dispatch_h i cache)
      | LogoutGet \<Rightarrow> registered ''GET'' (serve_logout e dispatch_h cache)
      | MeGet \<Rightarrow> registered ''GET'' (serve_me e i ''auth_token'')
      | JwksGet \<Rightarrow> cors_middleware (cf_cors c) (registered ''GET'' (\<lambda>_. jwks_handler i))
      | DiscoveryGet \<Rightarrow> cors_middleware (cf_cors c) (registered ''GET'' (\<lambda>_. discovery_handler i))
      | Admin art \<Rightarrow> fetch_middleware e (admin e a art))"

text \<open>\<open>UseGlobal\<close>, without the request's log line: the security headers first, then the address of the client.\<close>

definition client_ip_middleware :: "app \<Rightarrow> handler \<Rightarrow> handler" where
  "client_ip_middleware a next_h r =
     next_h (r\<lparr>rq_client_ip := client_ip (ap_split_host a) (ap_parse_ip a) (ap_remote a r) r\<rparr>)"

definition serve :: "env \<Rightarrow> app \<Rightarrow> handler" where
  "serve e a r = security_headers (client_ip_middleware a (routed e a (ap_route a r))) r"

text \<open>Requests one after the other, each with the caches it finds, and the clean-up between them.\<close>

datatype task = Request app request | CleanUp job

fun run_tasks :: "env \<Rightarrow> task list \<Rightarrow> unit io" where
  "run_tasks e [] = return_io ()"
| "run_tasks e (Request a r # ts) = do { _ \<leftarrow> serve e a r; run_tasks e ts }"
| "run_tasks e (CleanUp j # ts) = do { _ \<leftarrow> run_job e j; run_tasks e ts }"

section \<open>Everything is a statement\<close>

lemma evolves_link_pages [evolve_intros]:
  "evolves db_step (show_link_confirm e h tok r)" "evolves db_step (start_link e h op tok r)"
  unfolding show_link_confirm_def start_link_def lookup_link_def link_rejected_def render_invalid_def render_result_def
    send_to_provider_def generate_nonce_def state_cookie_def audit_rejected_def Let_def
  by (intro evolve_intros)+

lemma evolves_generic [evolve_intros]:
  "evolves db_step (generic_login e h op slug r)" "evolves db_step (generic_callback e i h op slug r)"
  unfolding generic_login_def generic_callback_def generic_answer_def generic_verified_def finish_generic_def generic_start_def
    reject_def audit_rejected_def read_state_def generate_nonce_def state_cookie_def redirect_cookie_def clear_cookie_def Let_def
  by (intro evolve_intros)+

lemma evolves_middleware [evolve_intros]:
  assumes "evolves db_step (h r)"
  shows "evolves db_step (fetch_middleware e h r)" "evolves db_step (cors_middleware origins h r)"
    "evolves db_step (security_headers h r)"
  using assms unfolding fetch_middleware_def cors_middleware_def security_headers_def Let_def
  by (intro evolve_intros | assumption)+

lemma evolves_registered [evolve_intros]: "evolves db_step (h r) \<Longrightarrow> evolves db_step (registered m h r)"
  unfolding registered_def by (intro evolve_intros | assumption)+

lemma evolves_answers [evolve_intros]:
  "evolves db_step (jwks_handler i)" "evolves db_step (discovery_handler i)" "evolves db_step (new_user_page)"
  unfolding jwks_handler_def discovery_handler_def new_user_page_def by (intro evolve_intros)+

lemma evolves_me [evolve_intros]: "evolves db_step (serve_me e i name r)"
  unfolding serve_me_def Let_def by (intro evolve_intros)+

lemma evolves_reply_only [evolve_intros]: "evolves db_step m \<Longrightarrow> evolves db_step (reply_only m)"
  unfolding reply_only_def by (intro evolve_intros | assumption)+

lemma evolves_panel [evolve_intros]: "evolves db_step (panel e a p actor r)"
  unfolding panel_def by (cases p) (simp_all only: panel_route.case, (intro evolve_intros)+)

lemma evolves_admin [evolve_intros]: "evolves db_step (admin e a rt r)"
  unfolding admin_def by (cases rt) (simp_all only: admin_route.case, (intro evolve_intros)+)

lemma evolves_routed [evolve_intros]: "evolves db_step (routed e a rt r)"
  unfolding routed_def Let_def by (cases rt) (simp_all only: route.case, (intro evolve_intros)+)

lemma evolves_serve [evolve_intros]: "evolves db_step (serve e a r)"
  unfolding serve_def client_ip_middleware_def by (intro evolve_intros)+

text \<open>A preflight request to \<open>/token\<close> does not reach the CORS middleware, which is registered with the POST.\<close>

lemma token_preflight: "rq_method r = ''OPTIONS'' \<Longrightarrow> routed e a TokenPost r = return_io (Plain 405 [])"
  by (simp add: routed_def registered_def Let_def)

section \<open>The pages of the panel\<close>

definition trace :: "world \<Rightarrow> db \<times> cookie list \<times> mail list" where
  "trace w = (w_db w, w_cookies w, w_mails w)"

lemma keeps_trace_ticks [keeps_intros]:
  "keeps trace (time_now e)" "keeps trace (db_read e ctx f)" "keeps trace (set_header k v)"
  by (simp_all add: keeps_def trace_def io_simps split: option.split)

lemma keeps_trace_headers [keeps_intros]: "keeps trace (set_headers hs)"
  by (induction hs rule: set_headers.induct) (simp_all add: keeps_intros)

lemma keeps_trace_page [keeps_intros]: "keeps trace (html_page status name fs)"
  unfolding html_page_def by (intro keeps_intros)+

lemma keeps_trace_user_pages [keeps_intros]:
  "keeps trace (list_users_page e uh r)" "keeps trace new_user_page" "keeps trace (handle_edit e uh uid r)"
  "keeps trace (handle_export e uh)"
  unfolding list_users_page_def filtered_users_def all_users_page_def users_page_def new_user_page_def handle_edit_def with_user_def edit_form_def
    edit_data_def invite_data_def handle_export_def Let_def
  by (intro keeps_intros)+

lemma keeps_trace_audit_pages [keeps_intros]: "keeps trace (list_audit e ah r)" "keeps trace (export_audit e ah r)"
  unfolding list_audit_def load_audit_choices_def export_audit_def Let_def by (intro keeps_intros)+

lemma keeps_trace_service_pages [keeps_intros]:
  "keeps trace (list_services_page e sh r)" "keeps trace (new_service_page e)" "keeps trace (edit_service_page e sh sid r)"
  "keeps trace (list_providers_page e ir)"
  unfolding list_services_page_def new_service_page_def edit_service_page_def edit_page_of_def service_rows_def
    find_service_by_id_def list_providers_page_def Let_def
  by (intro keeps_intros)+

text \<open>What the panel registers for GET only shows something.\<close>

lemma panel_pages_only_show: "panel_method p \<noteq> ''POST'' \<Longrightarrow> keeps trace (panel e a p actor r)"
  by (cases p) (simp_all add: panel_method_def panel_def keeps_intros)

end
