(* ===== verification/HttpGuard.thy ===== *)
theory HttpGuard
  imports Discovery "HOL-Library.Word"
begin

text \<open>
  The HTTP client for all traffic towards identity providers: \<open>internal/idp/httpclient.go\<close>.  The dialer refuses
  addresses inside the own network after the name was resolved, the transport refuses other schemes than https,
  and bodies over 1 MiB fail loudly instead of being cut.
\<close>

section \<open>Addresses\<close>

text \<open>\<open>netip.Addr\<close>: the zero value, an IPv4 address, or an IPv6 address with its zone.\<close>

datatype ip_addr = NoAddr | V4 "32 word" | V6 "128 word" string

definition v4 :: "nat \<Rightarrow> nat \<Rightarrow> nat \<Rightarrow> nat \<Rightarrow> 32 word" where
  "v4 a b c d = of_nat (((a * 256 + b) * 256 + c) * 256 + d)"

definition v6_top :: "nat \<Rightarrow> nat \<Rightarrow> nat \<Rightarrow> 128 word" where
  "v6_top a b c = push_bit 112 (of_nat a) + push_bit 96 (of_nat b) + push_bit 80 (of_nat c)"

text \<open>\<open>netip.Prefix\<close> and its \<open>Contains\<close>, which never matches an address with a zone or of the other family.\<close>

datatype ip_prefix = P4 "32 word" nat | P6 "128 word" nat

fun contains_addr :: "ip_prefix \<Rightarrow> ip_addr \<Rightarrow> bool" where
  "contains_addr (P4 p n) (V4 w) \<longleftrightarrow> drop_bit (32 - n) w = drop_bit (32 - n) p"
| "contains_addr (P6 p n) (V6 w z) \<longleftrightarrow> z = [] \<and> drop_bit (128 - n) w = drop_bit (128 - n) p"
| "contains_addr _ _ \<longleftrightarrow> False"

fun unmap :: "ip_addr \<Rightarrow> ip_addr" where
  "unmap (V6 w z) = (if drop_bit 32 w = 0xFFFF then V4 (ucast w) else V6 w z)"
| "unmap a = a"

fun without_zone :: "ip_addr \<Rightarrow> ip_addr" where
  "without_zone (V6 w z) = V6 w []"
| "without_zone a = a"

fun is_loopback :: "ip_addr \<Rightarrow> bool" where
  "is_loopback (V4 w) \<longleftrightarrow> contains_addr (P4 (v4 127 0 0 0) 8) (V4 w)"
| "is_loopback (V6 w z) \<longleftrightarrow> w = 1"
| "is_loopback NoAddr \<longleftrightarrow> False"

fun is_private :: "ip_addr \<Rightarrow> bool" where
  "is_private (V4 w) \<longleftrightarrow> contains_addr (P4 (v4 10 0 0 0) 8) (V4 w) \<or> contains_addr (P4 (v4 172 16 0 0) 12) (V4 w) \<or>
     contains_addr (P4 (v4 192 168 0 0) 16) (V4 w)"
| "is_private (V6 w z) \<longleftrightarrow> contains_addr (P6 (v6_top 0xFC00 0 0) 7) (V6 w [])"
| "is_private NoAddr \<longleftrightarrow> False"

fun is_link_local_unicast :: "ip_addr \<Rightarrow> bool" where
  "is_link_local_unicast (V4 w) \<longleftrightarrow> contains_addr (P4 (v4 169 254 0 0) 16) (V4 w)"
| "is_link_local_unicast (V6 w z) \<longleftrightarrow> contains_addr (P6 (v6_top 0xFE80 0 0) 10) (V6 w [])"
| "is_link_local_unicast NoAddr \<longleftrightarrow> False"

fun is_multicast :: "ip_addr \<Rightarrow> bool" where
  "is_multicast (V4 w) \<longleftrightarrow> contains_addr (P4 (v4 224 0 0 0) 4) (V4 w)"
| "is_multicast (V6 w z) \<longleftrightarrow> contains_addr (P6 (v6_top 0xFF00 0 0) 8) (V6 w [])"
| "is_multicast NoAddr \<longleftrightarrow> False"

text \<open>A link-local multicast address: \<open>224.0.0.x\<close>, or \<open>ff02\<close> up to the flags of its second byte.\<close>

fun is_link_local_multicast :: "ip_addr \<Rightarrow> bool" where
  "is_link_local_multicast (V4 w) \<longleftrightarrow> contains_addr (P4 (v4 224 0 0 0) 24) (V4 w)"
| "is_link_local_multicast (V6 w z) \<longleftrightarrow> drop_bit 120 w = 0xFF \<and> take_bit 4 (drop_bit 112 w) = 2"
| "is_link_local_multicast NoAddr \<longleftrightarrow> False"

fun is_unspecified :: "ip_addr \<Rightarrow> bool" where
  "is_unspecified (V4 w) \<longleftrightarrow> w = 0"
| "is_unspecified (V6 w z) \<longleftrightarrow> w = 0 \<and> z = []"
| "is_unspecified NoAddr \<longleftrightarrow> False"

definition blocked_prefixes :: "ip_prefix list" where
  "blocked_prefixes =
     [P4 (v4 0 0 0 0) 8, P4 (v4 100 64 0 0) 10, P4 (v4 192 0 0 0) 24, P4 (v4 198 18 0 0) 15,
      P6 (v6_top 0xFC00 0 0) 7, P6 (v6_top 0x64 0xFF9B 0) 96, P6 (v6_top 0x64 0xFF9B 1) 48, P6 (v6_top 0x2002 0 0) 16,
      P6 (v6_top 0x2001 0 0) 32, P6 0 96, P6 (v6_top 0xFEC0 0 0) 10, P6 (v6_top 0x2001 0xDB8 0) 32,
      P4 (v4 240 0 0 0) 4, P4 (v4 255 255 255 255) 32]"

definition blocked_addr :: "ip_addr \<Rightarrow> bool \<Rightarrow> bool" where
  "blocked_addr addr allow_loopback =
     (let ip = without_zone (unmap addr) in
      if is_loopback ip then \<not> allow_loopback
      else if is_private ip \<or> is_link_local_unicast ip \<or> is_link_local_multicast ip \<or> is_multicast ip \<or>
              is_unspecified ip \<or> ip = NoAddr then True
      else list_ex (\<lambda>p. contains_addr p ip) blocked_prefixes)"

text \<open>
  \<open>split_host\<close> is the host of \<open>net.SplitHostPort\<close>, \<open>parse_addr\<close> is \<open>netip.ParseAddr\<close>.
\<close>

definition check_dial :: "(string \<Rightarrow> string option) \<Rightarrow> (string \<Rightarrow> ip_addr option) \<Rightarrow> bool \<Rightarrow> string \<Rightarrow> string option" where
  "check_dial split_host parse_addr allow_loopback address =
     (case split_host address of
        None \<Rightarrow> Some ''idp: ugyldig adresse''
      | Some host \<Rightarrow>
          (case parse_addr host of
             None \<Rightarrow> Some ''idp: dial uten IP-adresse avvist''
           | Some ip \<Rightarrow>
               if blocked_addr ip allow_loopback then Some ''idp: adressen er ikke tillatt'' else None))"

definition scheme_ok :: "env \<Rightarrow> (string \<Rightarrow> ip_addr option) \<Rightarrow> bool \<Rightarrow> url \<Rightarrow> bool" where
  "scheme_ok e parse_addr insecure u =
     (if ul_scheme u = ''https'' then True
      else if ul_scheme u \<noteq> ''http'' \<or> \<not> insecure then False
      else (let h = lower e (ul_hostname u) in
            h = ''localhost'' \<or> (case parse_addr h of None \<Rightarrow> False | Some ip \<Rightarrow> is_loopback (unmap ip))))"

section \<open>Bounded bodies\<close>

definition max_body_bytes :: int where "max_body_bytes = 2 ^ 20"

datatype read_err = NoErr | Eof | TooLarge | IoErr

record limited_body =
  lb_rest :: string
  lb_left :: int

text \<open>
  A reader answers a request for some bytes of what is left with a number of bytes and an error; it reports the
  end only at the end.
\<close>

type_synonym reader = "nat \<Rightarrow> string \<Rightarrow> nat \<times> read_err"

definition reader_ok :: "reader \<Rightarrow> bool" where
  "reader_ok rd \<longleftrightarrow> (\<forall>k s. fst (rd k s) \<le> k \<and> fst (rd k s) \<le> length s \<and> snd (rd k s) \<noteq> TooLarge \<and>
     (snd (rd k s) = Eof \<longrightarrow> fst (rd k s) = length s))"

definition limited_read :: "reader \<Rightarrow> nat \<Rightarrow> limited_body \<Rightarrow> string \<times> read_err \<times> limited_body" where
  "limited_read rd k b =
     (if lb_left b < 0 then ([], TooLarge, b)
      else (let k' = (if lb_left b + 1 < int k then nat (lb_left b + 1) else k);
                (n, err) = rd k' (lb_rest b);
                left = lb_left b - int n;
                b' = b\<lparr>lb_rest := drop n (lb_rest b), lb_left := left\<rparr>
            in if left < 0 then (take (n - 1) (lb_rest b), TooLarge, b')
               else (take n (lb_rest b), err, b')))"

text \<open>The answer of the transport: a response whose announced length is too large is refused at once.\<close>

definition round_trip :: "env \<Rightarrow> (string \<Rightarrow> ip_addr option) \<Rightarrow> bool \<Rightarrow> url \<Rightarrow> (string + int \<times> string) \<Rightarrow> string + limited_body" where
  "round_trip e parse_addr insecure u base =
     (if \<not> scheme_ok e parse_addr insecure u then Inl ''idp: bare https er tillatt''
      else case base of
        Inl err \<Rightarrow> Inl err
      | Inr (content_length, body) \<Rightarrow>
          if max_body_bytes < content_length then Inl body_too_large
          else Inr \<lparr>lb_rest = body, lb_left = max_body_bytes\<rparr>)"

text \<open>Reading a body piece by piece: what was delivered so far and the error of the last read.\<close>

inductive reads :: "string \<Rightarrow> string \<Rightarrow> read_err \<Rightarrow> limited_body \<Rightarrow> bool" for body where
  opened: "reads body [] NoErr \<lparr>lb_rest = body, lb_left = max_body_bytes\<rparr>"
| read: "reads body out err b \<Longrightarrow> reader_ok rd \<Longrightarrow> limited_read rd k b = (bytes, err', b') \<Longrightarrow>
    reads body (out @ bytes) err' b'"

lemma reads_inv:
  assumes "reads body out err b"
  shows "(0 \<le> lb_left b \<longrightarrow> body = out @ lb_rest b \<and> int (length out) + lb_left b = max_body_bytes) \<and>
    (lb_left b < 0 \<longrightarrow> lb_left b = -1 \<and> int (length out) = max_body_bytes \<and> err = TooLarge \<and> (\<exists>s. s \<noteq> [] \<and> body = out @ s)) \<and>
    (err = Eof \<longrightarrow> out = body)"
  using assms
proof (induction rule: reads.induct)
  case opened
  show ?case by (simp add: max_body_bytes_def)
next
  case (read out err b rd k bytes err' b')
  show ?case
  proof (cases "lb_left b < 0")
    case True
    with read show ?thesis by (auto simp: limited_read_def)
  next
    case False
    define k' where "k' = (if lb_left b + 1 < int k then nat (lb_left b + 1) else k)"
    obtain n x where r: "rd k' (lb_rest b) = (n, x)" by fastforce
    have n: "n \<le> k'" "n \<le> length (lb_rest b)" "x = Eof \<longrightarrow> n = length (lb_rest b)" "x \<noteq> TooLarge"
      using read.hyps(2) r by (metis reader_ok_def fst_conv snd_conv)+
    have small: "int n \<le> lb_left b + 1" using n(1) False by (auto simp: k'_def split: if_splits)
    from read.IH False have body: "body = out @ lb_rest b" "int (length out) + lb_left b = max_body_bytes" by auto
    have res: "(bytes, err', b') = (if lb_left b - int n < 0 then (take (n - 1) (lb_rest b), TooLarge,
        b\<lparr>lb_rest := drop n (lb_rest b), lb_left := lb_left b - int n\<rparr>)
      else (take n (lb_rest b), x, b\<lparr>lb_rest := drop n (lb_rest b), lb_left := lb_left b - int n\<rparr>))"
      using read.hyps(3) False r by (simp add: limited_read_def k'_def [symmetric] Let_def)
    show ?thesis
    proof (cases "lb_left b - int n < 0")
      case True
      with small have l: "lb_left b = int n - 1" "0 < n" using False by auto
      have eqs: "bytes = take (n - 1) (lb_rest b)" "err' = TooLarge" "lb_left b' = lb_left b - int n"
        using res True by auto
      have "body = (out @ bytes) @ drop (n - 1) (lb_rest b)" "drop (n - 1) (lb_rest b) \<noteq> []"
        using body(1) n(2) l(2) by (auto simp: eqs(1))
      moreover have "int (length (out @ bytes)) = max_body_bytes" using body(2) n(2) l by (simp add: eqs(1))
      ultimately show ?thesis using l(1) eqs(2,3) by auto
    next
      case False
      with res body n show ?thesis by auto
    qed
  qed
qed

text \<open>However a response body is read, what is handed out is an initial part of it of at most 1 MiB, and the end
  is reported only for the whole body: a body that is too long is never mistaken for a shorter one.\<close>

theorem body_never_truncated:
  assumes "reads body out err b"
  shows "(\<exists>s. body = out @ s) \<and> length out \<le> 2 ^ 20 \<and> (err = Eof \<longrightarrow> out = body) \<and>
    (lb_left b < 0 \<longrightarrow> err = TooLarge \<and> 2 ^ 20 < length body)"
proof -
  note inv = reads_inv [OF assms]
  show ?thesis
  proof (cases "lb_left b < 0")
    case True
    with inv obtain s where s: "s \<noteq> []" "body = out @ s" by blast
    have len: "int (length out) = 2 ^ 20" using inv True by (simp only: max_body_bytes_def)
    have "0 < length s" using s(1) by simp
    have out: "length out = 2 ^ 20" using len by (metis of_nat_eq_iff of_nat_numeral of_nat_power)
    have "2 ^ 20 < length (out @ s)" unfolding length_append out using \<open>0 < length s\<close> by (rule less_add_same_cancel1 [THEN iffD2])
    moreover have "length out \<le> 2 ^ 20" unfolding out ..
    moreover have "err = TooLarge" using inv True by blast
    ultimately show ?thesis using s(2) by blast
  next
    case False
    with inv have "body = out @ lb_rest b" "int (length out) \<le> 2 ^ 20" by (auto simp only: max_body_bytes_def)
    moreover from this(2) have "length out \<le> 2 ^ 20" by (metis of_nat_le_iff of_nat_numeral of_nat_power)
    ultimately show ?thesis using inv False by blast
  qed
qed

definition whole_reader :: reader where
  "whole_reader k s = (min k (length s), if length s \<le> k then Eof else NoErr)"

theorem body_never_truncated_witness: "\<exists>s. ''{}'' = ''{}'' @ s"
proof -
  have "limited_read whole_reader 512 \<lparr>lb_rest = ''{}'', lb_left = max_body_bytes\<rparr> =
      (''{}'', Eof, \<lparr>lb_rest = [], lb_left = max_body_bytes - 2\<rparr>)"
    by (simp add: limited_read_def whole_reader_def max_body_bytes_def)
  from reads.read [OF reads.opened _ this] have "reads ''{}'' ''{}'' Eof \<lparr>lb_rest = [], lb_left = max_body_bytes - 2\<rparr>"
    by (auto simp: reader_ok_def whole_reader_def)
  from body_never_truncated [OF this] show ?thesis by blast
qed

section \<open>The dial guard against its specification\<close>

text \<open>The ranges of the own network and of no network, by the octets of an address.\<close>

definition internal_v4 :: "nat \<Rightarrow> nat \<Rightarrow> nat \<Rightarrow> bool" where
  "internal_v4 a b c \<longleftrightarrow>
     a = 0 \<or> a = 10 \<or> a = 100 \<and> 64 \<le> b \<and> b < 128 \<or> a = 169 \<and> b = 254 \<or> a = 172 \<and> 16 \<le> b \<and> b < 32 \<or>
     a = 192 \<and> (b = 0 \<and> c = 0 \<or> b = 168) \<or> a = 198 \<and> (b = 18 \<or> b = 19) \<or> 224 \<le> a"

definition octet :: "nat \<Rightarrow> 32 word \<Rightarrow> nat" where
  "octet i w = unat w div 256 ^ (3 - i) mod 256"

lemma drop_bit_v4_iff: "drop_bit n w = drop_bit n (p :: 32 word) \<longleftrightarrow> unat w div 2 ^ n = unat p div 2 ^ n"
  by (simp only: word_unat_eq_iff unat_drop_bit_eq drop_bit_eq_div [where 'a = nat])

lemma unat_v4:
  assumes "a < 256" and "b < 256" and "c < 256" and "d < 256"
  shows "unat (v4 a b c d) = ((a * 256 + b) * 256 + c) * 256 + d"
proof -
  have "((a * 256 + b) * 256 + c) * 256 + d < 2 ^ 32" using assms by simp
  then show ?thesis unfolding v4_def unat_of_nat by simp
qed

text \<open>The octets of an address and the prefixes at the bounds the code uses.\<close>

lemma div_octets:
  fixes a b c d :: nat
  assumes "b < 256" and "c < 256" and "d < 256"
  defines "n \<equiv> ((a * 256 + b) * 256 + c) * 256 + d"
  shows "n div 256 = (a * 256 + b) * 256 + c" and "n div 65536 = a * 256 + b" and "n div 131072 = a * 128 + b div 2"
    and "n div 1048576 = a * 16 + b div 16" and "n div 4194304 = a * 4 + b div 64" and "n div 16777216 = a"
    and "n div 268435456 = a div 16"
proof -
  show 1: "n div 256 = (a * 256 + b) * 256 + c" using assms by (simp add: n_def)
  have "n div 65536 = n div 256 div 256" by (simp flip: div_mult2_eq)
  then show 2: "n div 65536 = a * 256 + b" using assms(2) by (simp add: 1)
  define m where "m = n div 65536"
  have m: "m = a * 256 + b" by (simp add: m_def 2)
  have split: "m div k = a * q + b div k" if "k * q = 256" "0 < k" for k q
  proof -
    have "m = k * (a * q) + b" using m that(1) by (metis mult.assoc mult.commute)
    then show ?thesis using that(2) by simp
  qed
  have "n div 131072 = m div 2" "n div 1048576 = m div 16" "n div 4194304 = m div 64"
    "n div 16777216 = m div 256" "n div 268435456 = m div 256 div 16" by (simp_all add: m_def flip: div_mult2_eq)
  moreover have "m div 2 = a * 128 + b div 2" "m div 16 = a * 16 + b div 16" "m div 64 = a * 4 + b div 64" "m div 256 = a"
    using split [of 2 128] split [of 16 16] split [of 64 4] split [of 256 1] assms(1) by simp_all
  ultimately show "n div 131072 = a * 128 + b div 2" "n div 1048576 = a * 16 + b div 16"
    "n div 4194304 = a * 4 + b div 64" "n div 16777216 = a" "n div 268435456 = a div 16" by simp_all
qed

lemma octets_exist: "\<exists>a b c d. a < 256 \<and> b < 256 \<and> c < 256 \<and> d < 256 \<and> w = v4 a b c d"
proof -
  define n where "n = unat w"
  have n: "n < 256 * (256 * (256 * 256))" using unsigned_less [of w, where 'a = nat] by (simp add: n_def)
  have w: "w = of_nat (((n div 256 div 256 div 256 * 256 + n div 256 div 256 mod 256) * 256 + n div 256 mod 256) * 256 + n mod 256)"
    by (simp only: div_mult_mod_eq) (simp add: n_def)
  have "n div 256 div 256 div 256 < 256" using n by (simp only: less_mult_imp_div_less mult.commute)
  with w show ?thesis
    by (intro exI [of _ "n div 256 div 256 div 256"] exI [of _ "n div 256 div 256 mod 256"] exI [of _ "n div 256 mod 256"]
        exI [of _ "n mod 256"]) (simp add: v4_def)
qed

lemma digits_eq:
  fixes a b p q k :: nat
  assumes "b < k" and "q < k"
  shows "a * k + b = p * k + q \<longleftrightarrow> a = p \<and> b = q"
proof
  assume eq: "a * k + b = p * k + q"
  have "a = (a * k + b) div k" "p = (p * k + q) div k" using assms by simp_all
  with eq show "a = p \<and> b = q" by simp
qed simp

lemma blocked_v4:
  assumes "a < 256" and "b < 256" and "c < 256" and "d < 256"
  shows "blocked_addr (V4 (v4 a b c d)) allow \<longleftrightarrow> (if a = 127 then \<not> allow else internal_v4 a b c)"
proof -
  define n where "n = ((a * 256 + b) * 256 + c) * 256 + d"
  have in4: "contains_addr (P4 (v4 p q r s) k) (V4 (v4 a b c d)) \<longleftrightarrow>
      n div 2 ^ (32 - k) = (((p * 256 + q) * 256 + r) * 256 + s) div 2 ^ (32 - k)"
    if "p < 256" "q < 256" "r < 256" "s < 256" for p q r s k
    using that assms by (simp only: contains_addr.simps drop_bit_v4_iff unat_v4 n_def)
  have zero: "v4 a b c d = 0 \<longleftrightarrow> n = 0" using unat_v4 [OF assms, folded n_def] by (metis unat_0 unat_eq_zero)
  note d = div_octets [OF assms(2-4), of a, folded n_def]
  have ranges: "a * 16 + b div 16 = 2753 \<longleftrightarrow> a = 172 \<and> 16 \<le> b \<and> b < 32"
    "a * 4 + b div 64 = 401 \<longleftrightarrow> a = 100 \<and> 64 \<le> b \<and> b < 128" "a * 128 + b div 2 = 25353 \<longleftrightarrow> a = 198 \<and> (b = 18 \<or> b = 19)"
    "a * 256 + b = 49320 \<longleftrightarrow> a = 192 \<and> b = 168" "a * 256 + b = 43518 \<longleftrightarrow> a = 169 \<and> b = 254"
    "(a * 256 + b) * 256 + c = 12582912 \<longleftrightarrow> a = 192 \<and> b = 0 \<and> c = 0"
    "a div 16 = 14 \<or> a div 16 = 15 \<longleftrightarrow> 224 \<le> a"
  proof -
    have q: "b div 16 < 16" "b div 64 < 4" "b div 2 < 128" using assms(2) by simp_all
    show "a * 16 + b div 16 = 2753 \<longleftrightarrow> a = 172 \<and> 16 \<le> b \<and> b < 32"
      using digits_eq [OF q(1), of 1 a 172] by auto
    show "a * 4 + b div 64 = 401 \<longleftrightarrow> a = 100 \<and> 64 \<le> b \<and> b < 128" using digits_eq [OF q(2), of 1 a 100] by auto
    show "a * 128 + b div 2 = 25353 \<longleftrightarrow> a = 198 \<and> (b = 18 \<or> b = 19)" using digits_eq [OF q(3), of 9 a 198] by auto
    show "a * 256 + b = 49320 \<longleftrightarrow> a = 192 \<and> b = 168" "a * 256 + b = 43518 \<longleftrightarrow> a = 169 \<and> b = 254"
      using digits_eq [OF assms(2), of 168 a 192] digits_eq [OF assms(2), of 254 a 169] by simp_all
    show "(a * 256 + b) * 256 + c = 12582912 \<longleftrightarrow> a = 192 \<and> b = 0 \<and> c = 0"
      using digits_eq [OF assms(3), of 0 "a * 256 + b" 49152] digits_eq [OF assms(2), of 0 a 192] by simp
    show "a div 16 = 14 \<or> a div 16 = 15 \<longleftrightarrow> 224 \<le> a" using assms(1) by auto
  qed
  let ?w = "V4 (v4 a b c d)"
  note eval = in4 d ranges contains_addr.simps(2-)
  have lo: "is_loopback ?w \<longleftrightarrow> a = 127" by (simp add: eval del: contains_addr.simps)
  have pr: "is_private ?w \<longleftrightarrow> a = 10 \<or> a = 172 \<and> 16 \<le> b \<and> b < 32 \<or> a = 192 \<and> b = 168"
    by (simp add: eval del: contains_addr.simps)
  have ll: "is_link_local_unicast ?w \<longleftrightarrow> a = 169 \<and> b = 254" by (simp add: eval del: contains_addr.simps)
  have mc: "is_multicast ?w \<longleftrightarrow> a div 16 = 14" by (simp add: eval del: contains_addr.simps)
  have llm: "is_link_local_multicast ?w \<Longrightarrow> a div 16 = 14"
    using digits_eq [OF assms(3), of 0 "a * 256 + b" 57344] digits_eq [OF assms(2), of 0 a 224]
    by (simp add: eval del: contains_addr.simps)
  have un: "is_unspecified ?w \<Longrightarrow> a = 0" by (simp add: zero n_def)
  have pre: "list_ex (\<lambda>p. contains_addr p ?w) blocked_prefixes \<longleftrightarrow>
      a = 0 \<or> a = 100 \<and> 64 \<le> b \<and> b < 128 \<or> a = 192 \<and> b = 0 \<and> c = 0 \<or> a = 198 \<and> (b = 18 \<or> b = 19) \<or> a div 16 = 15"
  proof -
    have "contains_addr (P4 (v4 0 0 0 0) 8) ?w \<longleftrightarrow> a = 0" "contains_addr (P4 (v4 100 64 0 0) 10) ?w \<longleftrightarrow> a = 100 \<and> 64 \<le> b \<and> b < 128"
      "contains_addr (P4 (v4 198 18 0 0) 15) ?w \<longleftrightarrow> a = 198 \<and> (b = 18 \<or> b = 19)"
      "contains_addr (P4 (v4 240 0 0 0) 4) ?w \<longleftrightarrow> a div 16 = 15"
      by (simp_all add: eval del: contains_addr.simps)
    moreover have "contains_addr (P4 (v4 192 0 0 0) 24) ?w \<longleftrightarrow> a = 192 \<and> b = 0 \<and> c = 0"
      using ranges(6) by (simp add: in4 d del: contains_addr.simps)
    moreover have "contains_addr (P4 (v4 255 255 255 255) 32) ?w \<Longrightarrow> a div 16 = 15"
      using d(7) by (simp add: in4 del: contains_addr.simps)
    ultimately show ?thesis
      by (simp only: blocked_prefixes_def list_ex_iff list.set bex_simps contains_addr.simps(3-)) blast
  qed
  show ?thesis
    unfolding blocked_addr_def unmap.simps without_zone.simps Let_def lo pr ll mc pre internal_v4_def
    using ranges(7) llm un by (auto simp del: is_link_local_multicast.simps is_unspecified.simps)
qed

text \<open>The IPv4-mapped IPv6 address.\<close>

definition mapped :: "32 word \<Rightarrow> 128 word" where
  "mapped w = word_of_nat (0xFFFF * 2 ^ 32 + unat w)"

lemma unmap_mapped: "unmap (V6 (mapped w) zone) = V4 w"
proof -
  have w: "unat w < 2 ^ 32" using unsigned_less [of w, where 'a = nat] by simp
  then have u: "unat (mapped w) = 0xFFFF * 2 ^ 32 + unat w" unfolding mapped_def unat_of_nat by simp
  have "unat (drop_bit 32 (mapped w)) = (0xFFFF * 2 ^ 32 + unat w) div 2 ^ 32"
    by (simp only: unat_drop_bit_eq drop_bit_eq_div [where 'a = nat] u)
  then have "unat (drop_bit 32 (mapped w)) = 0xFFFF" using w by simp
  then have "drop_bit 32 (mapped w) = 0xFFFF" by (simp add: word_unat_eq_iff)
  moreover have "unat (ucast (mapped w) :: 32 word) = (0xFFFF * 2 ^ 32 + unat w) mod 2 ^ 32"
    by (simp only: unsigned_ucast_eq u take_bit_eq_mod) simp
  then have "unat (ucast (mapped w) :: 32 word) = unat w"
    unfolding mod_mult_self3 using w by simp
  ultimately show ?thesis by (simp add: word_unat_eq_iff)
qed

text \<open>C37. The dialer connects to an IPv4 address exactly when it lies outside the reserved, private, link-local,
  multicast and shared ranges, and to the own machine only when the operator allows it; writing the address as an
  IPv4-mapped IPv6 address, with or without a zone, changes nothing.\<close>

theorem dial_guard_v4:
  "blocked_addr (V4 w) allow =
     (if octet 0 w = 127 then \<not> allow else internal_v4 (octet 0 w) (octet 1 w) (octet 2 w)) \<and>
   blocked_addr (V6 (mapped w) zone) allow = blocked_addr (V4 w) allow"
proof
  obtain a b c d where r: "a < 256" "b < 256" "c < 256" "d < 256" and w: "w = v4 a b c d" using octets_exist by blast
  define n where "n = unat w"
  note d = div_octets [OF r(2-4), of a, folded unat_v4 [OF r] w n_def]
  have "octet 0 w = n div 16777216 mod 256" "octet 1 w = n div 65536 mod 256" "octet 2 w = n div 256 mod 256"
    by (simp_all add: octet_def n_def)
  then have "octet 0 w = a" "octet 1 w = b" "octet 2 w = c"
    unfolding d mod_mult_self3 using r by simp_all
  then show "blocked_addr (V4 w) allow =
      (if octet 0 w = 127 then \<not> allow else internal_v4 (octet 0 w) (octet 1 w) (octet 2 w))"
    using blocked_v4 [OF r] w by simp
  show "blocked_addr (V6 (mapped w) zone) allow = blocked_addr (V4 w) allow"
    by (simp only: blocked_addr_def unmap_mapped unmap.simps(2,3))
qed

end
