(* ===== verification/Spec2Isabelle.thy ===== *)
theory Spec2Isabelle
  imports App HttpGuard AuditLog LinkFinish
begin

text \<open>
  A model of kauth, the single sign-on server of this repository: one Go process (\<open>cmd/kauth/main.go\<close>) over one SQLite
  database.  A browser proves who its user is (Google, Microsoft, GitHub, a configured OIDC provider, a link in a mail, a
  password); kauth finds the user, issues an access token and a refresh token for one service, and \<open>/dispatch\<close> takes
  the browser back to that service, with the tokens or with an authorization code.  Services rotate refresh tokens and
  exchange codes at \<open>/token\<close>; an administrator edits users and services and reads the audit log.

  \<^bold>\<open>How the parts call each other.\<close>  \<open>App.serve\<close> puts the middleware in front of the handler of a route.  The login
  handlers end in \<open>Login.complete_login\<close>, which uses the resolver (\<open>Identity\<close>), the issuer (\<open>Issuer\<close>) and the
  refresh tokens (\<open>Refresh\<close>); all of them reach the database by the statements of \<open>TokenStore\<close>, \<open>UserStore\<close> and
  \<open>IdpStore\<close>.  The federated flows carry a signed state (\<open>StateToken\<close>), the OIDC flow a cookie (\<open>OidcRequest\<close>) that
  \<open>Dispatch\<close> checks again.  The admin panel changes what those flows read: services, assignments, users, identities.

  \<^bold>\<open>Ground.\<close>
  \<^item> \<open>Prelude\<close>: collections of rules and lists as tables.  \<open>GoStrings\<close>, \<open>GoTime\<close>, \<open>Encoding\<close>, \<open>QueryString\<close>,
    \<open>Utf8\<close>: what the code uses of Go's \<open>strings\<close>, \<open>strconv\<close>, \<open>time\<close>, \<open>encoding/hex\<close>, \<open>base64\<close> and
    \<open>net/url\<close>.  Shown: stored times compare as instants, every text reads back as what was written.
  \<^item> \<open>Model\<close>: rows (\<open>internal/db/gen/models.go\<close>), the database, requests, replies, events, claims, keys, and \<open>env\<close>.
    \<open>Effects\<close>: a handler is a state-monad program over \<open>world\<close>.  \<open>Weakest\<close>: weakest preconditions and frames of
    such programs.  \<open>Samples\<close>: a small world for the instances of theorems.  \<open>Runs\<close>: runs of labelled
    steps, with the contracts \<open>kept\<close> (an invariant) and \<open>simulation\<close> (a specification), interpreted on the discovery
    cache and the audit queue.

  \<^bold>\<open>The database\<close> (\<open>internal/db/gen\<close>).
  \<^item> \<open>TokenStore\<close>, \<open>UserStore\<close>, \<open>IdpStore\<close>: one function per statement, with its \<open>WHERE\<close>, \<open>RETURNING\<close>, order, limits
    and constraints.  \<open>Statements\<close>: the writing statements as a datatype.  \<open>DbInvariant\<close>: \<open>db_ok\<close>, and
    \<open>tables_ok\<close>, which adds the providers, the assignments and the audit log, kept by each of them.
  \<^item> \<open>OneShot\<close>: the contracts \<open>one_shot\<close> (a secret is redeemed once per issue) and \<open>quota\<close> (a sliding window is never
    exceeded), whatever statements run in between; interpreted on the four tables of secrets.

  \<^bold>\<open>Tokens\<close> (\<open>internal/token\<close>, \<open>internal/service\<close>, \<open>internal/auth/state.go\<close>).
  \<^item> \<open>TokenUtil\<close> (\<open>email.go\<close>, \<open>opaque.go\<close>, \<open>ids.go\<close>, \<open>invite.go\<close>, \<open>epoch.go\<close>), \<open>Issuer\<close> (\<open>issuer.go\<close>,
    \<open>keyring.go\<close>), \<open>Refresh\<close> (\<open>refresh.go\<close>): which tokens are believed, rotation, reuse, redemption of codes.
  \<^item> \<open>Registry\<close> (\<open>registry.go\<close>, \<open>callback.go\<close>, \<open>secret_check.go\<close>, \<open>auth/social_service.go\<close>): which service a
    request is for.  \<open>StateToken\<close>: the five kinds of signed state, read back exactly and never confused.

  \<^bold>\<open>Logins\<close> (\<open>internal/auth\<close>).
  \<^item> \<open>Identity\<close>, \<open>Approval\<close> (\<open>identity.go\<close>): the user of an external login, and that no login approves an
    administrator.  \<open>Login\<close> (\<open>login_complete.go\<close>, \<open>federated.go\<close>, \<open>password.go\<close>, \<open>cookies.go\<close>, \<open>loginerror.go\<close>,
    \<open>client_secret.go\<close>): the one place that opens a session, and its gates.
  \<^item> \<open>OidcClient\<close>, \<open>GenericOidc\<close> (\<open>oidc_generic.go\<close>), \<open>Google\<close> (\<open>google.go\<close>, \<open>google_admin.go\<close>), \<open>Microsoft\<close>
    (\<open>microsoft.go\<close>, \<open>microsoft_claims.go\<close>), \<open>GitHub\<close> (\<open>github.go\<close>, \<open>github_client.go\<close>): which answers of a provider
    are believed.  \<open>Magic\<close> (\<open>magic.go\<close>): links in mails.  \<open>LinkInvite\<close>, \<open>LinkFinish\<close> (\<open>link_invite.go\<close>): linking a
    second account.
  \<^item> \<open>LoginPage\<close> (\<open>login.go\<close>), \<open>OidcRequest\<close> (\<open>oidc_request.go\<close>), \<open>TokenEndpoint\<close> (\<open>token_endpoint.go\<close>),
    \<open>Dispatch\<close> (\<open>dispatch.go\<close>): the authorization endpoint, the exchange of codes, routing after a login, logout.
  \<^item> \<open>Web\<close> (\<open>fetchmeta\<close>, \<open>middleware.go\<close>, \<open>secheaders.go\<close>, \<open>requestlog.go\<close>, \<open>api.go\<close>), \<open>I18n\<close>
    (\<open>internal/i18n\<close>).

  \<^bold>\<open>Configured providers\<close> (\<open>internal/idp\<close>).  \<open>Idp\<close>: rows are validated before they are loaded.  \<open>Discovery\<close>: checks of
  a document, and the cache as a step relation that refines \<open>disc_spec\<close>.  \<open>HttpGuard\<close>: addresses as machine words; the
  dialer reaches no address inside the own network.

  \<^bold>\<open>Audit\<close> (\<open>internal/audit\<close>).  \<open>AuditLog\<close>: the bounded queue with its writer as a step relation.

  \<^bold>\<open>Administration\<close> (\<open>internal/admin\<close>).  \<open>AdminAuth\<close> (\<open>auth.go\<close>, \<open>middleware.go\<close>, \<open>write_audit.go\<close>): the door.
  \<open>AdminUsers\<close> (\<open>users.go\<close>) and \<open>AdminAccess\<close> (\<open>users_email.go\<close>, \<open>users_identity.go\<close>, \<open>users_invite.go\<close>): users, and
  what a change takes away.  \<open>AdminServices\<close> (\<open>services.go\<close>), \<open>AdminProviders\<close> (\<open>services_providers.go\<close>,
  \<open>providers.go\<close>).  \<open>AuditFilter\<close>, \<open>AuditPage\<close> (\<open>audit_filter.go\<close>, \<open>audit_query.go\<close>, \<open>audit.go\<close>): the query is the
  filter, also where a column is \<open>NULL\<close>.

  \<^bold>\<open>Process.\<close>  \<open>Cleanup\<close> (\<open>internal/jobs\<close>), \<open>Config\<close> (\<open>internal/config\<close>), \<open>Mail\<close> (\<open>internal/mail\<close>), \<open>App\<close>
  (\<open>main.go\<close>, \<open>auth/globalchain.go\<close>: the routes, their methods and middleware, what each handler is given).  This theory
  holds the properties of the whole: every run keeps the tables well formed, and the panel does nothing but for administrators,
  and changes nothing but by a POST of its own pages.

  \<^bold>\<open>How the model stands for the code.\<close>
  \<^item> A string is its bytes.  A stored time is its text, as in the database, and is compared as a text; an instant is a
    number of nanoseconds.  \<open>int\<close> of Go wraps where the code can reach the bound (\<open>AdminUsers\<close>, the durations).
  \<^item> \<open>env\<close> is what the process cannot choose: the clock, random bytes, database faults and clients that go away are
    functions of the number of effects so far, so theorems hold for all of their histories, also for a clock that runs backwards.
    Hashes, bcrypt, JWT, \<open>url.Parse\<close> and Unicode case are functions of \<open>env\<close> as well; nothing is assumed of them
    but what a theorem names.
  \<^item> A call under \<open>context.WithoutCancel\<close> is \<open>Detached\<close>; others also fail when the client has gone.  A transaction restores
    the database when its body or its commit fails.
  \<^item> The answers of Google, Microsoft, GitHub, OIDC providers, the SMTP server, the file system and the form reader are
    record-valued arguments of the handlers that ask for them; \<open>chi\<close>'s matching of paths is \<open>ap_route\<close>, and it answers 405
    where the method is not the registered one (\<open>registered\<close>).  The caches are values: a handler
    that reloads one returns the new one with its reply.
  \<^item> An error is a value of a sum; a panic is a 500 reply, as the \<open>Recoverer\<close> makes it.  A page is the name of its template
    with its fields.
  \<^item> \<open>audit_log\<close> hands an event to the queue and \<open>log_sync\<close> inserts a row; what becomes of a queued event is \<open>AuditLog\<close>.
  \<^item> Requests run one after the other in \<open>run_tasks\<close>; their interleaving at the database is any sequence of statements
    (\<open>Statements\<close>), over which \<open>tables_ok\<close>, \<open>one_shot\<close> and \<open>quota\<close> are shown.

  \<^bold>\<open>Bounds.\<close>  No definition needs fuel: loops run over lists, and the others have a measure (a duration shrinks at each unit, a
  \<open>LIKE\<close> pattern at each character).  The resolver tries at most twice, by its code.  Times are compared within the years 0 to
  9999, the range of their four-digit layout.  The two readers of durations are compared on at most 18 characters, where
  neither overflows.

  \<^bold>\<open>Not modelled.\<close>  Opening the database and its migrations (\<open>internal/db/db.go\<close>), the listener, signals and the orderly
  shutdown: input and output only.  The classification of driver errors (\<open>uniqueviolation.go\<close>): it reads codes of the SQLite
  library.  Log lines, time limits of network calls, the padding of the response time of a link request, mutexes (each
  guarded section is one step).  Translated texts, templates and static files: data.  The scripts under \<open>scripts\<close>, which are
  no part of the process, and the fake providers and helpers of the tests.
\<close>

section \<open>Any run of the program\<close>

lemma evolves_tasks: "evolves db_step (run_tasks e ts)"
  by (induction e ts rule: run_tasks.induct) (simp_all only: run_tasks.simps, (intro evolve_intros | assumption)+)

text \<open>C10. Whatever requests arrive, in whatever order, with clean-up rounds between them, whatever the database, the clock, the
  random source and the outside services do: every table stays well formed, also those of the providers, of the assignments and
  of the audit log: every key unique, every reference resolved, every flag 0 or 1.\<close>

theorem requests_keep_db_ok:
  assumes "tables_ok (w_db w)"
  shows "tables_ok (w_db (snd (run_state (run_tasks e ts) w)))"
  by (rule tables_ok_evolves [OF evolves_tasks assms])

definition demo_config_env :: config_env where
  "demo_config_env = \<lparr>ce_env = demo_env, ce_lookup = (\<lambda>_. None), ce_read = (\<lambda>_. Inl ''no file''), ce_pem = (\<lambda>_. None),
     ce_pkcs8 = (\<lambda>_. None), ce_pkcs1 = (\<lambda>_. None), ce_pkix = (\<lambda>_. None), ce_ip = (\<lambda>_. None)\<rparr>"

definition demo_app :: app where
  "demo_app = \<lparr>ap_config = config_values demo_config_env, ap_issuer = demo_issuer, ap_cache = [demo_service],
     ap_idps = \<lparr>ir_providers = [], ir_by_service = (\<lambda>_. []), ir_statuses = []\<rparr>, ap_texts = (\<lambda>_ k. k), ap_taglines = (\<lambda>_. None),
     ap_google = \<lparr>gc_exchange = (\<lambda>_ _ _ _. None), gc_provider = False, gc_verify = (\<lambda>_ _. None), gc_auth_url = ar_endpoint\<rparr>,
     ap_microsoft = \<lparr>mo_exchange = (\<lambda>_ _ _ _. None), mo_verify = (\<lambda>_ _. None), mo_auth_url = ar_endpoint\<rparr>,
     ap_github = \<lparr>gs_token = (\<lambda>_. None), gs_user = (\<lambda>_. None), gs_emails = (\<lambda>_. None)\<rparr>,
     ap_op = \<lparr>oc_discover = (\<lambda>_. Inl ''off''), oc_iss_required = (\<lambda>_. None), oc_exchange = (\<lambda>_ _ _ _ _. None),
       oc_verify = (\<lambda>_ _ _. None), oc_auth_url = ar_endpoint\<rparr>,
     ap_getenv = (\<lambda>_. []), ap_db_text = (\<lambda>_. []), ap_audit_text = (\<lambda>_ _. []),
     ap_services_form = \<lparr>sh_form_ok = (\<lambda>_. True), sh_upload = (\<lambda>_. None), sh_open = (\<lambda>_. None), sh_err = (\<lambda>_. []),
       sh_providers = None\<rparr>,
     ap_providers_form = \<lparr>ph_form_ok = (\<lambda>_. True), ph_order = (\<lambda>_. 0)\<rparr>, ap_split_host = (\<lambda>_. None), ap_parse_ip = (\<lambda>_. None),
     ap_remote = (\<lambda>_. ''127.0.0.1''), ap_route = (\<lambda>_. LogoutGet), ap_static = (\<lambda>_. Plain 404 [])\<rparr>"

theorem requests_keep_db_ok_witness:
  "tables_ok (w_db (snd (run_state (run_tasks demo_env [Request demo_app demo_logout, CleanUp MagicJob]) demo_world)))"
  by (rule requests_keep_db_ok) (simp add: demo_world_def demo_tables_ok)

section \<open>The administration panel\<close>

text \<open>
  A request to the panel left no trace (the database, the cookies of the answer, the mails) and was turned away; or it came with
  the token of an administrator, and then it left no trace either, unless it is a POST from a page of this site.
\<close>

definition panel_guarded :: "env \<Rightarrow> app \<Rightarrow> request \<Rightarrow> world \<Rightarrow> reply \<Rightarrow> world \<Rightarrow> bool" where
  "panel_guarded e a r w reply w' \<longleftrightarrow>
     trace w' = trace w \<and> (turned_away reply \<or> reply = HttpError 403 ''Forbidden'' \<or> reply = Plain 405 []) \<or>
     (\<exists>tok c user. cookie_get r ''admin_token'' = Some tok \<and> admin_token e (ap_issuer a) tok c \<and> admin_user c user (w_db w)) \<and>
     (trace w' = trace w \<or> rq_method r = ''POST'' \<and> same_origin e r)"

lemma known_client [simp]:
  "same_origin e (r\<lparr>rq_client_ip := ip\<rparr>) = same_origin e r" "cookie_get (r\<lparr>rq_client_ip := ip\<rparr>) = cookie_get r"
  by (simp_all add: same_origin_def header_get_def header_values_def cookie_get_def fun_eq_iff)

lemma trace_iff: "trace w' = trace w \<longleftrightarrow> w_db w' = w_db w \<and> w_cookies w' = w_cookies w \<and> w_mails w' = w_mails w"
  by (simp add: trace_def)

lemma panel_shows:
  assumes "panel_method p \<noteq> ''POST''" "run_state (panel e a p actor r) w1 = (reply, w')"
  shows "trace w' = trace w1"
  using panel_pages_only_show [OF assms(1), of e a actor r] assms(2) by (simp add: keeps_def) (metis snd_conv)

lemma panel_route_wp:
  "wp (fetch_middleware e (admin e a (Panel p)) r) (panel_guarded e a r w) w"
proof -
  have served: "panel_guarded e a r w reply w'"
    if ok: "rq_method r = panel_method p" "panel_method p \<noteq> ''POST'' \<or> same_origin e r"
      and adm: "served_admin e (ap_issuer a) (panel e a p) r w reply w'" for reply w'
  proof -
    obtain tok c user w1 where who: "cookie_get r ''admin_token'' = Some tok" "admin_token e (ap_issuer a) tok c"
        "admin_user c user (w_db w)"
      and run: "w_db w1 = w_db w" "response w1 = response w" "run_state (panel e a p (u_email user) r) w1 = (reply, w')"
      using adm by (auto simp: served_admin_def)
    have "trace w' = trace w" if "panel_method p \<noteq> ''POST''"
      using panel_shows [OF that run(3)] run(1,2) by (simp add: trace_def response_def)
    then have "trace w' = trace w \<or> rq_method r = ''POST'' \<and> same_origin e r"
      using ok by auto
    then show ?thesis
      using who unfolding panel_guarded_def by blast
  qed
  have "wp (admin_middleware e (ap_issuer a) (panel e a p) r) (panel_guarded e a r w) w"
    if "rq_method r = panel_method p" "panel_method p \<noteq> ''POST'' \<or> same_origin e r"
    by (rule wp_mono [OF admin_middleware_wp]) (use served [OF that] in \<open>auto simp: panel_guarded_def trace_iff\<close>)
  then show ?thesis
    by (cases "panel_method p = ''POST''")
      (auto simp: fetch_middleware_def admin_def registered_def wp_return panel_guarded_def)
qed

text \<open>C8. No route of the panel leaves a trace in the database, the cookies or the mails, whoever asks and by whatever method,
  unless the request carries an admin token that this server signed, for a user who is active, holds the role and has kept the
  address since the token was issued, and is a POST from a page of this site: what the panel registers for GET only
  shows something, and nothing else runs.\<close>

theorem panel_needs_an_administrator:
  "case ap_route a r of
     Admin (Panel p) \<Rightarrow> (case run_state (serve e a r) w of (reply, w') \<Rightarrow> panel_guarded e a r w reply w')
   | _ \<Rightarrow> True"
proof -
  have "wp (serve e a r) (panel_guarded e a r w) w" if route: "ap_route a r = Admin (Panel p)" for p
  proof -
    let ?r = "r\<lparr>rq_client_ip := client_ip (ap_split_host a) (ap_parse_ip a) (ap_remote a r) r\<rparr>"
    have same: "panel_guarded e a ?r w1 reply w2 = panel_guarded e a r w reply w2"
      if "trace w1 = trace w" for reply and w1 w2 :: world
      using that by (simp add: panel_guarded_def trace_def)
    have "wp (client_ip_middleware a (routed e a (Admin (Panel p))) r) (panel_guarded e a r w) w1"
      if "trace w1 = trace w" for w1 :: world
      using wp_mono [OF panel_route_wp [of e a p ?r w1]] same [OF that]
      by (simp add: client_ip_middleware_def routed_def Let_def)
    then show ?thesis
      unfolding serve_def security_headers_def wp_bind route
      by (intro wp_mono [OF wp_keeps_any [OF keeps_trace_headers]]) simp
  qed
  then show ?thesis
    by (auto simp: wp_def split: route.split admin_route.split prod.split)
qed

end
